(* ===== verification/Prelude.thy ===== *)
theory Prelude
  imports Main "HOL-Library.Word" "HOL-Library.Sublist" "HOL-Library.Char_ord"
    "HOL-Library.List_Lexorder" "HOL-Library.Product_Lexorder"
begin

unbundle bit_operations_syntax

text \<open>
  The part every component theory shares: the machine types, the operations of the Rust
  standard library the sources call on strings and integers, bit-set reasoning on masks, and
  the collections of facts the component proofs use.

  A Rust \<open>String\<close> is its UTF-8 byte sequence, so a HOL \<open>string\<close> (a list of 8-bit
  characters) is exactly its content, \<open>length\<close> is \<open>str::len\<close>, equality and the
  lexicographic order are Rust's, and a prefix or substring test on bytes is the same as on
  code points because UTF-8 is self-synchronising. Characters outside ASCII that occur in the
  program's own texts are named constants holding their UTF-8 bytes.
\<close>

section \<open>Machine types and fact collections\<close>

type_synonym u8 = "8 word"
type_synonym u32 = "32 word"
type_synonym u64 = "64 word"

named_theorems mask_consts "the numeric values of the access-mask constants"
named_theorems sid_consts "the texts of the well-known SIDs"
named_theorems walk_simps "one step of the stored-order walks"

section \<open>Masks as bit sets\<close>

definition within :: "'a::len word \<Rightarrow> 'a word \<Rightarrow> bool" where
  \<comment> \<open>Every bit of the first mask is a bit of the second.\<close>
  "within a b \<longleftrightarrow> a AND NOT b = 0"

lemma within_iff_bit: "within a b \<longleftrightarrow> (\<forall>n. bit a n \<longrightarrow> bit b n)"
  unfolding within_def by (auto simp: bit_eq_iff bit_simps dest: bit_imp_le_length)

lemma within_and_iff: "within a b \<longleftrightarrow> a AND b = a"
  unfolding within_iff_bit by (auto simp: bit_eq_iff bit_simps dest: bit_imp_le_length)

lemma within_refl [simp, intro]: "within a a"
  by (simp add: within_iff_bit)

lemma within_trans [trans]: "within a b \<Longrightarrow> within b c \<Longrightarrow> within a c"
  by (simp add: within_iff_bit)

lemma within_antisym: "within a b \<Longrightarrow> within b a \<Longrightarrow> a = b"
  by (auto simp: within_iff_bit bit_eq_iff)

lemma within_zero [simp]: "within 0 a"
  by (simp add: within_iff_bit)

lemma within_zero_right [simp]: "within a 0 \<longleftrightarrow> a = 0"
  by (simp add: within_def)

lemma within_or_left [simp, intro]: "within a (a OR b)"
  by (simp add: within_iff_bit bit_simps)

lemma within_or_right [simp, intro]: "within b (a OR b)"
  by (simp add: within_iff_bit bit_simps)

lemma within_or_iff: "within (a OR b) c \<longleftrightarrow> within a c \<and> within b c"
  by (auto simp: within_iff_bit bit_simps)

lemma within_or_mono: "within a c \<Longrightarrow> within b d \<Longrightarrow> within (a OR b) (c OR d)"
  by (auto simp: within_iff_bit bit_simps)

lemma within_and_left [simp, intro]: "within (a AND b) a"
  by (simp add: within_iff_bit bit_simps)

lemma within_and_right [simp, intro]: "within (a AND b) b"
  by (simp add: within_iff_bit bit_simps)

lemma within_and_mono: "within a c \<Longrightarrow> within b d \<Longrightarrow> within (a AND b) (c AND d)"
  by (auto simp: within_iff_bit bit_simps)

lemma within_or_transfer: "within a b \<Longrightarrow> within a (b OR c)"
  by (auto simp: within_iff_bit bit_simps)

lemma mask_and_nonzero_iff: "(a AND b \<noteq> 0) \<longleftrightarrow> (\<exists>n. bit a n \<and> bit b n)" for a b :: "'a::len word"
  by (auto simp: bit_eq_iff bit_simps dest: bit_imp_le_length)

fun or_list :: "'a::len word list \<Rightarrow> 'a word" where
  "or_list [] = 0"
| "or_list (w # ws) = w OR or_list ws"

lemma bit_or_list: "bit (or_list ws) n \<longleftrightarrow> (\<exists>w \<in> set ws. bit w n)"
  by (induction ws) (auto simp: bit_simps)

lemma or_list_append [simp]: "or_list (xs @ ys) = or_list xs OR or_list ys"
  by (induction xs) (simp_all add: or.assoc)

lemma single_bit_exp: "bit (2 ^ k :: u32) n \<longleftrightarrow> n = k \<and> k < 32"
  by (auto simp: bit_simps)

section \<open>Lists and options\<close>

definition is_some :: "'a option \<Rightarrow> bool" where
  "is_some x \<longleftrightarrow> x \<noteq> None"

lemma is_some_simps [simp]: "is_some (Some x)" "\<not> is_some None"
  by (simp_all add: is_some_def)

fun dedup_adjacent :: "'a list \<Rightarrow> 'a list" where
  \<comment> \<open>\<open>Vec::dedup\<close>: drops an element equal to the one kept before it.\<close>
  "dedup_adjacent [] = []"
| "dedup_adjacent [x] = [x]"
| "dedup_adjacent (x # y # zs) =
     (if x = y then dedup_adjacent (y # zs) else x # dedup_adjacent (y # zs))"

lemma set_dedup_adjacent [simp]: "set (dedup_adjacent xs) = set xs"
  by (induction xs rule: dedup_adjacent.induct) auto

lemma dedup_adjacent_eq_Nil [simp]: "dedup_adjacent xs = [] \<longleftrightarrow> xs = []"
  by (induction xs rule: dedup_adjacent.induct) auto

lemma dedup_adjacent_sorted_distinct:
  "sorted_wrt (\<le>) (xs :: 'a::linorder list) \<Longrightarrow>
     sorted_wrt (<) (dedup_adjacent xs)"
proof (induction xs rule: dedup_adjacent.induct)
  case (3 x y zs)
  show ?case
  proof (cases "x = y")
    case True
    with 3 show ?thesis by simp
  next
    case False
    with 3 have "x < y" "\<forall>z \<in> set zs. y \<le> z"
      by auto
    with 3 False show ?thesis by auto
  qed
qed simp_all

fun firsts :: "'a list \<Rightarrow> 'a list" where
  \<comment> \<open>The distinct elements in the order of their first occurrence.\<close>
  "firsts [] = []"
| "firsts (x # xs) = x # filter (\<lambda>y. y \<noteq> x) (firsts xs)"

lemma set_firsts [simp]: "set (firsts xs) = set xs"
  by (induction xs) auto

lemma distinct_firsts [simp]: "distinct (firsts xs)"
  by (induction xs) auto

fun index_from :: "nat \<Rightarrow> 'a list \<Rightarrow> (nat \<times> 'a) list" where
  \<comment> \<open>\<open>iter().enumerate()\<close>, counted from the first argument.\<close>
  "index_from k [] = []"
| "index_from k (x # xs) = (k, x) # index_from (Suc k) xs"

lemma in_index_from: "(i, x) \<in> set (index_from k xs) \<longleftrightarrow> k \<le> i \<and> i < k + length xs \<and> xs ! (i - k) = x"
proof (induction xs arbitrary: k)
  case (Cons y ys)
  have "(i, x) \<in> set (index_from k (y # ys)) \<longleftrightarrow>
      (i = k \<and> x = y) \<or> (Suc k \<le> i \<and> i < Suc k + length ys \<and> ys ! (i - Suc k) = x)"
    using Cons.IH by auto
  then show ?case
    by (cases "i = k") (auto simp: nth_Cons' Suc_diff_Suc)
qed simp

fun filter_map :: "('a \<Rightarrow> 'b option) \<Rightarrow> 'a list \<Rightarrow> 'b list" where
  \<comment> \<open>\<open>Iterator::filter_map\<close>.\<close>
  "filter_map f [] = []"
| "filter_map f (x # xs) = (case f x of None \<Rightarrow> filter_map f xs | Some y \<Rightarrow> y # filter_map f xs)"

lemma filter_map_append [simp]: "filter_map f (xs @ ys) = filter_map f xs @ filter_map f ys"
  by (induction xs) (auto split: option.splits)

lemma set_filter_map: "y \<in> set (filter_map f xs) \<longleftrightarrow> (\<exists>x \<in> set xs. f x = Some y)"
  by (induction xs) (auto split: option.splits)

lemma filter_map_eq_Nil: "filter_map f xs = [] \<longleftrightarrow> (\<forall>x \<in> set xs. f x = None)"
  by (induction xs) (auto split: option.splits)

section \<open>Strings\<close>

definition em_dash :: string where
  "em_dash = [CHR 0xE2, CHR 0x80, CHR 0x94]"

definition right_arrow :: string where
  "right_arrow = [CHR 0xE2, CHR 0x86, CHR 0x92]"

definition cap_sign :: string where
  "cap_sign = [CHR 0xE2, CHR 0x88, CHR 0xA9]"

definition dquote :: string where
  "dquote = [CHR 0x22]"

definition squote :: string where
  "squote = [CHR 0x27]"

definition bslash :: string where
  "bslash = [CHR 0x5C]"

definition starts_with :: "string \<Rightarrow> string \<Rightarrow> bool" where
  \<comment> \<open>\<open>str::starts_with\<close>: the text first, the pattern second.\<close>
  "starts_with s p \<longleftrightarrow> take (length p) s = p"

lemma starts_with_simps [simp]:
  "starts_with s []"
  "starts_with (c # s) (p # ps) \<longleftrightarrow> c = p \<and> starts_with s ps"
  "\<not> starts_with [] (p # ps)"
  by (auto simp: starts_with_def)

lemma starts_with_append [simp]: "starts_with (p @ s) p"
  by (simp add: starts_with_def)

lemma starts_withD: "starts_with s p \<Longrightarrow> s = p @ drop (length p) s"
  by (metis append_take_drop_id starts_with_def)

definition strip_prefix :: "string \<Rightarrow> string \<Rightarrow> string option" where
  "strip_prefix p s = (if starts_with s p then Some (drop (length p) s) else None)"

fun contains :: "string \<Rightarrow> string \<Rightarrow> bool" where
  \<comment> \<open>\<open>str::contains\<close> with a string pattern.\<close>
  "contains [] p \<longleftrightarrow> p = []"
| "contains (c # s) p \<longleftrightarrow> starts_with (c # s) p \<or> contains s p"

fun split_on :: "char \<Rightarrow> string \<Rightarrow> string list" where
  \<comment> \<open>\<open>str::split\<close> at one ASCII character; never the empty list.\<close>
  "split_on c [] = [[]]"
| "split_on c (x # xs) =
     (if x = c then [] # split_on c xs
      else (case split_on c xs of [] \<Rightarrow> [[x]] | w # ws \<Rightarrow> (x # w) # ws))"

fun rsplit_once :: "char \<Rightarrow> string \<Rightarrow> (string \<times> string) option" where
  \<comment> \<open>\<open>str::rsplit_once\<close>: cuts at the last occurrence.\<close>
  "rsplit_once c [] = None"
| "rsplit_once c (x # xs) =
     (case rsplit_once c xs of
        Some (a, b) \<Rightarrow> Some (x # a, b)
      | None \<Rightarrow> (if x = c then Some ([], xs) else None))"

fun join :: "string \<Rightarrow> string list \<Rightarrow> string" where
  "join sep [] = []"
| "join sep [x] = x"
| "join sep (x # y # zs) = x @ sep @ join sep (y # zs)"

lemma split_on_not_Nil [simp]: "split_on c s \<noteq> []"
  by (induction s) (auto split: list.splits)

lemma split_on_no_sep: "w \<in> set (split_on c s) \<Longrightarrow> c \<notin> set w"
proof (induction s arbitrary: w)
  case (Cons x xs)
  then show ?case by (cases "split_on c xs") (auto split: if_splits)
qed simp

lemma join_split_on: "join [c] (split_on c s) = s"
proof (induction s)
  case (Cons x xs)
  then show ?case by (cases "split_on c xs"; cases "tl (split_on c xs)") auto
qed simp

lemma split_on_none: "c \<notin> set w \<Longrightarrow> split_on c w = [w]"
  by (induction w) auto

lemma split_on_sep: "c \<notin> set w \<Longrightarrow> split_on c (w @ c # s) = w # split_on c s"
  by (induction w) auto

lemma split_on_join:
  "ws \<noteq> [] \<Longrightarrow> \<forall>w \<in> set ws. c \<notin> set w \<Longrightarrow> split_on c (join [c] ws) = ws"
  by (induction "[c]" ws rule: join.induct) (auto simp: split_on_none split_on_sep)

lemma set_join: "set (join sep ws) \<subseteq> set sep \<union> \<Union> (set (map set ws))"
  by (induction sep ws rule: join.induct) auto

lemma join_eq_Nil: "join [c] ws = [] \<longleftrightarrow> ws = [] \<or> ws = [[]]"
  by (induction "[c]" ws rule: join.induct) auto

lemma rsplit_once_None: "rsplit_once c s = None \<longleftrightarrow> c \<notin> set s"
  by (induction s) (auto split: option.splits)

lemma rsplit_onceD: "rsplit_once c s = Some (a, b) \<Longrightarrow> s = a @ c # b \<and> c \<notin> set b"
proof (induction s arbitrary: a)
  case (Cons x xs)
  show ?case
  proof (cases "rsplit_once c xs")
    case None
    moreover have "c \<notin> set xs" using None by (simp add: rsplit_once_None)
    ultimately show ?thesis using Cons.prems by (auto split: if_splits)
  next
    case (Some ab)
    moreover obtain a' b' where ab: "ab = (a', b')" by (cases ab)
    moreover have "xs = a' @ c # b'" "c \<notin> set b'"
      using Cons.IH [of a'] Some ab Cons.prems by auto
    ultimately show ?thesis using Cons.prems by auto
  qed
qed simp

section \<open>Unicode white space and control characters\<close>

definition white_space :: "string list" where
  \<comment> \<open>The UTF-8 encodings of the 25 code points with the property White_Space
    (U+0009 to U+000D, U+0020, U+0085, U+00A0, U+1680, U+2000 to U+200A, U+2028, U+2029,
    U+202F, U+205F, U+3000), which \<open>str::trim\<close> removes.\<close>
  "white_space =
     [[CHR 0x09], [CHR 0x0A], [CHR 0x0B], [CHR 0x0C], [CHR 0x0D], [CHR 0x20],
      [CHR 0xC2, CHR 0x85], [CHR 0xC2, CHR 0xA0], [CHR 0xE1, CHR 0x9A, CHR 0x80]]
     @ map (\<lambda>b. [CHR 0xE2, CHR 0x80, char_of b])
         [0x80, 0x81, 0x82, 0x83, 0x84, 0x85, 0x86, 0x87, 0x88, 0x89, 0x8A, 0xA8, 0xA9, 0xAF :: nat]
     @ [[CHR 0xE2, CHR 0x81, CHR 0x9F], [CHR 0xE3, CHR 0x80, CHR 0x80]]"

fun strip_all :: "nat \<Rightarrow> string list \<Rightarrow> string \<Rightarrow> string" where
  \<comment> \<open>Removes prefixes of the list as long as one matches; every match is at least one
    byte long, so the length of the text is enough fuel (\<open>strip_all_done\<close>).\<close>
  "strip_all 0 ps s = s"
| "strip_all (Suc k) ps s =
     (case find (starts_with s) ps of None \<Rightarrow> s | Some p \<Rightarrow> strip_all k ps (drop (length p) s))"

definition trim_start :: "string \<Rightarrow> string" where
  "trim_start s = strip_all (length s) white_space s"

definition trim_end :: "string \<Rightarrow> string" where
  "trim_end s = rev (strip_all (length s) (map rev white_space) (rev s))"

definition trim :: "string \<Rightarrow> string" where
  \<comment> \<open>\<open>str::trim\<close>.\<close>
  "trim s = trim_end (trim_start s)"

lemma strip_all_done:
  assumes "\<forall>p \<in> set ps. p \<noteq> []" and "length s \<le> k"
  shows "find (starts_with (strip_all k ps s)) ps = None"
  using assms
proof (induction k ps s rule: strip_all.induct)
  case (1 ps s)
  then show ?case by (auto simp: find_None_iff starts_with_def)
next
  case (2 k ps s)
  show ?case
  proof (cases "find (starts_with s) ps")
    case None
    then show ?thesis by simp
  next
    case (Some p)
    then have "starts_with s p" "p \<in> set ps" by (auto simp: find_Some_iff)
    then have "length (drop (length p) s) \<le> k"
      using 2(2,3) by (cases p; cases s) (auto simp: starts_with_def)
    then show ?thesis using 2(1,2) Some by simp
  qed
qed

fun control_in :: "string \<Rightarrow> bool" where
  \<comment> \<open>Some \<open>char::is_control\<close> of the text: U+0000 to U+001F, U+007F, and U+0080 to
    U+009F, whose UTF-8 encoding is C2 followed by 80 to 9F.\<close>
  "control_in [] \<longleftrightarrow> False"
| "control_in (c # cs) \<longleftrightarrow>
     (let k = of_char c :: nat
      in k < 0x20 \<or> k = 0x7F
         \<or> (k = 0xC2 \<and> (case cs of [] \<Rightarrow> False | d # _ \<Rightarrow> (of_char d :: nat) \<in> {0x80..0x9F}))
         \<or> control_in cs)"

section \<open>Number formatting and parsing\<close>

fun digits :: "nat \<Rightarrow> nat \<Rightarrow> nat list" where
  \<comment> \<open>Most significant digit first; the base is at least 2.\<close>
  "digits b n = (if b < 2 \<or> n < b then [n] else digits b (n div b) @ [n mod b])"

declare digits.simps [simp del]

fun undigits :: "nat \<Rightarrow> nat list \<Rightarrow> nat" where
  "undigits b ds = foldl (\<lambda>acc d. acc * b + d) 0 ds"

definition digit_char :: "nat \<Rightarrow> char" where
  \<comment> \<open>Decimal and upper-case hexadecimal digits.\<close>
  "digit_char d = char_of (if d < 10 then 48 + d else 55 + d)"

definition dec :: "nat \<Rightarrow> string" where
  \<comment> \<open>\<open>{}\<close> on an unsigned integer.\<close>
  "dec n = map digit_char (digits 10 n)"

definition hex :: "u32 \<Rightarrow> string" where
  \<comment> \<open>\<open>{:X}\<close>.\<close>
  "hex w = map digit_char (digits 16 (unat w))"

definition hex8 :: "u32 \<Rightarrow> string" where
  \<comment> \<open>\<open>{:08X}\<close>: padded to eight digits with zeros.\<close>
  "hex8 w = replicate (8 - length (hex w)) (CHR ''0'') @ hex w"

lemma undigits_digits: "2 \<le> b \<Longrightarrow> undigits b (digits b n) = n"
proof (induction b n rule: digits.induct)
  case (1 b n)
  show ?case
  proof (cases "n < b")
    case True
    then show ?thesis by (simp add: digits.simps [of b n])
  next
    case False
    with 1 have "undigits b (digits b (n div b)) = n div b" by simp
    with False 1(2) show ?thesis by (simp add: digits.simps [of b n])
  qed
qed

lemma digits_less: "2 \<le> b \<Longrightarrow> d \<in> set (digits b n) \<Longrightarrow> d < b"
proof (induction b n rule: digits.induct)
  case (1 b n)
  then show ?case by (cases "n < b") (auto simp: digits.simps [of b n])
qed

lemma digit_char_inj: "d < 16 \<Longrightarrow> e < 16 \<Longrightarrow> digit_char d = digit_char e \<Longrightarrow> d = e"
  by (auto simp: digit_char_def char_of_eq_iff take_bit_eq_mod split: if_splits)

lemma map_digit_char_inj:
  "\<forall>d \<in> set ds. d < 16 \<Longrightarrow> \<forall>e \<in> set es. e < 16 \<Longrightarrow>
     map digit_char ds = map digit_char es \<Longrightarrow> ds = es"
  by (rule list.inj_map_strong) (auto intro: digit_char_inj)

lemma hex_inj: "hex v = hex w \<Longrightarrow> v = w"
proof -
  assume eq: "hex v = hex w"
  have "digits 16 (unat v) = digits 16 (unat w)"
    by (rule map_digit_char_inj) (use eq digits_less [of 16] in \<open>auto simp: hex_def\<close>)
  then have "unat v = unat w"
    using undigits_digits [of 16 "unat v"] undigits_digits [of 16 "unat w"] by simp
  then show "v = w" by (rule unsigned_word_eqI)
qed

lemma dec_inj: "dec m = dec n \<Longrightarrow> m = n"
proof -
  assume eq: "dec m = dec n"
  have "digits 10 m = digits 10 n"
    by (rule map_digit_char_inj) (use eq digits_less [of 10] in \<open>auto simp: dec_def dest!: digits_less [rotated]\<close>)
  then show "m = n"
    using undigits_digits [of 10 m] undigits_digits [of 10 n] by simp
qed

definition digit_val :: "char \<Rightarrow> nat option" where
  "digit_val c = (let k = of_char c :: nat in if 48 \<le> k \<and> k \<le> 57 then Some (k - 48) else None)"

fun parse_digits :: "nat \<Rightarrow> nat \<Rightarrow> string \<Rightarrow> nat option" where
  \<comment> \<open>Accumulates decimal digits; leaving the range of the type is an error.\<close>
  "parse_digits bound acc [] = Some acc"
| "parse_digits bound acc (c # cs) =
     (case digit_val c of
        None \<Rightarrow> None
      | Some d \<Rightarrow> let acc' = acc * 10 + d in if acc' < bound then parse_digits bound acc' cs else None)"

definition parse_uint :: "nat \<Rightarrow> string \<Rightarrow> nat option" where
  \<comment> \<open>\<open>str::parse\<close> for the unsigned integer type with \<open>bound\<close> values: an optional
    leading plus sign, then at least one digit, no overflow.\<close>
  "parse_uint bound s =
     (let t = (case s of c # cs \<Rightarrow> if c = CHR ''+'' then cs else s | [] \<Rightarrow> s)
      in if t = [] then None else parse_digits bound 0 t)"

end
