(* ===== verification/Masks.thy ===== *)
theory Masks
  imports Prelude
begin

unbundle bit_operations_syntax

text \<open>
  \<open>crates/permission_engine/src/mask.rs\<close>: the access-mask constants, the expansion of
  generic rights, the decomposition of a mask into a standard level and the rights beyond it,
  and the texts built from that decomposition. \<open>NormalizedRights\<close> wraps one \<open>u32\<close>, so its
  methods are functions of that word. The lemmas show what expansion does to every bit, and
  that the decomposition and the short label lose no bit of the mask.
\<close>

section \<open>Constants\<close>

definition FILE_READ_DATA :: u32 where [mask_consts]: "FILE_READ_DATA = 0x1"
definition FILE_WRITE_DATA :: u32 where [mask_consts]: "FILE_WRITE_DATA = 0x2"
definition FILE_APPEND_DATA :: u32 where [mask_consts]: "FILE_APPEND_DATA = 0x4"
definition FILE_READ_EA :: u32 where [mask_consts]: "FILE_READ_EA = 0x8"
definition FILE_WRITE_EA :: u32 where [mask_consts]: "FILE_WRITE_EA = 0x10"
definition FILE_EXECUTE :: u32 where [mask_consts]: "FILE_EXECUTE = 0x20"
definition FILE_DELETE_CHILD :: u32 where [mask_consts]: "FILE_DELETE_CHILD = 0x40"
definition FILE_READ_ATTRIBUTES :: u32 where [mask_consts]: "FILE_READ_ATTRIBUTES = 0x80"
definition FILE_WRITE_ATTRIBUTES :: u32 where [mask_consts]: "FILE_WRITE_ATTRIBUTES = 0x100"

definition FILE_DELETE :: u32 where [mask_consts]: "FILE_DELETE = 0x10000"
definition FILE_READ_CONTROL :: u32 where [mask_consts]: "FILE_READ_CONTROL = 0x20000"
definition FILE_WRITE_DAC :: u32 where [mask_consts]: "FILE_WRITE_DAC = 0x40000"
definition FILE_WRITE_OWNER :: u32 where [mask_consts]: "FILE_WRITE_OWNER = 0x80000"
definition FILE_SYNCHRONIZE :: u32 where [mask_consts]: "FILE_SYNCHRONIZE = 0x100000"

definition GENERIC_ALL :: u32 where [mask_consts]: "GENERIC_ALL = 0x10000000"
definition GENERIC_EXECUTE :: u32 where [mask_consts]: "GENERIC_EXECUTE = 0x20000000"
definition GENERIC_WRITE :: u32 where [mask_consts]: "GENERIC_WRITE = 0x40000000"
definition GENERIC_READ :: u32 where [mask_consts]: "GENERIC_READ = 0x80000000"

definition FILE_GENERIC_READ :: u32 where [mask_consts]: "FILE_GENERIC_READ = 0x120089"
definition FILE_GENERIC_WRITE :: u32 where [mask_consts]: "FILE_GENERIC_WRITE = 0x120116"
definition FILE_GENERIC_EXECUTE :: u32 where [mask_consts]: "FILE_GENERIC_EXECUTE = 0x1200A0"

definition OBJECT_INHERIT_ACE :: u32 where [mask_consts]: "OBJECT_INHERIT_ACE = 0x01"
definition CONTAINER_INHERIT_ACE :: u32 where [mask_consts]: "CONTAINER_INHERIT_ACE = 0x02"
definition NO_PROPAGATE_INHERIT_ACE :: u32 where [mask_consts]: "NO_PROPAGATE_INHERIT_ACE = 0x04"
definition INHERIT_ONLY_ACE :: u32 where [mask_consts]: "INHERIT_ONLY_ACE = 0x08"
definition INHERITED_ACE :: u32 where [mask_consts]: "INHERITED_ACE = 0x10"

definition INHERITANCE_FLAGS_MASK :: u32 where
  [mask_consts]: "INHERITANCE_FLAGS_MASK = OBJECT_INHERIT_ACE OR CONTAINER_INHERIT_ACE"
definition PROPAGATION_FLAGS_MASK :: u32 where
  [mask_consts]: "PROPAGATION_FLAGS_MASK = NO_PROPAGATE_INHERIT_ACE OR INHERIT_ONLY_ACE"

definition MASK_FULL_CONTROL :: u32 where [mask_consts]: "MASK_FULL_CONTROL = 0x1F01FF"
definition MASK_MODIFY :: u32 where [mask_consts]: "MASK_MODIFY = 0x1301BF"
definition MASK_READ_EXECUTE :: u32 where [mask_consts]: "MASK_READ_EXECUTE = 0x1200A9"
definition MASK_READ :: u32 where [mask_consts]: "MASK_READ = 0x120089"
definition MASK_WRITE :: u32 where [mask_consts]: "MASK_WRITE = 0x120116"
definition ACCESS_SYSTEM_SECURITY :: u32 where [mask_consts]: "ACCESS_SYSTEM_SECURITY = 0x1000000"
definition MAXIMUM_ALLOWED :: u32 where [mask_consts]: "MAXIMUM_ALLOWED = 0x2000000"

section \<open>Expansion of generic rights\<close>

definition expand_step :: "u32 \<Rightarrow> u32 \<Rightarrow> u32 \<Rightarrow> u32 \<Rightarrow> u32" where
  \<comment> \<open>One \<open>if\<close> of the function: tests the original mask, rewrites the running value.\<close>
  "expand_step m generic specific out =
     (if m AND generic \<noteq> 0 then (out AND NOT generic) OR specific else out)"

definition expand_generic_rights :: "u32 \<Rightarrow> u32" where
  "expand_generic_rights m =
     (let out = m;
          out = expand_step m GENERIC_READ FILE_GENERIC_READ out;
          out = expand_step m GENERIC_WRITE FILE_GENERIC_WRITE out;
          out = expand_step m GENERIC_EXECUTE FILE_GENERIC_EXECUTE out;
          out = expand_step m GENERIC_ALL MASK_FULL_CONTROL out
      in out)"

section \<open>Standard levels and named bits\<close>

datatype StandardLevel = FullControl | Modify | ReadExecute | ReadWrite | Read | Write

definition STANDARD_LEVELS :: "StandardLevel list" where
  "STANDARD_LEVELS = [FullControl, Modify, ReadExecute, ReadWrite, Read, Write]"

primrec level_mask :: "StandardLevel \<Rightarrow> u32" where
  "level_mask FullControl = MASK_FULL_CONTROL"
| "level_mask Modify = MASK_MODIFY"
| "level_mask ReadExecute = MASK_READ_EXECUTE"
| "level_mask ReadWrite = MASK_READ OR MASK_WRITE"
| "level_mask Read = MASK_READ"
| "level_mask Write = MASK_WRITE"

primrec level_name :: "StandardLevel \<Rightarrow> string" where
  "level_name FullControl = ''Full Control''"
| "level_name Modify = ''Modify''"
| "level_name ReadExecute = ''Read & Execute''"
| "level_name ReadWrite = ''Read & Write''"
| "level_name Read = ''Read''"
| "level_name Write = ''Write''"

primrec level_short :: "StandardLevel \<Rightarrow> string" where
  "level_short FullControl = ''F''"
| "level_short Modify = ''M''"
| "level_short ReadExecute = ''RX''"
| "level_short ReadWrite = ''RW''"
| "level_short Read = ''R''"
| "level_short Write = ''W''"

record NamedBit =
  nb_bit :: u32
  nb_name :: string
  nb_short :: string

definition named_bit :: "u32 \<Rightarrow> string \<Rightarrow> string \<Rightarrow> NamedBit" where
  "named_bit b n s = \<lparr>nb_bit = b, nb_name = n, nb_short = s\<rparr>"

definition NAMED_BITS :: "NamedBit list" where
  "NAMED_BITS =
    [named_bit FILE_EXECUTE ''Traverse folder / execute file'' ''X'',
     named_bit FILE_READ_DATA ''List folder / read data'' ''RD'',
     named_bit FILE_READ_ATTRIBUTES ''Read attributes'' ''RA'',
     named_bit FILE_READ_EA ''Read extended attributes'' ''REA'',
     named_bit FILE_WRITE_DATA ''Create files / write data'' ''WD'',
     named_bit FILE_APPEND_DATA ''Create folders / append data'' ''AD'',
     named_bit FILE_WRITE_ATTRIBUTES ''Write attributes'' ''WA'',
     named_bit FILE_WRITE_EA ''Write extended attributes'' ''WEA'',
     named_bit FILE_DELETE_CHILD ''Delete subfolders and files'' ''DC'',
     named_bit FILE_DELETE ''Delete'' ''DE'',
     named_bit FILE_READ_CONTROL ''Read permissions'' ''RC'',
     named_bit FILE_WRITE_DAC ''Change permissions'' ''WDAC'',
     named_bit FILE_WRITE_OWNER ''Take ownership'' ''WO'',
     named_bit FILE_SYNCHRONIZE ''Synchronize'' ''S'',
     named_bit ACCESS_SYSTEM_SECURITY ''Access system security (SACL)'' ''AS'',
     named_bit MAXIMUM_ALLOWED ''Maximum allowed'' ''MA'',
     named_bit GENERIC_ALL ''Generic all'' ''GA'',
     named_bit GENERIC_EXECUTE ''Generic execute'' ''GE'',
     named_bit GENERIC_WRITE ''Generic write'' ''GW'',
     named_bit GENERIC_READ ''Generic read'' ''GR'']"

section \<open>NormalizedRights\<close>

definition has :: "u32 \<Rightarrow> u32 \<Rightarrow> bool" where
  "has raw flag \<longleftrightarrow> raw AND flag \<noteq> 0"

definition read_data :: "u32 \<Rightarrow> bool" where "read_data raw = has raw FILE_READ_DATA"
definition write_data :: "u32 \<Rightarrow> bool" where "write_data raw = has raw FILE_WRITE_DATA"
definition append_data :: "u32 \<Rightarrow> bool" where "append_data raw = has raw FILE_APPEND_DATA"
definition read_ea :: "u32 \<Rightarrow> bool" where "read_ea raw = has raw FILE_READ_EA"
definition write_ea :: "u32 \<Rightarrow> bool" where "write_ea raw = has raw FILE_WRITE_EA"
definition execute :: "u32 \<Rightarrow> bool" where "execute raw = has raw FILE_EXECUTE"
definition delete_child :: "u32 \<Rightarrow> bool" where "delete_child raw = has raw FILE_DELETE_CHILD"
definition read_attributes :: "u32 \<Rightarrow> bool" where "read_attributes raw = has raw FILE_READ_ATTRIBUTES"
definition write_attributes :: "u32 \<Rightarrow> bool" where "write_attributes raw = has raw FILE_WRITE_ATTRIBUTES"
definition delete_self :: "u32 \<Rightarrow> bool" where "delete_self raw = has raw FILE_DELETE"
definition read_control :: "u32 \<Rightarrow> bool" where "read_control raw = has raw FILE_READ_CONTROL"
definition write_dac :: "u32 \<Rightarrow> bool" where "write_dac raw = has raw FILE_WRITE_DAC"
definition write_owner :: "u32 \<Rightarrow> bool" where "write_owner raw = has raw FILE_WRITE_OWNER"
definition synchronize :: "u32 \<Rightarrow> bool" where "synchronize raw = has raw FILE_SYNCHRONIZE"

definition is_full_control :: "u32 \<Rightarrow> bool" where
  "is_full_control raw \<longleftrightarrow> raw AND MASK_FULL_CONTROL = MASK_FULL_CONTROL"
definition is_modify :: "u32 \<Rightarrow> bool" where
  "is_modify raw \<longleftrightarrow> raw AND MASK_MODIFY = MASK_MODIFY"
definition is_read_execute :: "u32 \<Rightarrow> bool" where
  "is_read_execute raw \<longleftrightarrow> raw AND MASK_READ_EXECUTE = MASK_READ_EXECUTE"
definition is_read :: "u32 \<Rightarrow> bool" where
  "is_read raw \<longleftrightarrow> raw AND MASK_READ = MASK_READ"
definition is_write :: "u32 \<Rightarrow> bool" where
  "is_write raw \<longleftrightarrow> raw AND MASK_WRITE = MASK_WRITE"
definition has_generic :: "u32 \<Rightarrow> bool" where
  "has_generic raw \<longleftrightarrow>
     raw AND (((GENERIC_ALL OR GENERIC_EXECUTE) OR GENERIC_WRITE) OR GENERIC_READ) \<noteq> 0"

definition base_level :: "u32 \<Rightarrow> StandardLevel option" where
  "base_level raw = find (\<lambda>level. raw AND level_mask level = level_mask level) STANDARD_LEVELS"

fun name_bits :: "NamedBit list \<Rightarrow> u32 \<Rightarrow> (string \<times> string) list \<times> u32" where
  \<comment> \<open>The \<open>for named in NAMED_BITS\<close> loop: what it pushes and the bits it leaves.\<close>
  "name_bits [] rest = ([], rest)"
| "name_bits (named # nbs) rest =
     (if rest AND nb_bit named \<noteq> 0
      then (let (extras, rest') = name_bits nbs (rest AND NOT (nb_bit named))
            in ((nb_name named, nb_short named) # extras, rest'))
      else name_bits nbs rest)"

definition decompose :: "u32 \<Rightarrow> StandardLevel option \<times> (string \<times> string) list" where
  "decompose raw =
     (let base = base_level raw;
          rest = raw AND NOT (case base of None \<Rightarrow> 0 | Some level \<Rightarrow> level_mask level);
          write_box = (base = Some ReadExecute \<and> raw AND MASK_WRITE = MASK_WRITE);
          first = (if write_box then [(''Write'', ''W'')] else []);
          rest = (if write_box then rest AND NOT MASK_WRITE else rest);
          (named, rest) = name_bits NAMED_BITS rest;
          other = (if rest \<noteq> 0 then [(''other bits'', ''0x'' @ hex rest)] else [])
      in (base, first @ named @ other))"

definition label :: "u32 \<Rightarrow> string" where
  "label raw =
     (if raw = 0 then ''none''
      else (let (base, extras) = decompose raw;
                shorts = map snd extras
            in case base of
                 Some level \<Rightarrow> (if shorts = [] then level_short level
                               else level_short level @ ''+'' @ join '','' shorts)
               | None \<Rightarrow> ''('' @ join '','' shorts @ '')''))"

definition display_name :: "u32 \<Rightarrow> string" where
  "display_name raw =
     (if raw = 0 then ''No access''
      else (let (base, extras) = decompose raw;
                names = map (\<lambda>(name, short).
                   if name = ''other bits'' then ''other bits '' @ short else name) extras
            in case base of
                 Some level \<Rightarrow> (if names = [] then level_name level
                               else level_name level @ '' + '' @ join '', '' names)
               | None \<Rightarrow> ''Special: '' @ join '', '' names))"

definition intersect :: "u32 \<Rightarrow> u32 \<Rightarrow> u32" where
  "intersect a b = a AND b"

definition rights_display :: "u32 \<Rightarrow> string" where
  \<comment> \<open>\<open>impl Display for NormalizedRights\<close>.\<close>
  "rights_display raw = display_name raw @ '' (0x'' @ hex8 raw @ '')''"

section \<open>Rights statements and the limiting side\<close>

definition NOT_DETERMINABLE :: string where
  "NOT_DETERMINABLE = ''NOT DETERMINABLE''"

definition rights_statement :: "u32 \<Rightarrow> bool \<Rightarrow> string" where
  "rights_statement m determinable =
     (if determinable then display_name m @ '' (0x'' @ hex8 m @ '')''
      else NOT_DETERMINABLE @ '' '' @ em_dash @ '' the known data alone gives '' @ display_name m
           @ '' (0x'' @ hex8 m @ ''); the real right may differ'')"

datatype LimitingSide = Share | Ntfs | Neither

definition limiting_side :: "u32 \<Rightarrow> u32 \<Rightarrow> LimitingSide" where
  "limiting_side ntfs share =
     (if ntfs AND NOT share \<noteq> 0 then Share
      else if share AND NOT ntfs \<noteq> 0 then Ntfs
      else Neither)"

definition rights_label_compact :: "u32 \<Rightarrow> bool \<Rightarrow> string" where
  "rights_label_compact m determinable =
     (if determinable then display_name m
      else NOT_DETERMINABLE @ '' (known data: '' @ display_name m @ '')'')"

section \<open>Generic expansion bit by bit\<close>

lemma generic_bit [simp]:
  "bit GENERIC_READ n \<longleftrightarrow> n = 31" "bit GENERIC_WRITE n \<longleftrightarrow> n = 30"
  "bit GENERIC_EXECUTE n \<longleftrightarrow> n = 29" "bit GENERIC_ALL n \<longleftrightarrow> n = 28"
  using single_bit_exp [of 31 n] single_bit_exp [of 30 n] single_bit_exp [of 29 n] single_bit_exp [of 28 n]
  by (simp_all add: mask_consts)

lemma specific_no_generic_bits:
  assumes "28 \<le> n"
  shows "\<not> bit FILE_GENERIC_READ n" "\<not> bit FILE_GENERIC_WRITE n"
    "\<not> bit FILE_GENERIC_EXECUTE n" "\<not> bit MASK_FULL_CONTROL n"
proof -
  have small: "\<not> bit w n" if "within w 0x0FFFFFFF" for w :: u32
  proof
    assume "bit w n"
    then have "n < 32" using bit_imp_le_length [of w n] by simp
    with assms have "n = 28 \<or> n = 29 \<or> n = 30 \<or> n = 31" by arith
    with that \<open>bit w n\<close> have "bit (0x0FFFFFFF :: u32) n"
      by (simp add: within_iff_bit)
    with \<open>n = 28 \<or> _\<close> show False by auto
  qed
  show "\<not> bit FILE_GENERIC_READ n" "\<not> bit FILE_GENERIC_WRITE n"
    "\<not> bit FILE_GENERIC_EXECUTE n" "\<not> bit MASK_FULL_CONTROL n"
    by (rule small; simp add: mask_consts within_def)+
qed

lemma has_single: "m AND GENERIC_READ \<noteq> 0 \<longleftrightarrow> bit m 31" "m AND GENERIC_WRITE \<noteq> 0 \<longleftrightarrow> bit m 30"
  "m AND GENERIC_EXECUTE \<noteq> 0 \<longleftrightarrow> bit m 29" "m AND GENERIC_ALL \<noteq> 0 \<longleftrightarrow> bit m 28"
  unfolding mask_and_nonzero_iff by auto

lemma bit_expand_generic_rights:
  "bit (expand_generic_rights m) n \<longleftrightarrow>
     (n < 28 \<and> bit m n) \<or>
     (bit m 31 \<and> bit FILE_GENERIC_READ n) \<or> (bit m 30 \<and> bit FILE_GENERIC_WRITE n) \<or>
     (bit m 29 \<and> bit FILE_GENERIC_EXECUTE n) \<or> (bit m 28 \<and> bit MASK_FULL_CONTROL n)"
proof (cases "n < 28")
  case True
  then show ?thesis
    unfolding expand_generic_rights_def expand_step_def Let_def has_single
    by (auto simp: bit_simps)
next
  case False
  then have no: "\<not> bit FILE_GENERIC_READ n" "\<not> bit FILE_GENERIC_WRITE n"
      "\<not> bit FILE_GENERIC_EXECUTE n" "\<not> bit MASK_FULL_CONTROL n"
    by (simp_all add: specific_no_generic_bits)
  have "n = 28 \<or> n = 29 \<or> n = 30 \<or> n = 31 \<or> \<not> n < 32"
    using False by arith
  then show ?thesis
    unfolding expand_generic_rights_def expand_step_def Let_def has_single
    using False no bit_imp_le_length [of m n]
    by (elim disjE) (auto simp: bit_simps)
qed

lemma bit_expand_high: "28 \<le> n \<Longrightarrow> \<not> bit (expand_generic_rights m) n"
  by (simp add: bit_expand_generic_rights specific_no_generic_bits)

lemma expand_generic_rights_idem: "expand_generic_rights (expand_generic_rights m) = expand_generic_rights m"
proof (rule bit_eqI)
  fix n
  show "bit (expand_generic_rights (expand_generic_rights m)) n = bit (expand_generic_rights m) n"
    by (cases "28 \<le> n")
       (simp_all add: bit_expand_high bit_expand_generic_rights [of "expand_generic_rights m"])
qed

lemma expand_without_generic: "\<not> has_generic m \<Longrightarrow> expand_generic_rights m = m"
proof (rule bit_eqI)
  fix n
  assume "\<not> has_generic m"
  then have "\<not> bit m 28" "\<not> bit m 29" "\<not> bit m 30" "\<not> bit m 31"
    unfolding has_generic_def mask_and_nonzero_iff by (auto simp: bit_simps)
  moreover have "28 \<le> n \<Longrightarrow> bit m n \<Longrightarrow> n = 28 \<or> n = 29 \<or> n = 30 \<or> n = 31"
    using bit_imp_le_length [of m n] by auto
  ultimately show "bit (expand_generic_rights m) n = bit m n"
    by (cases "28 \<le> n") (auto simp: bit_expand_generic_rights bit_expand_high)
qed

section \<open>The decomposition loses nothing\<close>

lemma base_level_contained:
  "base_level raw = Some level \<Longrightarrow> within (level_mask level) raw"
  unfolding base_level_def within_and_iff by (auto simp: find_Some_iff and.commute)

lemma base_level_highest:
  "base_level raw = Some level \<Longrightarrow>
     \<forall>other \<in> set (takeWhile (\<lambda>l. l \<noteq> level) STANDARD_LEVELS). \<not> within (level_mask other) raw"
  unfolding base_level_def within_and_iff STANDARD_LEVELS_def
  by (cases level) (auto simp: and.commute split: if_splits)

fun unhex_digit :: "char \<Rightarrow> nat" where
  "unhex_digit c = (let k = of_char c :: nat in if k < 65 then k - 48 else k - 55)"

definition unhex :: "string \<Rightarrow> u32" where
  "unhex s = of_nat (undigits 16 (map unhex_digit s))"

definition short_mask :: "string \<Rightarrow> u32" where
  \<comment> \<open>Reads one abbreviation of a label back as the bits it stands for.\<close>
  "short_mask s =
     (case find (\<lambda>named. nb_short named = s) NAMED_BITS of
        Some named \<Rightarrow> nb_bit named
      | None \<Rightarrow> if s = ''W'' then MASK_WRITE else unhex (drop 2 s))"

definition recompose :: "StandardLevel option \<Rightarrow> string list \<Rightarrow> u32" where
  "recompose base shorts =
     (case base of None \<Rightarrow> 0 | Some level \<Rightarrow> level_mask level) OR or_list (map short_mask shorts)"

lemma unhex_digit_char: "d < 16 \<Longrightarrow> unhex_digit (digit_char d) = d"
  by (auto simp: digit_char_def Let_def take_bit_eq_mod)

declare unhex_digit.simps [simp del]

lemma unhex_hex: "unhex (hex w) = w"
proof -
  have "map (\<lambda>d. unhex_digit (digit_char d)) (digits 16 (unat w)) = digits 16 (unat w)"
    by (rule map_idI) (use digits_less [of 16] in \<open>auto intro!: unhex_digit_char\<close>)
  then have "undigits 16 (map unhex_digit (hex w)) = unat w"
    using undigits_digits [of 16 "unat w"] by (simp add: hex_def comp_def)
  then show ?thesis by (simp add: unhex_def)
qed

lemma named_bits_single: "list_all (\<lambda>named. \<exists>k < 32. nb_bit named = 2 ^ k) NAMED_BITS"
proof -
  have h: "\<exists>k < 32. w = 2 ^ k" if "w = 2 ^ n" "n < 32" for w :: u32 and n
    using that by blast
  show ?thesis
    unfolding NAMED_BITS_def named_bit_def
    by (simp only: list.pred_inject NamedBit.select_convs mask_consts)
       (intro conjI TrueI; (rule h [of _ 5] h [of _ 0] h [of _ 7] h [of _ 3] h [of _ 1] h [of _ 2]
         h [of _ 8] h [of _ 4] h [of _ 6] h [of _ 16] h [of _ 17] h [of _ 18] h [of _ 19] h [of _ 20]
         h [of _ 24] h [of _ 25] h [of _ 28] h [of _ 29] h [of _ 30] h [of _ 31], simp, simp))
qed

lemma named_bits_short_mask: "list_all (\<lambda>named. short_mask (nb_short named) = nb_bit named) NAMED_BITS"
  unfolding short_mask_def NAMED_BITS_def named_bit_def by simp

lemma single_in_rest: "rest AND 2 ^ k \<noteq> 0 \<longleftrightarrow> bit rest k" if "k < 32" for rest :: u32
  using that unfolding mask_and_nonzero_iff single_bit_exp by auto

lemma name_bits_keeps_all:
  assumes "list_all (\<lambda>named. \<exists>k < 32. nb_bit named = 2 ^ k) nbs"
    and "list_all (\<lambda>named. short_mask (nb_short named) = nb_bit named) nbs"
    and "name_bits nbs rest = (extras, rest')"
  shows "or_list (map short_mask (map snd extras)) OR rest' = rest"
  using assms
proof (induction nbs arbitrary: rest extras rest')
  case (Cons named nbs)
  from Cons.prems(1) obtain k where k: "k < 32" "nb_bit named = 2 ^ k" by auto
  show ?case
  proof (cases "rest AND nb_bit named \<noteq> 0")
    case True
    then have "bit rest k" using k single_in_rest by simp
    then have whole: "2 ^ k OR (rest AND NOT (2 ^ k)) = rest"
      by (intro bit_eqI) (auto simp: bit_simps)
    obtain es where es: "name_bits nbs (rest AND NOT (nb_bit named)) = (es, rest')"
      using True Cons.prems(3) by (auto split: prod.splits)
    then have "or_list (map short_mask (map snd es)) OR rest' = rest AND NOT (nb_bit named)"
      using Cons.IH Cons.prems(1,2) by simp
    moreover have "extras = (nb_name named, nb_short named) # es"
      using True Cons.prems(3) es by simp
    ultimately show ?thesis
      using Cons.prems(2) whole k by (simp add: or.assoc)
  next
    case False
    then show ?thesis using Cons by simp
  qed
qed simp

lemma decompose_lossless:
  assumes "decompose raw = (base, extras)"
  shows "recompose base (map snd extras) = raw"
proof -
  define rest where "rest = raw AND NOT (case base of None \<Rightarrow> 0 | Some level \<Rightarrow> level_mask level)"
  define box where "box = (base = Some ReadExecute \<and> raw AND MASK_WRITE = MASK_WRITE)"
  define rest1 where "rest1 = (if box then rest AND NOT MASK_WRITE else rest)"
  obtain named rest2 where nb: "name_bits NAMED_BITS rest1 = (named, rest2)" by fastforce
  have base: "base = base_level raw"
    using assms unfolding decompose_def Let_def by (auto split: prod.splits)
  have extras: "extras = (if box then [(''Write'', ''W'')] else []) @ named @
      (if rest2 \<noteq> 0 then [(''other bits'', ''0x'' @ hex rest2)] else [])"
    using assms nb unfolding decompose_def Let_def base [symmetric] rest_def box_def rest1_def
    by (auto split: if_splits prod.splits)
  have W: "short_mask ''W'' = MASK_WRITE"
    by (simp add: short_mask_def NAMED_BITS_def named_bit_def)
  have O: "short_mask (''0x'' @ hex rest2) = rest2"
    by (simp add: short_mask_def NAMED_BITS_def named_bit_def unhex_hex)
  have named_all: "or_list (map short_mask (map snd named)) OR rest2 = rest1"
    by (rule name_bits_keeps_all [OF named_bits_single named_bits_short_mask nb])
  have "or_list (map short_mask (map snd extras)) = (if box then MASK_WRITE else 0) OR rest1"
    using W O unfolding extras named_all [symmetric] by (simp add: or.assoc)
  moreover have "(case base of None \<Rightarrow> 0 | Some level \<Rightarrow> level_mask level) OR
      ((if box then MASK_WRITE else 0) OR rest1) = raw"
    using base_level_contained [of raw]
    unfolding rest1_def rest_def box_def base
    by (intro bit_eqI) (auto simp: bit_simps within_iff_bit bit_eq_iff split: option.splits)
  ultimately show ?thesis by (simp add: recompose_def)
qed

definition level_of_short :: "string \<Rightarrow> StandardLevel option" where
  "level_of_short s = find (\<lambda>level. level_short level = s) STANDARD_LEVELS"

definition unlabel :: "string \<Rightarrow> u32" where
  \<comment> \<open>Reads a short label back: the specification of what a reader can infer from it.\<close>
  "unlabel s =
     (if s = ''none'' then 0
      else if starts_with s ''('' then recompose None (split_on (CHR '','') (butlast (tl s)))
      else (case split_on (CHR ''+'') s of
              base # [] \<Rightarrow> recompose (level_of_short base) []
            | base # shorts # _ \<Rightarrow> recompose (level_of_short base) (split_on (CHR '','') shorts)
            | [] \<Rightarrow> 0))"

lemma level_of_short [simp]: "level_of_short (level_short level) = Some level"
  by (cases level) (simp_all add: level_of_short_def STANDARD_LEVELS_def)

definition plain_short :: "string \<Rightarrow> bool" where
  "plain_short s \<longleftrightarrow> CHR '','' \<notin> set s \<and> CHR ''+'' \<notin> set s \<and> s \<noteq> []"

lemma digit_char_plain: "d < 16 \<Longrightarrow> digit_char d \<noteq> CHR '','' \<and> digit_char d \<noteq> CHR ''+''"
  by (auto simp: digit_char_def char_of_eq_iff take_bit_eq_mod)

lemma hex_plain: "plain_short (''0x'' @ hex w)"
proof -
  have "\<forall>c \<in> set (hex w). c \<noteq> CHR '','' \<and> c \<noteq> CHR ''+''"
    using digits_less [of 16] digit_char_plain by (auto simp: hex_def)
  then show ?thesis by (auto simp: plain_short_def)
qed

lemma named_shorts_plain: "list_all (\<lambda>named. plain_short (nb_short named)) NAMED_BITS"
  unfolding plain_short_def NAMED_BITS_def named_bit_def by simp

lemma name_bits_plain:
  "list_all (\<lambda>named. plain_short (nb_short named)) nbs \<Longrightarrow> name_bits nbs rest = (extras, rest') \<Longrightarrow>
     list_all plain_short (map snd extras)"
proof (induction nbs arbitrary: rest extras)
  case (Cons named nbs)
  then show ?case by (fastforce split: if_splits prod.splits)
qed simp

lemma decompose_plain: "decompose raw = (base, extras) \<Longrightarrow> list_all plain_short (map snd extras)"
  unfolding decompose_def Let_def
  by (auto split: prod.splits simp: hex_plain plain_short_def [of "''W''"] simp del: append_Cons
      dest!: name_bits_plain [OF named_shorts_plain])

lemma level_short_plain: "CHR ''+'' \<notin> set (level_short level)"
    "\<not> starts_with (level_short level @ t) ''(''" "level_short level @ t \<noteq> ''none''"
  by (cases level; simp add: starts_with_def)+

lemma unlabel_label: "unlabel (label raw) = raw"
proof (cases "raw = 0")
  case True
  then show ?thesis by (simp add: label_def unlabel_def)
next
  case False
  obtain base extras where d: "decompose raw = (base, extras)" by fastforce
  let ?shorts = "map snd extras"
  have plain: "\<forall>w \<in> set ?shorts. CHR '','' \<notin> set w \<and> CHR ''+'' \<notin> set w"
    using decompose_plain [OF d] by (auto simp: list_all_iff plain_short_def)
  have re: "recompose base ?shorts = raw" by (rule decompose_lossless [OF d])
  have joined: "?shorts \<noteq> [] \<Longrightarrow> split_on (CHR '','') (join '','' ?shorts) = ?shorts"
    using plain by (intro split_on_join) auto
  have no_plus: "CHR ''+'' \<notin> set (join '','' ?shorts)"
    using plain set_join [of "'',''" ?shorts] by auto
  show ?thesis
  proof (cases base)
    case None
    then have "?shorts \<noteq> []" using re False by (auto simp: recompose_def)
    with None False d re joined show ?thesis
      by (simp add: label_def unlabel_def starts_with_def)
  next
    case (Some level)
    then show ?thesis
      using False d re joined level_short_plain [of level] no_plus
        level_short_plain(2,3) [of level "[]"]
      by (cases extras)
         (simp_all add: label_def unlabel_def split_on_none split_on_sep)
  qed
qed

section \<open>Properties\<close>

text \<open>Generic rights are replaced by the specific rights they stand for, and nothing else
  changes. After expansion a mask holds a right exactly when it is a specific right (or the
  access to the SACL, or Maximum allowed) the mask held before, or a right of the file mapping
  of a generic right the mask held; no generic right is left, and expanding again changes
  nothing.\<close>

theorem generic_expansion:
  "(bit (expand_generic_rights m) n \<longleftrightarrow>
     (n < 28 \<and> bit m n) \<or>
     (bit m 31 \<and> bit FILE_GENERIC_READ n) \<or> (bit m 30 \<and> bit FILE_GENERIC_WRITE n) \<or>
     (bit m 29 \<and> bit FILE_GENERIC_EXECUTE n) \<or> (bit m 28 \<and> bit MASK_FULL_CONTROL n))
   \<and> \<not> has_generic (expand_generic_rights m)
   \<and> expand_generic_rights (expand_generic_rights m) = expand_generic_rights m"
proof -
  have "\<not> has_generic (expand_generic_rights m)"
    unfolding has_generic_def mask_and_nonzero_iff by (auto simp: bit_simps bit_expand_high)
  then show ?thesis by (simp only: bit_expand_generic_rights expand_generic_rights_idem simp_thms)
qed

text \<open>The short label of a mask hides nothing. The label shown in tables and exports (a
  standard level with the rights beyond it) determines the mask: reading the label back gives
  every bit, also those no standard level and no named right covers.\<close>

theorem label_lossless:
  "unlabel (label raw) = raw"
  by (rule unlabel_label)

end
