(* ===== verification/Model.thy ===== *)
theory Model
  imports Masks
begin

unbundle bit_operations_syntax

text \<open>
  The data of \<open>crates/core/src/model.rs\<close>, \<open>error.rs\<close> and \<open>traits.rs\<close>: identities,
  memberships, access-control entries, file-system objects, the statuses of the share and
  local-group sides, the diagnostic markers, the evaluation input and the result. The tuple
  structs \<open>Sid\<close>, \<open>NormalizedPath\<close> and \<open>AccessMask\<close> wrap one value and are that value
  here. Counts of type \<open>usize\<close> are natural numbers.
\<close>

section \<open>Errors, SIDs and paths\<close>

datatype CoreError =
    AdConnection string | LdapQuery string | SidResolution string | AccessDenied string
  | PathNotFound string | InvalidSecurityDescriptor string | UnsupportedAceType string
  | ShareEnumeration string | Database string | Export string | Cancelled
  | Validation string | ReparseCycle string | ReparseDuplicateTarget string
  | OtherShare string | ReparseNotFollowed string

type_synonym Sid = string
type_synonym NormalizedPath = string
type_synonym AccessMask = u32

definition first_non_numeric :: "string list \<Rightarrow> string option" where
  "first_non_numeric parts = find (\<lambda>part. parse_uint (2 ^ 64) part = None) parts"

definition sid_try_new :: "string \<Rightarrow> CoreError + Sid" where
  "sid_try_new input =
     (let trimmed = trim input
      in if trimmed = [] then Inl (Validation ''SID must not be empty'')
         else if \<not> starts_with trimmed ''S-1-'' then
           Inl (Validation (''Invalid SID format (must start with '' @ squote @ ''S-1-'' @ squote
             @ ''): '' @ trimmed))
         else (let parts = split_on (CHR ''-'') trimmed
               in if length parts < 4 then
                    Inl (Validation (''SID has too few components (minimum S-1-X-Y): '' @ trimmed))
                  else (case first_non_numeric (tl parts) of
                     Some part \<Rightarrow> Inl (Validation (''SID contains non-numeric component '' @ squote
                       @ part @ squote @ '': '' @ trimmed))
                   | None \<Rightarrow> Inr trimmed)))"

definition sid_new_unchecked :: "string \<Rightarrow> Sid" where
  "sid_new_unchecked value = value"

definition is_valid_syntax :: "string \<Rightarrow> bool" where
  "is_valid_syntax input = (case sid_try_new input of Inr _ \<Rightarrow> True | Inl _ \<Rightarrow> False)"

section \<open>Identities and group memberships\<close>

datatype IdentityKind =
  User | Group | Computer | WellKnown | ForeignSecurityPrincipal | Orphaned | Unknown

record Identity =
  id_sid :: Sid
  id_name :: "string option"
  id_domain :: "string option"
  id_kind :: IdentityKind
  id_disabled :: bool
  id_user_principal_name :: "string option"
  id_sid_history_count :: nat
  id_sid_history :: "Sid list"

datatype PolicyDword = Value u32 | Absent | Unreadable string

datatype RemoteUacFiltering = Unknown | Filtered string | NotFiltered string

datatype AccessContext = LocalInteractive | RemoteSmb | Unspecified

record MembershipHop =
  mh_sid :: Sid
  mh_name :: "string option"

datatype MembershipPathSource =
  PrimaryGroup | DomainGroup | LocalGroup | LdapMatchingRule | AccountType | TrustedDomainLogon

record MembershipPath =
  mp_nodes :: "Sid list"
  mp_names :: "string option list"
  mp_source :: MembershipPathSource
  mp_complete :: bool
  mp_also_via :: "MembershipHop list"

record GroupMembership =
  gm_member_sid :: Sid
  gm_group_sid :: Sid
  gm_direct :: bool
  gm_group_name :: "string option"
  gm_path :: "MembershipPath option"
  gm_group_sid_history_count :: nat
  gm_group_sid_history :: "Sid list"

section \<open>Access-control entries and file-system objects\<close>

datatype AceKind = Allow | Deny

record AceEntry =
  ace_kind :: AceKind
  ace_sid :: Sid
  ace_mask :: AccessMask
  ace_inherited :: bool
  ace_inheritance_flags :: u32
  ace_propagation_flags :: u32

record UnsupportedAce =
  ua_ace_type :: u8
  ua_flags :: u8
  ua_mask :: u32

definition ACE_TYPE_ACL_UNREADABLE :: u8 where
  "ACE_TYPE_ACL_UNREADABLE = 0xFF"

definition ACE_TYPE_ACE_UNREADABLE :: u8 where
  "ACE_TYPE_ACE_UNREADABLE = 0xFE"

datatype LinkKind = Junction | SymbolicLink

record LinkInfo =
  link_kind :: LinkKind
  link_target :: string
  link_relative :: bool

record FileSystemObject =
  fso_path :: NormalizedPath
  fso_is_directory :: bool
  fso_owner_sid :: "Sid option"
  fso_dacl :: "AceEntry list"
  fso_inheritance_disabled :: bool
  fso_is_reparse_point :: bool
  fso_unsupported_aces :: "UnsupportedAce list"
  fso_null_dacl :: bool
  fso_sd_hash :: "u64 option"
  fso_link :: "LinkInfo option"
  fso_identity_unknown :: "string option"

record SharePermission =
  sp_share_name :: string
  sp_sid :: Sid
  sp_mask :: AccessMask
  sp_kind :: AceKind

section \<open>Statuses of the share and local-group sides\<close>

datatype ShareEvalStatus = NotApplicable | Applied | Unrestricted | ReadFailed string

datatype ShareMaskStatus = NotApplicable | Applied AccessMask | Unrestricted | ReadFailed string

datatype LocalGroupEvalStatus = NotQueried | Applied | NotAvailable string

record LocalGroupDescriptor =
  lgd_sid :: Sid
  lgd_name :: string
  lgd_members :: "Sid list"

record LocalGroupEntry =
  lge_group :: Sid
  lge_name :: string
  lge_via :: "Sid list"

record LocalGroupExpansion =
  lgx_certain :: "LocalGroupEntry list"
  lgx_logon_dependent :: "LocalGroupEntry list"

record ContributingAce =
  ca_sid :: Sid
  ca_mask :: AccessMask

section \<open>The trace of a result\<close>

datatype TraceLayer = Ntfs | Share

datatype AceEffect =
  Decided u32 | NoEffect | InheritOnly | Uncertain string | NotApplied string

record AceOutcome =
  ao_layer :: TraceLayer
  ao_kind :: AceKind
  ao_sid :: Sid
  ao_trustee :: string
  ao_mask :: AccessMask
  ao_inherited :: bool
  ao_effect :: AceEffect

datatype TraceGroupState = Member | DenyOnly | Uncertain | Implicit

record TraceGroup =
  tg_sid :: Sid
  tg_display :: string
  tg_route :: string
  tg_state :: TraceGroupState
  tg_decisive :: bool

record PermissionTrace =
  pt_aces :: "AceOutcome list"
  pt_groups :: "TraceGroup list"
  pt_other_groups :: nat
  pt_other :: "TraceGroup list"

definition trace_is_empty :: "PermissionTrace \<Rightarrow> bool" where
  "trace_is_empty t \<longleftrightarrow> pt_aces t = [] \<and> pt_groups t = [] \<and> pt_other_groups t = 0"

definition empty_trace :: PermissionTrace where
  "empty_trace = \<lparr>pt_aces = [], pt_groups = [], pt_other_groups = 0, pt_other = []\<rparr>"

section \<open>Diagnostic markers\<close>

datatype SynchronizeGap = DeniedByNtfsAce | NotGrantedByNtfs | NotGrantedByShare

datatype UncertainLayer = Token | Ntfs | Share | Logon | Target

record Uncertainty =
  un_layer :: UncertainLayer
  un_reason :: string

datatype PermissionDiagnostic =
    NonCanonicalDaclOrder nat
  | InheritedDenyAfterInheritedAllow nat
  | UnsupportedShareAces nat
  | UnsupportedNtfsAces nat
  | DomainGroupRecursionIncomplete
  | IdentityDisabled
  | IdentityNotInConfiguredLdapBase
  | IdentityDisabledStatusUnknown
  | IdentityLookupFailed string
  | GroupResolutionFailed string
  | OwnerRightsAceApplied
  | IdentityResolvedViaForeignSecurityPrincipal
  | GroupResolutionViaGlobalCatalog
  | PersistedEvidenceDecodeFailed string
  | SidHistoryPresent nat
  | SidHistoryEvaluated nat
  | GroupSidHistoryEvaluated nat nat \<comment> \<open>groups, count\<close>
  | GroupSidHistoryPresent nat
  | TrustBoundaryEffectsNotModeled
  | MembersViaPrimaryGroupIncluded nat
  | GroupMemberEnumerationIncomplete string
  | UniversalGroupCrossDomainMembersNotVisible
  | IdentityNotResolvable string
  | TrustedDomainAccountResolved string "string list" "string list"
      \<comment> \<open>domain, home-only groups, filtered SIDs\<close>
  | SelectiveAuthenticationAllowed string string \<comment> \<open>server, via\<close>
  | SelectiveAuthenticationDenied string
  | SelectiveAuthenticationUnknown string string bool \<comment> \<open>server, reason, affects the result\<close>
  | SynchronizeNotGranted SynchronizeGap bool \<comment> \<open>cause, certain\<close>
  | DfsTargetEvaluated string string "string option" "string list" bool
      \<comment> \<open>requested, target, folder, other targets, other targets known\<close>
  | LinkObject LinkKind string
  | DirectoryIdentityUnknown string
  | IdentityOrphaned
  | LogonDependentTrustees "string list" u32 u32 \<comment> \<open>SIDs, lower and upper bound\<close>
  | GroupResolutionIncomplete string
  | NonSecurityGroupsExcluded "string list"
  | UacFilteredGroups "string list"
  | GuestOrAnonymousToken "string list"
  | RemoteUacPolicy bool string \<comment> \<open>filtered, reason\<close>

datatype DiagnosticSeverity = Neutral | Notice | Concern

datatype AccountStatus = Active | Disabled | Unknown | NotAnAccount | DoesNotExist

section \<open>The result of an evaluation\<close>

record PermissionPath =
  pp_steps :: "string list"

record EffectivePermission =
  ep_identity :: Identity
  ep_path :: NormalizedPath
  ep_ntfs_mask :: AccessMask
  ep_share_mask :: "AccessMask option"
  ep_effective_mask :: AccessMask
  ep_path_explanation :: PermissionPath
  ep_share_status :: ShareEvalStatus
  ep_local_group_status :: LocalGroupEvalStatus
  ep_contributing_sids :: "ContributingAce list"
  ep_unsupported_ace_count :: nat
  ep_matched_aces :: "AceEntry list"
  ep_diagnostics :: "PermissionDiagnostic list"
  ep_trace :: PermissionTrace

datatype MembershipDetail = All | NamedOnly string

record DfsEvaluation =
  dfs_requested :: string
  dfs_target :: string
  dfs_folder :: "string option"
  dfs_other_targets :: "string list"
  dfs_other_targets_known :: bool

section \<open>The input of an evaluation\<close>

record TrustedDomainProvenance =
  td_domain :: string
  td_home_only_groups :: "string list"
  td_sid_filtered :: "string list"
  td_selective_authentication :: bool

datatype SelectiveAuthenticationCheck =
  Allowed string string | Denied string | Unknown string string

record ResolutionProvenance =
  rp_group_resolution_via_sam_fallback :: bool
  rp_identity_not_in_configured_ldap_base :: bool
  rp_identity_disabled_status_unknown :: bool
  rp_identity_lookup_failure_reason :: "string option"
  rp_group_resolution_failure_reason :: "string option"
  rp_identity_resolved_via_fsp :: bool
  rp_group_resolution_via_global_catalog :: bool
  rp_identity_unresolvable_reason :: "string option"
  rp_group_resolution_gaps :: "string list"
  rp_excluded_non_security_groups :: "string list"
  rp_trusted_domain :: "TrustedDomainProvenance option"

definition default_provenance :: ResolutionProvenance where
  "default_provenance =
     \<lparr>rp_group_resolution_via_sam_fallback = False,
      rp_identity_not_in_configured_ldap_base = False,
      rp_identity_disabled_status_unknown = False,
      rp_identity_lookup_failure_reason = None,
      rp_group_resolution_failure_reason = None,
      rp_identity_resolved_via_fsp = False,
      rp_group_resolution_via_global_catalog = False,
      rp_identity_unresolvable_reason = None,
      rp_group_resolution_gaps = [],
      rp_excluded_non_security_groups = [],
      rp_trusted_domain = None\<rparr>"

record PermissionEvaluationInput =
  in_identity :: Identity
  in_group_memberships :: "GroupMembership list"
  in_file_system_object :: FileSystemObject
  in_share_status :: ShareMaskStatus
  in_local_group_sids :: "Sid list"
  in_local_group_status :: LocalGroupEvalStatus
  in_logon_dependent_group_sids :: "Sid list"
  in_uac_filtered_group_sids :: "Sid list"
  in_remote_uac :: RemoteUacFiltering
  in_anonymous_everyone :: "bool option"
  in_share_trace :: "AceOutcome list"
  in_selective_authentication :: "SelectiveAuthenticationCheck option"
  in_dfs :: "DfsEvaluation option"
  in_membership_detail :: MembershipDetail
  in_access_context :: AccessContext
  in_unsupported_share_ace_count :: nat
  in_sid_names :: "string \<rightharpoonup> string"
  in_resolution :: ResolutionProvenance

section \<open>Risk findings\<close>

datatype RiskSeverity = Info | Low | Medium | High | Critical

record RiskFinding =
  rf_rule_id :: string
  rf_severity :: RiskSeverity
  rf_description :: string
  rf_affected_path :: "NormalizedPath option"
  rf_affected_identity :: "Sid option"
  rf_incomplete :: bool

end
