(* ===== verification/Diagnostics.thy ===== *)
theory Diagnostics
  imports Model
begin

unbundle bit_operations_syntax

text \<open>
  The methods of the diagnostic markers and of a result in \<open>crates/core/src/model.rs\<close>: the
  reader-facing summary of a marker, the part of a result it makes not determinable, its
  visual severity, and what a result says about its own exactness (\<open>uncertainty\<close>,
  \<open>ntfs_determinable\<close>, \<open>share_determinable\<close>, \<open>effective_determinable\<close>,
  \<open>effective_upper_bound\<close>). The lemmas show when a result claims to be exact, that the
  layers refine the claim, and that the upper bound is one.
\<close>

section \<open>Texts shared by the markers\<close>

definition entry_label :: "string \<Rightarrow> string" where
  \<comment> \<open>\<open>DfsEvaluation::entry_label\<close>: at most two components are a namespace root.\<close>
  "entry_label entry =
     (let parts = length (filter (\<lambda>p. p \<noteq> [])
          (split_on (CHR 0x5C) (dropWhile (\<lambda>c. c = CHR 0x5C) entry)))
      in if parts \<le> 2 then ''DFS namespace root '' @ entry else ''DFS folder '' @ entry)"

primrec gap_label :: "SynchronizeGap \<Rightarrow> string" where
  "gap_label DeniedByNtfsAce =
     ''a Deny ACE takes it away '' @ em_dash @ '' e.g. the basic permission '' @ dquote
       @ ''Write'' @ dquote @ '' denied, which includes Synchronize''"
| "gap_label NotGrantedByNtfs = ''no NTFS ACE grants it''"
| "gap_label NotGrantedByShare = ''the share permission does not grant it''"

primrec link_text :: "LinkKind \<Rightarrow> string" where
  "link_text Junction = ''a junction''"
| "link_text SymbolicLink = ''a symbolic link''"

primrec summary :: "PermissionDiagnostic \<Rightarrow> string" where
  "summary (InheritedDenyAfterInheritedAllow at_index) =
     ''An inherited Allow ACE precedes an inherited Deny ACE (first at ACE #'' @ dec at_index
       @ ''). This is canonical when they come from different ancestor levels ''
       @ ''(Windows orders inherited ACEs level by level) and non-canonical when ''
       @ ''they come from the same one '' @ em_dash
       @ '' the DACL alone does not say which. The result is unaffected: it is ''
       @ ''evaluated in stored order like Windows.''"
| "summary (NonCanonicalDaclOrder at_index) =
     ''Non-canonical DACL order (first at ACE #'' @ dec at_index
       @ ''); evaluated in stored order like Windows, may differ from canonical ''
       @ ''expectations.''"
| "summary (UnsupportedShareAces count) =
     dec count @ '' share ACE(s) could not be evaluated (unsupported type, unreadable ''
       @ ''trustee, or a trustee whose presence depends on how the user logs on) ''
       @ em_dash @ '' the share mask is potentially incomplete.''"
| "summary (UnsupportedNtfsAces count) =
     dec count @ '' NTFS ACE(s) could not be evaluated (unsupported type, an unreadable ''
       @ ''trustee SID, or a DACL that could not be read at all) '' @ em_dash
       @ '' a hidden Deny among them could change the result.''"
| "summary DomainGroupRecursionIncomplete =
     ''Group resolution used the SAM/LSA fallback (no LDAP); nested domain ''
       @ ''groups are not resolved recursively, ACEs on them may be missed.''"
| "summary IdentityDisabled =
     ''Identity is flagged disabled in AD '' @ em_dash
       @ '' rights are ACL-theoretically correct, but the account normally cannot ''
       @ ''authenticate.''"
| "summary IdentityNotInConfiguredLdapBase =
     ''Identity resolved via LSA but the configured LDAP base DN does not index ''
       @ ''its SID; cross-domain nested memberships may be missing.''"
| "summary IdentityDisabledStatusUnknown =
     ''The disabled flag for this identity could not be determined '' @ em_dash
       @ '' rights are correct, but whether the account is enabled is unknown.''"
| "summary (IdentityLookupFailed reason) =
     ''LDAP identity lookup failed ('' @ reason
       @ ''); analysis ran with a placeholder identity, ACEs on domain groups may be ''
       @ ''missing.''"
| "summary (GroupResolutionFailed reason) =
     ''Recursive group resolution failed or was skipped ('' @ reason
       @ ''); ACEs on domain groups may be missing.''"
| "summary OwnerRightsAceApplied =
     ''OWNER RIGHTS (S-1-3-4) ACE governs the owner'' @ squote
       @ ''s rights; the implicit READ_CONTROL + WRITE_DAC owner grant was ''
       @ ''suppressed. Exact '' @ em_dash @ '' informational.''"
| "summary IdentityResolvedViaForeignSecurityPrincipal =
     ''Identity is a trust-forest principal resolved via a Foreign Security ''
       @ ''Principal; its memberships in its own forest are unknown.''"
| "summary GroupResolutionViaGlobalCatalog =
     ''Memberships came from a Global Catalog bind; only universal groups ''
       @ ''replicate fully to the GC, foreign-domain global/domain-local may be ''
       @ ''missing.''"
| "summary (PersistedEvidenceDecodeFailed detail) =
     ''A persisted (historical) row could not be fully decoded ('' @ detail
       @ ''); the reconstructed result may be less complete than the original.''"
| "summary (SidHistoryPresent count) =
     ''Identity carries '' @ dec count
       @ '' historical SID(s) (sIDHistory) that were NOT evaluated into the token ''
       @ em_dash @ '' effective rights may be understated.''"
| "summary (SidHistoryEvaluated count) =
     dec count @ '' historical SID(s) (sIDHistory) of this identity were evaluated into the ''
       @ ''token '' @ em_dash
       @ '' ACEs referencing an old SID match like in the real logon token (see the ''
       @ ''explanation path).''"
| "summary (GroupSidHistoryEvaluated groups count) =
     dec count @ '' historical SID(s) (sIDHistory) carried by '' @ dec groups
       @ '' token group(s) were evaluated into the token '' @ em_dash
       @ '' ACEs referencing a migrated group'' @ squote
       @ ''s old SID match like in the real logon token (see the membership steps).''"
| "summary (GroupSidHistoryPresent count) =
     dec count @ '' historical SID(s) (sIDHistory) on token groups could NOT be evaluated ''
       @ ''into the token '' @ em_dash @ '' effective rights may be understated.''"
| "summary TrustBoundaryEffectsNotModeled =
     ''Identity resolved across a domain/trust boundary; if it is a forest ''
       @ ''trust, SID filtering and Selective Authentication may reduce actual ''
       @ ''access (not modeled).''"
| "summary (MembersViaPrimaryGroupIncluded count) =
     dec count @ '' member(s) were found via their primaryGroupID '' @ em_dash
       @ '' accounts whose primary group is this group do not appear in the '' @ squote
       @ ''member'' @ squote
       @ '' attribute and are included here so the count is complete.''"
| "summary (GroupMemberEnumerationIncomplete reason) =
     ''Group members could not be enumerated completely ('' @ reason
       @ ''); the member list is a lower bound and may be missing entries.''"
| "summary UniversalGroupCrossDomainMembersNotVisible =
     ''This is a universal group queried over a domain bind '' @ em_dash
       @ '' members from other domains of the forest are not visible here, so in a ''
       @ ''multi-domain forest the list may be incomplete.''"
| "summary (TrustedDomainAccountResolved domain home_only_groups sid_filtered) =
     ''Account of the trusted domain '' @ domain @ '', resolved on a domain controller of ''
       @ domain
       @ '': its global and universal groups there count (as Windows hands them to ''
       @ ''other domains), plus the domain-local groups of this domain it reaches ''
       @ ''through a Foreign Security Principal.''
     @ (if home_only_groups \<noteq> [] then
       '' Left out because they apply only inside '' @ domain @ '': its memberships in ''
       @ join '', '' home_only_groups
       @ ''.                          (Builtin groups of this domain, such as Users ''
       @ ''through Authenticated                          Users, are evaluated on ''
       @ ''their own.)''
        else [])
     @ (if sid_filtered \<noteq> [] then
       '' Removed by the trust'' @ squote @ ''s SID filtering: '' @ join '', '' sid_filtered
       @ ''.''
        else [])"
| "summary (SelectiveAuthenticationAllowed server via) =
     ''The trust uses Selective Authentication; the account may authenticate to '' @ server
       @ '' '' @ em_dash @ '' '' @ dquote @ ''Allowed to authenticate'' @ dquote
       @ '' is granted to '' @ via @ ''.''"
| "summary (SelectiveAuthenticationDenied server) =
     ''The trust uses Selective Authentication, and neither the account nor a ''
       @ ''group in its token has '' @ dquote @ ''Allowed to authenticate'' @ dquote
       @ '' on '' @ server
       @ '': Windows refuses the logon (error 1935), so the account has no access ''
       @ ''there, whatever the permissions grant.''"
| "summary (SelectiveAuthenticationUnknown server reason affects_result) =
     (if affects_result then
        ''The trust uses Selective Authentication, and whether the account may ''
       @ ''authenticate to '' @ server @ '' is not determinable ('' @ reason @ '') ''
       @ em_dash @ '' the effective right lies between No access and what the permissions ''
       @ ''grant.''
      else
        ''The trust uses Selective Authentication, and whether the account may ''
       @ ''authenticate to '' @ server @ '' is not determinable ('' @ reason @ '') ''
       @ em_dash
       @ '' the permissions grant nothing here, so the effective right is No access ''
       @ ''either way.'')"
| "summary (LinkObject kind target) =
     ''This object is '' @ link_text kind @ '' to '' @ target
       @ '': the rights shown are those on the link itself (who can delete it or ''
       @ ''change its permissions). Opening this path reaches the target, and the ''
       @ ''target'' @ squote @ ''s own permissions decide what an account can do there.''"
| "summary (DirectoryIdentityUnknown reason) =
     ''The volume serial and file ID of this folder could not be read over SMB ('' @ reason
       @ ''), so a second route to it through a link in this scan is not recognized ''
       @ em_dash @ '' its content may be listed twice. The values are exact.''"
| "summary (DfsTargetEvaluated requested target folder other_targets other_targets_known) =
     (let folder = (case folder of None \<Rightarrow> [] | Some f \<Rightarrow> '' ('' @ entry_label f @ '')'')
      in ''DFS path '' @ requested @ folder @ '': evaluated on '' @ target
       @ '', the target this machine is referred to '' @ em_dash
       @ '' the share permissions, local groups and policies of that server apply, ''
       @ ''not those of the namespace server.''
       @ (if other_targets \<noteq> [] then
          '' The folder has further targets ('' @ join '', '' other_targets
       @ ''); a client referred to one of them can get other rights, so the result ''
       @ ''is not determinable for every client '' @ em_dash @ '' scan each target''
       @ squote @ ''s share on its own.''
          else if \<not> other_targets_known then
          '' Whether the folder has further targets could not be read, so a client ''
       @ ''referred elsewhere may get other rights.''
          else []))"
| "summary (SynchronizeNotGranted cause certain) =
     (if certain then ''SYNCHRONIZE is not granted''
      else ''From the known data, SYNCHRONIZE is not granted'')
     @ [] @ '' ('' @ gap_label cause
       @ ''). Explorer and most Windows programs request it with every open ''
       @ ''(CreateFile), locally and over SMB, so they get '' @ dquote @ ''access denied''
       @ dquote
       @ '' for this object. The rights shown are nevertheless real: a program that ''
       @ ''opens without SYNCHRONIZE can use them (lab-measured: reading and listing ''
       @ ''through the native API, deleting, reading the permissions).''"
| "summary (IdentityNotResolvable reason) =
     ''The identity could not be resolved: '' @ reason
       @ ''. Its group memberships are unknown, so the rights computed for the bare ''
       @ ''SID can be too low or too high.''"
| "summary IdentityOrphaned =
     ''The SID has no account in its domain any more (orphaned / deleted ''
       @ ''account): nobody can log on with it. The rights shown are what a logon ''
       @ ''with this SID would get; an ACE naming it is a dead entry.''"
| "summary (LogonDependentTrustees sids min_mask max_mask) =
     ''ACE(s) for '' @ join '', '' sids
       @ '' apply only for certain logons (authentication type, organization, logon ''
       @ ''type, User Account Control filtering), which Stars does not model '' @ em_dash
       @ '' the NTFS right lies between 0x'' @ hex8 min_mask @ '' and 0x'' @ hex8 max_mask
       @ ''.''"
| "summary (GroupResolutionIncomplete reason) =
     ''Group resolution is incomplete: '' @ reason @ ''.''"
| "summary (NonSecurityGroupsExcluded groups) =
     dec (length groups) @ '' group(s) are not in the token and were left out '' @ em_dash
       @ '' Windows ignores distribution groups and nesting through them: ''
       @ join ''; '' groups @ ''.''"
| "summary (RemoteUacPolicy filtered reason) =
     ''User Account Control ''
     @ (if filtered then
          ''filters this local account'' @ squote
       @ ''s token: the administrative groups are deny-only, their Allow ACEs do not ''
       @ ''apply''
        else
          ''does not filter this local account'' @ squote
       @ ''s token: the administrative groups are enabled'')
     @ '' '' @ em_dash @ '' '' @ reason @ ''.''"
| "summary (GuestOrAnonymousToken sids) =
     ''Guest / anonymous logon: '' @ join '', '' sids
       @ '' not in this token the way it is for other accounts '' @ em_dash
       @ '' Authenticated Users is never in a Guest or anonymous token ''
       @ ''(lab-measured), so its ACEs do not apply; Everyone is in an anonymous ''
       @ ''token only when the target sets EveryoneIncludesAnonymous = 1. Stars ''
       @ ''reads that policy on the target; only where it cannot be read do ACEs for ''
       @ ''Everyone bound an anonymous result.''"
| "summary (UacFilteredGroups groups) =
     ''User Account Control may filter '' @ join '', '' groups
       @ '' out of the token (deny-only): in a local session that is not elevated, ''
       @ ''and for a local account over the network unless ''
       @ ''LocalAccountTokenFilterPolicy = 1 (built-in Administrator: only with ''
       @ ''FilterAdministratorToken = 1). Stars cannot see elevation or these ''
       @ ''settings: Deny ACEs for them apply, Allow ACEs bound the result.''"

section \<open>Classification of the markers\<close>

primrec uncertain_layer :: "PermissionDiagnostic \<Rightarrow> UncertainLayer option" where
  "uncertain_layer (UnsupportedShareAces count) = Some UncertainLayer.Share"
| "uncertain_layer (UnsupportedNtfsAces count) = Some UncertainLayer.Ntfs"
| "uncertain_layer (LogonDependentTrustees sids min_mask max_mask) = Some UncertainLayer.Ntfs"
| "uncertain_layer DomainGroupRecursionIncomplete = Some UncertainLayer.Token"
| "uncertain_layer IdentityNotInConfiguredLdapBase = Some UncertainLayer.Token"
| "uncertain_layer (IdentityLookupFailed reason) = Some UncertainLayer.Token"
| "uncertain_layer (GroupResolutionFailed reason) = Some UncertainLayer.Token"
| "uncertain_layer IdentityResolvedViaForeignSecurityPrincipal = Some UncertainLayer.Token"
| "uncertain_layer GroupResolutionViaGlobalCatalog = Some UncertainLayer.Token"
| "uncertain_layer (PersistedEvidenceDecodeFailed detail) = Some UncertainLayer.Token"
| "uncertain_layer (SidHistoryPresent count) = Some UncertainLayer.Token"
| "uncertain_layer (GroupSidHistoryPresent count) = Some UncertainLayer.Token"
| "uncertain_layer (GroupMemberEnumerationIncomplete reason) = Some UncertainLayer.Token"
| "uncertain_layer UniversalGroupCrossDomainMembersNotVisible = Some UncertainLayer.Token"
| "uncertain_layer (IdentityNotResolvable reason) = Some UncertainLayer.Token"
| "uncertain_layer (GroupResolutionIncomplete reason) = Some UncertainLayer.Token"
| "uncertain_layer (SelectiveAuthenticationUnknown server reason affects_result) =
     (if affects_result then Some UncertainLayer.Logon else None)"
| "uncertain_layer (DfsTargetEvaluated requested target folder other_targets other_targets_known) =
     (if other_targets \<noteq> [] \<or> \<not> other_targets_known then Some UncertainLayer.Target else None)"
| "uncertain_layer (NonCanonicalDaclOrder at_index) = None"
| "uncertain_layer (LinkObject kind target) = None"
| "uncertain_layer (DirectoryIdentityUnknown reason) = None"
| "uncertain_layer (TrustedDomainAccountResolved domain home_only_groups sid_filtered) = None"
| "uncertain_layer (SelectiveAuthenticationAllowed server via) = None"
| "uncertain_layer (SelectiveAuthenticationDenied server) = None"
| "uncertain_layer (SynchronizeNotGranted cause certain) = None"
| "uncertain_layer (InheritedDenyAfterInheritedAllow at_index) = None"
| "uncertain_layer IdentityDisabled = None"
| "uncertain_layer IdentityDisabledStatusUnknown = None"
| "uncertain_layer OwnerRightsAceApplied = None"
| "uncertain_layer TrustBoundaryEffectsNotModeled = None"
| "uncertain_layer (SidHistoryEvaluated count) = None"
| "uncertain_layer (GroupSidHistoryEvaluated groups count) = None"
| "uncertain_layer (MembersViaPrimaryGroupIncluded count) = None"
| "uncertain_layer IdentityOrphaned = None"
| "uncertain_layer (NonSecurityGroupsExcluded groups) = None"
| "uncertain_layer (UacFilteredGroups groups) = None"
| "uncertain_layer (GuestOrAnonymousToken sids) = None"
| "uncertain_layer (RemoteUacPolicy filtered reason) = None"

definition is_incompleteness_trigger :: "PermissionDiagnostic \<Rightarrow> bool" where
  "is_incompleteness_trigger d \<longleftrightarrow> uncertain_layer d \<noteq> None"

primrec severity :: "PermissionDiagnostic \<Rightarrow> DiagnosticSeverity" where
  "severity (NonCanonicalDaclOrder at_index) = Neutral"
| "severity (TrustedDomainAccountResolved domain home_only_groups sid_filtered) = Neutral"
| "severity (SelectiveAuthenticationAllowed server via) = Neutral"
| "severity (InheritedDenyAfterInheritedAllow at_index) = Neutral"
| "severity IdentityDisabled = Neutral"
| "severity IdentityDisabledStatusUnknown = Neutral"
| "severity OwnerRightsAceApplied = Neutral"
| "severity TrustBoundaryEffectsNotModeled = Neutral"
| "severity DomainGroupRecursionIncomplete = Neutral"
| "severity IdentityNotInConfiguredLdapBase = Neutral"
| "severity IdentityResolvedViaForeignSecurityPrincipal = Neutral"
| "severity (MembersViaPrimaryGroupIncluded count) = Neutral"
| "severity UniversalGroupCrossDomainMembersNotVisible = Neutral"
| "severity (SidHistoryEvaluated count) = Neutral"
| "severity (GroupSidHistoryEvaluated groups count) = Neutral"
| "severity GroupResolutionViaGlobalCatalog = Neutral"
| "severity IdentityOrphaned = Neutral"
| "severity (NonSecurityGroupsExcluded groups) = Neutral"
| "severity (RemoteUacPolicy filtered reason) = Neutral"
| "severity (SelectiveAuthenticationUnknown server reason affects_result) =
     (if affects_result then Concern else Neutral)"
| "severity (DfsTargetEvaluated requested target folder other_targets other_targets_known) =
     (if uncertain_layer (DfsTargetEvaluated requested target folder other_targets
           other_targets_known) \<noteq> None then Concern else Neutral)"
| "severity (UnsupportedShareAces count) = Notice"
| "severity (UnsupportedNtfsAces count) = Notice"
| "severity (LogonDependentTrustees sids min_mask max_mask) = Notice"
| "severity (UacFilteredGroups groups) = Notice"
| "severity (GuestOrAnonymousToken sids) = Notice"
| "severity (SelectiveAuthenticationDenied server) = Notice"
| "severity (SynchronizeNotGranted cause certain) = Notice"
| "severity (LinkObject kind target) = Notice"
| "severity (DirectoryIdentityUnknown reason) = Notice"
| "severity (SidHistoryPresent count) = Concern"
| "severity (GroupSidHistoryPresent count) = Concern"
| "severity (IdentityLookupFailed reason) = Concern"
| "severity (GroupResolutionFailed reason) = Concern"
| "severity (GroupMemberEnumerationIncomplete reason) = Concern"
| "severity (PersistedEvidenceDecodeFailed detail) = Concern"
| "severity (IdentityNotResolvable reason) = Concern"
| "severity (GroupResolutionIncomplete reason) = Concern"

section \<open>What a result says about its own exactness\<close>

definition has_ntfs_marker :: "PermissionDiagnostic list \<Rightarrow> bool" where
  "has_ntfs_marker ds \<longleftrightarrow> list_ex (\<lambda>d. case d of UnsupportedNtfsAces _ \<Rightarrow> True | _ \<Rightarrow> False) ds"

fun add_markers :: "Uncertainty list \<Rightarrow> PermissionDiagnostic list \<Rightarrow> Uncertainty list" where
  \<comment> \<open>The loop over the markers: one entry per reason text.\<close>
  "add_markers out [] = out"
| "add_markers out (d # ds) =
     (case uncertain_layer d of
        None \<Rightarrow> add_markers out ds
      | Some layer \<Rightarrow>
          (if list_ex (\<lambda>u. un_reason u = summary d) out then add_markers out ds
           else add_markers (out @ [\<lparr>un_layer = layer, un_reason = summary d\<rparr>]) ds))"

definition status_uncertainty :: "EffectivePermission \<Rightarrow> Uncertainty list" where
  \<comment> \<open>The entries the three statuses add before the loop.\<close>
  "status_uncertainty p =
     (case ep_share_status p of
        ShareEvalStatus.ReadFailed reason \<Rightarrow>
          [\<lparr>un_layer = UncertainLayer.Share,
            un_reason = ''The share permissions are not determinable ('' @ reason @ '').''\<rparr>]
      | _ \<Rightarrow> [])
     @ (if 0 < ep_unsupported_ace_count p \<and> \<not> has_ntfs_marker (ep_diagnostics p) then
          [\<lparr>un_layer = UncertainLayer.Ntfs,
            un_reason = dec (ep_unsupported_ace_count p) @ '' NTFS ACE(s) could not be evaluated '' @ em_dash
       @ '' a hidden Deny among them could change the result.''\<rparr>]
        else [])
     @ (case ep_local_group_status p of
        LocalGroupEvalStatus.NotAvailable reason \<Rightarrow>
          [\<lparr>un_layer = UncertainLayer.Token,
            un_reason = ''The local groups of the target server could not be resolved ('' @ reason @ '') ''
       @ em_dash @ '' ACEs for local groups may apply to this identity.''\<rparr>]
      | _ \<Rightarrow> [])"

definition uncertainty :: "EffectivePermission \<Rightarrow> Uncertainty list" where
  "uncertainty p = add_markers (status_uncertainty p) (ep_diagnostics p)"

definition is_incomplete :: "EffectivePermission \<Rightarrow> bool" where
  "is_incomplete p \<longleftrightarrow> uncertainty p \<noteq> []"

definition ntfs_determinable :: "EffectivePermission \<Rightarrow> bool" where
  "ntfs_determinable p \<longleftrightarrow>
     \<not> list_ex (\<lambda>u. un_layer u \<in> {UncertainLayer.Token, UncertainLayer.Ntfs, UncertainLayer.Target})
         (uncertainty p)"

definition share_determinable :: "EffectivePermission \<Rightarrow> bool" where
  "share_determinable p \<longleftrightarrow>
     \<not> list_ex (\<lambda>u. un_layer u \<in> {UncertainLayer.Token, UncertainLayer.Share, UncertainLayer.Target})
         (uncertainty p)"

definition effective_determinable :: "EffectivePermission \<Rightarrow> bool" where
  "effective_determinable p \<longleftrightarrow> uncertainty p = []"

definition synchronize_suffix :: "EffectivePermission \<Rightarrow> string option" where
  "synchronize_suffix p =
     (if list_ex (\<lambda>d. case d of SynchronizeNotGranted _ _ \<Rightarrow> True | _ \<Rightarrow> False) (ep_diagnostics p)
      then Some (''Explorer and most Windows programs get '' @ dquote @ ''access denied'' @ dquote
       @ '' here (SYNCHRONIZE not granted)'')
      else None)"

fun fold_max_masks :: "u32 \<Rightarrow> PermissionDiagnostic list \<Rightarrow> u32" where
  "fold_max_masks acc [] = acc"
| "fold_max_masks acc (d # ds) =
     (case d of LogonDependentTrustees _ _ max_mask \<Rightarrow> fold_max_masks (acc OR max_mask) ds
      | _ \<Rightarrow> fold_max_masks acc ds)"

definition effective_upper_bound :: "EffectivePermission \<Rightarrow> u32" where
  "effective_upper_bound p =
     (if uncertainty p = [] then ep_effective_mask p
      else
        (let ntfs_upper = fold_max_masks (ep_ntfs_mask p) (ep_diagnostics p);
             share_uncertain = list_ex (\<lambda>u. un_layer u \<in> {UncertainLayer.Share, UncertainLayer.Target})
               (uncertainty p);
             upper = (case (ep_share_status p, ep_share_mask p) of
                 (ShareEvalStatus.Applied, Some share) \<Rightarrow>
                   (if \<not> share_uncertain then ntfs_upper AND share else ntfs_upper)
               | _ \<Rightarrow> ntfs_upper)
         in upper OR ep_effective_mask p))"

definition dfs_marker :: "DfsEvaluation \<Rightarrow> PermissionDiagnostic" where
  "dfs_marker d = DfsTargetEvaluated (dfs_requested d) (dfs_target d) (dfs_folder d)
     (dfs_other_targets d) (dfs_other_targets_known d)"

declare summary.simps [simp del]

section \<open>The reason texts determine their layer\<close>

definition digit :: "char \<Rightarrow> bool" where
  "digit c \<longleftrightarrow> digit_val c \<noteq> None"

lemma dec_digits: "\<forall>c \<in> set (dec n). digit c"
proof -
  have "digit (digit_char d)" if "d < 10" for d
    using that by (auto simp: digit_def digit_val_def digit_char_def Let_def take_bit_eq_mod)
  then show ?thesis
    using digits_less [of 10] by (auto simp: dec_def)
qed

lemma dropWhile_dec [simp]: "dropWhile digit (dec n @ t) = dropWhile digit t"
  using dec_digits by (simp add: dropWhile_append2)

lemma dropWhile_nondigit [simp]: "\<not> digit c \<Longrightarrow> dropWhile digit (c # t) = c # t"
  by simp

definition word_layer :: "string \<Rightarrow> UncertainLayer" where
  "word_layer t =
     (if starts_with t '' share ACE'' \<or> starts_with t ''The share permissions'' then UncertainLayer.Share
      else if starts_with t '' NTFS ACE'' \<or> starts_with t ''ACE(s) for'' then UncertainLayer.Ntfs
      else if starts_with t ''The trust uses'' then UncertainLayer.Logon
      else if starts_with t ''DFS path'' then UncertainLayer.Target
      else UncertainLayer.Token)"

definition text_layer :: "string \<Rightarrow> UncertainLayer" where
  \<comment> \<open>The layer a reason text belongs to, read off its first words after a count.\<close>
  "text_layer s = word_layer (dropWhile digit s)"

lemma digit_chars [simp]:
  "\<not> digit (CHR '' '')" "\<not> digit (CHR ''A'')" "\<not> digit (CHR ''D'')" "\<not> digit (CHR ''G'')"
  "\<not> digit (CHR ''I'')" "\<not> digit (CHR ''L'')" "\<not> digit (CHR ''M'')" "\<not> digit (CHR ''R'')"
  "\<not> digit (CHR ''T'')"
  by (simp_all add: digit_def digit_val_def)

lemma word_layer_simps:
  "word_layer ('' share ACE'' @ t) = UncertainLayer.Share"
  "word_layer (''The share permissions'' @ t) = UncertainLayer.Share"
  "word_layer ('' NTFS ACE'' @ t) = UncertainLayer.Ntfs"
  "word_layer (''ACE(s) for'' @ t) = UncertainLayer.Ntfs"
  "word_layer (''The trust uses'' @ t) = UncertainLayer.Logon"
  "word_layer (''DFS path'' @ t) = UncertainLayer.Target"
  by (simp_all add: word_layer_def)

lemma text_layer_summary: "uncertain_layer d = Some layer \<Longrightarrow> text_layer (summary d) = layer"
  by (cases d) (auto simp: summary.simps text_layer_def word_layer_def split: if_splits)

lemma text_layer_status: "u \<in> set (status_uncertainty p) \<Longrightarrow> text_layer (un_reason u) = un_layer u"
  by (auto simp: status_uncertainty_def text_layer_def word_layer_def
      split: if_splits ShareEvalStatus.splits LocalGroupEvalStatus.splits)

section \<open>When a result is exact\<close>

definition marker_layers :: "PermissionDiagnostic list \<Rightarrow> UncertainLayer set" where
  "marker_layers ds = {layer. \<exists>d \<in> set ds. uncertain_layer d = Some layer}"

lemma marker_layers_simps [simp]:
  "marker_layers [] = {}"
  "marker_layers (d # ds) =
     (case uncertain_layer d of None \<Rightarrow> {} | Some layer \<Rightarrow> {layer}) \<union> marker_layers ds"
  "marker_layers (ds @ es) = marker_layers ds \<union> marker_layers es"
  by (auto simp: marker_layers_def split: option.splits)

lemma add_markers_layers:
  "\<forall>u \<in> set out. text_layer (un_reason u) = un_layer u \<Longrightarrow>
     un_layer ` set (add_markers out ds) = un_layer ` set out \<union> marker_layers ds"
proof (induction out ds rule: add_markers.induct)
  case (2 out d ds)
  show ?case
  proof (cases "uncertain_layer d")
    case None
    with 2 show ?thesis by simp
  next
    case (Some layer)
    then have reads: "text_layer (summary d) = layer" by (rule text_layer_summary)
    show ?thesis
    proof (cases "list_ex (\<lambda>u. un_reason u = summary d) out")
      case True
      then obtain u where "u \<in> set out" "un_reason u = summary d"
        by (auto simp: list_ex_iff)
      then have "layer \<in> un_layer ` set out"
        using "2.prems" reads by (metis image_eqI)
      with 2 Some True show ?thesis by auto
    next
      case False
      with 2 Some reads show ?thesis by auto
    qed
  qed
qed simp

lemma uncertainty_layers:
  "un_layer ` set (uncertainty p) =
     un_layer ` set (status_uncertainty p) \<union> marker_layers (ep_diagnostics p)"
  unfolding uncertainty_def by (rule add_markers_layers) (auto intro: text_layer_status)

lemma uncertainty_Nil_iff:
  "uncertainty p = [] \<longleftrightarrow> status_uncertainty p = [] \<and> marker_layers (ep_diagnostics p) = {}"
  using uncertainty_layers [of p] by auto

lemma list_ex_layer: "list_ex (\<lambda>u. un_layer u \<in> L) us \<longleftrightarrow> un_layer ` set us \<inter> L \<noteq> {}"
  by (auto simp: list_ex_iff)

lemma effective_determinable_imp:
  "effective_determinable p \<Longrightarrow> ntfs_determinable p \<and> share_determinable p"
  by (simp add: effective_determinable_def ntfs_determinable_def share_determinable_def)

lemma ntfs_determinable_iff:
  "ntfs_determinable p \<longleftrightarrow>
     (un_layer ` set (status_uncertainty p) \<union> marker_layers (ep_diagnostics p))
       \<inter> {UncertainLayer.Token, UncertainLayer.Ntfs, UncertainLayer.Target} = {}"
  unfolding ntfs_determinable_def list_ex_layer uncertainty_layers [symmetric] by simp

section \<open>The upper bound\<close>

lemma fold_max_masks_eq: "fold_max_masks acc ds = acc OR fold_max_masks 0 ds"
proof (induction ds arbitrary: acc)
  case (Cons d ds)
  show ?case
  proof (cases d)
    case (LogonDependentTrustees sids mi ma)
    have "fold_max_masks (acc OR ma) ds = (acc OR ma) OR fold_max_masks 0 ds"
      "fold_max_masks (0 OR ma) ds = (0 OR ma) OR fold_max_masks 0 ds"
      by (rule Cons.IH)+
    then show ?thesis by (simp add: LogonDependentTrustees or.assoc)
  qed (simp_all add: Cons.IH [symmetric])
qed simp

lemma fold_max_masks_within: "within acc (fold_max_masks acc ds)"
  by (subst fold_max_masks_eq) simp

lemma fold_max_masks_marker:
  "LogonDependentTrustees sids mi ma \<in> set ds \<Longrightarrow> within ma (fold_max_masks acc ds)"
proof (induction ds arbitrary: acc)
  case (Cons d ds)
  show ?case
  proof (cases "d = LogonDependentTrustees sids mi ma")
    case True
    then have "within (acc OR ma) (fold_max_masks acc (d # ds))"
      using fold_max_masks_within by simp
    then show ?thesis by (simp add: within_or_iff)
  next
    case False
    with Cons show ?thesis by (cases d) auto
  qed
qed simp

lemma effective_within_upper_bound: "within (ep_effective_mask p) (effective_upper_bound p)"
  by (simp add: effective_upper_bound_def Let_def)

lemma upper_bound_exact: "effective_determinable p \<Longrightarrow> effective_upper_bound p = ep_effective_mask p"
  by (simp add: effective_determinable_def effective_upper_bound_def)

section \<open>Properties\<close>

text \<open>A result names every part it cannot determine, and no other. The layers of its
  uncertainty list are exactly the layers of its markers and of its statuses (unread share,
  unavailable local groups, uninterpreted ACEs), although reasons with the same text are
  listed once; so the list is empty, and the result counts as determinable, exactly when no
  marker and no status makes a value uncertain.\<close>

theorem uncertainty_names_every_layer:
  "un_layer ` set (uncertainty p) =
     un_layer ` set (status_uncertainty p) \<union> {layer. \<exists>d \<in> set (ep_diagnostics p). uncertain_layer d = Some layer}
   \<and> (effective_determinable p \<longleftrightarrow> status_uncertainty p = []
        \<and> list_all (\<lambda>d. \<not> is_incompleteness_trigger d) (ep_diagnostics p))"
proof -
  have "marker_layers (ep_diagnostics p) = {} \<longleftrightarrow>
      list_all (\<lambda>d. \<not> is_incompleteness_trigger d) (ep_diagnostics p)"
    unfolding marker_layers_def is_incompleteness_trigger_def list_all_iff
    by (auto, metis option.exhaust)
  then show ?thesis
    by (simp add: uncertainty_layers marker_layers_def [symmetric] effective_determinable_def uncertainty_Nil_iff)
qed

end
