(* ===== verification/Membership.thy ===== *)
theory Membership
  imports Diagnostics "HOL-Library.Multiset"
begin

text \<open>
  The operations of \<open>crates/core/src/model.rs\<close> on identities and group memberships: the
  access context of a path, the markers for historical SIDs, the texts of a membership, and
  the reduction of a membership list to one entry per group (\<open>best_membership_per_group\<close>,
  \<open>merged_memberships_per_group\<close>). Unicode lower-casing is the parameter \<open>lc\<close>: its table
  belongs to the Unicode character database, and every lemma holds for any such function.
  The lemmas show that the reduction keeps every group once, in the order of first appearance,
  with a most informative entry, and that merging loses no route into a group.
\<close>

section \<open>Access context\<close>

definition for_path :: "string \<Rightarrow> AccessContext" where
  "for_path path =
     (case strip_prefix (bslash @ bslash @ ''?'' @ bslash) path of
        Some rest \<Rightarrow>
          (if starts_with rest (''UNC'' @ bslash) \<or> starts_with rest ''UNC/'' then RemoteSmb
           else LocalInteractive)
      | None \<Rightarrow> if starts_with path (bslash @ bslash) then RemoteSmb else LocalInteractive)"

definition non_empty :: "string option \<Rightarrow> bool" where
  "non_empty s = (case s of None \<Rightarrow> False | Some t \<Rightarrow> t \<noteq> [])"

definition for_path_with_smb :: "string \<Rightarrow> string option \<Rightarrow> string option \<Rightarrow> AccessContext" where
  "for_path_with_smb path smb_server share_name =
     (if non_empty smb_server \<or> non_empty share_name then RemoteSmb else for_path path)"

section \<open>Historical SIDs\<close>

definition sid_history_diagnostics :: "Identity \<Rightarrow> PermissionDiagnostic list" where
  "sid_history_diagnostics i =
     (let evaluated = length (id_sid_history i);
          unevaluated = id_sid_history_count i - evaluated
      in (if 0 < evaluated then [SidHistoryEvaluated evaluated] else [])
       @ (if 0 < unevaluated then [SidHistoryPresent unevaluated] else []))"

fun group_history_loop ::
  "Sid set \<Rightarrow> nat \<Rightarrow> nat \<Rightarrow> nat \<Rightarrow> GroupMembership list \<Rightarrow> nat \<times> nat \<times> nat" where
  \<comment> \<open>Arguments: groups seen, then the counters \<open>groups\<close>, \<open>evaluated\<close>, \<open>unevaluated\<close>.\<close>
  "group_history_loop seen groups evaluated unevaluated [] = (groups, evaluated, unevaluated)"
| "group_history_loop seen groups evaluated unevaluated (gm # gms) =
     (if gm_group_sid gm \<in> seen then group_history_loop seen groups evaluated unevaluated gms
      else if gm_group_sid_history_count gm = 0 then
        group_history_loop (insert (gm_group_sid gm) seen) groups evaluated unevaluated gms
      else
        (let parsed = length (gm_group_sid_history gm);
             unevaluated' = unevaluated + (gm_group_sid_history_count gm - parsed)
         in if 0 < parsed then
              group_history_loop (insert (gm_group_sid gm) seen) (groups + 1) (evaluated + parsed)
                unevaluated' gms
            else
              group_history_loop (insert (gm_group_sid gm) seen) groups evaluated unevaluated' gms))"

definition group_sid_history_diagnostics :: "GroupMembership list \<Rightarrow> PermissionDiagnostic list" where
  "group_sid_history_diagnostics memberships =
     (let (groups, evaluated, unevaluated) = group_history_loop {} 0 0 0 memberships
      in (if 0 < evaluated then [GroupSidHistoryEvaluated groups evaluated] else [])
       @ (if 0 < unevaluated then [GroupSidHistoryPresent unevaluated] else []))"

section \<open>Texts of a membership\<close>

definition named :: "string option \<Rightarrow> string option" where
  \<comment> \<open>\<open>filter(|n| !n.is_empty())\<close>.\<close>
  "named n = (case n of None \<Rightarrow> None | Some t \<Rightarrow> if t = [] then None else Some t)"

definition hop_display :: "MembershipHop \<Rightarrow> string" where
  "hop_display h =
     (case named (mh_name h) of
        Some name \<Rightarrow> name @ '' ('' @ mh_sid h @ '')''
      | None \<Rightarrow> mh_sid h)"

definition ALSO_VIA_DISPLAY_LIMIT :: nat where
  "ALSO_VIA_DISPLAY_LIMIT = 5"

definition format_also_via :: "MembershipHop list \<Rightarrow> string option" where
  "format_also_via also_via =
     (if also_via = [] then None
      else Some (join '', '' (map hop_display (take ALSO_VIA_DISPLAY_LIMIT also_via))
        @ (if length also_via > ALSO_VIA_DISPLAY_LIMIT
           then '' (+'' @ dec (length also_via - ALSO_VIA_DISPLAY_LIMIT) @ '' more)'' else [])))"

definition informativeness_rank :: "GroupMembership \<Rightarrow> bool \<times> bool \<times> nat \<times> bool" where
  "informativeness_rank gm =
     (let (complete, resolved_names) =
        (case gm_path gm of
           Some p \<Rightarrow> (mp_complete p, length (filter is_some (mp_names p)))
         | None \<Rightarrow> (False, 0))
      in (gm_direct gm, complete, resolved_names, is_some (gm_group_name gm)))"

definition nth_opt :: "'a list \<Rightarrow> nat \<Rightarrow> 'a option" where
  \<comment> \<open>\<open>slice::get\<close>.\<close>
  "nth_opt xs i = (if i < length xs then Some (xs ! i) else None)"

definition nth_flat :: "'a option list \<Rightarrow> nat \<Rightarrow> 'a option" where
  \<comment> \<open>\<open>get(i).cloned().flatten()\<close>.\<close>
  "nth_flat xs i = (case nth_opt xs i of Some x \<Rightarrow> x | None \<Rightarrow> None)"

definition origin_label_base :: "GroupMembership \<Rightarrow> string" where
  "origin_label_base gm =
     (case gm_path gm of
        Some p \<Rightarrow>
          (case mp_source p of
             PrimaryGroup \<Rightarrow> ''primary group''
           | LocalGroup \<Rightarrow> ''local group''
           | AccountType \<Rightarrow> ''added by Windows for every local account''
           | TrustedDomainLogon \<Rightarrow> ''added by Windows for an account of a trusted domain''
           | _ \<Rightarrow>
               (if gm_direct gm then ''direct''
                else (let chain = map (\<lambda>(i, sid). case nth_flat (mp_names p) i of
                            Some n \<Rightarrow> n | None \<Rightarrow> sid) (index_from 0 (mp_nodes p));
                          arrow = join ('' '' @ right_arrow @ '' '') chain
                      in if mp_complete p then ''via '' @ arrow
                         else ''via '' @ arrow @ '' (chain not fully reconstructed)'')))
      | None \<Rightarrow> if gm_direct gm then ''direct'' else ''nested'')"

definition origin_label :: "GroupMembership \<Rightarrow> string" where
  "origin_label gm =
     (case (case gm_path gm of Some p \<Rightarrow> format_also_via (mp_also_via p) | None \<Rightarrow> None) of
        Some also \<Rightarrow> origin_label_base gm @ ''; also a member through '' @ also
      | None \<Rightarrow> origin_label_base gm)"

section \<open>One entry per group\<close>

fun best_loop :: "Sid list \<Rightarrow> (Sid \<rightharpoonup> GroupMembership) \<Rightarrow> GroupMembership list \<Rightarrow> GroupMembership list" where
  "best_loop order best [] = filter_map best order"
| "best_loop order best (m # ms) =
     (let key = gm_group_sid m
      in case best key of
           None \<Rightarrow> best_loop (order @ [key]) (best(key \<mapsto> m)) ms
         | Some existing \<Rightarrow>
             (if informativeness_rank existing < informativeness_rank m
              then best_loop order (best(key \<mapsto> m)) ms
              else best_loop order best ms))"

definition best_membership_per_group :: "GroupMembership list \<Rightarrow> GroupMembership list" where
  "best_membership_per_group memberships = best_loop [] Map.empty memberships"

definition last_hop :: "MembershipPath \<Rightarrow> Sid option" where
  "last_hop path =
     (if 2 \<le> length (mp_nodes path) then nth_opt (mp_nodes path) (length (mp_nodes path) - 2)
      else None)"

definition other_hops :: "Sid option \<Rightarrow> GroupMembership \<Rightarrow> MembershipHop list" where
  \<comment> \<open>What one entry for the group adds to \<open>extra\<close>.\<close>
  "other_hops kept_last_hop other =
     (case gm_path other of
        None \<Rightarrow> []
      | Some other_path \<Rightarrow>
          (if 3 \<le> length (mp_nodes other_path) then
             (let i = length (mp_nodes other_path) - 2;
                  hop = mp_nodes other_path ! i
              in if Some hop \<noteq> kept_last_hop \<and> hop \<noteq> gm_member_sid other
                 then [\<lparr>mh_sid = hop, mh_name = nth_flat (mp_names other_path) i\<rparr>] else [])
           else [])
          @ mp_also_via other_path)"

fun merge_hop :: "MembershipHop list \<Rightarrow> MembershipHop \<Rightarrow> MembershipHop list" where
  \<comment> \<open>\<open>by_sid\<close>: one hop per SID, a missing name taken from a later occurrence.\<close>
  "merge_hop [] hop = [hop]"
| "merge_hop (h # hs) hop =
     (if mh_sid h = mh_sid hop
      then (if mh_name h = None then h\<lparr>mh_name := mh_name hop\<rparr> else h) # hs
      else h # merge_hop hs hop)"

fun merge_hops :: "Sid option \<Rightarrow> MembershipHop list \<Rightarrow> MembershipHop list \<Rightarrow> MembershipHop list" where
  "merge_hops kept_last_hop by_sid [] = by_sid"
| "merge_hops kept_last_hop by_sid (hop # hops) =
     (if Some (mh_sid hop) = kept_last_hop then merge_hops kept_last_hop by_sid hops
      else merge_hops kept_last_hop (merge_hop by_sid hop) hops)"

definition hop_key :: "(string \<Rightarrow> string) \<Rightarrow> MembershipHop \<Rightarrow> string \<times> string" where
  "hop_key lc h = (lc (case mh_name h of None \<Rightarrow> [] | Some n \<Rightarrow> n), mh_sid h)"

definition merge_entry ::
  "(string \<Rightarrow> string) \<Rightarrow> GroupMembership list \<Rightarrow> GroupMembership \<Rightarrow> GroupMembership" where
  "merge_entry lc memberships kept =
     (case gm_path kept of
        None \<Rightarrow> kept
      | Some path \<Rightarrow>
          (let kept_last_hop = last_hop path;
               extra = concat (map (other_hops kept_last_hop)
                 (filter (\<lambda>m. gm_group_sid m = gm_group_sid kept) memberships))
           in if extra = [] then kept
              else (let by_sid = sort_key mh_sid (merge_hops kept_last_hop [] (mp_also_via path @ extra))
                    in kept\<lparr>gm_path := Some (path\<lparr>mp_also_via := sort_key (hop_key lc) by_sid\<rparr>)\<rparr>)))"

definition merged_memberships_per_group ::
  "(string \<Rightarrow> string) \<Rightarrow> GroupMembership list \<Rightarrow> GroupMembership list" where
  "merged_memberships_per_group lc memberships =
     map (merge_entry lc memberships) (best_membership_per_group memberships)"

section \<open>Privileged groups, members and account status\<close>

definition privileged_group_role :: "Sid \<Rightarrow> string option" where
  "privileged_group_role sid =
     (if sid = ''S-1-5-32-544'' then Some ''Administrators''
      else if sid = ''S-1-5-32-548'' then Some ''Account Operators''
      else if sid = ''S-1-5-32-549'' then Some ''Server Operators''
      else if sid = ''S-1-5-32-550'' then Some ''Print Operators''
      else if sid = ''S-1-5-32-551'' then Some ''Backup Operators''
      else (case strip_prefix ''S-1-5-21-'' sid of
          None \<Rightarrow> None
        | Some rest \<Rightarrow>
            (let rid = last (split_on (CHR ''-'') rest)
             in if rid = ''512'' then Some ''Domain Admins''
                else if rid = ''519'' then Some ''Enterprise Admins''
                else if rid = ''518'' then Some ''Schema Admins''
                else if rid = ''520'' then Some ''Group Policy Creator Owners''
                else if rid = ''526'' then Some ''Key Admins''
                else if rid = ''527'' then Some ''Enterprise Key Admins''
                else None)))"

record MembershipReport =
  mr_identity :: Identity
  mr_ad_connected :: bool
  mr_memberships :: "GroupMembership list"
  mr_diagnostics :: "PermissionDiagnostic list"

definition privileged :: "MembershipReport \<Rightarrow> (Sid \<times> string) list" where
  "privileged r = filter_map (\<lambda>m. map_option (Pair (gm_group_sid m))
     (privileged_group_role (gm_group_sid m))) (mr_memberships r)"

datatype MemberVia = Direct | PrimaryGroup

primrec via_label :: "MemberVia \<Rightarrow> string" where
  "via_label Direct = ''direct''"
| "via_label MemberVia.PrimaryGroup = ''via primaryGroupID''"

datatype MemberNode =
  MemberNode (mn_identity: Identity) (mn_via: MemberVia) (mn_children: "MemberNode list")

record GroupMembersReport =
  gr_group :: Identity
  gr_members :: "MemberNode list"
  gr_diagnostics :: "PermissionDiagnostic list"

definition direct_counts :: "GroupMembersReport \<Rightarrow> nat \<times> nat" where
  "direct_counts r =
     (length (gr_members r), length (filter (\<lambda>m. mn_via m = MemberVia.PrimaryGroup) (gr_members r)))"

definition privileged_members :: "GroupMembersReport \<Rightarrow> (Sid \<times> string) list" where
  "privileged_members r = filter_map (\<lambda>m. map_option (Pair (id_sid (mn_identity m)))
     (privileged_group_role (id_sid (mn_identity m)))) (gr_members r)"

primrec kind_debug :: "IdentityKind \<Rightarrow> string" where
  \<comment> \<open>The derived \<open>Debug\<close> text.\<close>
  "kind_debug User = ''User''"
| "kind_debug Group = ''Group''"
| "kind_debug Computer = ''Computer''"
| "kind_debug WellKnown = ''WellKnown''"
| "kind_debug ForeignSecurityPrincipal = ''ForeignSecurityPrincipal''"
| "kind_debug Orphaned = ''Orphaned''"
| "kind_debug IdentityKind.Unknown = ''Unknown''"

definition display_or_sid :: "Identity \<Rightarrow> string" where
  "display_or_sid i = (case id_name i of Some n \<Rightarrow> n | None \<Rightarrow> id_sid i)"

definition members_view_rejection :: "Identity \<Rightarrow> string option" where
  "members_view_rejection i =
     (case id_kind i of
        Group \<Rightarrow> None
      | IdentityKind.Unknown \<Rightarrow>
          Some (squote @ display_or_sid i @ squote @ '' could not be resolved as a group in the directory.'')
      | Orphaned \<Rightarrow>
          Some (squote @ display_or_sid i @ squote @ '' could not be resolved as a group in the directory.'')
      | kind \<Rightarrow>
          Some (squote @ display_or_sid i @ squote @ '' is a '' @ kind_debug kind @ '', not a group ''
       @ em_dash @ '' the members view only applies to groups.''))"

definition status_unknown_marker :: "PermissionDiagnostic \<Rightarrow> bool" where
  "status_unknown_marker d =
     (case d of IdentityDisabledStatusUnknown \<Rightarrow> True | IdentityNotResolvable _ \<Rightarrow> True
      | IdentityLookupFailed _ \<Rightarrow> True | _ \<Rightarrow> False)"

definition account_status_of :: "Identity \<Rightarrow> PermissionDiagnostic list \<Rightarrow> AccountStatus" where
  "account_status_of i diagnostics =
     (if id_kind i = Orphaned then DoesNotExist
      else if id_kind i = Group \<or> id_kind i = WellKnown then NotAnAccount
      else if id_kind i = IdentityKind.Unknown then AccountStatus.Unknown
      else if list_ex status_unknown_marker diagnostics then AccountStatus.Unknown
      else if id_disabled i then Disabled else Active)"

primrec status_label :: "AccountStatus \<Rightarrow> string" where
  "status_label Active = ''Active''"
| "status_label Disabled = ''DISABLED''"
| "status_label AccountStatus.Unknown = ''unknown (could not be determined)''"
| "status_label NotAnAccount = ''n/a (not an account)''"
| "status_label DoesNotExist = ''does not exist (orphaned SID)''"

primrec csv_value :: "AccountStatus \<Rightarrow> string" where
  "csv_value Active = ''false''"
| "csv_value Disabled = ''true''"
| "csv_value AccountStatus.Unknown = ''unknown''"
| "csv_value NotAnAccount = ''n/a''"
| "csv_value DoesNotExist = ''n/a''"

section \<open>The reduction keeps every group and a most informative entry\<close>

lemma filter_map_keys:
  "\<forall>k \<in> set order. best k \<noteq> None \<Longrightarrow> \<forall>k v. best k = Some v \<longrightarrow> gm_group_sid v = k \<Longrightarrow>
     map gm_group_sid (filter_map best order) = order"
  by (induction order) auto

lemma filter_not_in_snoc:
  "filter (\<lambda>k. k \<notin> set (order @ [x])) ks = filter (\<lambda>k. k \<notin> set order) (filter (\<lambda>k. k \<noteq> x) ks)"
  by (auto intro: filter_cong)

lemma filter_old:
  "x \<in> set order \<Longrightarrow> filter (\<lambda>k. k \<notin> set order) (filter (\<lambda>k. k \<noteq> x) ks) = filter (\<lambda>k. k \<notin> set order) ks"
  by (auto intro: filter_cong)

lemma best_loop_sids:
  assumes "dom best = set order" and "\<forall>k v. best k = Some v \<longrightarrow> gm_group_sid v = k"
  shows "map gm_group_sid (best_loop order best ms) =
    order @ filter (\<lambda>k. k \<notin> set order) (firsts (map gm_group_sid ms))"
  using assms
proof (induction ms arbitrary: order best)
  case Nil
  then have "\<forall>k \<in> set order. best k \<noteq> None" by auto
  then show ?case using Nil.prems(2) filter_map_keys by simp
next
  case (Cons m ms)
  let ?k = "gm_group_sid m"
  let ?rest = "firsts (map gm_group_sid ms)"
  have keys: "\<forall>k v. (best(?k \<mapsto> m)) k = Some v \<longrightarrow> gm_group_sid v = k"
    using Cons.prems(2) by simp
  show ?case
  proof (cases "best ?k")
    case None
    then have new: "?k \<notin> set order" using Cons.prems(1) by auto
    have "dom (best(?k \<mapsto> m)) = set (order @ [?k])" using Cons.prems(1) by simp
    then have "map gm_group_sid (best_loop (order @ [?k]) (best(?k \<mapsto> m)) ms) =
        (order @ [?k]) @ filter (\<lambda>k. k \<notin> set (order @ [?k])) ?rest"
      using keys by (rule Cons.IH)
    with None new show ?thesis
      unfolding filter_not_in_snoc by (simp add: Let_def)
  next
    case (Some v)
    then have old: "?k \<in> set order" using Cons.prems(1) by auto
    then have "dom (best(?k \<mapsto> m)) = set order" using Cons.prems(1) by auto
    then have "map gm_group_sid (best_loop order (best(?k \<mapsto> m)) ms) =
        order @ filter (\<lambda>k. k \<notin> set order) ?rest"
      using keys by (rule Cons.IH)
    moreover have "map gm_group_sid (best_loop order best ms) =
        order @ filter (\<lambda>k. k \<notin> set order) ?rest"
      using Cons.prems by (rule Cons.IH)
    ultimately show ?thesis using Some old filter_old [OF old] by (simp add: Let_def)
  qed
qed

lemma best_membership_sids:
  "map gm_group_sid (best_membership_per_group ms) = firsts (map gm_group_sid ms)"
  using best_loop_sids [of Map.empty "[]"] by (simp add: best_membership_per_group_def)

lemma best_loop_max:
  assumes "\<forall>k v. best k = Some v \<longrightarrow> gm_group_sid v = k" and "e \<in> set (best_loop order best ms)"
  shows "(e \<in> ran best \<union> set ms)
    \<and> (\<forall>m \<in> set ms. gm_group_sid m = gm_group_sid e \<longrightarrow> informativeness_rank m \<le> informativeness_rank e)
    \<and> (\<forall>v. best (gm_group_sid e) = Some v \<longrightarrow> informativeness_rank v \<le> informativeness_rank e)"
  using assms
proof (induction ms arbitrary: order best)
  case Nil
  then show ?case by (auto simp: set_filter_map ran_def)
next
  case (Cons m ms)
  let ?k = "gm_group_sid m"
  let ?best = "best(?k \<mapsto> m)"
  have keys: "\<forall>k v. ?best k = Some v \<longrightarrow> gm_group_sid v = k"
    using Cons.prems(1) by auto
  have ran: "ran ?best \<subseteq> insert m (ran best)" by (auto simp: ran_def)
  show ?case
  proof (cases "best ?k")
    case None
    then have "e \<in> set (best_loop (order @ [?k]) ?best ms)" using Cons.prems(2) by (simp add: Let_def)
    note ih = Cons.IH [OF keys this]
    from ih ran have "e \<in> ran best \<union> set (m # ms)" unfolding list.set by blast
    moreover from ih have "gm_group_sid m = gm_group_sid e \<Longrightarrow> informativeness_rank m \<le> informativeness_rank e"
      by simp
    ultimately show ?thesis using ih None by (auto simp del: Un_iff split: if_splits)
  next
    case (Some v)
    show ?thesis
    proof (cases "informativeness_rank v < informativeness_rank m")
      case True
      then have "e \<in> set (best_loop order ?best ms)"
        using Cons.prems(2) Some by (simp add: Let_def)
      note ih = Cons.IH [OF keys this]
      from ih ran have "e \<in> ran best \<union> set (m # ms)" unfolding list.set by blast
      moreover from ih have "gm_group_sid m = gm_group_sid e \<Longrightarrow> informativeness_rank m \<le> informativeness_rank e"
        by simp
      ultimately show ?thesis using ih Some True by (auto simp del: Un_iff split: if_splits)
    next
      case False
      then have "e \<in> set (best_loop order best ms)" using Cons.prems(2) Some by (simp add: Let_def)
      note ih = Cons.IH [OF Cons.prems(1) this]
      from ih Some False show ?thesis by auto
    qed
  qed
qed

lemma best_membership_max:
  assumes "e \<in> set (best_membership_per_group ms)"
  shows "e \<in> set ms"
    and "m \<in> set ms \<Longrightarrow> gm_group_sid m = gm_group_sid e \<Longrightarrow> informativeness_rank m \<le> informativeness_rank e"
  using best_loop_max [of Map.empty e "[]" ms] assms
  by (auto simp: best_membership_per_group_def)

section \<open>Merging loses no route\<close>

lemma merge_hop_sids: "mh_sid ` set (merge_hop hs h) = insert (mh_sid h) (mh_sid ` set hs)"
  by (induction hs h rule: merge_hop.induct) auto

lemma merge_hop_distinct: "distinct (map mh_sid hs) \<Longrightarrow> distinct (map mh_sid (merge_hop hs h))"
proof (induction hs h rule: merge_hop.induct)
  case (2 x hs h)
  then show ?case
    using merge_hop_sids [of hs h] by (auto simp: image_iff)
qed simp

lemma merge_hops_sids:
  "mh_sid ` set (merge_hops klh by_sid hops) =
     mh_sid ` set by_sid \<union> {s \<in> mh_sid ` set hops. Some s \<noteq> klh}"
  by (induction klh by_sid hops rule: merge_hops.induct) (auto simp: merge_hop_sids)

lemma merge_hops_distinct:
  "distinct (map mh_sid by_sid) \<Longrightarrow> distinct (map mh_sid (merge_hops klh by_sid hops))"
  by (induction klh by_sid hops rule: merge_hops.induct) (auto simp: merge_hop_distinct)

lemma distinct_map_sort_key: "distinct (map f (sort_key g xs)) = distinct (map f xs)"
proof -
  have "mset (map f (sort_key g xs)) = mset (map f xs)" by simp
  then show ?thesis by (rule mset_eq_imp_distinct_iff)
qed

lemma merge_entry_group [simp]: "gm_group_sid (merge_entry lc ms e) = gm_group_sid e"
  by (simp add: merge_entry_def Let_def split: option.split)

lemma merged_memberships_sids:
  "map gm_group_sid (merged_memberships_per_group lc ms) = firsts (map gm_group_sid ms)"
  using best_membership_sids [of ms] by (simp add: merged_memberships_per_group_def comp_def)

definition entry_routes :: "Sid option \<Rightarrow> GroupMembership \<Rightarrow> Sid set" where
  \<comment> \<open>The groups through which one source says the identity enters the group, besides the
    hop that is already shown.\<close>
  "entry_routes shown m = {s \<in> mh_sid ` set (other_hops shown m). Some s \<noteq> shown}"

lemma merge_entry_also_via:
  assumes "gm_path e = Some path" and "e \<in> set ms"
  obtains path' where "gm_path (merge_entry lc ms e) = Some path'"
    and "mp_nodes path' = mp_nodes path"
    and "mh_sid ` set (mp_also_via path') =
      (\<Union>m \<in> {m \<in> set ms. gm_group_sid m = gm_group_sid e}. entry_routes (last_hop path) m)"
    and "distinct (map mh_sid (mp_also_via path'))"
    and "sorted (map (hop_key lc) (mp_also_via path'))"
proof -
  let ?ms = "filter (\<lambda>m. gm_group_sid m = gm_group_sid e) ms"
  let ?extra = "concat (map (other_hops (last_hop path)) ?ms)"
  have own: "set (mp_also_via path) \<subseteq> set ?extra"
    using assms by (auto simp: other_hops_def intro!: bexI [of _ e])
  have routes: "{s \<in> mh_sid ` set ?extra. Some s \<noteq> last_hop path} =
      (\<Union>m \<in> {m \<in> set ms. gm_group_sid m = gm_group_sid e}. entry_routes (last_hop path) m)"
    by (auto simp: entry_routes_def)
  show thesis
  proof (cases "?extra = []")
    case True
    with own have "mp_also_via path = []" by simp
    moreover have "merge_entry lc ms e = e"
      using True assms(1) by (simp add: merge_entry_def Let_def)
    ultimately show thesis using that [of path] assms(1) routes True by simp
  next
    case False
    let ?hops = "sort_key (hop_key lc) (sort_key mh_sid
        (merge_hops (last_hop path) [] (mp_also_via path @ ?extra)))"
    have "gm_path (merge_entry lc ms e) = Some (path\<lparr>mp_also_via := ?hops\<rparr>)"
      using False assms(1) by (simp add: merge_entry_def Let_def del: concat_eq_Nil_conv)
    moreover have "mh_sid ` set ?hops = {s \<in> mh_sid ` set ?extra. Some s \<noteq> last_hop path}"
      using own by (auto simp: merge_hops_sids)
    moreover have "distinct (map mh_sid ?hops)"
      by (simp add: distinct_map_sort_key merge_hops_distinct)
    ultimately show thesis
      using that [of "path\<lparr>mp_also_via := ?hops\<rparr>"] routes by simp
  qed
qed

section \<open>Properties\<close>

definition most_informative :: "GroupMembership list \<Rightarrow> GroupMembership \<Rightarrow> bool" where
  \<comment> \<open>An entry of the list that ranks at least as high as every entry for its group.\<close>
  "most_informative ms e \<longleftrightarrow> e \<in> set ms \<and>
     list_all (\<lambda>m. gm_group_sid m = gm_group_sid e \<longrightarrow> informativeness_rank m \<le> informativeness_rank e) ms"

text \<open>The membership list of a result names every group exactly once, in the order in which
  the groups first appear, and the entry kept for a group is a most informative one of the
  given list (direct before nested, then a complete route, then more resolved names, then a
  known group name).\<close>

theorem reduction_keeps_every_group:
  "map gm_group_sid (merged_memberships_per_group lc ms) = firsts (map gm_group_sid ms)
   \<and> list_all (most_informative ms) (best_membership_per_group ms)"
  using merged_memberships_sids best_membership_max [of _ ms]
  by (auto simp: list_all_iff most_informative_def)

text \<open>Merging loses no route into a group. The entry shown for a group keeps its own chain,
  and its list of other ways in holds, once each and in display order, exactly the groups
  through which any source says the identity is a member: the last intermediate group of every
  other chain and every way in a source had already merged, except the one the shown chain
  itself ends with.\<close>

theorem merging_loses_no_route:
  assumes "e \<in> set (best_membership_per_group ms)" and "gm_path e = Some path"
  shows "\<exists>shown. gm_path (merge_entry lc ms e) = Some shown
    \<and> mp_nodes shown = mp_nodes path
    \<and> mh_sid ` set (mp_also_via shown) =
        (\<Union>m \<in> {m \<in> set ms. gm_group_sid m = gm_group_sid e}. entry_routes (last_hop path) m)
    \<and> distinct (map mh_sid (mp_also_via shown))
    \<and> sorted (map (hop_key lc) (mp_also_via shown))"
  by (rule merge_entry_also_via [OF assms(2) best_membership_max(1) [OF assms(1)], of lc])
    (intro exI conjI)

definition sample_path :: "Sid list \<Rightarrow> MembershipPath" where
  "sample_path chain = \<lparr>mp_nodes = chain, mp_names = [], mp_source = DomainGroup,
     mp_complete = True, mp_also_via = []\<rparr>"

definition sample_membership :: "Sid list \<Rightarrow> GroupMembership" where
  "sample_membership chain = \<lparr>gm_member_sid = hd chain, gm_group_sid = last chain, gm_direct = False,
     gm_group_name = None, gm_path = Some (sample_path chain),
     gm_group_sid_history_count = 0, gm_group_sid_history = []\<rparr>"

definition sample_memberships :: "GroupMembership list" where
  "sample_memberships = [sample_membership [''u'', ''a'', ''g''], sample_membership [''u'', ''b'', ''g'']]"

lemma merging_loses_no_route_witness:
  "\<exists>shown. gm_path (merge_entry (\<lambda>s. s) sample_memberships (sample_membership [''u'', ''a'', ''g''])) = Some shown
    \<and> mp_nodes shown = mp_nodes (sample_path [''u'', ''a'', ''g''])
    \<and> mh_sid ` set (mp_also_via shown) =
        (\<Union>m \<in> {m \<in> set sample_memberships. gm_group_sid m = gm_group_sid (sample_membership [''u'', ''a'', ''g''])}.
           entry_routes (last_hop (sample_path [''u'', ''a'', ''g''])) m)
    \<and> distinct (map mh_sid (mp_also_via shown))
    \<and> sorted (map (hop_key (\<lambda>s. s)) (mp_also_via shown))"
proof (rule merging_loses_no_route)
  have "informativeness_rank (sample_membership c) = (False, True, 0, False)" for c
    by (simp add: informativeness_rank_def sample_membership_def sample_path_def)
  moreover have "gm_group_sid (sample_membership c) = last c" for c
    by (simp add: sample_membership_def)
  ultimately show "sample_membership [''u'', ''a'', ''g''] \<in> set (best_membership_per_group sample_memberships)"
    by (simp add: best_membership_per_group_def sample_memberships_def Let_def)
  show "gm_path (sample_membership [''u'', ''a'', ''g'']) = Some (sample_path [''u'', ''a'', ''g''])"
    by (simp add: sample_membership_def)
qed

end
