(* ===== verification/Token.thy ===== *)
theory Token
  imports Membership
begin

text \<open>
  The token part of \<open>crates/permission_engine/src/engine.rs\<close>: which SIDs the access token of
  an identity certainly holds, which it may hold, which User Account Control turns deny-only,
  and which local groups of a server an account is in. A \<open>HashSet<String>\<close> is a set of
  strings. The lemmas describe the token element by element, show that the local-group
  expansion is the closure Windows computes and does not depend on the enumeration order of
  the server, and give the decision tables of remote and local User Account Control.
\<close>

section \<open>Well-known SIDs\<close>

definition SID_EVERYONE :: Sid where [sid_consts]: "SID_EVERYONE = ''S-1-1-0''"
definition SID_AUTHENTICATED_USERS :: Sid where [sid_consts]: "SID_AUTHENTICATED_USERS = ''S-1-5-11''"
definition SID_ANONYMOUS_LOGON :: Sid where [sid_consts]: "SID_ANONYMOUS_LOGON = ''S-1-5-7''"
definition SID_CRYPTOGRAPHIC_OPERATORS :: Sid where
  [sid_consts]: "SID_CRYPTOGRAPHIC_OPERATORS = ''S-1-5-32-569''"
definition SID_LOCAL_ACCOUNT_AND_ADMIN :: Sid where
  [sid_consts]: "SID_LOCAL_ACCOUNT_AND_ADMIN = ''S-1-5-114''"
definition SID_OWNER_RIGHTS :: Sid where [sid_consts]: "SID_OWNER_RIGHTS = ''S-1-3-4''"
definition SID_THIS_ORGANIZATION :: Sid where [sid_consts]: "SID_THIS_ORGANIZATION = ''S-1-5-15''"
definition SID_OTHER_ORGANIZATION :: Sid where [sid_consts]: "SID_OTHER_ORGANIZATION = ''S-1-5-1000''"

definition UAC_FILTERED_BUILTIN_GROUPS :: "string list" where
  "UAC_FILTERED_BUILTIN_GROUPS =
     [''S-1-5-32-544'', ''S-1-5-32-547'', ''S-1-5-32-548'', ''S-1-5-32-549'',
      ''S-1-5-32-550'', ''S-1-5-32-551'', ''S-1-5-32-554'', ''S-1-5-32-556'']"

definition UAC_FILTERED_DOMAIN_RIDS :: "nat list" where
  "UAC_FILTERED_DOMAIN_RIDS = [498, 512, 516, 517, 518, 519, 520, 521]"

definition domain_rid :: "string \<Rightarrow> (string \<times> string) option" where
  \<comment> \<open>\<open>strip_prefix(...).and_then(rsplit_once)\<close>: the domain part and the RID of an account SID.\<close>
  "domain_rid sid =
     (case strip_prefix ''S-1-5-21-'' sid of None \<Rightarrow> None | Some rest \<Rightarrow> rsplit_once (CHR ''-'') rest)"

definition is_guest_account :: "string \<Rightarrow> bool" where
  "is_guest_account sid =
     (case domain_rid sid of None \<Rightarrow> False
      | Some (domain, rid) \<Rightarrow> rid = ''501'' \<and> length (split_on (CHR ''-'') domain) = 3)"

definition identity_absent_well_knowns :: "string \<Rightarrow> string list" where
  "identity_absent_well_knowns user_sid =
     (if user_sid = SID_ANONYMOUS_LOGON \<or> is_guest_account user_sid then [SID_AUTHENTICATED_USERS]
      else [])"

definition identity_uncertain_well_knowns :: "string \<Rightarrow> string list" where
  "identity_uncertain_well_knowns user_sid =
     (if user_sid = SID_ANONYMOUS_LOGON then [SID_EVERYONE] else [])"

definition uncertain_well_knowns_with :: "string \<Rightarrow> bool option \<Rightarrow> string list" where
  "uncertain_well_knowns_with user_sid anonymous_everyone =
     (if user_sid = SID_ANONYMOUS_LOGON \<and> is_some anonymous_everyone then []
      else identity_uncertain_well_knowns user_sid)"

definition anonymous_gets_everyone :: "string \<Rightarrow> bool option \<Rightarrow> bool" where
  "anonymous_gets_everyone user_sid anonymous_everyone \<longleftrightarrow>
     user_sid = SID_ANONYMOUS_LOGON \<and> anonymous_everyone = Some True"

definition anonymous_everyone :: "PolicyDword \<Rightarrow> bool option" where
  "anonymous_everyone value =
     (case value of
        Absent \<Rightarrow> Some False
      | Value n \<Rightarrow> (if n = 0 then Some False else if n = 1 then Some True else None)
      | Unreadable _ \<Rightarrow> None)"

section \<open>Token construction\<close>

definition context_sids :: "AccessContext \<Rightarrow> Sid set" where
  "context_sids ctx =
     (case ctx of RemoteSmb \<Rightarrow> {''S-1-5-2''} | LocalInteractive \<Rightarrow> {''S-1-5-4''} | Unspecified \<Rightarrow> {})"

fun insert_memberships :: "Sid set \<Rightarrow> GroupMembership list \<Rightarrow> Sid set" where
  "insert_memberships sids [] = sids"
| "insert_memberships sids (gm # gms) =
     insert_memberships (insert (gm_group_sid gm) sids \<union> set (gm_group_sid_history gm)) gms"

definition build_token_sids_with_context ::
  "string \<Rightarrow> Sid list \<Rightarrow> GroupMembership list \<Rightarrow> Sid list \<Rightarrow> AccessContext \<Rightarrow> Sid set" where
  "build_token_sids_with_context user_sid sid_history memberships local_group_sids access_context =
     (let sids = insert user_sid {};
          sids = sids \<union> set sid_history;
          sids = insert_memberships sids memberships;
          sids = sids \<union> set local_group_sids;
          uncertain_well_knowns = identity_uncertain_well_knowns user_sid;
          absent_well_knowns = identity_absent_well_knowns user_sid;
          sids = sids \<union> set (filter (\<lambda>well_known. well_known \<notin> set uncertain_well_knowns \<and>
            well_known \<notin> set absent_well_knowns) [SID_EVERYONE, SID_AUTHENTICATED_USERS])
      in sids \<union> context_sids access_context)"

definition build_token_sids :: "string \<Rightarrow> GroupMembership list \<Rightarrow> Sid set" where
  "build_token_sids user_sid memberships =
     build_token_sids_with_context user_sid [] memberships [] Unspecified"

definition collect_user_sids ::
  "Identity \<Rightarrow> GroupMembership list \<Rightarrow> Sid list \<Rightarrow> AccessContext \<Rightarrow> Sid set" where
  "collect_user_sids identity memberships local_group_sids access_context =
     build_token_sids_with_context (id_sid identity) (id_sid_history identity) memberships
       local_group_sids access_context"

section \<open>SIDs whose presence depends on the logon\<close>

definition is_logon_dependent_sid :: "string \<Rightarrow> AccessContext \<Rightarrow> bool" where
  "is_logon_dependent_sid sid ctx =
     (let ALWAYS = [''S-1-5-15'', ''S-1-5-1000'', ''S-1-5-65-1'', ''S-1-5-113'', ''S-1-5-114''];
          LOCAL_LOGON = [''S-1-5-14'', ''S-1-2-1'', ''S-1-5-13'', ''S-1-2-0''];
          CONTEXT = [''S-1-5-2'', ''S-1-5-4'', ''S-1-2-0'']
      in if sid \<in> set ALWAYS \<or> starts_with sid ''S-1-18-'' \<or> starts_with sid ''S-1-5-64-'' then True
         else (case ctx of
             RemoteSmb \<Rightarrow> False
           | LocalInteractive \<Rightarrow> sid \<in> set LOCAL_LOGON
           | Unspecified \<Rightarrow> sid \<in> set LOCAL_LOGON \<or> sid \<in> set CONTEXT))"

definition is_logon_dependent_for :: "string \<Rightarrow> AccessContext \<Rightarrow> Sid set \<Rightarrow> bool" where
  "is_logon_dependent_for sid ctx token =
     (let decided_absent =
        (if sid = SID_THIS_ORGANIZATION then SID_OTHER_ORGANIZATION \<in> token
         else if sid = SID_OTHER_ORGANIZATION then SID_THIS_ORGANIZATION \<in> token
         else False)
      in \<not> decided_absent \<and> is_logon_dependent_sid sid ctx)"

section \<open>Local groups of the target server\<close>

definition sort_via :: "string \<Rightarrow> Sid list \<Rightarrow> Sid list" where
  \<comment> \<open>The account's own SID first, then by SID, without repetitions.\<close>
  "sort_via user_sid via = dedup_adjacent (sort_key (\<lambda>s. (s \<noteq> user_sid, s)) via)"

definition certain_via :: "Sid set \<Rightarrow> LocalGroupDescriptor \<Rightarrow> Sid list" where
  "certain_via token g = filter (\<lambda>m. m \<in> token) (lgd_members g)"

definition uncertain_via ::
  "Sid set \<Rightarrow> AccessContext \<Rightarrow> string list \<Rightarrow> LocalGroupDescriptor \<Rightarrow> Sid list" where
  "uncertain_via token ctx uncertain_well_knowns g =
     filter (\<lambda>m. m \<notin> token \<and> (is_logon_dependent_for m ctx token \<or> m \<in> set uncertain_well_knowns))
       (lgd_members g)"

definition group_entry :: "string \<Rightarrow> LocalGroupDescriptor \<Rightarrow> Sid list \<Rightarrow> LocalGroupEntry" where
  "group_entry user_sid g via =
     \<lparr>lge_group = lgd_sid g, lge_name = lgd_name g, lge_via = sort_via user_sid via\<rparr>"

fun expand_loop ::
  "string \<Rightarrow> Sid set \<Rightarrow> AccessContext \<Rightarrow> string list \<Rightarrow> LocalGroupDescriptor list
     \<Rightarrow> LocalGroupExpansion \<Rightarrow> LocalGroupExpansion" where
  "expand_loop user_sid token ctx uwk [] out = out"
| "expand_loop user_sid token ctx uwk (g # gs) out =
     (let certain = certain_via token g; uncertain = uncertain_via token ctx uwk g
      in expand_loop user_sid token ctx uwk gs
        (if certain \<noteq> [] then
           out\<lparr>lgx_certain := lgx_certain out @ [group_entry user_sid g certain]\<rparr>
         else if uncertain \<noteq> [] then
           out\<lparr>lgx_logon_dependent := lgx_logon_dependent out @ [group_entry user_sid g uncertain]\<rparr>
         else out))"

definition expansion_token ::
  "string \<Rightarrow> Sid list \<Rightarrow> GroupMembership list \<Rightarrow> AccessContext \<Rightarrow> bool option \<Rightarrow> Sid set" where
  "expansion_token user_sid sid_history memberships access_context anon_everyone =
     (let token = build_token_sids_with_context user_sid sid_history memberships [] access_context
      in if anonymous_gets_everyone user_sid anon_everyone then insert SID_EVERYONE token
         else token)"

definition by_name :: "(string \<Rightarrow> string) \<Rightarrow> LocalGroupEntry \<Rightarrow> string \<times> string" where
  "by_name lc e = (lc (lge_name e), lge_group e)"

definition expand_local_groups_with ::
  "(string \<Rightarrow> string) \<Rightarrow> string \<Rightarrow> Sid list \<Rightarrow> GroupMembership list \<Rightarrow> LocalGroupDescriptor list
     \<Rightarrow> AccessContext \<Rightarrow> bool option \<Rightarrow> LocalGroupExpansion" where
  "expand_local_groups_with lc user_sid sid_history memberships groups access_context
       anon_everyone =
     (let token = expansion_token user_sid sid_history memberships access_context anon_everyone;
          uncertain_well_knowns = uncertain_well_knowns_with user_sid anon_everyone;
          out = expand_loop user_sid token access_context uncertain_well_knowns groups
            \<lparr>lgx_certain = [], lgx_logon_dependent = []\<rparr>
      in \<lparr>lgx_certain = sort_key (by_name lc) (lgx_certain out),
          lgx_logon_dependent = sort_key (by_name lc) (lgx_logon_dependent out)\<rparr>)"

definition expand_local_groups ::
  "(string \<Rightarrow> string) \<Rightarrow> string \<Rightarrow> Sid list \<Rightarrow> GroupMembership list \<Rightarrow> LocalGroupDescriptor list
     \<Rightarrow> AccessContext \<Rightarrow> LocalGroupExpansion" where
  "expand_local_groups lc user_sid sid_history memberships groups access_context =
     expand_local_groups_with lc user_sid sid_history memberships groups access_context None"

section \<open>User Account Control\<close>

definition is_uac_filtered_group :: "string \<Rightarrow> bool" where
  "is_uac_filtered_group sid =
     (if sid \<in> set UAC_FILTERED_BUILTIN_GROUPS then True
      else (case domain_rid sid of
          Some (domain, rid) \<Rightarrow> length (split_on (CHR ''-'') domain) = 3 \<and>
            (case parse_uint (2 ^ 32) rid of Some r \<Rightarrow> r \<in> set UAC_FILTERED_DOMAIN_RIDS | None \<Rightarrow> False)
        | None \<Rightarrow> False))"

definition uac_filtered_groups :: "Sid list \<Rightarrow> bool \<Rightarrow> AccessContext \<Rightarrow> Sid list" where
  "uac_filtered_groups token_groups local_account ctx =
     (if ctx = RemoteSmb \<and> \<not> local_account then []
      else (let filtered = filter is_uac_filtered_group token_groups;
                filtered = (if local_account \<and> list_ex (\<lambda>s. s = ''S-1-5-32-544'') filtered
                  then filtered @ [SID_LOCAL_ACCOUNT_AND_ADMIN] else filtered)
            in dedup_adjacent (sort_key (\<lambda>s. s) filtered)))"

definition flag :: "PolicyDword \<Rightarrow> bool \<Rightarrow> bool option" where
  "flag v dflt =
     (case v of
        Value n \<Rightarrow> (if n = 0 then Some False else if n = 1 then Some True else None)
      | Absent \<Rightarrow> Some dflt
      | Unreadable _ \<Rightarrow> None)"

definition shown :: "PolicyDword \<Rightarrow> string" where
  "shown v =
     (case v of
        Value n \<Rightarrow> dec (unat n)
      | Absent \<Rightarrow> ''0 (not set, default)''
      | Unreadable e \<Rightarrow> ''unreadable ('' @ e @ '')'')"

definition remote_uac_filtering ::
  "bool \<Rightarrow> PolicyDword \<Rightarrow> PolicyDword \<Rightarrow> PolicyDword \<Rightarrow> RemoteUacFiltering" where
  "remote_uac_filtering builtin_administrator enable_lua local_account_token_filter_policy
       filter_administrator_token =
     (case (flag enable_lua True, flag local_account_token_filter_policy False,
            flag filter_administrator_token False) of
        (Some lua, Some latfp, Some fat) \<Rightarrow>
          (if \<not> lua then RemoteUacFiltering.Unknown
           else (let values = ''read from the target: LocalAccountTokenFilterPolicy = ''
       @ shown local_account_token_filter_policy @ '', FilterAdministratorToken = ''
       @ shown filter_administrator_token
             in if latfp then
                  NotFiltered (values @ '' '' @ em_dash @ '' remote User Account Control does not filter local accounts'')
                else if builtin_administrator \<and> \<not> fat then
                  NotFiltered (values @ '' '' @ em_dash @ '' the built-in Administrator keeps its full network token'')
                else
                  Filtered (values @ '' '' @ em_dash @ '' remote User Account Control filters this local account''
       @ squote @ ''s network token'')))
      | _ \<Rightarrow> RemoteUacFiltering.Unknown)"

definition local_uac_filtering :: "bool \<Rightarrow> PolicyDword \<Rightarrow> PolicyDword \<Rightarrow> RemoteUacFiltering" where
  "local_uac_filtering builtin_administrator enable_lua filter_administrator_token =
     (if \<not> builtin_administrator then RemoteUacFiltering.Unknown
      else if \<not> (enable_lua = Absent \<or> enable_lua = Value 1) then RemoteUacFiltering.Unknown
      else if \<not> (filter_administrator_token = Absent \<or> filter_administrator_token = Value 0)
        then RemoteUacFiltering.Unknown
      else NotFiltered (''read from the target: FilterAdministratorToken = 0 '' @ em_dash
       @ '' the built-in Administrator'' @ squote
       @ ''s interactive token is not split (full token, measured)''))"

section \<open>What the token holds\<close>

lemma in_insert_memberships:
  "s \<in> insert_memberships sids ms \<longleftrightarrow>
     s \<in> sids \<or> (\<exists>gm \<in> set ms. s = gm_group_sid gm \<or> s \<in> set (gm_group_sid_history gm))"
  by (induction sids ms rule: insert_memberships.induct) auto

lemma in_token:
  "s \<in> build_token_sids_with_context user hist ms locals ctx \<longleftrightarrow>
     s = user \<or> s \<in> set hist
     \<or> (\<exists>gm \<in> set ms. s = gm_group_sid gm \<or> s \<in> set (gm_group_sid_history gm))
     \<or> s \<in> set locals
     \<or> (s = SID_EVERYONE \<and> user \<noteq> SID_ANONYMOUS_LOGON)
     \<or> (s = SID_AUTHENTICATED_USERS \<and> user \<noteq> SID_ANONYMOUS_LOGON \<and> \<not> is_guest_account user)
     \<or> s \<in> context_sids ctx"
  unfolding build_token_sids_with_context_def Let_def identity_uncertain_well_knowns_def
    identity_absent_well_knowns_def
  by (auto simp: in_insert_memberships sid_consts)

lemma context_sids_decided: "s \<in> context_sids ctx \<Longrightarrow> \<not> is_logon_dependent_sid s ctx"
  by (cases ctx) (auto simp: context_sids_def is_logon_dependent_sid_def)

lemma logon_dependent_mono:
  "is_logon_dependent_sid s RemoteSmb \<Longrightarrow> is_logon_dependent_sid s ctx"
  "is_logon_dependent_sid s ctx \<Longrightarrow> is_logon_dependent_sid s Unspecified"
  unfolding is_logon_dependent_sid_def Let_def by (cases ctx; simp only: AccessContext.case; argo)+

lemma token_groups_shift:
  "build_token_sids_with_context user hist ms (locals @ extra) ctx =
     build_token_sids_with_context user hist ms locals ctx \<union> set extra"
  by (auto simp: in_token set_eq_iff)

section \<open>The local-group expansion is the closure of the token\<close>

lemma expand_loop_eq:
  "expand_loop user token ctx uwk gs out =
     \<lparr>lgx_certain = lgx_certain out @
        map (\<lambda>g. group_entry user g (certain_via token g))
          (filter (\<lambda>g. certain_via token g \<noteq> []) gs),
      lgx_logon_dependent = lgx_logon_dependent out @
        map (\<lambda>g. group_entry user g (uncertain_via token ctx uwk g))
          (filter (\<lambda>g. certain_via token g = [] \<and> uncertain_via token ctx uwk g \<noteq> []) gs)\<rparr>"
  by (induction user token ctx uwk gs out rule: expand_loop.induct) (auto simp: Let_def)

definition certain_entries ::
  "string \<Rightarrow> Sid set \<Rightarrow> LocalGroupDescriptor list \<Rightarrow> LocalGroupEntry list" where
  "certain_entries user token gs =
     map (\<lambda>g. group_entry user g (certain_via token g)) (filter (\<lambda>g. certain_via token g \<noteq> []) gs)"

definition uncertain_entries ::
  "string \<Rightarrow> Sid set \<Rightarrow> AccessContext \<Rightarrow> string list \<Rightarrow> LocalGroupDescriptor list
     \<Rightarrow> LocalGroupEntry list" where
  "uncertain_entries user token ctx uwk gs =
     map (\<lambda>g. group_entry user g (uncertain_via token ctx uwk g))
       (filter (\<lambda>g. certain_via token g = [] \<and> uncertain_via token ctx uwk g \<noteq> []) gs)"

lemma expand_parts:
  "expand_local_groups_with lc user hist ms gs ctx ae =
     (let token = expansion_token user hist ms ctx ae
      in \<lparr>lgx_certain = sort_key (by_name lc) (certain_entries user token gs),
          lgx_logon_dependent = sort_key (by_name lc)
            (uncertain_entries user token ctx (uncertain_well_knowns_with user ae) gs)\<rparr>)"
  by (simp add: expand_local_groups_with_def expand_loop_eq certain_entries_def
      uncertain_entries_def Let_def)

lemma certain_groups:
  "lge_group ` set (lgx_certain (expand_local_groups_with lc user hist ms gs ctx ae)) =
     lgd_sid ` {g \<in> set gs. set (lgd_members g) \<inter> expansion_token user hist ms ctx ae \<noteq> {}}"
proof -
  have "certain_via token g \<noteq> [] \<longleftrightarrow> set (lgd_members g) \<inter> token \<noteq> {}" for token g
    by (auto simp: certain_via_def filter_empty_conv)
  then show ?thesis
    by (simp add: expand_parts Let_def certain_entries_def group_entry_def image_image)
qed

lemma set_sort_via [simp]: "set (sort_via user via) = set via"
  by (simp add: sort_via_def)

lemma via_keys_sorted: "sorted (map (\<lambda>s. (s \<noteq> user, s)) (sort_key (\<lambda>s. (s \<noteq> user, s)) via))"
  by simp

lemma sorted_map_strict:
  assumes "inj f" and "sorted (map f xs)"
  shows "sorted_wrt (<) (map f (dedup_adjacent xs))"
proof -
  have "map f (dedup_adjacent xs) = dedup_adjacent (map f xs)" for xs
    by (induction xs rule: dedup_adjacent.induct) (auto dest: injD [OF assms(1)])
  then show ?thesis using dedup_adjacent_sorted_distinct [of "map f xs"] assms(2) by simp
qed

lemma sort_via_strict: "sorted_wrt (<) (map (\<lambda>s. (s \<noteq> user, s)) (sort_via user via))"
  unfolding sort_via_def by (rule sorted_map_strict) (auto intro: injI)

lemma sort_via_set: "set v = set w \<Longrightarrow> sort_via user v = sort_via user w"
proof -
  assume same: "set v = set w"
  let ?f = "\<lambda>s. (s \<noteq> user, s)"
  have "map ?f (sort_via user v) = map ?f (sort_via user w)"
    by (rule strict_sorted_equal) (use same sort_via_strict in \<open>auto simp: image_iff\<close>)
  then show ?thesis by (rule map_injective) (auto intro: injI)
qed

lemma sort_via_user_first:
  assumes "user \<in> set via"
  shows "\<exists>rest. sort_via user via = user # rest"
proof (cases "sort_via user via")
  case Nil
  then show ?thesis using assms set_sort_via [of user via] by auto
next
  case (Cons s rest)
  show ?thesis
  proof (cases "s = user")
    case False
    have "user \<in> set rest" using assms set_sort_via [of user via] Cons False by auto
    then have "(s \<noteq> user, s) < (user \<noteq> user, user)"
      using sort_via_strict [of user via] Cons by auto
    with False show ?thesis by simp
  qed (use Cons in simp)
qed

section \<open>Independence of the enumeration order\<close>

definition same_group :: "LocalGroupDescriptor \<Rightarrow> LocalGroupDescriptor \<Rightarrow> bool" where
  "same_group g h \<longleftrightarrow> lgd_sid g = lgd_sid h \<and> lgd_name g = lgd_name h
     \<and> set (lgd_members g) = set (lgd_members h)"

lemma by_name_entry [simp]: "by_name lc (group_entry user g via) = (lc (lgd_name g), lgd_sid g)"
  by (simp add: by_name_def group_entry_def)

lemma sort_key_mset:
  assumes "mset xs = mset ys" and "inj_on f (set xs)"
  shows "sort_key f xs = sort_key f ys"
proof (rule map_inj_on)
  have "sort (map f xs) = map f (sort_key f xs)" "sort (map f xs) = map f (sort_key f ys)"
    by (rule properties_for_sort; simp add: assms(1))+
  then show "map f (sort_key f xs) = map f (sort_key f ys)" by simp
  have "set ys = set xs" using assms(1) by (metis set_mset_mset)
  then show "inj_on f (set (sort_key f xs) \<union> set (sort_key f ys))" using assms(2) by simp
qed

lemma via_same_group:
  "same_group g h \<Longrightarrow> set (certain_via token g) = set (certain_via token h)"
  "same_group g h \<Longrightarrow> set (uncertain_via token ctx uwk g) = set (uncertain_via token ctx uwk h)"
  by (auto simp: same_group_def certain_via_def uncertain_via_def)

lemma via_empty_same_group:
  "same_group g h \<Longrightarrow> certain_via token g = [] \<longleftrightarrow> certain_via token h = []"
  "same_group g h \<Longrightarrow> uncertain_via token ctx uwk g = [] \<longleftrightarrow> uncertain_via token ctx uwk h = []"
  using via_same_group(1) [of g h token] via_same_group(2) [of g h token ctx uwk]
  by (metis set_empty)+

lemma entry_same_group:
  "same_group g h \<Longrightarrow> set v = set w \<Longrightarrow> group_entry user g v = group_entry user h w"
  by (simp add: group_entry_def same_group_def sort_via_set [of v w])

lemma certain_entries_same:
  "list_all2 same_group gs hs \<Longrightarrow> certain_entries user token gs = certain_entries user token hs"
  unfolding certain_entries_def
  by (induction rule: list_all2_induct)
    (auto simp: via_empty_same_group intro!: entry_same_group via_same_group)

lemma uncertain_entries_same:
  "list_all2 same_group gs hs \<Longrightarrow>
     uncertain_entries user token ctx uwk gs = uncertain_entries user token ctx uwk hs"
  unfolding uncertain_entries_def
proof (induction rule: list_all2_induct)
  case (Cons g gs h hs)
  then show ?case
    using via_empty_same_group(1) [OF Cons.hyps(1), of token]
      via_empty_same_group(2) [OF Cons.hyps(1), of token ctx uwk]
      via_same_group(2) [OF Cons.hyps(1), of token ctx uwk]
    by (simp add: entry_same_group [OF Cons.hyps(1)])
qed simp

lemma entries_key_inj:
  assumes "distinct (map lgd_sid gs)" and "set hs \<subseteq> set gs"
  shows "inj_on (by_name lc) ((\<lambda>g. group_entry user g (via g)) ` set hs)"
proof (rule inj_onI)
  fix e f
  assume "e \<in> (\<lambda>g. group_entry user g (via g)) ` set hs" "f \<in> (\<lambda>g. group_entry user g (via g)) ` set hs"
  then obtain g h where gh: "g \<in> set gs" "h \<in> set gs" "e = group_entry user g (via g)"
      "f = group_entry user h (via h)"
    using assms(2) by auto
  assume "by_name lc e = by_name lc f"
  then have "lgd_sid g = lgd_sid h" using gh by simp
  then have "g = h" using assms(1) gh by (auto simp: distinct_map dest: inj_onD)
  with gh show "e = f" by simp
qed

lemma sorted_entries_perm:
  assumes "mset gs = mset hs" and "distinct (map lgd_sid gs)"
  shows "sort_key (by_name lc) (map (\<lambda>g. group_entry user g (via g)) (filter P gs)) =
    sort_key (by_name lc) (map (\<lambda>g. group_entry user g (via g)) (filter P hs))"
proof (rule sort_key_mset)
  show "mset (map (\<lambda>g. group_entry user g (via g)) (filter P gs)) =
      mset (map (\<lambda>g. group_entry user g (via g)) (filter P hs))"
    using assms(1) by simp
  show "inj_on (by_name lc) (set (map (\<lambda>g. group_entry user g (via g)) (filter P gs)))"
    using entries_key_inj [OF assms(2), of "filter P gs" lc user via] by simp
qed

lemma expand_perm:
  assumes "mset gs = mset hs" and "distinct (map lgd_sid gs)"
  shows "expand_local_groups_with lc user hist ms gs ctx ae =
    expand_local_groups_with lc user hist ms hs ctx ae"
  unfolding expand_parts certain_entries_def uncertain_entries_def Let_def
  by (simp only: sorted_entries_perm [OF assms])

section \<open>User Account Control\<close>

lemma in_uac_filtered_groups:
  "s \<in> set (uac_filtered_groups groups local_account ctx) \<longleftrightarrow>
     (ctx = RemoteSmb \<longrightarrow> local_account) \<and>
     ((s \<in> set groups \<and> is_uac_filtered_group s)
      \<or> (local_account \<and> s = SID_LOCAL_ACCOUNT_AND_ADMIN \<and> ''S-1-5-32-544'' \<in> set groups))"
proof -
  have admin: "is_uac_filtered_group ''S-1-5-32-544''"
    by (simp add: is_uac_filtered_group_def UAC_FILTERED_BUILTIN_GROUPS_def)
  show ?thesis
    using admin by (auto simp: uac_filtered_groups_def Let_def list_ex_iff)
qed

lemma uac_filtered_groups_sorted: "sorted_wrt (<) (uac_filtered_groups groups local_account ctx)"
proof -
  have "sorted_wrt (<) (dedup_adjacent (sort xs))" for xs :: "Sid list"
    by (rule dedup_adjacent_sorted_distinct) simp
  then show ?thesis by (simp add: uac_filtered_groups_def Let_def)
qed

section \<open>Properties\<close>

definition closed_token :: "LocalGroupDescriptor list \<Rightarrow> Sid set \<Rightarrow> bool" where
  \<comment> \<open>A logon token holds every local group that has one of the token's SIDs as a member.\<close>
  "closed_token gs T \<longleftrightarrow> (\<forall>g \<in> set gs. set (lgd_members g) \<inter> T \<noteq> {} \<longrightarrow> lgd_sid g \<in> T)"

text \<open>C21: one level of local-group expansion is exact. When no local group is a member of a
  local group (Windows does not allow it), the token together with the groups the expansion
  returns as certain is the smallest set that holds the token and is closed under membership
  in the server's local groups.\<close>

theorem expansion_is_closure:
  assumes "\<forall>g \<in> set gs. \<forall>h \<in> set gs. lgd_sid h \<notin> set (lgd_members g)"
  shows "expansion_token user hist ms ctx ae
      \<union> lge_group ` set (lgx_certain (expand_local_groups_with lc user hist ms gs ctx ae))
    = \<Inter> {T. expansion_token user hist ms ctx ae \<subseteq> T \<and> closed_token gs T}"
    (is "?T0 \<union> ?found = _")
proof (rule equalityI)
  show "?T0 \<union> ?found \<subseteq> \<Inter> {T. ?T0 \<subseteq> T \<and> closed_token gs T}"
    unfolding closed_token_def certain_groups by blast
  have "closed_token gs (?T0 \<union> ?found)"
    using assms unfolding closed_token_def certain_groups by blast
  then show "\<Inter> {T. ?T0 \<subseteq> T \<and> closed_token gs T} \<subseteq> ?T0 \<union> ?found" by blast
qed

definition sample_groups :: "LocalGroupDescriptor list" where
  "sample_groups =
     [\<lparr>lgd_sid = ''S-1-5-32-545'', lgd_name = ''Users'',
       lgd_members = [''S-1-5-11'', ''S-1-5-21-1-2-3-513'']\<rparr>,
      \<lparr>lgd_sid = ''S-1-5-32-544'', lgd_name = ''Administrators'',
       lgd_members = [''S-1-5-21-1-2-3-512'']\<rparr>]"

lemma expansion_is_closure_witness:
  "expansion_token ''S-1-5-21-1-2-3-1104'' [] [] RemoteSmb None
      \<union> lge_group ` set (lgx_certain (expand_local_groups_with (\<lambda>s. s) ''S-1-5-21-1-2-3-1104''
          [] [] sample_groups RemoteSmb None))
    = \<Inter> {T. expansion_token ''S-1-5-21-1-2-3-1104'' [] [] RemoteSmb None \<subseteq> T
        \<and> closed_token sample_groups T}"
  by (rule expansion_is_closure) (simp add: sample_groups_def)

text \<open>The expansion does not depend on the order in which the server enumerates its local
  groups, nor on the order or repetition of a group's members: two enumerations of the same
  groups give the same entries, in the same order, with the same routes.\<close>

theorem expansion_order_independent:
  assumes "list_all2 same_group gs hs'" and "mset hs' = mset hs" and "distinct (map lgd_sid gs)"
  shows "expand_local_groups_with lc user hist ms gs ctx ae =
    expand_local_groups_with lc user hist ms hs ctx ae"
proof -
  have "map lgd_sid gs = map lgd_sid hs'"
    using assms(1) by (induction rule: list_all2_induct) (auto simp: same_group_def)
  then have "distinct (map lgd_sid hs')" using assms(3) by simp
  then have "expand_local_groups_with lc user hist ms hs' ctx ae =
      expand_local_groups_with lc user hist ms hs ctx ae"
    by (rule expand_perm [OF assms(2)])
  then show ?thesis
    by (simp add: expand_parts Let_def certain_entries_same [OF assms(1)]
        uncertain_entries_same [OF assms(1)])
qed

lemma expansion_order_independent_witness:
  "expand_local_groups_with (\<lambda>s. s) ''S-1-5-21-1-2-3-1104'' [] [] sample_groups RemoteSmb None =
    expand_local_groups_with (\<lambda>s. s) ''S-1-5-21-1-2-3-1104'' [] []
      [\<lparr>lgd_sid = ''S-1-5-32-544'', lgd_name = ''Administrators'',
        lgd_members = [''S-1-5-21-1-2-3-512'', ''S-1-5-21-1-2-3-512'']\<rparr>,
       \<lparr>lgd_sid = ''S-1-5-32-545'', lgd_name = ''Users'',
        lgd_members = [''S-1-5-21-1-2-3-513'', ''S-1-5-11'']\<rparr>] RemoteSmb None"
  by (rule expansion_order_independent [where hs' =
      "[\<lparr>lgd_sid = ''S-1-5-32-545'', lgd_name = ''Users'',
        lgd_members = [''S-1-5-21-1-2-3-513'', ''S-1-5-11'']\<rparr>,
       \<lparr>lgd_sid = ''S-1-5-32-544'', lgd_name = ''Administrators'',
        lgd_members = [''S-1-5-21-1-2-3-512'', ''S-1-5-21-1-2-3-512'']\<rparr>]"])
    (auto simp: sample_groups_def same_group_def)

text \<open>Remote User Account Control is decided exactly by the measured table. The token of
  a local account is reported as filtered if and only if \<open>EnableLUA\<close> is 1 or absent,
  \<open>LocalAccountTokenFilterPolicy\<close> is 0 or absent and \<open>FilterAdministratorToken\<close> was read as
  1, or as 0 or absent for an account other than the built-in Administrator; it is reported as
  not filtered if and only if all three were read, UAC is on, and the first policy is 1 or the
  account is the built-in Administrator with the second at 0 or absent; nothing is decided in
  every other case.\<close>

theorem remote_uac_table:
  "((\<exists>r. remote_uac_filtering builtin lua latfp fat = Filtered r) \<longleftrightarrow>
      lua \<in> {Absent, Value 1} \<and> latfp \<in> {Absent, Value 0} \<and>
      (fat = Value 1 \<or> (\<not> builtin \<and> fat \<in> {Absent, Value 0}))) \<and>
   ((\<exists>r. remote_uac_filtering builtin lua latfp fat = NotFiltered r) \<longleftrightarrow>
      lua \<in> {Absent, Value 1} \<and> fat \<in> {Absent, Value 0, Value 1} \<and>
      (latfp = Value 1 \<or> (builtin \<and> latfp \<in> {Absent, Value 0} \<and> fat \<in> {Absent, Value 0})))"
  by (cases lua; cases latfp; cases fat) (auto simp: remote_uac_filtering_def flag_def Let_def)

end
