(* ===== verification/Dacl_Walk.thy ===== *)
theory Dacl_Walk
  imports Token
begin

unbundle bit_operations_syntax

text \<open>
  The stored-order evaluation of an NTFS DACL in
  \<open>crates/permission_engine/src/engine.rs\<close>: the walk itself with its per-ACE provenance.
  What every stored-order walk of the program promises is the locale
  \<open>stored_order_walk\<close>: for each right, the first entry that hits the token and contains the
  right decides it. Its lemmas (agreement with the access check of Windows, monotonicity, the
  closed form for a canonical list) are proved once and hold for each walk that is shown to be
  an instance (here, in \<open>Dacl_Bounds\<close> and in \<open>Share_Walk\<close>).
\<close>

section \<open>The walk\<close>

definition ace_applies_to_current_object :: "AceEntry \<Rightarrow> bool" where
  "ace_applies_to_current_object ace \<longleftrightarrow> ace_propagation_flags ace AND INHERIT_ONLY_ACE = 0"

definition ace_matches :: "AceEntry \<Rightarrow> Sid set \<Rightarrow> Sid set \<Rightarrow> bool" where
  "ace_matches ace match_sids deny_only_sids \<longleftrightarrow>
     ace_sid ace \<in> match_sids \<or> (ace_kind ace = Deny \<and> ace_sid ace \<in> deny_only_sids)"

record DaclWalkOutcome =
  wo_granted :: u32
  wo_denied :: u32
  wo_contributions :: "ContributingAce list"
  wo_decided_per_ace :: "u32 list"

fun add_contribution :: "Sid \<Rightarrow> u32 \<Rightarrow> ContributingAce list \<Rightarrow> ContributingAce list" where
  \<comment> \<open>\<open>find\<close> by SID and widen its mask, else \<open>push\<close>.\<close>
  "add_contribution sid bits [] = [\<lparr>ca_sid = sid, ca_mask = bits\<rparr>]"
| "add_contribution sid bits (c # cs) =
     (if ca_sid c = sid then c\<lparr>ca_mask := ca_mask c OR bits\<rparr> # cs
      else c # add_contribution sid bits cs)"

definition skip_ace :: "DaclWalkOutcome \<Rightarrow> DaclWalkOutcome" where
  \<comment> \<open>\<open>continue\<close>: the slot of this ACE in \<open>decided_per_ace\<close> keeps its initial zero.\<close>
  "skip_ace w = w\<lparr>wo_decided_per_ace := wo_decided_per_ace w @ [0]\<rparr>"

definition walk_ace :: "Sid set \<Rightarrow> Sid set \<Rightarrow> AceEntry \<Rightarrow> DaclWalkOutcome \<Rightarrow> DaclWalkOutcome" where
  \<comment> \<open>The body of the loop. The slots of \<open>decided_per_ace\<close> are filled in order, so that of
    the current ACE is appended.\<close>
  "walk_ace match_sids deny_only_sids ace w =
     (if \<not> ace_applies_to_current_object ace then skip_ace w
      else if \<not> ace_matches ace match_sids deny_only_sids then skip_ace w
      else (let m = expand_generic_rights (ace_mask ace);
                undecided = NOT (wo_granted w OR wo_denied w);
                bits = m AND undecided
            in if bits = 0 then skip_ace w
               else (let w = w\<lparr>wo_decided_per_ace := wo_decided_per_ace w @ [bits]\<rparr>
                     in case ace_kind ace of
                          Allow \<Rightarrow> w\<lparr>wo_granted := wo_granted w OR bits,
                            wo_contributions := add_contribution (ace_sid ace) bits (wo_contributions w)\<rparr>
                        | Deny \<Rightarrow> w\<lparr>wo_denied := wo_denied w OR bits\<rparr>)))"

fun walk_loop :: "Sid set \<Rightarrow> Sid set \<Rightarrow> AceEntry list \<Rightarrow> DaclWalkOutcome \<Rightarrow> DaclWalkOutcome" where
  "walk_loop match_sids deny_only_sids [] w = w"
| "walk_loop match_sids deny_only_sids (ace # dacl) w =
     walk_loop match_sids deny_only_sids dacl (walk_ace match_sids deny_only_sids ace w)"

definition walk_start :: DaclWalkOutcome where
  "walk_start = \<lparr>wo_granted = 0, wo_denied = 0, wo_contributions = [], wo_decided_per_ace = []\<rparr>"

definition walk_dacl_stored_order :: "AceEntry list \<Rightarrow> Sid set \<Rightarrow> Sid set \<Rightarrow> DaclWalkOutcome" where
  "walk_dacl_stored_order dacl match_sids deny_only_sids =
     walk_loop match_sids deny_only_sids dacl walk_start"

definition collect_matched_aces :: "AceEntry list \<Rightarrow> Sid set \<Rightarrow> Sid set \<Rightarrow> AceEntry list" where
  "collect_matched_aces dacl user_sids deny_only_sids =
     filter (\<lambda>ace. ace_applies_to_current_object ace \<and> ace_matches ace user_sids deny_only_sids) dacl"

section \<open>The contract of a stored-order walk\<close>

definition decider :: "('a \<Rightarrow> bool) \<Rightarrow> ('a \<Rightarrow> u32) \<Rightarrow> 'a list \<Rightarrow> nat \<Rightarrow> 'a option" where
  \<comment> \<open>The first entry that hits the token and contains the right.\<close>
  "decider hits rights acl n = find (\<lambda>a. hits a \<and> bit (rights a) n) acl"

definition decided_for :: "('a \<Rightarrow> bool) \<Rightarrow> 'a option \<Rightarrow> bool" where
  "decided_for kind d = (case d of None \<Rightarrow> False | Some a \<Rightarrow> kind a)"

lemma decider_simps [simp]:
  "decider hits rights [] n = None"
  "decider hits rights (a # acl) n =
     (if hits a \<and> bit (rights a) n then Some a else decider hits rights acl n)"
  by (simp_all add: decider_def)

lemma decided_for_simps [simp]: "\<not> decided_for kind None" "decided_for kind (Some a) = kind a"
  by (simp_all add: decided_for_def)

lemma decider_bound: "decider hits rights acl n = Some a \<Longrightarrow> n < 32"
  by (induction acl) (auto split: if_splits dest: bit_imp_le_length)

lemma decider_SomeD: "decider hits rights acl n = Some a \<Longrightarrow> a \<in> set acl \<and> hits a \<and> bit (rights a) n"
  by (induction acl) (auto split: if_splits)

fun access_check :: "('a \<Rightarrow> bool) \<Rightarrow> ('a \<Rightarrow> u32) \<Rightarrow> ('a \<Rightarrow> bool) \<Rightarrow> 'a list \<Rightarrow> u32 \<Rightarrow> bool" where
  \<comment> \<open>The documented access check of Windows for a requested mask: entries are taken in order,
    an Allow removes its rights from those still needed, a Deny on a right still needed refuses,
    and what is still needed at the end of the list is refused.\<close>
  "access_check is_allow rights hits [] needed \<longleftrightarrow> needed = 0"
| "access_check is_allow rights hits (a # acl) needed \<longleftrightarrow>
     (if needed = 0 then True
      else if \<not> hits a then access_check is_allow rights hits acl needed
      else if is_allow a then access_check is_allow rights hits acl (needed AND NOT (rights a))
      else if rights a AND needed \<noteq> 0 then False
      else access_check is_allow rights hits acl needed)"

lemma word_zero_bits: "w = 0 \<longleftrightarrow> (\<forall>n. \<not> bit w n)" for w :: "'a::len word"
  by (auto simp: bit_eq_iff dest: bit_imp_le_length)

lemma access_check_bits:
  "access_check is_allow rights hits acl needed \<longleftrightarrow>
     (\<forall>n. bit needed n \<longrightarrow> decided_for is_allow (decider hits rights acl n))"
proof (induction acl arbitrary: needed)
  case Nil
  then show ?case by (auto simp: word_zero_bits)
next
  case (Cons a acl)
  show ?case
  proof (cases "hits a")
    case False
    then show ?thesis using Cons.IH [of needed] by (auto simp: word_zero_bits)
  next
    case hits: True
    show ?thesis
    proof (cases "is_allow a")
      case True
      have "access_check is_allow rights hits acl 0" if "needed = 0"
        by (cases acl) simp_all
      then have "access_check is_allow rights hits (a # acl) needed \<longleftrightarrow>
          (\<forall>n. bit (needed AND NOT (rights a)) n \<longrightarrow> decided_for is_allow (decider hits rights acl n))"
        using hits True Cons.IH by simp
      then show ?thesis
        using hits True bit_imp_le_length [of needed] by (auto simp: bit_simps simp del: access_check.simps)
    next
      case False
      then show ?thesis
        using hits Cons.IH [of needed] by (auto simp: mask_and_nonzero_iff word_zero_bits [of needed])
    qed
  qed
qed

lemma decided_for_mono:
  assumes "\<forall>a \<in> set acl. is_allow a \<and> hits a \<longrightarrow> hits' a"
    and "\<forall>a \<in> set acl. \<not> is_allow a \<and> hits' a \<longrightarrow> hits a"
    and "decided_for is_allow (decider hits rights acl n)"
  shows "decided_for is_allow (decider hits' rights acl n)"
  using assms
proof (induction acl)
  case (Cons a acl)
  show ?case
  proof (cases "bit (rights a) n \<and> (hits a \<or> hits' a)")
    case True
    moreover have "is_allow a \<and> hits a \<longrightarrow> hits' a" "\<not> is_allow a \<and> hits' a \<longrightarrow> hits a"
      using Cons.prems(1,2) by simp_all
    ultimately show ?thesis
      using Cons.prems(3) by (cases "is_allow a"; cases "hits a"; cases "hits' a") simp_all
  next
    case False
    then have skip: "decider hits rights (a # acl) n = decider hits rights acl n"
        "decider hits' rights (a # acl) n = decider hits' rights acl n"
      by auto
    have "decided_for is_allow (decider hits rights acl n) \<Longrightarrow>
        decided_for is_allow (decider hits' rights acl n)"
      by (rule Cons.IH) (use Cons.prems(1,2) in simp_all)
    then show ?thesis using Cons.prems(3) unfolding skip .
  qed
qed simp

locale stored_order_walk =
  fixes is_allow :: "'a \<Rightarrow> bool"
    and rights :: "'a \<Rightarrow> u32"
    and hits :: "'t \<Rightarrow> 'a \<Rightarrow> bool"
    and walk :: "'t \<Rightarrow> 'a list \<Rightarrow> u32"
  assumes walk_bit: "bit (walk t acl) n \<longleftrightarrow> decided_for is_allow (decider (hits t) rights acl n)"
begin

lemma walk_refines_access_check:
  "access_check is_allow rights (hits t) acl needed \<longleftrightarrow> within needed (walk t acl)"
  by (simp add: access_check_bits within_iff_bit walk_bit)

lemma walk_mono:
  assumes "\<forall>a \<in> set acl. is_allow a \<and> hits t a \<longrightarrow> hits u a"
    and "\<forall>a \<in> set acl. \<not> is_allow a \<and> hits u a \<longrightarrow> hits t a"
  shows "within (walk t acl) (walk u acl)"
  using decided_for_mono [OF assms] by (simp add: within_iff_bit walk_bit)

lemma walk_cong:
  assumes "\<forall>a \<in> set acl. hits t a \<longleftrightarrow> hits u a"
  shows "walk t acl = walk u acl"
  using walk_mono [of acl t u] walk_mono [of acl u t] assms by (auto intro: within_antisym)

lemma walk_irrelevant: "walk t (filter (hits t) acl) = walk t acl"
proof (rule bit_eqI)
  fix n
  have "decider (hits t) rights (filter (hits t) acl) n = decider (hits t) rights acl n"
    by (induction acl) auto
  then show "bit (walk t (filter (hits t) acl)) n = bit (walk t acl) n"
    by (simp add: walk_bit)
qed

lemma walk_allowed: "within (walk t acl) (or_list (map rights (filter (\<lambda>a. is_allow a \<and> hits t a) acl)))"
  unfolding within_iff_bit
proof (intro allI impI)
  fix n
  assume "bit (walk t acl) n"
  then obtain a where "decider (hits t) rights acl n = Some a" "is_allow a"
    by (auto simp: walk_bit decided_for_def split: option.splits)
  then show "bit (or_list (map rights (filter (\<lambda>a. is_allow a \<and> hits t a) acl))) n"
    using decider_SomeD by (fastforce simp: bit_or_list)
qed

lemma walk_Nil: "walk t [] = 0"
  by (simp add: word_zero_bits walk_bit)

lemma walk_deny_first:
  \<comment> \<open>A block of denies followed by a block of allows: the allowed rights that no deny names.\<close>
  assumes "\<forall>a \<in> set denies. \<not> is_allow a" and "\<forall>a \<in> set allows. is_allow a"
  shows "walk t (denies @ allows) =
    or_list (map rights (filter (hits t) allows)) AND NOT (or_list (map rights (filter (hits t) denies)))"
proof (rule bit_word_eqI)
  fix n
  assume n: "n < LENGTH(32)"
  have allow: "decided_for is_allow (decider (hits t) rights allows n) \<longleftrightarrow>
      bit (or_list (map rights (filter (hits t) allows))) n"
    using assms(2) by (induction allows) (auto simp: bit_simps)
  have "decided_for is_allow (decider (hits t) rights (denies @ allows) n) \<longleftrightarrow>
      \<not> bit (or_list (map rights (filter (hits t) denies))) n
      \<and> decided_for is_allow (decider (hits t) rights allows n)"
    using assms(1) by (induction denies) (auto simp: bit_simps)
  then show "bit (walk t (denies @ allows)) n =
      bit (or_list (map rights (filter (hits t) allows)) AND NOT (or_list (map rights (filter (hits t) denies)))) n"
    using allow n by (auto simp: walk_bit bit_simps)
qed

lemma walk_append:
  \<comment> \<open>A later part of the list adds only rights that no entry of the earlier part decides.\<close>
  "walk t (acl @ bcl) =
     walk t acl OR (walk t bcl AND NOT (or_list (map rights (filter (hits t) acl))))"
proof (rule bit_word_eqI)
  fix n
  assume n: "n < LENGTH(32)"
  have "decided_for is_allow (decider (hits t) rights (acl @ bcl) n) \<longleftrightarrow>
      decided_for is_allow (decider (hits t) rights acl n)
      \<or> (decided_for is_allow (decider (hits t) rights bcl n)
         \<and> \<not> bit (or_list (map rights (filter (hits t) acl))) n)"
    by (induction acl) (auto simp: bit_simps)
  then show "bit (walk t (acl @ bcl)) n =
      bit (walk t acl OR (walk t bcl AND NOT (or_list (map rights (filter (hits t) acl))))) n"
    using n by (auto simp: walk_bit bit_simps)
qed

end

section \<open>The walks of the engine obey the contract\<close>

definition ntfs_rights :: "AceEntry \<Rightarrow> u32" where
  "ntfs_rights ace = expand_generic_rights (ace_mask ace)"

definition is_allow_ace :: "AceEntry \<Rightarrow> bool" where
  "is_allow_ace ace \<longleftrightarrow> ace_kind ace = Allow"

definition is_deny_ace :: "AceEntry \<Rightarrow> bool" where
  "is_deny_ace ace \<longleftrightarrow> ace_kind ace = Deny"

definition token_hits :: "Sid set \<times> Sid set \<Rightarrow> AceEntry \<Rightarrow> bool" where
  "token_hits t ace \<longleftrightarrow> ace_applies_to_current_object ace \<and> ace_matches ace (fst t) (snd t)"

lemma deny_iff: "is_deny_ace a \<longleftrightarrow> \<not> is_allow_ace a"
  by (cases "ace_kind a") (auto simp: is_allow_ace_def is_deny_ace_def)

lemma walk_ace_masks:
  "wo_granted (walk_ace ms ds ace w) =
     wo_granted w OR (if token_hits (ms, ds) ace \<and> is_allow_ace ace
        then ntfs_rights ace AND NOT (wo_granted w OR wo_denied w) else 0)"
  "wo_denied (walk_ace ms ds ace w) =
     wo_denied w OR (if token_hits (ms, ds) ace \<and> is_deny_ace ace
        then ntfs_rights ace AND NOT (wo_granted w OR wo_denied w) else 0)"
  "wo_decided_per_ace (walk_ace ms ds ace w) = wo_decided_per_ace w @
     [if token_hits (ms, ds) ace then ntfs_rights ace AND NOT (wo_granted w OR wo_denied w) else 0]"
  "wo_contributions (walk_ace ms ds ace w) =
     (if token_hits (ms, ds) ace \<and> is_allow_ace ace
         \<and> ntfs_rights ace AND NOT (wo_granted w OR wo_denied w) \<noteq> 0
      then add_contribution (ace_sid ace) (ntfs_rights ace AND NOT (wo_granted w OR wo_denied w))
        (wo_contributions w)
      else wo_contributions w)"
  by (auto simp: walk_ace_def skip_ace_def token_hits_def ntfs_rights_def is_allow_ace_def
      is_deny_ace_def Let_def split: AceKind.splits)

lemma walk_loop_bits:
  "bit (wo_granted (walk_loop ms ds dacl w)) n \<longleftrightarrow>
     (if bit (wo_granted w OR wo_denied w) n then bit (wo_granted w) n
      else decided_for is_allow_ace (decider (token_hits (ms, ds)) ntfs_rights dacl n))"
  "bit (wo_denied (walk_loop ms ds dacl w)) n \<longleftrightarrow>
     (if bit (wo_granted w OR wo_denied w) n then bit (wo_denied w) n
      else decided_for is_deny_ace (decider (token_hits (ms, ds)) ntfs_rights dacl n))"
proof (induction dacl arbitrary: w)
  case (Cons a dacl)
  {
    case 1
    show ?case
      unfolding walk_loop.simps Cons.IH(1) walk_ace_masks
      by (cases "is_allow_ace a") (auto simp: deny_iff [of a] bit_simps dest: bit_imp_le_length)
  next
    case 2
    show ?case
      unfolding walk_loop.simps Cons.IH(2) walk_ace_masks
      by (cases "is_allow_ace a") (auto simp: deny_iff [of a] bit_simps dest: bit_imp_le_length)
  }
qed (auto simp: bit_simps)

interpretation ntfs_walk: stored_order_walk is_allow_ace ntfs_rights token_hits
    "\<lambda>t dacl. wo_granted (walk_dacl_stored_order dacl (fst t) (snd t))"
  by unfold_locales (simp add: walk_dacl_stored_order_def walk_loop_bits walk_start_def)

section \<open>What each entry is credited with\<close>

type_synonym decided = "(AceEntry \<times> u32) list"

definition decided_by :: "(AceEntry \<Rightarrow> bool) \<Rightarrow> decided \<Rightarrow> u32" where
  "decided_by P ds = or_list (map snd (filter (\<lambda>d. P (fst d)) ds))"

definition contributors :: "decided \<Rightarrow> Sid list" where
  "contributors ds = firsts (map (\<lambda>d. ace_sid (fst d)) (filter (\<lambda>d. is_allow_ace (fst d) \<and> snd d \<noteq> 0) ds))"

definition contributions_of :: "decided \<Rightarrow> ContributingAce list" where
  \<comment> \<open>The trustees whose Allow entries decided rights, in the order of their first such entry,
    each with exactly the rights its Allow entries decided.\<close>
  "contributions_of ds = map (\<lambda>sid. \<lparr>ca_sid = sid,
     ca_mask = decided_by (\<lambda>a. is_allow_ace a \<and> ace_sid a = sid) ds\<rparr>) (contributors ds)"

lemma decided_by_snoc [simp]:
  "decided_by P (ds @ [(a, b)]) = decided_by P ds OR (if P a then b else 0)"
  by (simp add: decided_by_def)

lemma decided_by_zero: "\<forall>d \<in> set ds. P (fst d) \<longrightarrow> snd d = 0 \<Longrightarrow> decided_by P ds = 0"
  by (auto simp: word_zero_bits decided_by_def bit_or_list)

lemma firsts_snoc: "firsts (xs @ [x]) = (if x \<in> set xs then firsts xs else firsts xs @ [x])"
  by (induction xs) auto

lemma contributors_snoc:
  "contributors (ds @ [(a, b)]) =
     (if is_allow_ace a \<and> b \<noteq> 0 \<and> ace_sid a \<notin> set (contributors ds)
      then contributors ds @ [ace_sid a] else contributors ds)"
  by (auto simp: contributors_def firsts_snoc)

lemma contributor_decided:
  "sid \<notin> set (contributors ds) \<Longrightarrow> decided_by (\<lambda>a. is_allow_ace a \<and> ace_sid a = sid) ds = 0"
  by (rule decided_by_zero) (auto simp: contributors_def image_iff)

lemma add_contribution_map:
  assumes "distinct sids" and "\<forall>s. s \<noteq> sid \<longrightarrow> g s = f s" and "g sid = f sid OR bits"
    and "sid \<notin> set sids \<longrightarrow> f sid = 0"
  shows "add_contribution sid bits (map (\<lambda>s. \<lparr>ca_sid = s, ca_mask = f s\<rparr>) sids) =
    map (\<lambda>s. \<lparr>ca_sid = s, ca_mask = g s\<rparr>) (if sid \<in> set sids then sids else sids @ [sid])"
  using assms(1,4)
proof (induction sids)
  case Nil
  then show ?case using assms(3) by simp
next
  case (Cons s sids)
  show ?case
  proof (cases "s = sid")
    case True
    then have "map (\<lambda>s. \<lparr>ca_sid = s, ca_mask = f s\<rparr>) sids = map (\<lambda>s. \<lparr>ca_sid = s, ca_mask = g s\<rparr>) sids"
      using Cons.prems(1) assms(2) by (auto intro!: map_cong)
    then show ?thesis using True assms(3) by simp
  next
    case False
    then show ?thesis using Cons assms(2) by auto
  qed
qed

lemma contributions_of_snoc:
  "contributions_of (ds @ [(a, b)]) =
     (if is_allow_ace a \<and> b \<noteq> 0 then add_contribution (ace_sid a) b (contributions_of ds)
      else contributions_of ds)"
proof (cases "is_allow_ace a \<and> b \<noteq> 0")
  case True
  show ?thesis
    unfolding contributions_of_def
    by (subst add_contribution_map [where g = "\<lambda>s. decided_by (\<lambda>a. is_allow_ace a \<and> ace_sid a = s) (ds @ [(a, b)])"])
      (use True contributor_decided in \<open>auto simp: contributors_snoc contributors_def [of ds]\<close>)
next
  case False
  then have "decided_by (\<lambda>x. is_allow_ace x \<and> ace_sid x = sid) (ds @ [(a, b)]) =
      decided_by (\<lambda>x. is_allow_ace x \<and> ace_sid x = sid) ds" for sid
    by auto
  then show ?thesis using False by (auto simp: contributions_of_def contributors_snoc)
qed

definition walk_inv :: "Sid set \<Rightarrow> Sid set \<Rightarrow> AceEntry list \<Rightarrow> DaclWalkOutcome \<Rightarrow> bool" where
  \<comment> \<open>The state of the walk after the entries of the list.\<close>
  "walk_inv ms ds pre w \<longleftrightarrow>
     (let decided = zip pre (wo_decided_per_ace w) in
      length (wo_decided_per_ace w) = length pre \<and>
      wo_granted w = decided_by is_allow_ace decided \<and>
      wo_denied w = decided_by is_deny_ace decided \<and>
      sorted_wrt (\<lambda>a b. a AND b = 0) (wo_decided_per_ace w) \<and>
      wo_contributions w = contributions_of decided)"

lemma decided_union:
  assumes "b \<in> set bs" and "length bs = length pre"
  shows "within b (decided_by is_allow_ace (zip pre bs) OR decided_by is_deny_ace (zip pre bs))"
proof -
  from assms obtain i where i: "i < length pre" "b = bs ! i" by (metis in_set_conv_nth)
  then have "(pre ! i, b) \<in> set (zip pre bs)" using assms(2) by (auto simp: set_zip)
  then show ?thesis
    by (cases "is_allow_ace (pre ! i)")
      (force simp: deny_iff within_iff_bit bit_simps decided_by_def bit_or_list)+
qed

lemma walk_inv_step:
  assumes "walk_inv ms ds pre w"
  shows "walk_inv ms ds (pre @ [a]) (walk_ace ms ds a w)"
proof -
  let ?bits = "if token_hits (ms, ds) a then ntfs_rights a AND NOT (wo_granted w OR wo_denied w) else 0"
  have inv: "length (wo_decided_per_ace w) = length pre"
      "wo_granted w = decided_by is_allow_ace (zip pre (wo_decided_per_ace w))"
      "wo_denied w = decided_by is_deny_ace (zip pre (wo_decided_per_ace w))"
      "sorted_wrt (\<lambda>a b. a AND b = 0) (wo_decided_per_ace w)"
      "wo_contributions w = contributions_of (zip pre (wo_decided_per_ace w))"
    using assms by (simp_all add: walk_inv_def Let_def)
  have decided: "wo_decided_per_ace (walk_ace ms ds a w) = wo_decided_per_ace w @ [?bits]"
    by (rule walk_ace_masks)
  have zip: "zip (pre @ [a]) (wo_decided_per_ace (walk_ace ms ds a w)) =
      zip pre (wo_decided_per_ace w) @ [(a, ?bits)]"
    using inv(1) by (simp add: decided)
  have disjoint: "b AND ?bits = 0" if "b \<in> set (wo_decided_per_ace w)" for b
    using decided_union [OF that inv(1)] unfolding inv(2,3) [symmetric]
    by (auto simp: word_zero_bits within_iff_bit bit_simps)
  show ?thesis
    unfolding walk_inv_def Let_def zip
    using inv(1,4) disjoint
    by (auto simp: deny_iff [of a] decided sorted_wrt_append contributions_of_snoc walk_ace_masks(1,2,4)
        inv(2,3,5) [symmetric])
qed

lemma walk_inv_loop: "walk_inv ms ds pre w \<Longrightarrow> walk_inv ms ds (pre @ dacl) (walk_loop ms ds dacl w)"
proof (induction dacl arbitrary: pre w)
  case (Cons a dacl)
  then show ?case using walk_inv_step [of ms ds pre w a] Cons.IH [of "pre @ [a]"] by simp
qed simp

lemma walk_inv_all: "walk_inv ms ds dacl (walk_dacl_stored_order dacl ms ds)"
proof -
  have "walk_inv ms ds [] walk_start"
    by (simp add: walk_inv_def walk_start_def decided_by_def contributions_of_def contributors_def)
  then show ?thesis
    unfolding walk_dacl_stored_order_def using walk_inv_loop by fastforce
qed

lemma walk_loop_append:
  "walk_loop ms ds (xs @ ys) w = walk_loop ms ds ys (walk_loop ms ds xs w)"
  by (induction xs arbitrary: w) simp_all

lemma walk_snoc:
  "walk_dacl_stored_order (dacl @ [a]) ms ds = walk_ace ms ds a (walk_dacl_stored_order dacl ms ds)"
  by (simp add: walk_dacl_stored_order_def walk_loop_append)

definition first_hit :: "Sid set \<times> Sid set \<Rightarrow> AceEntry list \<Rightarrow> nat \<Rightarrow> nat \<Rightarrow> bool" where
  \<comment> \<open>Entry \<open>i\<close> is the first that hits the token and contains right \<open>n\<close>.\<close>
  "first_hit t dacl i n \<longleftrightarrow> token_hits t (dacl ! i) \<and> bit (ntfs_rights (dacl ! i)) n
     \<and> \<not> list_ex (\<lambda>a. token_hits t a \<and> bit (ntfs_rights a) n) (take i dacl)"

lemma walk_decided_bits:
  "bit (wo_granted (walk_dacl_stored_order dacl ms ds) OR wo_denied (walk_dacl_stored_order dacl ms ds)) n
     \<longleftrightarrow> list_ex (\<lambda>a. token_hits (ms, ds) a \<and> bit (ntfs_rights a) n) dacl"
proof -
  have "decided_for is_allow_ace d \<or> decided_for is_deny_ace d \<longleftrightarrow> d \<noteq> None" for d
    by (cases d) (auto simp: deny_iff)
  moreover have "decider hits rights acl n \<noteq> None \<longleftrightarrow> list_ex (\<lambda>a. hits a \<and> bit (rights a) n) acl"
    for hits :: "'a \<Rightarrow> bool" and rights acl
    by (induction acl) auto
  ultimately show ?thesis
    by (simp add: bit_or_iff walk_dacl_stored_order_def walk_loop_bits walk_start_def)
qed

lemma decided_per_ace_first:
  "i < length dacl \<Longrightarrow>
     bit (wo_decided_per_ace (walk_dacl_stored_order dacl ms ds) ! i) n \<longleftrightarrow> first_hit (ms, ds) dacl i n"
proof (induction dacl rule: rev_induct)
  case (snoc a dacl)
  let ?w = "walk_dacl_stored_order dacl ms ds"
  have len: "length (wo_decided_per_ace ?w) = length dacl"
    using walk_inv_all [of ms ds dacl] by (simp add: walk_inv_def Let_def)
  show ?case
  proof (cases "i < length dacl")
    case True
    then show ?thesis
      using snoc.IH len by (simp add: walk_snoc walk_ace_masks(3) nth_append first_hit_def)
  next
    case False
    then have "i = length dacl" using snoc.prems by simp
    then show ?thesis
      using len walk_decided_bits [of dacl ms ds n]
      by (auto simp: walk_snoc walk_ace_masks(3) nth_append first_hit_def bit_simps
          dest: bit_imp_le_length)
  qed
qed simp

section \<open>Properties\<close>

text \<open>C14: the NTFS mask is the access check of Windows. For every DACL, every token (enabled SIDs
  and deny-only SIDs) and every requested mask, the access check that takes the entries in
  their stored order grants the request if and only if every requested right is in the mask
  the walk computes; inherit-only entries and generic rights included.\<close>

theorem walk_is_access_check:
  "access_check is_allow_ace ntfs_rights (token_hits (match_sids, deny_only_sids)) dacl requested \<longleftrightarrow>
     within requested (wo_granted (walk_dacl_stored_order dacl match_sids deny_only_sids))"
  using ntfs_walk.walk_refines_access_check [of "(match_sids, deny_only_sids)"] by simp

text \<open>C18: the provenance of the walk adds up. There is one slot per ACE; the slots of two ACEs
  share no right; the slots of the Allow ACEs together are exactly the granted mask and those
  of the Deny ACEs exactly the denied one; and the contributions list each trustee whose Allow
  ACEs decided something once, in the order of its first deciding ACE, with exactly the rights
  those ACEs decided.\<close>

theorem walk_provenance:
  "let w = walk_dacl_stored_order dacl match_sids deny_only_sids;
       slots = wo_decided_per_ace w;
       decided = zip dacl slots
   in length slots = length dacl \<and>
      sorted_wrt (\<lambda>a b. a AND b = 0) slots \<and>
      wo_granted w = decided_by is_allow_ace decided \<and>
      wo_denied w = decided_by is_deny_ace decided \<and>
      wo_contributions w = contributions_of decided"
  using walk_inv_all [of match_sids deny_only_sids dacl] by (simp add: walk_inv_def Let_def)

text \<open>The slot of an ACE holds exactly the rights it decides: a right is in it if and only if
  the ACE applies to the object and to the token, contains the right after generic rights are
  expanded, and no earlier ACE that applies contains it.\<close>

theorem slot_is_first_decision:
  assumes "i < length dacl"
  shows "bit (wo_decided_per_ace (walk_dacl_stored_order dacl match_sids deny_only_sids) ! i) n \<longleftrightarrow>
    first_hit (match_sids, deny_only_sids) dacl i n"
  using assms by (rule decided_per_ace_first)

definition sample_ace :: "AceKind \<Rightarrow> Sid \<Rightarrow> u32 \<Rightarrow> AceEntry" where
  "sample_ace kind sid m = \<lparr>ace_kind = kind, ace_sid = sid, ace_mask = m, ace_inherited = False,
     ace_inheritance_flags = 0, ace_propagation_flags = 0\<rparr>"

lemma slot_is_first_decision_witness:
  "bit (wo_decided_per_ace (walk_dacl_stored_order [sample_ace Deny ''S-1-1-0'' 2,
      sample_ace Allow ''S-1-1-0'' 3] {''S-1-1-0''} {}) ! 1) 0 \<longleftrightarrow>
   first_hit ({''S-1-1-0''}, {}) [sample_ace Deny ''S-1-1-0'' 2, sample_ace Allow ''S-1-1-0'' 3] 1 0"
  by (rule slot_is_first_decision) simp

end
