(* ===== verification/Dacl_Bounds.thy ===== *)
theory Dacl_Bounds
  imports Dacl_Walk
begin

unbundle bit_operations_syntax

text \<open>
  The bounds of an NTFS result over trustees whose presence in the token is not known
  (\<open>logon_dependent_bounds\<close> in \<open>crates/permission_engine/src/engine.rs\<close>). The lemmas state
  which tokens are possible, and that the result for every possible token lies within the
  bounds, or equals the shown value when no bounds are given.
\<close>

section \<open>Bounds over uncertain trustees\<close>

fun granted_with_loop ::
  "(Sid \<Rightarrow> bool) \<Rightarrow> (Sid \<Rightarrow> bool) \<Rightarrow> AceEntry list \<Rightarrow> u32 \<Rightarrow> u32 \<Rightarrow> u32" where
  "granted_with_loop allow_matches deny_matches [] granted denied = granted"
| "granted_with_loop allow_matches deny_matches (ace # dacl) granted denied =
     (if \<not> ace_applies_to_current_object ace
      then granted_with_loop allow_matches deny_matches dacl granted denied
      else if \<not> (case ace_kind ace of Allow \<Rightarrow> allow_matches (ace_sid ace)
                                     | Deny \<Rightarrow> deny_matches (ace_sid ace))
      then granted_with_loop allow_matches deny_matches dacl granted denied
      else (let bits = expand_generic_rights (ace_mask ace) AND NOT (granted OR denied)
            in case ace_kind ace of
                 Allow \<Rightarrow> granted_with_loop allow_matches deny_matches dacl (granted OR bits) denied
               | Deny \<Rightarrow> granted_with_loop allow_matches deny_matches dacl granted (denied OR bits)))"

definition walk_granted_with :: "AceEntry list \<Rightarrow> (Sid \<Rightarrow> bool) \<Rightarrow> (Sid \<Rightarrow> bool) \<Rightarrow> u32" where
  "walk_granted_with dacl allow_matches deny_matches =
     granted_with_loop allow_matches deny_matches dacl 0 0"

record LogonDependentBounds =
  ldb_sids :: "string list"
  ldb_min :: u32
  ldb_max :: u32

definition uncertain_trustee ::
  "AccessContext \<Rightarrow> Sid set \<Rightarrow> Sid set \<Rightarrow> Sid set \<Rightarrow> string option \<Rightarrow> bool \<Rightarrow> AceEntry \<Rightarrow> bool" where
  \<comment> \<open>The three filters that select the uncertain ACEs.\<close>
  "uncertain_trustee ctx match_sids logon_dependent_groups deny_only_groups uncertain_owner
       uac_filter_certain ace \<longleftrightarrow>
     ace_applies_to_current_object ace \<and> ace_sid ace \<notin> match_sids \<and>
     (is_logon_dependent_for (ace_sid ace) ctx match_sids
      \<or> ace_sid ace \<in> logon_dependent_groups
      \<or> (ace_kind ace = Allow \<and> ace_sid ace \<in> deny_only_groups \<and> \<not> uac_filter_certain)
      \<or> (is_some uncertain_owner \<and> ace_sid ace = SID_OWNER_RIGHTS))"

definition has_owner_rights_ace :: "AceEntry list \<Rightarrow> bool" where
  "has_owner_rights_ace dacl =
     list_ex (\<lambda>ace. ace_sid ace = SID_OWNER_RIGHTS \<and> ace_applies_to_current_object ace) dacl"

definition upper_owner_bits :: "AceEntry list \<Rightarrow> u32 \<Rightarrow> string option \<Rightarrow> u32" where
  "upper_owner_bits dacl owner_implicit_bits uncertain_owner =
     (if is_some uncertain_owner \<and> \<not> has_owner_rights_ace dacl
      then (owner_implicit_bits OR FILE_READ_CONTROL) OR FILE_WRITE_DAC
      else owner_implicit_bits)"

definition logon_dependent_bounds ::
  "AceEntry list \<Rightarrow> Sid set \<Rightarrow> AccessContext \<Rightarrow> Sid set \<Rightarrow> Sid set \<Rightarrow> u32 \<Rightarrow> string option \<Rightarrow> bool
     \<Rightarrow> LogonDependentBounds option" where
  "logon_dependent_bounds dacl match_sids ctx logon_dependent_groups deny_only_groups
       owner_implicit_bits uncertain_owner uac_filter_certain =
     (let uncertain = map ace_sid (filter (uncertain_trustee ctx match_sids logon_dependent_groups
            deny_only_groups uncertain_owner uac_filter_certain) dacl);
          upper_owner = upper_owner_bits dacl owner_implicit_bits uncertain_owner
      in if uncertain = [] \<and> upper_owner = owner_implicit_bits then None
         else (let uncertain = dedup_adjacent (sort_key (\<lambda>s. s) uncertain);
                   certain_allow = (\<lambda>sid. sid \<in> match_sids);
                   certain_deny = (\<lambda>sid. sid \<in> match_sids \<or> sid \<in> deny_only_groups);
                   maybe_allow = (\<lambda>sid. certain_allow sid \<or> sid \<in> set uncertain);
                   maybe_deny = (\<lambda>sid. certain_deny sid \<or> sid \<in> set uncertain);
                   max = walk_granted_with dacl maybe_allow certain_deny OR upper_owner;
                   min = walk_granted_with dacl certain_allow maybe_deny OR owner_implicit_bits
               in if min = max then None
                  else Some \<lparr>ldb_sids = (if uncertain = []
                         then (case uncertain_owner of Some owner \<Rightarrow> [owner] | None \<Rightarrow> [])
                         else uncertain),
                       ldb_min = min, ldb_max = max\<rparr>))"

section \<open>The bounding walk obeys the contract\<close>

definition predicate_hits :: "(Sid \<Rightarrow> bool) \<times> (Sid \<Rightarrow> bool) \<Rightarrow> AceEntry \<Rightarrow> bool" where
  "predicate_hits p ace \<longleftrightarrow> ace_applies_to_current_object ace
     \<and> (case ace_kind ace of Allow \<Rightarrow> fst p (ace_sid ace) | Deny \<Rightarrow> snd p (ace_sid ace))"

lemma granted_with_loop_bits:
  "bit (granted_with_loop p q dacl g d) n \<longleftrightarrow>
     (if bit (g OR d) n then bit g n
      else decided_for is_allow_ace (decider (predicate_hits (p, q)) ntfs_rights dacl n))"
proof (induction dacl arbitrary: g d)
  case (Cons a dacl)
  show ?case
    by (cases "ace_kind a")
      (auto simp: Cons.IH predicate_hits_def [of "(p, q)" a] ntfs_rights_def [of a]
        is_allow_ace_def [of a] Let_def bit_simps dest: bit_imp_le_length)
qed (simp add: bit_simps)

interpretation bound_walk: stored_order_walk is_allow_ace ntfs_rights predicate_hits
    "\<lambda>p dacl. walk_granted_with dacl (fst p) (snd p)"
  by unfold_locales (simp add: walk_granted_with_def granted_with_loop_bits)

section \<open>The tokens a result may be about\<close>

definition maybe_present ::
  "AccessContext \<Rightarrow> Sid set \<Rightarrow> Sid set \<Rightarrow> string option \<Rightarrow> Sid \<Rightarrow> bool" where
  \<comment> \<open>SIDs outside the known token that the real one may hold.\<close>
  "maybe_present ctx match_sids logon_dependent_groups uncertain_owner s \<longleftrightarrow>
     is_logon_dependent_for s ctx match_sids \<or> s \<in> logon_dependent_groups
     \<or> (is_some uncertain_owner \<and> s = SID_OWNER_RIGHTS)"

definition possible_token ::
  "AccessContext \<Rightarrow> Sid set \<Rightarrow> Sid set \<Rightarrow> Sid set \<Rightarrow> string option \<Rightarrow> bool \<Rightarrow> Sid set \<times> Sid set \<Rightarrow> bool" where
  \<comment> \<open>A token (enabled SIDs, SIDs that match Deny entries) that agrees with what is known: it
    holds the known SIDs, the groups User Account Control filters at least deny-only, and
    beyond them only SIDs that may be present.\<close>
  "possible_token ctx match_sids logon_dependent_groups deny_only_groups uncertain_owner
       uac_filter_certain t \<longleftrightarrow>
     match_sids \<subseteq> fst t \<and> match_sids \<union> deny_only_groups \<subseteq> snd t \<and>
     (\<forall>s \<in> fst t. s \<in> match_sids
        \<or> maybe_present ctx match_sids logon_dependent_groups uncertain_owner s
        \<or> (s \<in> deny_only_groups \<and> \<not> uac_filter_certain)) \<and>
     (\<forall>s \<in> snd t. s \<in> match_sids \<union> deny_only_groups
        \<or> maybe_present ctx match_sids logon_dependent_groups uncertain_owner s)"

definition possible_owner_bits :: "AceEntry list \<Rightarrow> u32 \<Rightarrow> string option \<Rightarrow> u32 \<Rightarrow> bool" where
  \<comment> \<open>The rights the owner rule may add: what is certain, or what an enabled owner group adds.\<close>
  "possible_owner_bits dacl owner_implicit_bits uncertain_owner bits \<longleftrightarrow>
     within owner_implicit_bits bits
     \<and> within bits (upper_owner_bits dacl owner_implicit_bits uncertain_owner)"

definition real_mask :: "AceEntry list \<Rightarrow> Sid set \<times> Sid set \<Rightarrow> u32 \<Rightarrow> u32" where
  \<comment> \<open>The access-check result for a token, with the rights of the owner rule.\<close>
  "real_mask dacl t owner_bits = wo_granted (walk_dacl_stored_order dacl (fst t) (snd t)) OR owner_bits"

lemma walk_as_predicates:
  "wo_granted (walk_dacl_stored_order dacl a d) =
     walk_granted_with dacl (\<lambda>s. s \<in> a) (\<lambda>s. s \<in> a \<or> s \<in> d)"
proof (rule bit_eqI)
  fix n
  have "token_hits (a, d) = predicate_hits (\<lambda>s. s \<in> a, \<lambda>s. s \<in> a \<or> s \<in> d)"
    by (auto simp: fun_eq_iff token_hits_def predicate_hits_def ace_matches_def split: AceKind.splits)
  then show "bit (wo_granted (walk_dacl_stored_order dacl a d)) n =
      bit (walk_granted_with dacl (\<lambda>s. s \<in> a) (\<lambda>s. s \<in> a \<or> s \<in> d)) n"
    using ntfs_walk.walk_bit [of dacl "(a, d)" n]
      bound_walk.walk_bit [of dacl "(\<lambda>s. s \<in> a, \<lambda>s. s \<in> a \<or> s \<in> d)" n]
    by (simp only: fst_conv snd_conv)
qed

lemma granted_with_mono:
  assumes "\<And>a. a \<in> set dacl \<Longrightarrow> ace_applies_to_current_object a \<Longrightarrow> is_allow_ace a \<Longrightarrow>
      p (ace_sid a) \<Longrightarrow> p' (ace_sid a)"
    and "\<And>a. a \<in> set dacl \<Longrightarrow> ace_applies_to_current_object a \<Longrightarrow> is_deny_ace a \<Longrightarrow>
      q' (ace_sid a) \<Longrightarrow> q (ace_sid a)"
  shows "within (walk_granted_with dacl p q) (walk_granted_with dacl p' q')"
proof -
  have "\<forall>a \<in> set dacl. is_allow_ace a \<and> predicate_hits (p, q) a \<longrightarrow> predicate_hits (p', q') a"
    using assms(1) by (auto simp: predicate_hits_def is_allow_ace_def)
  moreover have "\<forall>a \<in> set dacl. \<not> is_allow_ace a \<and> predicate_hits (p', q') a \<longrightarrow> predicate_hits (p, q) a"
    using assms(2) by (auto simp: predicate_hits_def is_allow_ace_def is_deny_ace_def split: AceKind.splits)
  ultimately have "within (walk_granted_with dacl (fst (p, q)) (snd (p, q)))
      (walk_granted_with dacl (fst (p', q')) (snd (p', q')))"
    by (rule bound_walk.walk_mono)
  then show ?thesis by simp
qed

lemma uncertain_allow:
  assumes "possible_token ctx ms ldg ds uo cert t" and "ace_applies_to_current_object a"
    and "is_allow_ace a" and "ace_sid a \<in> fst t" and "ace_sid a \<notin> ms"
  shows "uncertain_trustee ctx ms ldg ds uo cert a"
  using assms
  by (auto simp: possible_token_def maybe_present_def uncertain_trustee_def is_allow_ace_def)

lemma uncertain_deny:
  assumes "possible_token ctx ms ldg ds uo cert t" and "ace_applies_to_current_object a"
    and "ace_sid a \<in> snd t" and "ace_sid a \<notin> ms \<union> ds"
  shows "uncertain_trustee ctx ms ldg ds uo cert a"
  using assms by (auto simp: possible_token_def maybe_present_def uncertain_trustee_def)

section \<open>Every possible token is within the bounds\<close>

definition bound_sids ::
  "AceEntry list \<Rightarrow> AccessContext \<Rightarrow> Sid set \<Rightarrow> Sid set \<Rightarrow> Sid set \<Rightarrow> string option \<Rightarrow> bool \<Rightarrow> Sid list" where
  "bound_sids dacl ctx ms ldg ds uo cert =
     map ace_sid (filter (uncertain_trustee ctx ms ldg ds uo cert) dacl)"

definition upper_mask where
  "upper_mask dacl ctx ms ldg ds uo cert = walk_granted_with dacl
     (\<lambda>s. s \<in> ms \<or> s \<in> set (bound_sids dacl ctx ms ldg ds uo cert)) (\<lambda>s. s \<in> ms \<or> s \<in> ds)"

definition lower_mask where
  "lower_mask dacl ctx ms ldg ds uo cert = walk_granted_with dacl (\<lambda>s. s \<in> ms)
     (\<lambda>s. (s \<in> ms \<or> s \<in> ds) \<or> s \<in> set (bound_sids dacl ctx ms ldg ds uo cert))"

lemma possible_within_upper:
  assumes "possible_token ctx ms ldg ds uo cert t"
  shows "within (wo_granted (walk_dacl_stored_order dacl (fst t) (snd t)))
    (upper_mask dacl ctx ms ldg ds uo cert)"
  unfolding walk_as_predicates upper_mask_def
proof (rule granted_with_mono)
  fix a
  assume a: "a \<in> set dacl" "ace_applies_to_current_object a"
  show "ace_sid a \<in> ms \<or> ace_sid a \<in> set (bound_sids dacl ctx ms ldg ds uo cert)"
    if "is_allow_ace a" "ace_sid a \<in> fst t"
    using uncertain_allow [OF assms a(2) that] a(1) by (auto simp: bound_sids_def)
  show "ace_sid a \<in> fst t \<or> ace_sid a \<in> snd t" if "ace_sid a \<in> ms \<or> ace_sid a \<in> ds"
    using that assms by (auto simp: possible_token_def)
qed

lemma lower_within_possible:
  assumes "possible_token ctx ms ldg ds uo cert t" and "fst t \<subseteq> snd t"
  shows "within (lower_mask dacl ctx ms ldg ds uo cert)
    (wo_granted (walk_dacl_stored_order dacl (fst t) (snd t)))"
  unfolding walk_as_predicates lower_mask_def
proof (rule granted_with_mono)
  fix a
  assume a: "a \<in> set dacl" "ace_applies_to_current_object a"
  show "ace_sid a \<in> fst t" if "ace_sid a \<in> ms"
    using that assms by (auto simp: possible_token_def)
  show "(ace_sid a \<in> ms \<or> ace_sid a \<in> ds) \<or> ace_sid a \<in> set (bound_sids dacl ctx ms ldg ds uo cert)"
    if "ace_sid a \<in> fst t \<or> ace_sid a \<in> snd t"
    using uncertain_deny [OF assms(1) a(2)] that a(1) assms(2) by (auto simp: bound_sids_def)
qed

lemma known_token_possible: "possible_token ctx ms ldg ds uo cert (ms, ms \<union> ds)"
  by (auto simp: possible_token_def)

lemma shown_mask: "wo_granted (walk_dacl_stored_order dacl ms (ms \<union> ds)) =
    wo_granted (walk_dacl_stored_order dacl ms ds)"
  unfolding walk_as_predicates by (simp add: disj_assoc [symmetric])

lemma upper_owner_bits_within: "within implicit (upper_owner_bits dacl implicit uo)"
  by (simp add: upper_owner_bits_def within_or_transfer)

lemma bounds_cases:
  obtains (none) "logon_dependent_bounds dacl ms ctx ldg ds implicit uo cert = None"
      "lower_mask dacl ctx ms ldg ds uo cert OR implicit =
        upper_mask dacl ctx ms ldg ds uo cert OR upper_owner_bits dacl implicit uo"
  | (some) b where "logon_dependent_bounds dacl ms ctx ldg ds implicit uo cert = Some b"
      "ldb_min b = lower_mask dacl ctx ms ldg ds uo cert OR implicit"
      "ldb_max b = upper_mask dacl ctx ms ldg ds uo cert OR upper_owner_bits dacl implicit uo"
proof (cases "bound_sids dacl ctx ms ldg ds uo cert = [] \<and> upper_owner_bits dacl implicit uo = implicit")
  case True
  then have "logon_dependent_bounds dacl ms ctx ldg ds implicit uo cert = None"
    by (simp add: logon_dependent_bounds_def bound_sids_def [symmetric])
  moreover have "lower_mask dacl ctx ms ldg ds uo cert = upper_mask dacl ctx ms ldg ds uo cert"
    using True by (simp add: lower_mask_def upper_mask_def)
  ultimately show thesis using none True by simp
next
  case False
  show thesis
  proof (cases "lower_mask dacl ctx ms ldg ds uo cert OR implicit =
      upper_mask dacl ctx ms ldg ds uo cert OR upper_owner_bits dacl implicit uo")
    case True
    then show thesis
      using none False
      by (simp add: logon_dependent_bounds_def bound_sids_def [symmetric] Let_def
          lower_mask_def upper_mask_def)
  next
    case differ: False
    then show thesis
      using some False
      by (auto simp: logon_dependent_bounds_def bound_sids_def [symmetric] Let_def
          lower_mask_def upper_mask_def)
  qed
qed

lemma possible_mask_range:
  assumes "possible_token ctx ms ldg ds uo cert t" and "fst t \<subseteq> snd t"
    and "possible_owner_bits dacl implicit uo bits"
  shows "within (lower_mask dacl ctx ms ldg ds uo cert OR implicit) (real_mask dacl t bits)"
    and "within (real_mask dacl t bits)
      (upper_mask dacl ctx ms ldg ds uo cert OR upper_owner_bits dacl implicit uo)"
  using assms possible_within_upper [OF assms(1)] lower_within_possible [OF assms(1,2)]
  by (auto simp: real_mask_def possible_owner_bits_def intro!: within_or_mono)

lemma shown_is_possible:
  "real_mask dacl (ms, ms \<union> ds) implicit = wo_granted (walk_dacl_stored_order dacl ms ds) OR implicit"
  "possible_owner_bits dacl implicit uo implicit"
  by (simp_all add: real_mask_def shown_mask possible_owner_bits_def upper_owner_bits_within)

lemma shown_mask_range:
  "within (lower_mask dacl ctx ms ldg ds uo cert OR implicit)
     (wo_granted (walk_dacl_stored_order dacl ms ds) OR implicit)"
  "within (wo_granted (walk_dacl_stored_order dacl ms ds) OR implicit)
     (upper_mask dacl ctx ms ldg ds uo cert OR upper_owner_bits dacl implicit uo)"
  using possible_mask_range [where t = "(ms, ms \<union> ds)" and bits = implicit and dacl = dacl and ctx = ctx
      and ms = ms and ldg = ldg and ds = ds and uo = uo and cert = cert and implicit = implicit]
  unfolding shown_is_possible(1) by (simp_all add: known_token_possible shown_is_possible(2))

lemma bounds_range:
  assumes "logon_dependent_bounds dacl ms ctx ldg ds implicit uo cert = Some b"
    and "possible_token ctx ms ldg ds uo cert t" and "fst t \<subseteq> snd t"
    and "possible_owner_bits dacl implicit uo bits"
  shows "within (ldb_min b) (real_mask dacl t bits) \<and> within (real_mask dacl t bits) (ldb_max b)
    \<and> within (ldb_min b) (wo_granted (walk_dacl_stored_order dacl ms ds) OR implicit)
    \<and> within (wo_granted (walk_dacl_stored_order dacl ms ds) OR implicit) (ldb_max b)"
  using assms(1) possible_mask_range [OF assms(2-4)]
    shown_mask_range [where dacl = dacl and ctx = ctx and ms = ms and ldg = ldg and ds = ds and uo = uo
      and cert = cert and implicit = implicit]
  by (cases rule: bounds_cases [of dacl ms ctx ldg ds implicit uo cert]) simp_all

lemma no_bounds_value:
  assumes "logon_dependent_bounds dacl ms ctx ldg ds implicit uo cert = None"
    and "possible_token ctx ms ldg ds uo cert t" and "fst t \<subseteq> snd t"
    and "possible_owner_bits dacl implicit uo bits"
  shows "real_mask dacl t bits = wo_granted (walk_dacl_stored_order dacl ms ds) OR implicit"
proof -
  note range = possible_mask_range [OF assms(2-4)]
    shown_mask_range [where dacl = dacl and ctx = ctx and ms = ms and ldg = ldg and ds = ds and uo = uo
      and cert = cert and implicit = implicit]
  show ?thesis
    using assms(1)
  proof (cases rule: bounds_cases [of dacl ms ctx ldg ds implicit uo cert])
    case none
    then show ?thesis
      using range by (metis within_antisym)
  qed simp
qed

section \<open>Properties\<close>

text \<open>C15: the bounds are sound. Whenever bounds are reported, the access-check result of every
  token that agrees with what is known (the known SIDs enabled, the filtered groups at least
  deny-only, any choice of logon-dependent SIDs, uncertain groups and, while the filtering is
  uncertain, enabled filtered groups), with any choice of the uncertain owner grant, contains
  the lower bound and is contained in the upper bound; and so is the value that is shown.\<close>

theorem bounds_sound:
  assumes "logon_dependent_bounds dacl ms ctx ldg ds implicit uo cert = Some b"
    and "possible_token ctx ms ldg ds uo cert t" and "fst t \<subseteq> snd t"
    and "possible_owner_bits dacl implicit uo bits"
  shows "within (ldb_min b) (real_mask dacl t bits) \<and> within (real_mask dacl t bits) (ldb_max b)
    \<and> within (ldb_min b) (wo_granted (walk_dacl_stored_order dacl ms ds) OR implicit)
    \<and> within (wo_granted (walk_dacl_stored_order dacl ms ds) OR implicit) (ldb_max b)"
  using assms by (rule bounds_range)

lemma bounds_sound_witness:
  "within (ldb_min \<lparr>ldb_sids = [''S-1-5-113''], ldb_min = 1, ldb_max = 3\<rparr>)
      (real_mask [sample_ace Allow ''S-1-5-113'' 2, sample_ace Allow ''S-1-1-0'' 1]
        ({''S-1-1-0'', ''S-1-5-113''}, {''S-1-1-0'', ''S-1-5-113''}) 0)
   \<and> within (real_mask [sample_ace Allow ''S-1-5-113'' 2, sample_ace Allow ''S-1-1-0'' 1]
        ({''S-1-1-0'', ''S-1-5-113''}, {''S-1-1-0'', ''S-1-5-113''}) 0)
      (ldb_max \<lparr>ldb_sids = [''S-1-5-113''], ldb_min = 1, ldb_max = 3\<rparr>)
   \<and> within (ldb_min \<lparr>ldb_sids = [''S-1-5-113''], ldb_min = 1, ldb_max = 3\<rparr>)
      (wo_granted (walk_dacl_stored_order [sample_ace Allow ''S-1-5-113'' 2,
        sample_ace Allow ''S-1-1-0'' 1] {''S-1-1-0''} {}) OR 0)
   \<and> within (wo_granted (walk_dacl_stored_order [sample_ace Allow ''S-1-5-113'' 2,
        sample_ace Allow ''S-1-1-0'' 1] {''S-1-1-0''} {}) OR 0)
      (ldb_max \<lparr>ldb_sids = [''S-1-5-113''], ldb_min = 1, ldb_max = 3\<rparr>)"
proof (rule bounds_sound [where ctx = RemoteSmb and ldg = "{}" and uo = None and cert = False])
  have "expand_generic_rights 1 = 1" "expand_generic_rights 2 = 2"
    by (simp_all add: expand_without_generic has_generic_def mask_consts)
  then show "logon_dependent_bounds [sample_ace Allow ''S-1-5-113'' 2, sample_ace Allow ''S-1-1-0'' 1]
      {''S-1-1-0''} RemoteSmb {} {} 0 None False = Some \<lparr>ldb_sids = [''S-1-5-113''], ldb_min = 1, ldb_max = 3\<rparr>"
    by (simp add: logon_dependent_bounds_def uncertain_trustee_def sample_ace_def
        ace_applies_to_current_object_def is_logon_dependent_for_def is_logon_dependent_sid_def
        sid_consts upper_owner_bits_def walk_granted_with_def Let_def)
qed (auto simp: possible_token_def maybe_present_def is_logon_dependent_for_def
    is_logon_dependent_sid_def sid_consts possible_owner_bits_def upper_owner_bits_def)

text \<open>No bounds means the result is exact. When the function reports no bounds, the
  access-check result of every token that agrees with what is known, with any choice of the
  uncertain owner grant, equals the value that is shown.\<close>

theorem no_bounds_exact:
  assumes "logon_dependent_bounds dacl ms ctx ldg ds implicit uo cert = None"
    and "possible_token ctx ms ldg ds uo cert t" and "fst t \<subseteq> snd t"
    and "possible_owner_bits dacl implicit uo bits"
  shows "real_mask dacl t bits = wo_granted (walk_dacl_stored_order dacl ms ds) OR implicit"
  using assms by (rule no_bounds_value)

lemma no_bounds_exact_witness:
  "real_mask [sample_ace Deny ''S-1-1-0'' 2, sample_ace Allow ''S-1-5-113'' 2]
      ({''S-1-1-0'', ''S-1-5-113''}, {''S-1-1-0'', ''S-1-5-113''}) 0 =
    wo_granted (walk_dacl_stored_order [sample_ace Deny ''S-1-1-0'' 2,
      sample_ace Allow ''S-1-5-113'' 2] {''S-1-1-0''} {}) OR 0"
proof (rule no_bounds_exact [where ctx = RemoteSmb and ldg = "{}" and uo = None and cert = False])
  have "expand_generic_rights 2 = 2"
    by (simp add: expand_without_generic has_generic_def mask_consts)
  then show "logon_dependent_bounds [sample_ace Deny ''S-1-1-0'' 2, sample_ace Allow ''S-1-5-113'' 2]
      {''S-1-1-0''} RemoteSmb {} {} 0 None False = None"
    by (simp add: logon_dependent_bounds_def uncertain_trustee_def sample_ace_def
        ace_applies_to_current_object_def is_logon_dependent_for_def is_logon_dependent_sid_def
        sid_consts upper_owner_bits_def walk_granted_with_def Let_def)
qed (auto simp: possible_token_def maybe_present_def is_logon_dependent_for_def
    is_logon_dependent_sid_def sid_consts possible_owner_bits_def upper_owner_bits_def)

end
