(* ===== verification/Dacl_Order.thy ===== *)
theory Dacl_Order
  imports Dacl_Walk
begin

unbundle bit_operations_syntax

text \<open>
  The findings on the order of a DACL (\<open>dacl_order_finding\<close>, \<open>collect_diagnostics\<close> in
  \<open>crates/permission_engine/src/engine.rs\<close>). The lemmas show which entry a finding names, that
  no finding means canonical order, and what the stored-order walk computes on such a list.
\<close>

section \<open>The order of a DACL\<close>

datatype DaclOrderFinding = NonCanonical nat | InheritedLevelsUnknown nat

fun order_loop ::
  "nat \<Rightarrow> bool \<Rightarrow> bool \<Rightarrow> bool \<Rightarrow> nat option \<Rightarrow> AceEntry list \<Rightarrow> DaclOrderFinding option" where
  \<comment> \<open>Arguments: index, \<open>seen_inherited\<close>, \<open>seen_explicit_allow\<close>, \<open>seen_inherited_allow\<close>,
    \<open>ambiguous\<close>.\<close>
  "order_loop i seen_inh seen_ea seen_ia ambiguous [] = map_option InheritedLevelsUnknown ambiguous"
| "order_loop i seen_inh seen_ea seen_ia ambiguous (ace # dacl) =
     (case (ace_inherited ace, ace_kind ace) of
        (False, Deny) \<Rightarrow>
          (if seen_inh \<or> seen_ea then Some (NonCanonical i)
           else order_loop (Suc i) seen_inh seen_ea seen_ia ambiguous dacl)
      | (False, Allow) \<Rightarrow>
          (if seen_inh then Some (NonCanonical i)
           else order_loop (Suc i) seen_inh True seen_ia ambiguous dacl)
      | (True, Deny) \<Rightarrow>
          order_loop (Suc i) True seen_ea seen_ia
            (if seen_ia \<and> ambiguous = None then Some i else ambiguous) dacl
      | (True, Allow) \<Rightarrow> order_loop (Suc i) True seen_ea True ambiguous dacl)"

definition dacl_order_finding :: "AceEntry list \<Rightarrow> DaclOrderFinding option" where
  "dacl_order_finding dacl = order_loop 0 False False False None dacl"

definition collect_diagnostics :: "AceEntry list \<Rightarrow> PermissionDiagnostic list" where
  \<comment> \<open>The log lines, and with them the path they name, are left out.\<close>
  "collect_diagnostics dacl =
     (case dacl_order_finding dacl of
        Some (NonCanonical at) \<Rightarrow> [NonCanonicalDaclOrder at]
      | Some (InheritedLevelsUnknown at) \<Rightarrow> [InheritedDenyAfterInheritedAllow at]
      | None \<Rightarrow> [])"

section \<open>The entry a finding names\<close>

definition misplaced :: "AceEntry list \<Rightarrow> nat \<Rightarrow> bool" where
  \<comment> \<open>An explicit entry after an inherited one, or an explicit Deny after an explicit Allow.\<close>
  "misplaced dacl i \<longleftrightarrow> \<not> ace_inherited (dacl ! i) \<and>
     list_ex (\<lambda>b. ace_inherited b \<or> (ace_kind (dacl ! i) = Deny \<and> ace_kind b = Allow)) (take i dacl)"

definition level_ambiguous :: "AceEntry list \<Rightarrow> nat \<Rightarrow> bool" where
  \<comment> \<open>An inherited Deny after an inherited Allow.\<close>
  "level_ambiguous dacl i \<longleftrightarrow> ace_inherited (dacl ! i) \<and> ace_kind (dacl ! i) = Deny \<and>
     list_ex (\<lambda>b. ace_inherited b \<and> ace_kind b = Allow) (take i dacl)"

definition order_spec :: "AceEntry list \<Rightarrow> DaclOrderFinding option" where
  "order_spec dacl =
     (case find (misplaced dacl) [0..<length dacl] of
        Some i \<Rightarrow> Some (NonCanonical i)
      | None \<Rightarrow> map_option InheritedLevelsUnknown (find (level_ambiguous dacl) [0..<length dacl]))"

lemma find_append: "find P (xs @ ys) = (case find P xs of None \<Rightarrow> find P ys | Some x \<Rightarrow> Some x)"
  by (induction xs) auto

lemma find_upt_Suc:
  "find P [0..<Suc k] = (case find P [0..<k] of None \<Rightarrow> if P k then Some k else None | Some x \<Rightarrow> Some x)"
  by (simp add: find_append split: option.splits)

lemma find_upt_first:
  assumes "find P [0..<k] = None" and "P k" and "k < n"
  shows "find P [0..<n] = Some k"
proof -
  have "[0..<n] = [0..<k] @ k # [Suc k..<n]"
    using upt_add_eq_append [of 0 k "n - k"] assms(3) by (simp add: upt_rec [of k n])
  then show ?thesis using assms by (simp add: find_append)
qed

lemma order_loop_spec:
  assumes "seen_inh \<longleftrightarrow> list_ex ace_inherited pre"
    and "seen_ea \<longleftrightarrow> list_ex (\<lambda>b. \<not> ace_inherited b \<and> ace_kind b = Allow) pre"
    and "seen_ia \<longleftrightarrow> list_ex (\<lambda>b. ace_inherited b \<and> ace_kind b = Allow) pre"
    and "ambiguous = find (level_ambiguous (pre @ dacl)) [0..<length pre]"
    and "find (misplaced (pre @ dacl)) [0..<length pre] = None"
  shows "order_loop (length pre) seen_inh seen_ea seen_ia ambiguous dacl = order_spec (pre @ dacl)"
  using assms
proof (induction dacl arbitrary: pre seen_inh seen_ea seen_ia ambiguous)
  case Nil
  then show ?case by (simp add: order_spec_def)
next
  case (Cons a dacl)
  let ?all = "pre @ a # dacl"
  have here: "misplaced ?all (length pre) \<longleftrightarrow> \<not> ace_inherited a \<and>
        (seen_inh \<or> (ace_kind a = Deny \<and> seen_ea))"
      "level_ambiguous ?all (length pre) \<longleftrightarrow> ace_inherited a \<and> ace_kind a = Deny \<and> seen_ia"
    using Cons.prems(1-3) by (auto simp: misplaced_def level_ambiguous_def list_ex_iff)
  show ?case
  proof (cases "misplaced ?all (length pre)")
    case True
    have "find (misplaced ?all) [0..<length ?all] = Some (length pre)"
      by (rule find_upt_first) (use Cons.prems(5) True in simp_all)
    then have "order_spec ?all = Some (NonCanonical (length pre))" by (simp add: order_spec_def)
    then show ?thesis
      using True unfolding here by (cases "ace_kind a") auto
  next
    case False
    have ok: "find (misplaced ?all) [0..<length (pre @ [a])] = None"
      using Cons.prems(5) False by (simp add: find_append)
    have amb: "find (level_ambiguous ?all) [0..<length (pre @ [a])] =
        (if ace_inherited a \<and> ace_kind a = Deny \<and> seen_ia \<and> ambiguous = None
         then Some (length pre) else ambiguous)"
      using Cons.prems(4) here(2) by (auto simp: find_append split: option.splits)
    have step: "order_loop (length (pre @ [a])) (seen_inh \<or> ace_inherited a)
        (seen_ea \<or> (\<not> ace_inherited a \<and> ace_kind a = Allow))
        (seen_ia \<or> (ace_inherited a \<and> ace_kind a = Allow))
        (if ace_inherited a \<and> ace_kind a = Deny \<and> seen_ia \<and> ambiguous = None
         then Some (length pre) else ambiguous) dacl = order_spec ((pre @ [a]) @ dacl)"
      by (rule Cons.IH) (use Cons.prems(1-3) ok amb in auto)
    show ?thesis
      using step False unfolding here
      by (cases "ace_kind a"; cases "ace_inherited a") auto
  qed
qed

lemma dacl_order_finding_spec: "dacl_order_finding dacl = order_spec dacl"
  using order_loop_spec [of False "[]" False False None dacl] by (simp add: dacl_order_finding_def)

section \<open>Canonical order\<close>

definition order_rank :: "AceEntry \<Rightarrow> nat" where
  \<comment> \<open>The canonical order: explicit Deny, explicit Allow, inherited Deny, inherited Allow.\<close>
  "order_rank a = (if ace_inherited a then 2 else 0) + (if ace_kind a = Allow then 1 else 0)"

lemma order_loop_None:
  "(seen_ia \<longrightarrow> seen_inh) \<Longrightarrow> order_loop i seen_inh seen_ea seen_ia ambiguous dacl = None \<longleftrightarrow>
     ambiguous = None \<and> sorted (map order_rank dacl) \<and>
     (\<forall>a \<in> set dacl. (seen_inh \<longrightarrow> 2 \<le> order_rank a) \<and> (seen_ea \<longrightarrow> 1 \<le> order_rank a)
        \<and> (seen_ia \<longrightarrow> 3 \<le> order_rank a))"
proof (induction dacl arbitrary: i seen_inh seen_ea seen_ia ambiguous)
  case (Cons a dacl)
  have rank: "order_rank b \<le> 3" "2 \<le> order_rank b \<longleftrightarrow> ace_inherited b" for b
    by (auto simp: order_rank_def)
  show ?case
    by (cases "ace_kind a"; cases "ace_inherited a")
      (use Cons.prems in \<open>auto simp: Cons.IH order_rank_def [of a] dest: order_trans\<close>)
qed simp

lemma sorted_ranks_split:
  fixes f :: "'a \<Rightarrow> nat"
  assumes "sorted (map f xs)" and "\<forall>x \<in> set xs. f x \<le> 3"
  shows "xs = filter (\<lambda>x. f x = 0) xs @ filter (\<lambda>x. f x = 1) xs @ filter (\<lambda>x. f x = 2) xs
    @ filter (\<lambda>x. f x = 3) xs"
  using assms
proof (induction xs)
  case (Cons x xs)
  have le: "\<forall>y \<in> set xs. f x \<le> f y" and "f x \<le> 3" using Cons.prems by auto
  then have none: "filter (\<lambda>y. f y = k) xs = []" if "k < f x" for k
    using that by (auto simp: filter_empty_conv)
  have "f x = 0 \<or> f x = 1 \<or> f x = 2 \<or> f x = 3" using \<open>f x \<le> 3\<close> by arith
  then show ?case using Cons none [of 0] none [of 1] none [of 2] by (elim disjE) auto
qed simp

definition part :: "bool \<Rightarrow> AceKind \<Rightarrow> AceEntry list \<Rightarrow> AceEntry list" where
  "part inherited kind dacl = filter (\<lambda>a. ace_inherited a = inherited \<and> ace_kind a = kind) dacl"

lemma part_rank:
  "part False Deny dacl = filter (\<lambda>a. order_rank a = 0) dacl"
  "part False Allow dacl = filter (\<lambda>a. order_rank a = 1) dacl"
  "part True Deny dacl = filter (\<lambda>a. order_rank a = 2) dacl"
  "part True Allow dacl = filter (\<lambda>a. order_rank a = 3) dacl"
  unfolding part_def
  by (rule filter_cong [OF refl]; case_tac "ace_kind x"; auto simp: order_rank_def split: if_splits)+

lemma canonical_split:
  assumes "dacl_order_finding dacl = None"
  shows "dacl = part False Deny dacl @ part False Allow dacl @ part True Deny dacl @ part True Allow dacl"
proof -
  have "sorted (map order_rank dacl)"
    using assms by (simp add: dacl_order_finding_def order_loop_None)
  then show ?thesis
    unfolding part_rank by (rule sorted_ranks_split) (auto simp: order_rank_def)
qed

definition named_rights :: "Sid set \<times> Sid set \<Rightarrow> AceEntry list \<Rightarrow> u32" where
  \<comment> \<open>The rights named by the entries that apply to the object and the token.\<close>
  "named_rights t dacl = or_list (map ntfs_rights (filter (token_hits t) dacl))"

section \<open>Properties\<close>

text \<open>C20: the order finding is exact. The DACL is reported as non-canonical at index \<open>i\<close> if and
  only if \<open>i\<close> is the first explicit ACE after an inherited one or explicit Deny after an
  explicit Allow; otherwise the first inherited Deny after an inherited Allow is reported as
  undecidable; and nothing is reported if and only if the ACEs stand in canonical order.\<close>

theorem order_finding_exact:
  "dacl_order_finding dacl = order_spec dacl
   \<and> (dacl_order_finding dacl = None \<longleftrightarrow> sorted (map order_rank dacl))"
  by (simp add: dacl_order_finding_spec [symmetric]) (simp add: dacl_order_finding_def order_loop_None)

text \<open>C19: on a DACL without an order finding, evaluation is "Deny before Allow, explicit before
  inherited": the granted mask consists of the explicitly allowed rights that are not
  explicitly denied, and of the rights allowed but not denied by inherited ACEs that no
  explicit ACE for the token names.\<close>

theorem canonical_evaluation:
  assumes "dacl_order_finding dacl = None"
  shows "wo_granted (walk_dacl_stored_order dacl match_sids deny_only_sids) =
    (let rights = (\<lambda>inherited kind. named_rights (match_sids, deny_only_sids) (part inherited kind dacl))
     in (rights False Allow AND NOT (rights False Deny)) OR
        ((rights True Allow AND NOT (rights True Deny))
           AND NOT (rights False Deny OR rights False Allow)))"
proof -
  let ?t = "(match_sids, deny_only_sids)"
  let ?w = "\<lambda>d. wo_granted (walk_dacl_stored_order d (fst ?t) (snd ?t))"
  let ?explicit = "part False Deny dacl @ part False Allow dacl"
  let ?inherited = "part True Deny dacl @ part True Allow dacl"
  have kinds: "\<forall>a \<in> set (part b Deny dacl). \<not> is_allow_ace a" "\<forall>a \<in> set (part b Allow dacl). is_allow_ace a" for b
    by (auto simp: part_def is_allow_ace_def)
  have "?w dacl = ?w (?explicit @ ?inherited)"
    using canonical_split [OF assms] by simp
  also have "\<dots> = ?w ?explicit OR (?w ?inherited AND NOT (named_rights ?t ?explicit))"
    unfolding named_rights_def by (rule ntfs_walk.walk_append)
  also have "?w ?explicit = named_rights ?t (part False Allow dacl) AND NOT (named_rights ?t (part False Deny dacl))"
    unfolding named_rights_def by (rule ntfs_walk.walk_deny_first [OF kinds])
  also have "?w ?inherited = named_rights ?t (part True Allow dacl) AND NOT (named_rights ?t (part True Deny dacl))"
    unfolding named_rights_def by (rule ntfs_walk.walk_deny_first [OF kinds])
  also have "named_rights ?t ?explicit = named_rights ?t (part False Deny dacl) OR named_rights ?t (part False Allow dacl)"
    by (simp add: named_rights_def)
  finally show ?thesis by (simp add: Let_def)
qed

lemma canonical_evaluation_witness:
  "wo_granted (walk_dacl_stored_order [sample_ace Deny ''S-1-1-0'' 2, sample_ace Allow ''S-1-1-0'' 3]
      {''S-1-1-0''} {}) =
    (let rights = (\<lambda>inherited kind. named_rights ({''S-1-1-0''}, {})
        (part inherited kind [sample_ace Deny ''S-1-1-0'' 2, sample_ace Allow ''S-1-1-0'' 3]))
     in (rights False Allow AND NOT (rights False Deny)) OR
        ((rights True Allow AND NOT (rights True Deny))
           AND NOT (rights False Deny OR rights False Allow)))"
  by (rule canonical_evaluation) (simp add: dacl_order_finding_def sample_ace_def)

end
