(* ===== verification/Engine.thy ===== *)
theory Engine
  imports Explanation
begin

unbundle bit_operations_syntax

text \<open>
  The evaluation of the effective permission of one identity on one object:
  \<open>DefaultPermissionEngine::evaluate\<close> in \<open>crates/permission_engine/src/engine.rs\<close>, cut into one
  definition per stage (token, owner rule, walk, bounds, share side, markers, result, logon
  decision, explanation), in the order of the source, and composed by \<open>evaluate\<close>. The
  evaluation never fails, so the result is always on the right of the sum.
\<close>

section \<open>The token\<close>

definition token_with_filter :: "PermissionEvaluationInput \<Rightarrow> Sid set" where
  \<comment> \<open>\<open>user_sids\<close> before Cryptographic Operators is taken out.\<close>
  "token_with_filter inp =
     (let user_sids = collect_user_sids (in_identity inp) (in_group_memberships inp)
            (in_local_group_sids inp) (in_access_context inp);
          user_sids = user_sids - set (in_uac_filtered_group_sids inp)
      in if anonymous_gets_everyone (id_sid (in_identity inp)) (in_anonymous_everyone inp)
         then insert SID_EVERYONE user_sids else user_sids)"

definition crypto_operators_uncertain :: "PermissionEvaluationInput \<Rightarrow> bool" where
  "crypto_operators_uncertain inp \<longleftrightarrow> SID_CRYPTOGRAPHIC_OPERATORS \<in> token_with_filter inp"

definition user_sids :: "PermissionEvaluationInput \<Rightarrow> Sid set" where
  "user_sids inp = token_with_filter inp - {SID_CRYPTOGRAPHIC_OPERATORS}"

definition user_is_owner :: "PermissionEvaluationInput \<Rightarrow> bool" where
  "user_is_owner inp =
     (case fso_owner_sid (in_file_system_object inp) of
        Some owner \<Rightarrow> owner \<in> user_sids inp | None \<Rightarrow> False)"

definition owner_rights_ace_present :: "PermissionEvaluationInput \<Rightarrow> bool" where
  "owner_rights_ace_present inp \<longleftrightarrow>
     user_is_owner inp \<and> has_owner_rights_ace (fso_dacl (in_file_system_object inp))"

definition match_sids :: "PermissionEvaluationInput \<Rightarrow> Sid set" where
  "match_sids inp =
     (if user_is_owner inp then insert SID_OWNER_RIGHTS (user_sids inp) else user_sids inp)"

definition deny_only_sids :: "PermissionEvaluationInput \<Rightarrow> Sid set" where
  "deny_only_sids inp = set (in_uac_filtered_group_sids inp)"

definition uac_certain_reason :: "PermissionEvaluationInput \<Rightarrow> string option" where
  "uac_certain_reason inp = (case in_remote_uac inp of Filtered reason \<Rightarrow> Some reason | _ \<Rightarrow> None)"

definition uac_filter_certain :: "PermissionEvaluationInput \<Rightarrow> bool" where
  "uac_filter_certain inp = is_some (uac_certain_reason inp)"

definition uncertain_owner :: "PermissionEvaluationInput \<Rightarrow> string option" where
  "uncertain_owner inp =
     (case fso_owner_sid (in_file_system_object inp) of
        Some owner \<Rightarrow>
          (if owner \<in> deny_only_sids inp \<and> \<not> uac_filter_certain inp then Some owner else None)
      | None \<Rightarrow> None)"

section \<open>The NTFS side\<close>

definition dacl_walk :: "PermissionEvaluationInput \<Rightarrow> DaclWalkOutcome" where
  "dacl_walk inp =
     (if fso_null_dacl (in_file_system_object inp) then
        \<lparr>wo_granted = MASK_FULL_CONTROL, wo_denied = 0, wo_contributions = [], wo_decided_per_ace = []\<rparr>
      else walk_dacl_stored_order (fso_dacl (in_file_system_object inp)) (match_sids inp)
        (deny_only_sids inp))"

definition owner_implicit_bits :: "PermissionEvaluationInput \<Rightarrow> u32" where
  "owner_implicit_bits inp =
     (if user_is_owner inp \<and> \<not> owner_rights_ace_present inp then FILE_READ_CONTROL OR FILE_WRITE_DAC
      else 0)"

definition ntfs_raw :: "PermissionEvaluationInput \<Rightarrow> u32" where
  "ntfs_raw inp = wo_granted (dacl_walk inp) OR owner_implicit_bits inp"

definition logon_dependent_groups :: "PermissionEvaluationInput \<Rightarrow> Sid set" where
  "logon_dependent_groups inp =
     set (in_logon_dependent_group_sids inp)
     \<union> (if crypto_operators_uncertain inp then {SID_CRYPTOGRAPHIC_OPERATORS} else {})
     \<union> set (uncertain_well_knowns_with (id_sid (in_identity inp)) (in_anonymous_everyone inp))"

definition logon_dependent :: "PermissionEvaluationInput \<Rightarrow> LogonDependentBounds option" where
  "logon_dependent inp =
     (if fso_null_dacl (in_file_system_object inp) then None
      else logon_dependent_bounds (fso_dacl (in_file_system_object inp)) (match_sids inp)
        (in_access_context inp) (logon_dependent_groups inp) (deny_only_sids inp)
        (owner_implicit_bits inp) (uncertain_owner inp) (uac_filter_certain inp))"

section \<open>The share side\<close>

definition share_side :: "ShareMaskStatus \<Rightarrow> u32 \<Rightarrow> AccessMask option \<times> ShareEvalStatus \<times> u32" where
  "share_side status ntfs =
     (case status of
        ShareMaskStatus.NotApplicable \<Rightarrow> (None, ShareEvalStatus.NotApplicable, ntfs)
      | ShareMaskStatus.Applied m \<Rightarrow> (Some m, ShareEvalStatus.Applied, ntfs AND m)
      | ShareMaskStatus.Unrestricted \<Rightarrow> (None, ShareEvalStatus.Unrestricted, ntfs)
      | ShareMaskStatus.ReadFailed msg \<Rightarrow> (None, ShareEvalStatus.ReadFailed msg, ntfs))"

definition effective_raw :: "PermissionEvaluationInput \<Rightarrow> u32" where
  "effective_raw inp = snd (snd (share_side (in_share_status inp) (ntfs_raw inp)))"

section \<open>The diagnostic markers\<close>

definition push_if :: "bool \<Rightarrow> 'a \<Rightarrow> 'a list" where
  \<comment> \<open>\<open>if c { v.push(x) }\<close>.\<close>
  "push_if c x = (if c then [x] else [])"

definition on_some :: "('a \<Rightarrow> 'b) \<Rightarrow> 'a option \<Rightarrow> 'b list" where
  \<comment> \<open>\<open>if let Some(x) = o { v.push(f(x)) }\<close>.\<close>
  "on_some f x = (case x of None \<Rightarrow> [] | Some y \<Rightarrow> [f y])"

definition dacl_markers :: "PermissionEvaluationInput \<Rightarrow> PermissionDiagnostic list" where
  "dacl_markers inp =
     (let fso = in_file_system_object inp;
          unsupported = length (fso_unsupported_aces fso)
      in (if fso_null_dacl fso then [] else collect_diagnostics (fso_dacl fso))
       @ push_if (0 < in_unsupported_share_ace_count inp)
           (UnsupportedShareAces (in_unsupported_share_ace_count inp))
       @ push_if (0 < unsupported) (UnsupportedNtfsAces unsupported)
       @ on_some (\<lambda>b. LogonDependentTrustees (ldb_sids b) (ldb_min b) (ldb_max b)) (logon_dependent inp))"

definition resolution_markers :: "PermissionEvaluationInput \<Rightarrow> PermissionDiagnostic list" where
  "resolution_markers inp =
     (let r = in_resolution inp
      in push_if (rp_group_resolution_via_sam_fallback r) DomainGroupRecursionIncomplete
       @ push_if (id_disabled (in_identity inp)) IdentityDisabled
       @ push_if (rp_identity_not_in_configured_ldap_base r) IdentityNotInConfiguredLdapBase
       @ push_if (rp_identity_disabled_status_unknown r) IdentityDisabledStatusUnknown
       @ on_some IdentityLookupFailed (rp_identity_lookup_failure_reason r)
       @ on_some GroupResolutionFailed (rp_group_resolution_failure_reason r)
       @ map GroupResolutionIncomplete (rp_group_resolution_gaps r))"

definition uac_markers :: "PermissionEvaluationInput \<Rightarrow> PermissionDiagnostic list" where
  "uac_markers inp =
     push_if (in_uac_filtered_group_sids inp \<noteq> [])
       (UacFilteredGroups (map (\<lambda>s. case in_sid_names inp s of
          Some name \<Rightarrow> name @ '' ('' @ s @ '')'' | None \<Rightarrow> s) (in_uac_filtered_group_sids inp)))
     @ (case in_remote_uac inp of
          Filtered reason \<Rightarrow> [RemoteUacPolicy True reason]
        | NotFiltered reason \<Rightarrow> [RemoteUacPolicy False reason]
        | RemoteUacFiltering.Unknown \<Rightarrow> [])"

definition guest_markers :: "PermissionEvaluationInput \<Rightarrow> PermissionDiagnostic list" where
  "guest_markers inp =
     (let user = id_sid (in_identity inp);
          guest_sids = identity_absent_well_knowns user
            @ uncertain_well_knowns_with user (in_anonymous_everyone inp)
            @ push_if (user = SID_ANONYMOUS_LOGON \<and> in_anonymous_everyone inp = Some False) SID_EVERYONE
      in push_if (guest_sids \<noteq> []) (GuestOrAnonymousToken guest_sids)
       @ push_if (rp_excluded_non_security_groups (in_resolution inp) \<noteq> [])
           (NonSecurityGroupsExcluded (rp_excluded_non_security_groups (in_resolution inp))))"

definition identity_markers :: "PermissionEvaluationInput \<Rightarrow> PermissionDiagnostic list" where
  "identity_markers inp =
     (let r = in_resolution inp
      in on_some IdentityNotResolvable (rp_identity_unresolvable_reason r)
       @ push_if (id_kind (in_identity inp) = Orphaned) IdentityOrphaned
       @ push_if (owner_rights_ace_present inp) OwnerRightsAceApplied
       @ push_if (rp_identity_resolved_via_fsp r) IdentityResolvedViaForeignSecurityPrincipal
       @ push_if (rp_group_resolution_via_global_catalog r) GroupResolutionViaGlobalCatalog
       @ sid_history_diagnostics (in_identity inp)
       @ group_sid_history_diagnostics (in_group_memberships inp)
       @ push_if (rp_identity_resolved_via_fsp r \<or> rp_identity_not_in_configured_ldap_base r)
           TrustBoundaryEffectsNotModeled)"

definition place_markers :: "PermissionEvaluationInput \<Rightarrow> PermissionDiagnostic list" where
  "place_markers inp =
     (case rp_trusted_domain (in_resolution inp) of
        Some t \<Rightarrow> [TrustedDomainAccountResolved (td_domain t) (td_home_only_groups t) (td_sid_filtered t)]
          @ push_if (td_selective_authentication t \<and> in_selective_authentication inp = None)
              TrustBoundaryEffectsNotModeled
      | None \<Rightarrow> [])
     @ on_some dfs_marker (in_dfs inp)
     @ on_some (\<lambda>link. LinkObject (link_kind link) (link_target link)) (fso_link (in_file_system_object inp))
     @ on_some DirectoryIdentityUnknown (fso_identity_unknown (in_file_system_object inp))"

definition logon_marker :: "SelectiveAuthenticationCheck \<Rightarrow> PermissionDiagnostic" where
  "logon_marker check =
     (case check of
        Allowed server via \<Rightarrow> SelectiveAuthenticationAllowed server via
      | Denied server \<Rightarrow> SelectiveAuthenticationDenied server
      | SelectiveAuthenticationCheck.Unknown server reason \<Rightarrow>
          SelectiveAuthenticationUnknown server reason True)"

definition logon_refused :: "PermissionEvaluationInput \<Rightarrow> bool" where
  "logon_refused inp =
     (case in_selective_authentication inp of Some (Denied _) \<Rightarrow> True | _ \<Rightarrow> False)"

definition evaluation_markers :: "PermissionEvaluationInput \<Rightarrow> PermissionDiagnostic list" where
  "evaluation_markers inp =
     dacl_markers inp @ resolution_markers inp @ uac_markers inp @ guest_markers inp
     @ identity_markers inp @ place_markers inp @ on_some logon_marker (in_selective_authentication inp)"

section \<open>The result before its explanation\<close>

definition initial_result :: "PermissionEvaluationInput \<Rightarrow> EffectivePermission" where
  "initial_result inp =
     (let fso = in_file_system_object inp;
          (share_mask, share_status, effective) = share_side (in_share_status inp) (ntfs_raw inp)
      in \<lparr>ep_identity = in_identity inp, ep_path = fso_path fso, ep_ntfs_mask = ntfs_raw inp,
          ep_share_mask = share_mask, ep_effective_mask = effective,
          ep_path_explanation = \<lparr>pp_steps = []\<rparr>, ep_share_status = share_status,
          ep_local_group_status = in_local_group_status inp,
          ep_contributing_sids = wo_contributions (dacl_walk inp),
          ep_unsupported_ace_count = length (fso_unsupported_aces fso),
          ep_matched_aces = collect_matched_aces (fso_dacl fso) (match_sids inp) (deny_only_sids inp),
          ep_diagnostics = evaluation_markers inp, ep_trace = empty_trace\<rparr>)"

definition settle_marker :: "PermissionDiagnostic \<Rightarrow> PermissionDiagnostic" where
  "settle_marker d =
     (case d of SelectiveAuthenticationUnknown server reason _ \<Rightarrow>
        SelectiveAuthenticationUnknown server reason False | _ \<Rightarrow> d)"

definition settle_logon :: "EffectivePermission \<Rightarrow> u32 \<Rightarrow> EffectivePermission" where
  \<comment> \<open>An undeterminable logon cannot change an exact result of no access.\<close>
  "settle_logon result effective =
     (if effective = 0 \<and> list_all (\<lambda>u. un_layer u = UncertainLayer.Logon) (uncertainty result)
      then result\<lparr>ep_diagnostics := map settle_marker (ep_diagnostics result)\<rparr>
      else result)"

definition membership_detail_for :: "PermissionEvaluationInput \<Rightarrow> EffectivePermission \<Rightarrow> MembershipDetail" where
  "membership_detail_for inp result =
     (if fso_unsupported_aces (in_file_system_object inp) = []
         \<and> in_unsupported_share_ace_count inp = 0
         \<and> (case ep_share_status result of ShareEvalStatus.ReadFailed _ \<Rightarrow> False | _ \<Rightarrow> True)
         \<and> in_selective_authentication inp = None
      then in_membership_detail inp else All)"

definition explanation_input :: "PermissionEvaluationInput \<Rightarrow> EffectivePermission \<Rightarrow> ExplanationInput" where
  "explanation_input inp result =
     (let fso = in_file_system_object inp
      in \<lparr>xi_membership_detail = membership_detail_for inp result,
          xi_identity = ep_identity result,
          xi_memberships = in_group_memberships inp,
          xi_dacl = fso_dacl fso,
          xi_match_sids = match_sids inp,
          xi_deny_only_sids = deny_only_sids inp,
          xi_decided_per_ace = wo_decided_per_ace (dacl_walk inp),
          xi_unsupported_ntfs_count = length (fso_unsupported_aces fso),
          xi_ntfs_raw = ntfs_raw inp,
          xi_denied_raw = wo_denied (dacl_walk inp),
          xi_owner_implicit_bits = owner_implicit_bits inp,
          xi_owner_rights_ace_present = owner_rights_ace_present inp,
          xi_owner_sid = fso_owner_sid fso,
          xi_share_mask = ep_share_mask result,
          xi_share_status = ep_share_status result,
          xi_effective_raw = effective_raw inp,
          xi_sid_names = in_sid_names inp,
          xi_logon_dependent = logon_dependent inp,
          xi_access_context = in_access_context inp,
          xi_null_dacl = fso_null_dacl fso,
          xi_is_directory = fso_is_directory fso,
          xi_uncertain_sids = logon_dependent_groups inp,
          xi_uncertain_owner = uncertain_owner inp,
          xi_uac_certain_reason = uac_certain_reason inp,
          xi_anonymous_everyone = in_anonymous_everyone inp,
          xi_share_trace = in_share_trace inp,
          xi_ntfs_determinable = ntfs_determinable result,
          xi_share_determinable = share_determinable result,
          xi_effective_determinable = effective_determinable result,
          xi_uncertainty = uncertainty result\<rparr>)"

section \<open>The closing steps\<close>

definition push_step :: "string \<Rightarrow> EffectivePermission \<Rightarrow> EffectivePermission" where
  "push_step step result =
     result\<lparr>ep_path_explanation := \<lparr>pp_steps = pp_steps (ep_path_explanation result) @ [step]\<rparr>\<rparr>"

definition is_link_marker :: "PermissionDiagnostic \<Rightarrow> bool" where
  "is_link_marker d = (case d of LinkObject _ _ \<Rightarrow> True | _ \<Rightarrow> False)"

definition add_link_step :: "EffectivePermission \<Rightarrow> EffectivePermission" where
  "add_link_step result =
     (case find is_link_marker (ep_diagnostics result) of
        Some link \<Rightarrow> push_step (''Link: '' @ summary link) result
      | None \<Rightarrow> result)"

definition synchronize_gap :: "EffectivePermission \<Rightarrow> u32 \<Rightarrow> u32 \<Rightarrow> SynchronizeGap option" where
  "synchronize_gap result ntfs denied =
     (if ep_effective_mask result AND NOT FILE_SYNCHRONIZE = 0
         \<or> effective_upper_bound result AND FILE_SYNCHRONIZE \<noteq> 0
      then None
      else Some (if ntfs AND FILE_SYNCHRONIZE = 0 then
          (if denied AND FILE_SYNCHRONIZE \<noteq> 0 then DeniedByNtfsAce else NotGrantedByNtfs)
        else NotGrantedByShare))"

definition add_synchronize_note :: "PermissionEvaluationInput \<Rightarrow> EffectivePermission \<Rightarrow> EffectivePermission" where
  "add_synchronize_note inp result =
     (if \<not> logon_refused inp then
        (case synchronize_gap result (ntfs_raw inp) (wo_denied (dacl_walk inp)) of
           Some cause \<Rightarrow>
             (let marker = SynchronizeNotGranted cause (effective_determinable result);
                  result = push_step (''Note '' @ em_dash @ '' '' @ summary marker) result
              in result\<lparr>ep_diagnostics := ep_diagnostics result @ [marker]\<rparr>)
         | None \<Rightarrow> result)
      else result)"

definition is_logon_marker :: "PermissionDiagnostic \<Rightarrow> bool" where
  "is_logon_marker d =
     (case d of SelectiveAuthenticationAllowed _ _ \<Rightarrow> True | SelectiveAuthenticationDenied _ \<Rightarrow> True
      | SelectiveAuthenticationUnknown _ _ _ \<Rightarrow> True | _ \<Rightarrow> False)"

definition logon_step :: "PermissionDiagnostic \<Rightarrow> string" where
  "logon_step d =
     (case d of
        SelectiveAuthenticationDenied _ \<Rightarrow> ''Logon refused '' @ em_dash @ '' '' @ summary d
       @ '' Effective: No access (0x00000000); the lines above show what the ''
       @ ''permissions grant once the account may authenticate.''
      | SelectiveAuthenticationUnknown _ _ affects \<Rightarrow>
          (if affects then NOT_DETERMINABLE @ '' '' @ em_dash @ '' logon: '' @ summary d
           else ''Logon not determinable '' @ em_dash @ '' '' @ summary d
       @ '' Effective: No access (0x00000000).'')
      | _ \<Rightarrow> ''Logon allowed '' @ em_dash @ '' '' @ summary d)"

definition add_logon_step :: "EffectivePermission \<Rightarrow> EffectivePermission" where
  "add_logon_step result =
     (case find is_logon_marker (ep_diagnostics result) of
        Some d \<Rightarrow> push_step (logon_step d) result | None \<Rightarrow> result)"

definition refuse :: "PermissionEvaluationInput \<Rightarrow> EffectivePermission \<Rightarrow> EffectivePermission" where
  "refuse inp result = (if logon_refused inp then result\<lparr>ep_effective_mask := 0\<rparr> else result)"

definition explain ::
  "(string \<Rightarrow> string) \<Rightarrow> PermissionEvaluationInput \<Rightarrow> EffectivePermission \<Rightarrow> EffectivePermission" where
  "explain lc inp result =
     (let (path_explanation, trace) = build_explanation lc (explanation_input inp result)
      in result\<lparr>ep_path_explanation := path_explanation, ep_trace := trace\<rparr>)"

definition evaluate ::
  "(string \<Rightarrow> string) \<Rightarrow> PermissionEvaluationInput \<Rightarrow> CoreError + EffectivePermission" where
  "evaluate lc inp =
     (let result = initial_result inp;
          result = settle_logon result (effective_raw inp);
          result = explain lc inp result;
          result = add_link_step result;
          result = add_synchronize_note inp result;
          result = add_logon_step result
      in Inr (refuse inp result))"

end
