(* ===== verification/Engine_Results.thy ===== *)
theory Engine_Results
  imports Engine
begin

unbundle bit_operations_syntax

text \<open>
  What the evaluation promises (\<open>DefaultPermissionEngine::evaluate\<close>): which stage may change
  which field, exactly when a result claims to be determinable, that a determinable result is
  the access check of the real token, that the reported upper bound is one, and what an owner,
  a missing DACL, a share and a refused logon do to the result.
\<close>

section \<open>What the later stages leave alone\<close>

lemma push_step_simps [simp]:
  "ep_diagnostics (push_step t r) = ep_diagnostics r"
  "ep_effective_mask (push_step t r) = ep_effective_mask r"
  "ep_ntfs_mask (push_step t r) = ep_ntfs_mask r"
  "ep_share_mask (push_step t r) = ep_share_mask r"
  "ep_share_status (push_step t r) = ep_share_status r"
  "ep_local_group_status (push_step t r) = ep_local_group_status r"
  "ep_unsupported_ace_count (push_step t r) = ep_unsupported_ace_count r"
  "ep_contributing_sids (push_step t r) = ep_contributing_sids r"
  "ep_matched_aces (push_step t r) = ep_matched_aces r"
  "ep_trace (push_step t r) = ep_trace r"
  "ep_identity (push_step t r) = ep_identity r"
  "ep_path (push_step t r) = ep_path r"
  by (simp_all add: push_step_def)

definition settled_result :: "PermissionEvaluationInput \<Rightarrow> EffectivePermission" where
  "settled_result inp = settle_logon (initial_result inp) (effective_raw inp)"

definition explained_result :: "(string \<Rightarrow> string) \<Rightarrow> PermissionEvaluationInput \<Rightarrow> EffectivePermission" where
  "explained_result lc inp = add_link_step (explain lc inp (settled_result inp))"

definition same_values :: "EffectivePermission \<Rightarrow> EffectivePermission \<Rightarrow> bool" where
  \<comment> \<open>Two results that agree in everything but their explanation and their markers.\<close>
  "same_values p q \<longleftrightarrow>
     ep_identity p = ep_identity q \<and> ep_path p = ep_path q \<and> ep_ntfs_mask p = ep_ntfs_mask q
     \<and> ep_share_mask p = ep_share_mask q \<and> ep_share_status p = ep_share_status q
     \<and> ep_local_group_status p = ep_local_group_status q
     \<and> ep_contributing_sids p = ep_contributing_sids q
     \<and> ep_unsupported_ace_count p = ep_unsupported_ace_count q
     \<and> ep_matched_aces p = ep_matched_aces q"

lemma same_values_refl [simp]: "same_values p p"
  by (simp add: same_values_def)

lemma same_values_trans: "same_values p q \<Longrightarrow> same_values q r \<Longrightarrow> same_values p r"
  by (simp add: same_values_def)

lemma settled_values:
  "same_values (settled_result inp) (initial_result inp)"
  "ep_effective_mask (settled_result inp) = ep_effective_mask (initial_result inp)"
  by (simp_all add: settled_result_def settle_logon_def same_values_def)

lemma explained_values:
  "same_values (explained_result lc inp) (initial_result inp)"
  "ep_effective_mask (explained_result lc inp) = ep_effective_mask (initial_result inp)"
  "ep_diagnostics (explained_result lc inp) = ep_diagnostics (settled_result inp)"
  using settled_values [of inp]
  by (auto simp: explained_result_def add_link_step_def explain_def same_values_def
      split: option.split prod.split)

lemma evaluate_eq:
  "evaluate lc inp = Inr (refuse inp (add_logon_step (add_synchronize_note inp (explained_result lc inp))))"
  by (simp add: evaluate_def explained_result_def settled_result_def)

definition synchronize_markers :: "PermissionEvaluationInput \<Rightarrow> EffectivePermission \<Rightarrow> PermissionDiagnostic list" where
  "synchronize_markers inp p =
     (if logon_refused inp then []
      else on_some (\<lambda>cause. SynchronizeNotGranted cause (effective_determinable p))
        (synchronize_gap p (ntfs_raw inp) (wo_denied (dacl_walk inp))))"

lemma add_synchronize_note_values:
  "same_values (add_synchronize_note inp p) p"
  "ep_effective_mask (add_synchronize_note inp p) = ep_effective_mask p"
  "ep_trace (add_synchronize_note inp p) = ep_trace p"
  "ep_diagnostics (add_synchronize_note inp p) = ep_diagnostics p @ synchronize_markers inp p"
  by (auto simp: add_synchronize_note_def synchronize_markers_def on_some_def same_values_def Let_def
      split: option.split)

lemma add_logon_step_values:
  "same_values (add_logon_step p) p" "ep_effective_mask (add_logon_step p) = ep_effective_mask p"
  "ep_trace (add_logon_step p) = ep_trace p" "ep_diagnostics (add_logon_step p) = ep_diagnostics p"
  by (auto simp: add_logon_step_def same_values_def split: option.split)

lemma refuse_values:
  "same_values (refuse inp p) p" "ep_diagnostics (refuse inp p) = ep_diagnostics p"
  "ep_trace (refuse inp p) = ep_trace p"
  "ep_effective_mask (refuse inp p) = (if logon_refused inp then 0 else ep_effective_mask p)"
  by (auto simp: refuse_def same_values_def)

lemma evaluate_values:
  assumes "evaluate lc inp = Inr r"
  shows "same_values r (initial_result inp)"
    and "ep_effective_mask r = (if logon_refused inp then 0 else effective_raw inp)"
    and "ep_diagnostics r = ep_diagnostics (settled_result inp)
      @ synchronize_markers inp (explained_result lc inp)"
    and "ep_trace r = ep_trace (explained_result lc inp)"
proof -
  let ?e = "explained_result lc inp"
  have r: "r = refuse inp (add_logon_step (add_synchronize_note inp ?e))"
    using assms by (simp add: evaluate_eq)
  show "same_values r (initial_result inp)"
    unfolding r
    using refuse_values(1) add_logon_step_values(1) add_synchronize_note_values(1) explained_values(1)
    by (blast intro: same_values_trans)
  have "ep_effective_mask (initial_result inp) = effective_raw inp"
    by (simp add: initial_result_def effective_raw_def Let_def split: prod.split)
  then show "ep_effective_mask r = (if logon_refused inp then 0 else effective_raw inp)"
    by (simp add: r refuse_values add_logon_step_values add_synchronize_note_values explained_values)
  show "ep_diagnostics r = ep_diagnostics (settled_result inp) @ synchronize_markers inp ?e"
    by (simp add: r refuse_values add_logon_step_values add_synchronize_note_values explained_values)
  show "ep_trace r = ep_trace ?e"
    by (simp add: r refuse_values add_logon_step_values add_synchronize_note_values)
qed

lemma initial_fields:
  "ep_ntfs_mask (initial_result inp) = ntfs_raw inp"
  "ep_share_mask (initial_result inp) = fst (share_side (in_share_status inp) (ntfs_raw inp))"
  "ep_share_status (initial_result inp) = fst (snd (share_side (in_share_status inp) (ntfs_raw inp)))"
  "ep_local_group_status (initial_result inp) = in_local_group_status inp"
  "ep_unsupported_ace_count (initial_result inp) = length (fso_unsupported_aces (in_file_system_object inp))"
  "ep_contributing_sids (initial_result inp) = wo_contributions (dacl_walk inp)"
  "ep_diagnostics (initial_result inp) = evaluation_markers inp"
  by (simp_all add: initial_result_def Let_def split: prod.split)

lemma settled_markers:
  "ep_diagnostics (settled_result inp) = evaluation_markers inp
   \<or> ep_diagnostics (settled_result inp) = map settle_marker (evaluation_markers inp)"
  by (simp add: settled_result_def settle_logon_def initial_fields)

lemma settle_marker_layer:
  "uncertain_layer (settle_marker d) = (case d of SelectiveAuthenticationUnknown _ _ _ \<Rightarrow> None
     | _ \<Rightarrow> uncertain_layer d)"
  by (cases d) (simp_all add: settle_marker_def)

lemma synchronize_markers_layer: "marker_layers (synchronize_markers inp p) = {}"
  by (auto simp: synchronize_markers_def on_some_def marker_layers_def split: option.split)

section \<open>When the uncertainty of a result is empty\<close>

lemma status_uncertainty_Nil:
  "status_uncertainty p = [] \<longleftrightarrow>
     (\<forall>e. ep_share_status p \<noteq> ShareEvalStatus.ReadFailed e) \<and>
     (0 < ep_unsupported_ace_count p \<longrightarrow> has_ntfs_marker (ep_diagnostics p)) \<and>
     (\<forall>e. ep_local_group_status p \<noteq> LocalGroupEvalStatus.NotAvailable e)"
  by (auto simp: status_uncertainty_def split: ShareEvalStatus.splits LocalGroupEvalStatus.splits)

lemma has_ntfs_marker_layer: "has_ntfs_marker ds \<Longrightarrow> UncertainLayer.Ntfs \<in> marker_layers ds"
proof -
  assume "has_ntfs_marker ds"
  then obtain d where d: "d \<in> set ds" "case d of UnsupportedNtfsAces _ \<Rightarrow> True | _ \<Rightarrow> False"
    unfolding has_ntfs_marker_def list_ex_iff by blast
  from d(2) have "uncertain_layer d = Some UncertainLayer.Ntfs" by (cases d) simp_all
  with d(1) show ?thesis by (auto simp: marker_layers_def)
qed

lemma determinable_iff_layers:
  "effective_determinable p \<longleftrightarrow>
     (\<forall>e. ep_share_status p \<noteq> ShareEvalStatus.ReadFailed e) \<and> ep_unsupported_ace_count p = 0 \<and>
     (\<forall>e. ep_local_group_status p \<noteq> LocalGroupEvalStatus.NotAvailable e) \<and>
     marker_layers (ep_diagnostics p) = {}"
  unfolding effective_determinable_def uncertainty_Nil_iff status_uncertainty_Nil
  using has_ntfs_marker_layer [of "ep_diagnostics p"] by auto

definition quiet :: "PermissionDiagnostic list \<Rightarrow> bool" where
  \<comment> \<open>No marker makes a value uncertain.\<close>
  "quiet ds = list_all (\<lambda>d. uncertain_layer d = None) ds"

lemma marker_layers_Nil: "marker_layers ds = {} \<longleftrightarrow> quiet ds"
  unfolding marker_layers_def quiet_def list_all_iff by (auto, metis option.exhaust)

lemma quiet_simps [simp]:
  "quiet []" "quiet (d # ds) \<longleftrightarrow> uncertain_layer d = None \<and> quiet ds"
  "quiet (ds @ es) \<longleftrightarrow> quiet ds \<and> quiet es"
  "quiet (push_if c d) \<longleftrightarrow> (c \<longrightarrow> uncertain_layer d = None)"
  by (auto simp: quiet_def push_if_def)

lemma quiet_on_some: "quiet (on_some f x) \<longleftrightarrow> (\<forall>y. x = Some y \<longrightarrow> uncertain_layer (f y) = None)"
  by (cases x) (auto simp: on_some_def)

lemma quiet_map: "quiet (map f xs) \<longleftrightarrow> (\<forall>x \<in> set xs. uncertain_layer (f x) = None)"
  by (auto simp: quiet_def list_all_iff)

lemma quiet_dacl_markers:
  "quiet (dacl_markers inp) \<longleftrightarrow> in_unsupported_share_ace_count inp = 0
     \<and> fso_unsupported_aces (in_file_system_object inp) = [] \<and> logon_dependent inp = None"
proof -
  have "quiet (collect_diagnostics dacl)" for dacl
    by (auto simp: collect_diagnostics_def split: option.split DaclOrderFinding.split)
  then show ?thesis by (auto simp: dacl_markers_def Let_def quiet_on_some)
qed

lemma quiet_resolution_markers:
  "quiet (resolution_markers inp) \<longleftrightarrow>
     (let r = in_resolution inp
      in \<not> rp_group_resolution_via_sam_fallback r \<and> \<not> rp_identity_not_in_configured_ldap_base r
       \<and> rp_identity_lookup_failure_reason r = None \<and> rp_group_resolution_failure_reason r = None
       \<and> rp_group_resolution_gaps r = [])"
  by (auto simp: resolution_markers_def Let_def quiet_on_some quiet_map)

lemma quiet_uac_markers: "quiet (uac_markers inp)"
  by (simp add: uac_markers_def split: RemoteUacFiltering.split)

lemma quiet_guest_markers: "quiet (guest_markers inp)"
  by (simp add: guest_markers_def Let_def)

lemma quiet_sid_history: "quiet (sid_history_diagnostics i) \<longleftrightarrow> id_sid_history_count i \<le> length (id_sid_history i)"
  by (auto simp: sid_history_diagnostics_def Let_def)

definition unread_group_history :: "GroupMembership list \<Rightarrow> nat" where
  \<comment> \<open>Historical SIDs of token groups that are known to exist but could not be parsed.\<close>
  "unread_group_history ms = snd (snd (group_history_loop {} 0 0 0 ms))"

lemma quiet_group_sid_history: "quiet (group_sid_history_diagnostics ms) \<longleftrightarrow> unread_group_history ms = 0"
  by (auto simp: group_sid_history_diagnostics_def unread_group_history_def split: prod.split)

lemma quiet_identity_markers:
  "quiet (identity_markers inp) \<longleftrightarrow>
     (let r = in_resolution inp
      in rp_identity_unresolvable_reason r = None \<and> \<not> rp_identity_resolved_via_fsp r
       \<and> \<not> rp_group_resolution_via_global_catalog r
       \<and> id_sid_history_count (in_identity inp) \<le> length (id_sid_history (in_identity inp))
       \<and> unread_group_history (in_group_memberships inp) = 0)"
  by (auto simp: identity_markers_def Let_def quiet_on_some quiet_sid_history quiet_group_sid_history)

lemma quiet_place_markers:
  "quiet (place_markers inp) \<longleftrightarrow>
     (\<forall>d. in_dfs inp = Some d \<longrightarrow> dfs_other_targets d = [] \<and> dfs_other_targets_known d)"
  by (auto simp: place_markers_def quiet_on_some dfs_marker_def split: option.split)

definition complete_evidence :: "PermissionEvaluationInput \<Rightarrow> bool" where
  \<comment> \<open>Nothing that could change the token, the DACL, the share or the target is unknown.\<close>
  "complete_evidence inp \<longleftrightarrow>
     (let r = in_resolution inp
      in in_unsupported_share_ace_count inp = 0
       \<and> fso_unsupported_aces (in_file_system_object inp) = [] \<and> logon_dependent inp = None
       \<and> \<not> rp_group_resolution_via_sam_fallback r \<and> \<not> rp_identity_not_in_configured_ldap_base r
       \<and> rp_identity_lookup_failure_reason r = None \<and> rp_group_resolution_failure_reason r = None
       \<and> rp_group_resolution_gaps r = [] \<and> rp_identity_unresolvable_reason r = None
       \<and> \<not> rp_identity_resolved_via_fsp r \<and> \<not> rp_group_resolution_via_global_catalog r
       \<and> id_sid_history_count (in_identity inp) \<le> length (id_sid_history (in_identity inp))
       \<and> unread_group_history (in_group_memberships inp) = 0
       \<and> (\<forall>d. in_dfs inp = Some d \<longrightarrow> dfs_other_targets d = [] \<and> dfs_other_targets_known d)
       \<and> (\<forall>e. in_share_status inp \<noteq> ShareMaskStatus.ReadFailed e)
       \<and> (\<forall>e. in_local_group_status inp \<noteq> LocalGroupEvalStatus.NotAvailable e))"

definition permission_markers :: "PermissionEvaluationInput \<Rightarrow> PermissionDiagnostic list" where
  "permission_markers inp = dacl_markers inp @ resolution_markers inp @ uac_markers inp
     @ guest_markers inp @ identity_markers inp @ place_markers inp"

lemma markers_split:
  "evaluation_markers inp = permission_markers inp @ on_some logon_marker (in_selective_authentication inp)"
  by (simp add: evaluation_markers_def permission_markers_def)

lemma share_read_failed:
  "(\<exists>e. fst (snd (share_side st m)) = ShareEvalStatus.ReadFailed e) \<longleftrightarrow> (\<exists>e. st = ShareMaskStatus.ReadFailed e)"
  by (cases st) (simp_all add: share_side_def)

lemma complete_evidence_iff:
  "complete_evidence inp \<longleftrightarrow> quiet (permission_markers inp)
     \<and> (\<forall>e. in_share_status inp \<noteq> ShareMaskStatus.ReadFailed e)
     \<and> (\<forall>e. in_local_group_status inp \<noteq> LocalGroupEvalStatus.NotAvailable e)"
  unfolding permission_markers_def
  by (simp add: complete_evidence_def quiet_dacl_markers quiet_resolution_markers quiet_uac_markers
      quiet_guest_markers quiet_identity_markers quiet_place_markers Let_def)

lemma layer_logon: "uncertain_layer d = Some UncertainLayer.Logon \<Longrightarrow>
    \<exists>server reason. d = SelectiveAuthenticationUnknown server reason True"
  by (cases d) (auto split: if_splits)

definition no_logon :: "PermissionDiagnostic list \<Rightarrow> bool" where
  "no_logon ds = list_all (\<lambda>d. uncertain_layer d \<noteq> Some UncertainLayer.Logon) ds"

lemma no_logon_simps [simp]:
  "no_logon []" "no_logon (d # ds) \<longleftrightarrow> uncertain_layer d \<noteq> Some UncertainLayer.Logon \<and> no_logon ds"
  "no_logon (ds @ es) \<longleftrightarrow> no_logon ds \<and> no_logon es"
  "no_logon (push_if c d) \<longleftrightarrow> (c \<longrightarrow> uncertain_layer d \<noteq> Some UncertainLayer.Logon)"
  by (auto simp: no_logon_def push_if_def)

lemma no_logon_on_some [simp]:
  "no_logon (on_some f x) \<longleftrightarrow> (\<forall>y. x = Some y \<longrightarrow> uncertain_layer (f y) \<noteq> Some UncertainLayer.Logon)"
  by (cases x) (auto simp: on_some_def)

lemma no_logon_map [simp]:
  "no_logon (map f xs) \<longleftrightarrow> (\<forall>x \<in> set xs. uncertain_layer (f x) \<noteq> Some UncertainLayer.Logon)"
  by (auto simp: no_logon_def list_all_iff)

lemma permission_markers_no_logon: "no_logon (permission_markers inp)"
  unfolding permission_markers_def no_logon_simps
proof (intro conjI)
  show "no_logon (dacl_markers inp)"
    by (auto simp: dacl_markers_def collect_diagnostics_def Let_def split: option.split DaclOrderFinding.split)
  show "no_logon (resolution_markers inp)" by (simp add: resolution_markers_def Let_def)
  show "no_logon (uac_markers inp)" by (simp add: uac_markers_def split: RemoteUacFiltering.split)
  show "no_logon (guest_markers inp)" by (simp add: guest_markers_def Let_def)
  show "no_logon (identity_markers inp)"
    by (simp add: identity_markers_def sid_history_diagnostics_def group_sid_history_diagnostics_def
        Let_def split: prod.split)
  show "no_logon (place_markers inp)"
    by (auto simp: place_markers_def dfs_marker_def split: option.split)
qed

lemma permission_layers: "marker_layers (permission_markers inp) \<subseteq> {UncertainLayer.Logon} \<longleftrightarrow>
    quiet (permission_markers inp)"
proof -
  have "UncertainLayer.Logon \<notin> marker_layers (permission_markers inp)"
    using permission_markers_no_logon [of inp] by (auto simp: no_logon_def marker_layers_def list_all_iff)
  then show ?thesis unfolding marker_layers_Nil [symmetric] by blast
qed

lemma status_layers:
  "un_layer ` set (status_uncertainty p) \<subseteq> {UncertainLayer.Logon} \<longleftrightarrow> status_uncertainty p = []"
  by (simp add: status_uncertainty_def split: ShareEvalStatus.split LocalGroupEvalStatus.split)

lemma logon_markers_layer:
  "marker_layers (on_some logon_marker check) =
     (case check of Some (SelectiveAuthenticationCheck.Unknown _ _) \<Rightarrow> {UncertainLayer.Logon} | _ \<Rightarrow> {})"
  by (auto simp: on_some_def logon_marker_def split: option.split SelectiveAuthenticationCheck.split)

lemma only_logon_uncertain:
  "list_all (\<lambda>u. un_layer u = UncertainLayer.Logon) (uncertainty (initial_result inp)) \<longleftrightarrow>
     complete_evidence inp"
proof -
  let ?p = "initial_result inp"
  have "list_all (\<lambda>u. un_layer u = UncertainLayer.Logon) (uncertainty ?p) \<longleftrightarrow>
      un_layer ` set (uncertainty ?p) \<subseteq> {UncertainLayer.Logon}"
    by (auto simp: list_all_iff)
  also have "\<dots> \<longleftrightarrow> status_uncertainty ?p = [] \<and> quiet (permission_markers inp)"
    using status_layers [of ?p] permission_layers [of inp] logon_markers_layer [of "in_selective_authentication inp"]
    unfolding uncertainty_layers initial_fields markers_split
    by (auto split: option.splits SelectiveAuthenticationCheck.splits)
  also have "\<dots> \<longleftrightarrow> complete_evidence inp"
    unfolding complete_evidence_iff status_uncertainty_Nil initial_fields
    using share_read_failed [of "in_share_status inp" "ntfs_raw inp"]
      quiet_dacl_markers [of inp]
    by (auto simp: permission_markers_def)
  finally show ?thesis .
qed

lemma settled_diagnostics:
  "ep_diagnostics (settled_result inp) =
     (if effective_raw inp = 0 \<and> complete_evidence inp
      then map settle_marker (evaluation_markers inp) else evaluation_markers inp)"
  by (simp add: settled_result_def settle_logon_def only_logon_uncertain initial_fields)

lemma quiet_settled:
  assumes "quiet ds"
  shows "quiet (map settle_marker (ds @ on_some logon_marker check))"
proof -
  have "uncertain_layer (settle_marker d) = None" if "uncertain_layer d = None" for d
    using that by (cases d) (simp_all add: settle_marker_def)
  then have "quiet (map settle_marker ds)"
    using assms by (simp add: quiet_def list_all_iff)
  moreover have "quiet (map settle_marker (on_some logon_marker check))"
    by (simp add: on_some_def logon_marker_def settle_marker_def
        split: option.split SelectiveAuthenticationCheck.split)
  ultimately show ?thesis by simp
qed

lemma evaluate_determinable:
  assumes "evaluate lc inp = Inr r"
  shows "effective_determinable r \<longleftrightarrow> complete_evidence inp
    \<and> ((\<exists>server reason. in_selective_authentication inp =
          Some (SelectiveAuthenticationCheck.Unknown server reason)) \<longrightarrow> effective_raw inp = 0)"
proof -
  note fields = evaluate_values(1) [OF assms, unfolded same_values_def initial_fields]
  have "quiet (ep_diagnostics r) \<longleftrightarrow> quiet (ep_diagnostics (settled_result inp))"
    using synchronize_markers_layer by (simp add: evaluate_values(3) [OF assms] marker_layers_Nil)
  moreover have "quiet (on_some logon_marker (in_selective_authentication inp)) \<longleftrightarrow>
      \<not> (\<exists>server reason. in_selective_authentication inp =
          Some (SelectiveAuthenticationCheck.Unknown server reason))"
    by (auto simp: on_some_def logon_marker_def split: option.split SelectiveAuthenticationCheck.split)
  ultimately have "quiet (ep_diagnostics r) \<longleftrightarrow> quiet (permission_markers inp)
      \<and> ((\<exists>server reason. in_selective_authentication inp =
          Some (SelectiveAuthenticationCheck.Unknown server reason)) \<longrightarrow>
        effective_raw inp = 0 \<and> complete_evidence inp)"
    using quiet_settled [of "permission_markers inp"]
    by (auto simp: settled_diagnostics markers_split complete_evidence_iff)
  moreover have "effective_determinable r \<longleftrightarrow>
      (\<forall>e. in_share_status inp \<noteq> ShareMaskStatus.ReadFailed e)
      \<and> fso_unsupported_aces (in_file_system_object inp) = []
      \<and> (\<forall>e. in_local_group_status inp \<noteq> LocalGroupEvalStatus.NotAvailable e)
      \<and> quiet (ep_diagnostics r)"
    using share_read_failed [of "in_share_status inp" "ntfs_raw inp"]
    unfolding determinable_iff_layers marker_layers_Nil by (auto simp: fields)
  ultimately show ?thesis
    using quiet_dacl_markers [of inp]
    by (auto simp: complete_evidence_iff permission_markers_def)
qed

section \<open>The real token and the real result\<close>

type_synonym RealToken = "Sid set \<times> Sid set"
  \<comment> \<open>The enabled SIDs of a logon token, and all its SIDs, deny-only ones included.\<close>

definition owner_enabled :: "PermissionEvaluationInput \<Rightarrow> RealToken \<Rightarrow> bool" where
  "owner_enabled inp t =
     (case fso_owner_sid (in_file_system_object inp) of Some owner \<Rightarrow> owner \<in> fst t | None \<Rightarrow> False)"

definition matching :: "PermissionEvaluationInput \<Rightarrow> RealToken \<Rightarrow> Sid set" where
  \<comment> \<open>Windows matches OWNER RIGHTS entries for a token in which the owner is enabled.\<close>
  "matching inp t = (if owner_enabled inp t then insert SID_OWNER_RIGHTS (fst t) else fst t)"

definition real_owner_bits :: "PermissionEvaluationInput \<Rightarrow> RealToken \<Rightarrow> u32" where
  "real_owner_bits inp t =
     (if owner_enabled inp t \<and> \<not> has_owner_rights_ace (fso_dacl (in_file_system_object inp))
      then FILE_READ_CONTROL OR FILE_WRITE_DAC else 0)"

definition real_ntfs :: "PermissionEvaluationInput \<Rightarrow> RealToken \<Rightarrow> u32" where
  "real_ntfs inp t =
     (if fso_null_dacl (in_file_system_object inp) then MASK_FULL_CONTROL
      else real_mask (fso_dacl (in_file_system_object inp)) (matching inp t, matching inp t \<union> snd t)
        (real_owner_bits inp t))"

definition real_effective :: "PermissionEvaluationInput \<Rightarrow> RealToken \<Rightarrow> u32" where
  "real_effective inp t = snd (snd (share_side (in_share_status inp) (real_ntfs inp t)))"

definition maybe_in_token :: "PermissionEvaluationInput \<Rightarrow> Sid \<Rightarrow> bool" where
  "maybe_in_token inp s \<longleftrightarrow>
     is_logon_dependent_for s (in_access_context inp) (match_sids inp) \<or> s \<in> logon_dependent_groups inp"

definition agrees :: "PermissionEvaluationInput \<Rightarrow> RealToken \<Rightarrow> bool" where
  \<comment> \<open>The token agrees with the evidence: it holds the known SIDs enabled and the filtered groups
    at least deny-only, and beyond them only SIDs of which the evidence is uncertain.\<close>
  "agrees inp t \<longleftrightarrow>
     user_sids inp \<subseteq> fst t \<and> user_sids inp \<union> deny_only_sids inp \<subseteq> snd t \<and>
     (\<forall>s \<in> fst t. s \<in> user_sids inp \<or> maybe_in_token inp s
        \<or> (s \<in> deny_only_sids inp \<and> \<not> uac_filter_certain inp)) \<and>
     (\<forall>s \<in> snd t. s \<in> user_sids inp \<union> deny_only_sids inp \<or> maybe_in_token inp s)"

definition real_right :: "PermissionEvaluationInput \<Rightarrow> RealToken \<Rightarrow> u32" where
  \<comment> \<open>Without a logon there is no access at all.\<close>
  "real_right inp t = (if logon_refused inp then 0 else real_effective inp t)"

definition owner_unseen :: "PermissionEvaluationInput \<Rightarrow> RealToken \<Rightarrow> bool" where
  \<comment> \<open>The token owns the object by a SID that the evidence only lists as depending on the logon.\<close>
  "owner_unseen inp t =
     (case fso_owner_sid (in_file_system_object inp) of
        Some owner \<Rightarrow> owner \<in> fst t \<and> owner \<notin> user_sids inp \<and> maybe_in_token inp owner
      | None \<Rightarrow> False)"

lemma known_owner_seen [simp]: "\<not> owner_unseen inp (user_sids inp, u)"
  by (simp add: owner_unseen_def split: option.split)

lemma owner_cases:
  assumes "agrees inp t" and "\<not> owner_unseen inp t" and "owner_enabled inp t"
  shows "user_is_owner inp \<or> is_some (uncertain_owner inp)"
proof -
  obtain owner where owner: "fso_owner_sid (in_file_system_object inp) = Some owner" "owner \<in> fst t"
    using assms(3) by (auto simp: owner_enabled_def split: option.splits)
  then have "owner \<in> user_sids inp \<or> (owner \<in> deny_only_sids inp \<and> \<not> uac_filter_certain inp)"
    using assms(1,2) by (auto simp: agrees_def owner_unseen_def)
  then show ?thesis using owner(1) by (auto simp: user_is_owner_def uncertain_owner_def)
qed

lemma known_owner_enabled: "agrees inp t \<Longrightarrow> user_is_owner inp \<Longrightarrow> owner_enabled inp t"
  by (auto simp: agrees_def user_is_owner_def owner_enabled_def split: option.splits)

lemma agrees_possible:
  assumes "agrees inp t" and "\<not> owner_unseen inp t"
  shows "possible_token (in_access_context inp) (match_sids inp) (logon_dependent_groups inp)
      (deny_only_sids inp) (uncertain_owner inp) (uac_filter_certain inp)
      (matching inp t, matching inp t \<union> snd t)"
proof -
  have sub: "match_sids inp \<subseteq> matching inp t"
    using assms(1) known_owner_enabled [OF assms(1)]
    by (auto simp: match_sids_def matching_def agrees_def)
  have users: "user_sids inp \<subseteq> match_sids inp" by (auto simp: match_sids_def)
  have rights: "SID_OWNER_RIGHTS \<in> match_sids inp \<or> is_some (uncertain_owner inp)"
    if "owner_enabled inp t"
    using owner_cases [OF assms that] by (auto simp: match_sids_def)
  show ?thesis
    using assms(1) sub users rights
    unfolding possible_token_def maybe_present_def agrees_def maybe_in_token_def fst_conv snd_conv
    by (auto simp: matching_def split: if_splits)
qed

lemma agrees_owner_bits:
  assumes "agrees inp t" and "\<not> owner_unseen inp t"
  shows "possible_owner_bits (fso_dacl (in_file_system_object inp)) (owner_implicit_bits inp)
    (uncertain_owner inp) (real_owner_bits inp t)"
proof (cases "owner_enabled inp t")
  case True
  then show ?thesis
    using owner_cases [OF assms True]
    by (auto simp: possible_owner_bits_def upper_owner_bits_def owner_implicit_bits_def
        owner_rights_ace_present_def real_owner_bits_def or.assoc)
next
  case False
  then have "owner_implicit_bits inp = 0"
    using known_owner_enabled [OF assms(1)] by (auto simp: owner_implicit_bits_def)
  with False show ?thesis by (simp add: possible_owner_bits_def real_owner_bits_def)
qed

lemma owner_bits_in_full: "within (owner_implicit_bits inp) MASK_FULL_CONTROL"
  by (simp add: owner_implicit_bits_def mask_consts within_def)

lemma full_control_or: "within m MASK_FULL_CONTROL \<Longrightarrow> MASK_FULL_CONTROL OR m = MASK_FULL_CONTROL"
  by (auto intro!: bit_eqI simp: within_iff_bit bit_simps)

lemma ntfs_exact:
  assumes "logon_dependent inp = None" and "agrees inp t" and "\<not> owner_unseen inp t"
  shows "real_ntfs inp t = ntfs_raw inp"
proof (cases "fso_null_dacl (in_file_system_object inp)")
  case True
  then show ?thesis
    by (simp add: real_ntfs_def ntfs_raw_def dacl_walk_def full_control_or owner_bits_in_full)
next
  case False
  then show ?thesis
    using no_bounds_value [OF _ agrees_possible [OF assms(2,3)] _ agrees_owner_bits [OF assms(2,3)]] assms(1)
    by (simp add: real_ntfs_def ntfs_raw_def dacl_walk_def logon_dependent_def)
qed

lemma ntfs_bounded:
  assumes "logon_dependent inp = Some b" and "agrees inp t" and "\<not> owner_unseen inp t"
  shows "within (ldb_min b) (real_ntfs inp t) \<and> within (real_ntfs inp t) (ldb_max b)"
proof -
  have "\<not> fso_null_dacl (in_file_system_object inp)"
    using assms(1) by (auto simp: logon_dependent_def split: if_splits)
  then show ?thesis
    using bounds_range [OF _ agrees_possible [OF assms(2,3)] _ agrees_owner_bits [OF assms(2,3)]] assms(1)
    by (simp add: real_ntfs_def logon_dependent_def)
qed

lemma share_side_mono:
  "within a b \<Longrightarrow> within (snd (snd (share_side st a))) (snd (snd (share_side st b)))"
  by (cases st) (auto simp: share_side_def intro!: within_and_mono)

lemma share_side_within: "within (snd (snd (share_side st m))) m"
  by (cases st) (simp_all add: share_side_def)

lemma complete_no_bounds: "complete_evidence inp \<Longrightarrow> logon_dependent inp = None"
  by (simp add: complete_evidence_def Let_def)

section \<open>The reported upper bound\<close>

lemma bounds_marker:
  assumes "evaluate lc inp = Inr r" and "logon_dependent inp = Some b"
  shows "LogonDependentTrustees (ldb_sids b) (ldb_min b) (ldb_max b) \<in> set (ep_diagnostics r)"
proof -
  have "LogonDependentTrustees (ldb_sids b) (ldb_min b) (ldb_max b) \<in> set (evaluation_markers inp)"
    using assms(2) by (simp add: evaluation_markers_def dacl_markers_def Let_def on_some_def)
  moreover have "settle_marker (LogonDependentTrustees s l u) = LogonDependentTrustees s l u" for s l u
    by (simp add: settle_marker_def)
  ultimately show ?thesis
    unfolding evaluate_values(3) [OF assms(1)] settled_diagnostics by (auto intro: rev_image_eqI)
qed

lemma real_ntfs_within_upper:
  assumes "evaluate lc inp = Inr r" and "agrees inp t" and "\<not> owner_unseen inp t"
  shows "within (real_ntfs inp t) (fold_max_masks (ep_ntfs_mask r) (ep_diagnostics r))"
proof (cases "logon_dependent inp")
  case None
  have "ep_ntfs_mask r = ntfs_raw inp"
    using evaluate_values(1) [OF assms(1)] by (simp add: same_values_def initial_fields)
  then show ?thesis
    using ntfs_exact [OF None assms(2,3)] fold_max_masks_within by simp
next
  case (Some b)
  have "within (real_ntfs inp t) (ldb_max b)"
    using ntfs_bounded [OF Some assms(2,3)] ..
  also have "within (ldb_max b) (fold_max_masks (ep_ntfs_mask r) (ep_diagnostics r))"
    by (rule fold_max_masks_marker [OF bounds_marker [OF assms(1) Some]])
  finally show ?thesis .
qed

section \<open>The SYNCHRONIZE marker\<close>

lemma fold_max_masks_append:
  "fold_max_masks acc (ds @ es) = fold_max_masks (fold_max_masks acc ds) es"
  by (induction acc ds rule: fold_max_masks.induct) (auto split: PermissionDiagnostic.split)

lemma synchronize_markers_plain:
  "fold_max_masks acc (synchronize_markers inp p) = acc"
  "has_ntfs_marker (ds @ synchronize_markers inp p) = has_ntfs_marker ds"
  by (auto simp: synchronize_markers_def on_some_def has_ntfs_marker_def split: option.split)

lemma same_claims:
  assumes "same_values p q" and "ep_effective_mask p = ep_effective_mask q"
    and "ep_diagnostics p = ep_diagnostics q @ synchronize_markers inp q"
  shows "effective_upper_bound p = effective_upper_bound q"
    and "effective_determinable p = effective_determinable q"
proof -
  have "status_uncertainty p = status_uncertainty q"
    using assms by (simp add: status_uncertainty_def same_values_def synchronize_markers_plain)
  then have layers: "un_layer ` set (uncertainty p) = un_layer ` set (uncertainty q)"
    using assms(3) synchronize_markers_layer by (simp add: uncertainty_layers)
  then have empty: "uncertainty p = [] \<longleftrightarrow> uncertainty q = []"
    by (metis image_is_empty set_empty)
  then show "effective_determinable p = effective_determinable q"
    by (simp add: effective_determinable_def)
  have uncertain: "list_ex (\<lambda>u. un_layer u \<in> L) (uncertainty p) = list_ex (\<lambda>u. un_layer u \<in> L) (uncertainty q)"
    for L
    by (simp only: list_ex_layer layers)
  have fold: "fold_max_masks (ep_ntfs_mask p) (ep_diagnostics p) = fold_max_masks (ep_ntfs_mask q) (ep_diagnostics q)"
    using assms by (simp add: same_values_def fold_max_masks_append synchronize_markers_plain)
  show "effective_upper_bound p = effective_upper_bound q"
    unfolding effective_upper_bound_def empty uncertain fold
    using assms by (simp add: same_values_def)
qed

lemma no_synchronize_marker:
  "SynchronizeNotGranted cause certain \<notin> set (ep_diagnostics (settled_result inp))"
proof -
  have settle: "settle_marker d = SynchronizeNotGranted cause certain \<Longrightarrow> d = SynchronizeNotGranted cause certain" for d
    by (cases d) (simp_all add: settle_marker_def)
  have "SynchronizeNotGranted cause certain \<notin> set (evaluation_markers inp)"
    unfolding evaluation_markers_def set_append Un_iff de_Morgan_disj
    by (intro conjI)
      (auto simp: dacl_markers_def collect_diagnostics_def resolution_markers_def uac_markers_def
        guest_markers_def identity_markers_def place_markers_def sid_history_diagnostics_def
        group_sid_history_diagnostics_def on_some_def push_if_def logon_marker_def dfs_marker_def Let_def
        split: option.splits prod.splits RemoteUacFiltering.splits DaclOrderFinding.splits if_splits
          SelectiveAuthenticationCheck.splits)
  moreover from this have "SynchronizeNotGranted cause certain \<notin> settle_marker ` set (evaluation_markers inp)"
    using settle by (metis imageE)
  ultimately show ?thesis by (simp add: settled_diagnostics)
qed

lemma evaluate_claims:
  assumes "evaluate lc inp = Inr r" and "\<not> logon_refused inp"
  shows "effective_upper_bound r = effective_upper_bound (explained_result lc inp)"
    and "effective_determinable r = effective_determinable (explained_result lc inp)"
    and "ep_effective_mask r = ep_effective_mask (explained_result lc inp)"
proof -
  have "ep_effective_mask (initial_result inp) = effective_raw inp"
    by (simp add: initial_result_def effective_raw_def Let_def split: prod.split)
  then show mask: "ep_effective_mask r = ep_effective_mask (explained_result lc inp)"
    using evaluate_values(2) [OF assms(1)] assms(2) explained_values(2) by simp
  have same: "same_values r (explained_result lc inp)"
    using evaluate_values(1) [OF assms(1)] explained_values(1) by (simp add: same_values_def)
  have diags: "ep_diagnostics r = ep_diagnostics (explained_result lc inp)
      @ synchronize_markers inp (explained_result lc inp)"
    using evaluate_values(3) [OF assms(1)] explained_values(3) by simp
  show "effective_upper_bound r = effective_upper_bound (explained_result lc inp)"
    by (rule same_claims(1) [OF same mask diags])
  show "effective_determinable r = effective_determinable (explained_result lc inp)"
    by (rule same_claims(2) [OF same mask diags])
qed

definition synchronize_cause :: "PermissionEvaluationInput \<Rightarrow> SynchronizeGap" where
  "synchronize_cause inp =
     (if bit (ntfs_raw inp) 20 then NotGrantedByShare
      else if bit (wo_denied (dacl_walk inp)) 20 then DeniedByNtfsAce else NotGrantedByNtfs)"

lemma synchronize_bit: "m AND FILE_SYNCHRONIZE \<noteq> 0 \<longleftrightarrow> bit m 20"
  using single_in_rest [of 20 m] by (simp add: mask_consts)

lemma beyond_synchronize: "m AND NOT FILE_SYNCHRONIZE = 0 \<longleftrightarrow> within m FILE_SYNCHRONIZE"
  by (simp add: within_def)

section \<open>Contributions and trace\<close>

lemma or_list_contributions: "or_list (map ca_mask (contributions_of ds)) = decided_by is_allow_ace ds"
proof (rule bit_eqI)
  fix n
  have "bit (or_list (map ca_mask (contributions_of ds))) n \<longleftrightarrow>
      (\<exists>sid \<in> set (contributors ds). bit (decided_by (\<lambda>a. is_allow_ace a \<and> ace_sid a = sid) ds) n)"
    by (auto simp: bit_or_list contributions_of_def)
  also have "\<dots> \<longleftrightarrow> (\<exists>d \<in> set ds. is_allow_ace (fst d) \<and> bit (snd d) n)"
    by (force simp: decided_by_def bit_or_list contributors_def)
  also have "\<dots> \<longleftrightarrow> bit (decided_by is_allow_ace ds) n"
    by (auto simp: decided_by_def bit_or_list; force)
  finally show "bit (or_list (map ca_mask (contributions_of ds))) n = bit (decided_by is_allow_ace ds) n" .
qed

lemma distinct_contributions: "distinct (map ca_sid (contributions_of ds))"
  by (simp add: contributions_of_def comp_def contributors_def)

lemma walk_contributions:
  "or_list (map ca_mask (wo_contributions (walk_dacl_stored_order dacl ms ds))) =
     wo_granted (walk_dacl_stored_order dacl ms ds)"
  "distinct (map ca_sid (wo_contributions (walk_dacl_stored_order dacl ms ds)))"
  using walk_inv_all [of ms ds dacl]
  by (simp_all add: walk_inv_def Let_def or_list_contributions distinct_contributions)

definition ace_outcomes :: "ExplanationInput \<Rightarrow> nat \<times> AceEntry \<Rightarrow> AceOutcome list" where
  \<comment> \<open>What one entry of the DACL adds to the trace.\<close>
  "ace_outcomes x ia =
     (case ace_step x (fst ia) (snd ia) of Silent \<Rightarrow> []
      | Listed _ e \<Rightarrow> [ntfs_outcome x (snd ia) e] | Bounding _ e \<Rightarrow> [ntfs_outcome x (snd ia) e]
      | Matched _ e \<Rightarrow> [ntfs_outcome x (snd ia) e])"

lemma ace_loop_outcomes: "as_outcomes (ace_loop x ias st) = as_outcomes st @ concat (map (ace_outcomes x) ias)"
proof (induction x ias st rule: ace_loop.induct)
  case (2 x idx ace rest st)
  then show ?case by (cases "ace_step x idx ace") (simp_all add: ace_outcomes_def)
qed simp

definition decided_in :: "AceKind \<Rightarrow> AceOutcome list \<Rightarrow> u32" where
  \<comment> \<open>The rights the trace says were decided by entries of the kind.\<close>
  "decided_in kind outs = or_list (filter_map (\<lambda>o'. case ao_effect o' of
     Decided bits \<Rightarrow> if ao_kind o' = kind then Some bits else None | _ \<Rightarrow> None) outs)"

lemma decided_in_append [simp]: "decided_in kind (xs @ ys) = decided_in kind xs OR decided_in kind ys"
  by (simp add: decided_in_def)

lemma decided_in_Nil [simp]: "decided_in kind [] = 0"
  by (simp add: decided_in_def)

lemma decided_in_concat: "bit (decided_in kind (concat xss)) n \<longleftrightarrow> (\<exists>xs \<in> set xss. bit (decided_in kind xs) n)"
  by (induction xss) (auto simp: bit_simps)

lemma unmatched_decides_nothing:
  "\<not> ace_matches ace (xi_match_sids x) (xi_deny_only_sids x) \<Longrightarrow>
     decided_in kind (ace_outcomes x (idx, ace)) = 0"
  by (auto simp: ace_outcomes_def ace_step_def unmatched_ace_step_def decided_in_def ntfs_outcome_def
      Let_def split: option.split)

lemma matched_decides_slot:
  "ace_matches ace (xi_match_sids x) (xi_deny_only_sids x) \<Longrightarrow>
     decided_in kind (ace_outcomes x (idx, ace)) =
       (if ace_applies_to_current_object ace \<and> ace_kind ace = kind then slot x idx else 0)"
  by (simp add: ace_outcomes_def ace_step_def decided_in_def ntfs_outcome_def matched_effect_def)

lemma trace_decides:
  assumes "xi_dacl x = dacl" and "xi_match_sids x = ms" and "xi_deny_only_sids x = ds"
    and "xi_decided_per_ace x = wo_decided_per_ace (walk_dacl_stored_order dacl ms ds)"
  shows "decided_in kind (as_outcomes (ace_steps x)) =
    (if kind = Allow then wo_granted (walk_dacl_stored_order dacl ms ds)
     else wo_denied (walk_dacl_stored_order dacl ms ds))"
proof (rule bit_eqI)
  fix n
  let ?w = "walk_dacl_stored_order dacl ms ds"
  let ?slots = "wo_decided_per_ace ?w"
  have len: "length ?slots = length dacl"
    using walk_inv_all [of ms ds dacl] by (simp add: walk_inv_def Let_def)
  have here: "bit (decided_in kind (ace_outcomes x (i, dacl ! i))) n \<longleftrightarrow>
      ace_kind (dacl ! i) = kind \<and> bit (?slots ! i) n" if "i < length dacl" for i
  proof -
    have slot: "slot x i = ?slots ! i"
      using that len assms(4) by (simp add: slot_def nth_opt_def unwrap_or_def)
    have "bit (?slots ! i) n \<Longrightarrow> token_hits (ms, ds) (dacl ! i)"
      using decided_per_ace_first [OF that] by (simp add: first_hit_def)
    then show ?thesis
      using unmatched_decides_nothing [of "dacl ! i" x kind i] matched_decides_slot [of "dacl ! i" x kind i]
        assms(2,3) slot
      by (cases "ace_matches (dacl ! i) ms ds") (auto simp: token_hits_def)
  qed
  have "bit (decided_in kind (as_outcomes (ace_steps x))) n \<longleftrightarrow>
      (\<exists>ia \<in> set (index_from 0 dacl). bit (decided_in kind (ace_outcomes x ia)) n)"
    by (simp add: ace_steps_def ace_loop_outcomes decided_in_concat assms(1))
  also have "\<dots> \<longleftrightarrow> (\<exists>i < length dacl. ace_kind (dacl ! i) = kind \<and> bit (?slots ! i) n)"
    using here by (fastforce simp: in_index_from)
  also have "\<dots> \<longleftrightarrow> bit (decided_by (\<lambda>a. ace_kind a = kind) (zip dacl ?slots)) n"
    using len by (fastforce simp: decided_by_def bit_or_list set_zip)
  also have "decided_by (\<lambda>a. ace_kind a = kind) (zip dacl ?slots) =
      (if kind = Allow then wo_granted ?w else wo_denied ?w)"
    using walk_inv_all [of ms ds dacl]
    by (cases kind) (simp_all add: walk_inv_def Let_def is_allow_ace_def [abs_def] is_deny_ace_def [abs_def])
  finally show "bit (decided_in kind (as_outcomes (ace_steps x))) n =
      bit (if kind = Allow then wo_granted ?w else wo_denied ?w) n" .
qed

lemma check_irrelevant:
  "logon_dependent (inp\<lparr>in_selective_authentication := c\<rparr>) = logon_dependent inp"
proof -
  define jnp where "jnp = inp\<lparr>in_selective_authentication := c\<rparr>"
  have f: "in_identity jnp = in_identity inp" "in_group_memberships jnp = in_group_memberships inp"
      "in_local_group_sids jnp = in_local_group_sids inp" "in_access_context jnp = in_access_context inp"
      "in_uac_filtered_group_sids jnp = in_uac_filtered_group_sids inp"
      "in_anonymous_everyone jnp = in_anonymous_everyone inp" "in_remote_uac jnp = in_remote_uac inp"
      "in_file_system_object jnp = in_file_system_object inp"
      "in_logon_dependent_group_sids jnp = in_logon_dependent_group_sids inp"
    by (simp_all add: jnp_def)
  have t: "token_with_filter jnp = token_with_filter inp" by (simp add: token_with_filter_def f)
  have u: "user_sids jnp = user_sids inp" "crypto_operators_uncertain jnp = crypto_operators_uncertain inp"
    by (simp_all add: user_sids_def crypto_operators_uncertain_def t)
  have o: "user_is_owner jnp = user_is_owner inp" by (simp add: user_is_owner_def f u split: option.split)
  have m: "match_sids jnp = match_sids inp" "owner_rights_ace_present jnp = owner_rights_ace_present inp"
    by (simp_all add: match_sids_def owner_rights_ace_present_def u o f)
  have d: "deny_only_sids jnp = deny_only_sids inp" "uac_filter_certain jnp = uac_filter_certain inp"
    by (simp_all add: deny_only_sids_def uac_filter_certain_def uac_certain_reason_def f)
  have "uncertain_owner jnp = uncertain_owner inp" by (simp add: uncertain_owner_def f d split: option.split)
  moreover have "logon_dependent_groups jnp = logon_dependent_groups inp"
    by (simp add: logon_dependent_groups_def f u)
  moreover have "owner_implicit_bits jnp = owner_implicit_bits inp"
    by (simp add: owner_implicit_bits_def o m)
  ultimately have "logon_dependent jnp = logon_dependent inp"
    by (simp add: logon_dependent_def f m d)
  then show ?thesis by (simp add: jnp_def)
qed

section \<open>An input on which everything is known\<close>

definition logon_settled :: "PermissionEvaluationInput \<Rightarrow> bool" where
  \<comment> \<open>An undetermined logon check changes nothing when the permissions grant nothing.\<close>
  "logon_settled inp =
     (case in_selective_authentication inp of
        Some (SelectiveAuthenticationCheck.Unknown _ _) \<Rightarrow> effective_raw inp = 0 | _ \<Rightarrow> True)"

lemma logon_settled_iff:
  "logon_settled inp \<longleftrightarrow> ((\<exists>server reason. in_selective_authentication inp =
      Some (SelectiveAuthenticationCheck.Unknown server reason)) \<longrightarrow> effective_raw inp = 0)"
  by (auto simp: logon_settled_def split: option.split SelectiveAuthenticationCheck.split)

lemma known_token_agrees: "agrees inp (user_sids inp, user_sids inp \<union> deny_only_sids inp)"
  by (auto simp: agrees_def)

definition sample_identity :: Identity where
  "sample_identity = \<lparr>id_sid = ''S-1-5-21-1-2-3-1104'', id_name = Some ''anna'', id_domain = None,
     id_kind = User, id_disabled = False, id_user_principal_name = None, id_sid_history_count = 0,
     id_sid_history = []\<rparr>"

definition sample_object :: "Sid option \<Rightarrow> AceEntry list \<Rightarrow> FileSystemObject" where
  "sample_object owner dacl = \<lparr>fso_path = ''C:'', fso_is_directory = True, fso_owner_sid = owner,
     fso_dacl = dacl, fso_inheritance_disabled = False, fso_is_reparse_point = False,
     fso_unsupported_aces = [], fso_null_dacl = False, fso_sd_hash = None, fso_link = None,
     fso_identity_unknown = None\<rparr>"

definition sample_input :: "FileSystemObject \<Rightarrow> PermissionEvaluationInput" where
  "sample_input fso = \<lparr>in_identity = sample_identity, in_group_memberships = [],
     in_file_system_object = fso, in_share_status = ShareMaskStatus.Applied 0x1301BF,
     in_local_group_sids = [], in_local_group_status = LocalGroupEvalStatus.Applied,
     in_logon_dependent_group_sids = [''S-1-5-21-7-8-9-1005''], in_uac_filtered_group_sids = [],
     in_remote_uac = RemoteUacFiltering.Unknown, in_anonymous_everyone = None, in_share_trace = [],
     in_selective_authentication = None, in_dfs = None, in_membership_detail = All,
     in_access_context = RemoteSmb, in_unsupported_share_ace_count = 0,
     in_sid_names = Map.empty, in_resolution = default_provenance\<rparr>"

definition sample_file :: FileSystemObject where
  "sample_file = sample_object (Some ''S-1-5-18'') [sample_ace Deny ''S-1-5-2'' 2, sample_ace Allow ''S-1-1-0'' 3]"

lemma sample_fields [simp]:
  "in_identity (sample_input fso) = sample_identity" "in_group_memberships (sample_input fso) = []"
  "in_file_system_object (sample_input fso) = fso"
  "in_share_status (sample_input fso) = ShareMaskStatus.Applied 0x1301BF"
  "in_local_group_sids (sample_input fso) = []"
  "in_local_group_status (sample_input fso) = LocalGroupEvalStatus.Applied"
  "in_logon_dependent_group_sids (sample_input fso) = [''S-1-5-21-7-8-9-1005'']"
  "in_uac_filtered_group_sids (sample_input fso) = []"
  "in_remote_uac (sample_input fso) = RemoteUacFiltering.Unknown"
  "in_anonymous_everyone (sample_input fso) = None"
  "in_selective_authentication (sample_input fso) = None" "in_dfs (sample_input fso) = None"
  "in_access_context (sample_input fso) = RemoteSmb"
  "in_unsupported_share_ace_count (sample_input fso) = 0"
  "in_resolution (sample_input fso) = default_provenance"
  "id_sid sample_identity = ''S-1-5-21-1-2-3-1104''" "id_sid_history sample_identity = []"
  "id_sid_history_count sample_identity = 0"
  by (simp_all add: sample_input_def sample_identity_def)

lemma sample_object_fields [simp]:
  "fso_owner_sid (sample_object owner dacl) = owner" "fso_dacl (sample_object owner dacl) = dacl"
  "fso_null_dacl (sample_object owner dacl) = False"
  "fso_unsupported_aces (sample_object owner dacl) = []"
  by (simp_all add: sample_object_def)

lemma sample_token: "token_with_filter (sample_input fso) =
    {''S-1-5-21-1-2-3-1104'', ''S-1-1-0'', ''S-1-5-11'', ''S-1-5-2''}"
proof -
  have "\<not> is_guest_account ''S-1-5-21-1-2-3-1104''"
    by (simp add: is_guest_account_def domain_rid_def strip_prefix_def)
  then have "build_token_sids_with_context ''S-1-5-21-1-2-3-1104'' [] [] [] RemoteSmb =
      {''S-1-5-21-1-2-3-1104'', ''S-1-1-0'', ''S-1-5-11'', ''S-1-5-2''}"
    unfolding set_eq_iff in_token by (auto simp: sid_consts context_sids_def)
  then show ?thesis
    by (simp add: token_with_filter_def collect_user_sids_def anonymous_gets_everyone_def sid_consts)
qed

lemma sample_user_sids:
  "user_sids (sample_input fso) = {''S-1-5-21-1-2-3-1104'', ''S-1-1-0'', ''S-1-5-11'', ''S-1-5-2''}"
  by (auto simp: user_sids_def sample_token sid_consts)

lemma sample_complete: "logon_dependent (sample_input fso) = None \<Longrightarrow> fso_unsupported_aces fso = [] \<Longrightarrow>
    complete_evidence (sample_input fso)"
  by (simp add: complete_evidence_def default_provenance_def unread_group_history_def)

lemma sample_groups: "logon_dependent_groups (sample_input fso) = {''S-1-5-21-7-8-9-1005''}"
  by (simp add: logon_dependent_groups_def crypto_operators_uncertain_def sample_token
      uncertain_well_knowns_with_def identity_uncertain_well_knowns_def sid_consts)

lemma sample_bounds:
  assumes "fso_null_dacl fso = False" and "fso_owner_sid fso = Some owner"
    and "\<forall>a \<in> set (fso_dacl fso). ace_sid a \<in> {''S-1-1-0'', ''S-1-5-2''}"
  shows "logon_dependent (sample_input fso) = None"
proof -
  have "uncertain_owner (sample_input fso) = None"
    using assms(2) by (simp add: uncertain_owner_def deny_only_sids_def)
  moreover have "filter (uncertain_trustee ctx (match_sids (sample_input fso)) ldg ds uo cert) (fso_dacl fso) = []"
    for ctx ldg ds uo cert
    using assms(3) by (auto simp: filter_empty_conv uncertain_trustee_def match_sids_def sample_user_sids)
  ultimately show ?thesis
    using assms(1) by (simp add: logon_dependent_def logon_dependent_bounds_def upper_owner_bits_def)
qed

lemma evaluate_upper_bound_open:
  assumes "evaluate lc inp = Inr r" and "\<not> logon_refused inp"
    and "agrees inp t" and "\<not> owner_unseen inp t"
  shows "within (real_effective inp t) (effective_upper_bound r)"
proof (cases "effective_determinable r")
  case True
  have "logon_dependent inp = None"
    using True evaluate_determinable [OF assms(1)] complete_no_bounds by blast
  then have "real_ntfs inp t = ntfs_raw inp" using assms(3,4) by (rule ntfs_exact)
  then show ?thesis
    using evaluate_values(2) [OF assms(1)] assms(2) upper_bound_exact [OF True]
    by (simp add: real_effective_def effective_raw_def)
next
  case False
  let ?upper = "fold_max_masks (ep_ntfs_mask r) (ep_diagnostics r)"
  have ntfs: "within (real_ntfs inp t) ?upper"
    by (rule real_ntfs_within_upper [OF assms(1,3,4)])
  have status: "ep_share_status r = fst (snd (share_side (in_share_status inp) (ntfs_raw inp)))"
      "ep_share_mask r = fst (share_side (in_share_status inp) (ntfs_raw inp))"
    using evaluate_values(1) [OF assms(1)] by (simp_all add: same_values_def initial_fields)
  have "within (real_effective inp t)
      (case (ep_share_status r, ep_share_mask r) of
         (ShareEvalStatus.Applied, Some share) \<Rightarrow> if c then ?upper AND share else ?upper
       | _ \<Rightarrow> ?upper)" for c
    using ntfs by (cases "in_share_status inp")
      (auto simp: real_effective_def status share_side_def intro!: within_and_mono
        intro: within_trans [OF within_and_left])
  then show ?thesis
    using False
    by (simp add: effective_upper_bound_def effective_determinable_def Let_def within_or_transfer)
qed

lemma evaluate_upper_bound:
  assumes "evaluate lc inp = Inr r" and "agrees inp t" and "\<not> owner_unseen inp t"
  shows "within (real_right inp t) (effective_upper_bound r)"
proof (cases "logon_refused inp")
  case True
  then show ?thesis by (simp add: real_right_def within_def)
next
  case False
  then show ?thesis using evaluate_upper_bound_open [OF assms(1) False assms(2,3)] by (simp add: real_right_def)
qed

lemma determinable_value:
  assumes "evaluate lc inp = Inr r" and "effective_determinable r"
    and "agrees inp t" and "\<not> owner_unseen inp t"
  shows "ep_effective_mask r = real_right inp t"
proof -
  have "logon_dependent inp = None"
    using assms(2) evaluate_determinable [OF assms(1)] complete_no_bounds by blast
  then have "real_ntfs inp t = ntfs_raw inp" using assms(3,4) by (rule ntfs_exact)
  then show ?thesis
    using evaluate_values(2) [OF assms(1)] by (simp add: real_right_def real_effective_def effective_raw_def)
qed

section \<open>Properties\<close>

text \<open>C2: a determinable result is the truth. When the evaluation of an identity on an object
  reports its effective right as determinable, the reported mask is exactly what every token
  gets that agrees with the evidence: nothing when the logon is refused, else the access check of
  Windows on the stored DACL (with the owner rule, with OWNER RIGHTS entries and with deny-only
  groups) limited by the share mask. A token agrees with the evidence when it holds what the
  evidence lists as certain, and beyond that only SIDs the evidence lists as uncertain. Left out
  are the tokens that own the object by such an uncertain SID (\<open>owner_unseen\<close>); that they cannot
  be included is shown by \<open>uncertain_owner_group_missed\<close>.\<close>

theorem determinable_result_is_real:
  assumes "evaluate lc inp = Inr r" and "effective_determinable r"
    and "agrees inp t" and "\<not> owner_unseen inp t"
  shows "ep_effective_mask r = real_right inp t"
  using assms by (rule determinable_value)

lemma determinable_result_is_real_witness:
  "\<exists>r. evaluate (\<lambda>s. s) (sample_input sample_file) = Inr r \<and>
     ep_effective_mask r = real_right (sample_input sample_file)
       (user_sids (sample_input sample_file), user_sids (sample_input sample_file))"
proof -
  let ?inp = "sample_input sample_file"
  obtain r where r: "evaluate (\<lambda>s. s) ?inp = Inr r" by (simp add: evaluate_eq)
  have "logon_dependent ?inp = None"
    by (rule sample_bounds) (auto simp: sample_file_def sample_object_def sample_ace_def)
  then have "complete_evidence ?inp"
    by (rule sample_complete) (simp add: sample_file_def)
  then have "effective_determinable r"
    using evaluate_determinable [OF r] by simp
  moreover have "agrees ?inp (user_sids ?inp, user_sids ?inp)"
    using known_token_agrees [of ?inp] by (simp add: deny_only_sids_def)
  ultimately show ?thesis
    using determinable_result_is_real [OF r _ _ known_owner_seen] r by blast
qed

text \<open>C3: the reported upper bound is one for everything that was read. What a token really gets
  (nothing for a refused logon, else the access check on the ACEs that were interpreted, limited by
  the share mask) is contained in \<open>effective_upper_bound\<close> of the result, for every token that agrees
  with the evidence and does not own the object by a SID listed as uncertain; determinable or not,
  and whatever the share, the DFS target and the policies of the server leave open. It says nothing
  about ACEs that were not interpreted and about groups the evidence does not list: for those the
  program knows no upper bound either and marks the result as incomplete.\<close>

theorem upper_bound_holds:
  assumes "evaluate lc inp = Inr r" and "agrees inp t" and "\<not> owner_unseen inp t"
  shows "within (real_right inp t) (effective_upper_bound r)"
  using assms by (rule evaluate_upper_bound)

lemma upper_bound_holds_witness:
  "\<exists>r. evaluate (\<lambda>s. s) (sample_input sample_file) = Inr r \<and>
     within (real_right (sample_input sample_file)
       (user_sids (sample_input sample_file), user_sids (sample_input sample_file)))
       (effective_upper_bound r)"
proof -
  let ?inp = "sample_input sample_file"
  obtain r where r: "evaluate (\<lambda>s. s) ?inp = Inr r" by (simp add: evaluate_eq)
  have "agrees ?inp (user_sids ?inp, user_sids ?inp)"
    using known_token_agrees [of ?inp] by (simp add: deny_only_sids_def)
  then show ?thesis
    using upper_bound_holds [OF r _ known_owner_seen] r by blast
qed

text \<open>C17: a result claims to be determinable exactly when the evidence is complete: every ACE of
  the object and of the share was interpreted and the share was read, the local groups of the
  server were available, the identity and all its groups and historical SIDs were resolved by
  a full lookup, no logon-dependent trustee decides a right, the DFS target is unambiguous,
  and an undetermined logon check meets a result of no access. No other input changes it.\<close>

theorem determinable_iff_complete:
  "\<exists>r. evaluate lc inp = Inr r
     \<and> (effective_determinable r \<longleftrightarrow> complete_evidence inp \<and> logon_settled inp)"
  using evaluate_determinable by (simp add: evaluate_eq logon_settled_iff)

text \<open>The values of a result. The NTFS mask is the granted mask of the walk (Full Control
  without a DACL) with the owner's implicit rights; the effective mask is that mask, cut by
  the share mask exactly when a share mask was read, and zero exactly for a refused logon or
  an empty combination; the other statuses and the object are those of the input.\<close>

theorem evaluation_values:
  "\<exists>r. evaluate lc inp = Inr r
     \<and> ep_ntfs_mask r = wo_granted (dacl_walk inp) OR owner_implicit_bits inp
     \<and> ep_effective_mask r = (if logon_refused inp then 0
         else case in_share_status inp of ShareMaskStatus.Applied m \<Rightarrow> ep_ntfs_mask r AND m
              | _ \<Rightarrow> ep_ntfs_mask r)
     \<and> ep_share_mask r = (case in_share_status inp of ShareMaskStatus.Applied m \<Rightarrow> Some m | _ \<Rightarrow> None)
     \<and> ep_local_group_status r = in_local_group_status inp
     \<and> ep_path r = fso_path (in_file_system_object inp)
     \<and> ep_contributing_sids r = wo_contributions (dacl_walk inp)"
proof -
  obtain r where r: "evaluate lc inp = Inr r" by (simp add: evaluate_eq)
  have "ep_path (initial_result inp) = fso_path (in_file_system_object inp)"
    by (simp add: initial_result_def Let_def split: prod.split)
  then show ?thesis
    using r evaluate_values(1,2) [OF r]
    by (auto simp: same_values_def initial_fields ntfs_raw_def effective_raw_def share_side_def
        split: ShareMaskStatus.splits)
qed

text \<open>C40: an owner that the account may be through an uncertain group is missed. There is an
  object owned by a local group the account is in only for certain logons, for which the
  evaluation reports its result as determinable, although a token that agrees with the
  evidence (the one with the group) has the implicit rights of the owner and the result does
  not.\<close>

theorem uncertain_owner_group_missed:
  "\<exists>inp t r. evaluate lc inp = Inr r \<and> effective_determinable r \<and> \<not> logon_refused inp
     \<and> agrees inp t \<and> ep_effective_mask r = 0 \<and> real_effective inp t = FILE_READ_CONTROL"
proof -
  let ?owner = "''S-1-5-21-7-8-9-1005''"
  let ?inp = "sample_input (sample_object (Some ?owner) [])"
  let ?t = "(insert ?owner (user_sids ?inp), insert ?owner (user_sids ?inp))"
  obtain r where r: "evaluate lc ?inp = Inr r" by (simp add: evaluate_eq)
  have none: "logon_dependent ?inp = None"
    by (rule sample_bounds) auto
  then have "complete_evidence ?inp"
    by (rule sample_complete) simp
  then have "effective_determinable r"
    using evaluate_determinable [OF r] by simp
  moreover have refused: "\<not> logon_refused ?inp" by (simp add: logon_refused_def)
  moreover have "agrees ?inp ?t"
    by (auto simp: agrees_def maybe_in_token_def sample_groups deny_only_sids_def)
  moreover have "\<not> user_is_owner ?inp"
    using sample_user_sids by (simp add: user_is_owner_def)
  then have "ep_effective_mask r = 0"
    using evaluate_values(2) [OF r] refused
    by (simp add: effective_raw_def ntfs_raw_def owner_implicit_bits_def dacl_walk_def share_side_def
        walk_dacl_stored_order_def walk_start_def)
  moreover have "real_effective ?inp ?t = FILE_READ_CONTROL"
    by (simp add: real_effective_def real_ntfs_def real_mask_def real_owner_bits_def owner_enabled_def
        has_owner_rights_ace_def walk_dacl_stored_order_def walk_start_def share_side_def mask_consts)
  ultimately show ?thesis using r by blast
qed

text \<open>The contributions explain the NTFS mask. Without a missing DACL, the NTFS mask of a
  result is exactly the union of the rights its contributing trustees are credited with and of
  the implicit rights of the owner, and no trustee is listed twice.\<close>

theorem contributions_explain_mask:
  "\<exists>r. evaluate lc inp = Inr r \<and> distinct (map ca_sid (ep_contributing_sids r)) \<and>
     ep_ntfs_mask r = (if fso_null_dacl (in_file_system_object inp) then MASK_FULL_CONTROL
         else or_list (map ca_mask (ep_contributing_sids r))) OR owner_implicit_bits inp"
proof -
  obtain r where r: "evaluate lc inp = Inr r" by (simp add: evaluate_eq)
  then show ?thesis
    using evaluate_values(1) [OF r]
    by (auto simp: same_values_def initial_fields ntfs_raw_def dacl_walk_def walk_contributions)
qed

text \<open>The structured trace and the calculation cannot disagree. For an object with a DACL, the
  trace of a result consists of the outcomes of the NTFS ACEs and then those of the share
  ACEs, and the rights the trace says were decided by Allow ACEs (by Deny ACEs) of the object
  are together exactly the mask the walk granted (denied).\<close>

theorem trace_is_the_walk:
  assumes "\<not> fso_null_dacl (in_file_system_object inp)"
  shows "\<exists>r ntfs. evaluate lc inp = Inr r \<and> pt_aces (ep_trace r) = ntfs @ in_share_trace inp \<and>
    decided_in Allow ntfs = wo_granted (dacl_walk inp) \<and> decided_in Deny ntfs = wo_denied (dacl_walk inp)"
proof -
  obtain r where r: "evaluate lc inp = Inr r" by (simp add: evaluate_eq)
  let ?x = "explanation_input inp (settled_result inp)"
  have "pt_aces (ep_trace r) = as_outcomes (ace_steps ?x) @ in_share_trace inp"
    using evaluate_values(4) [OF r]
    by (auto simp: explained_result_def add_link_step_def explain_def build_explanation_def trace_groups_def
        explanation_input_def Let_def split: option.split prod.split)
  moreover have "decided_in kind (as_outcomes (ace_steps ?x)) =
      (if kind = Allow then wo_granted (dacl_walk inp) else wo_denied (dacl_walk inp))" for kind
    using trace_decides [of ?x, OF refl refl refl] assms
    by (simp add: explanation_input_def dacl_walk_def Let_def)
  ultimately show ?thesis using r by auto
qed

lemma trace_is_the_walk_witness:
  "\<exists>r ntfs. evaluate (\<lambda>s. s) (sample_input sample_file) = Inr r \<and>
    pt_aces (ep_trace r) = ntfs @ in_share_trace (sample_input sample_file) \<and>
    decided_in Allow ntfs = wo_granted (dacl_walk (sample_input sample_file)) \<and>
    decided_in Deny ntfs = wo_denied (dacl_walk (sample_input sample_file))"
  by (rule trace_is_the_walk) (simp add: sample_file_def)

text \<open>A refused logon does not make the result determinable. There is an evaluation in which
  the logon is refused, so that the effective right is no access whatever the permissions are,
  but the result still counts as not determinable, because an uninterpreted ACE of the object
  does.\<close>

theorem refused_but_not_determinable:
  "\<exists>inp r. evaluate lc inp = Inr r \<and> logon_refused inp \<and> ep_effective_mask r = 0
     \<and> \<not> effective_determinable r
     \<and> complete_evidence (inp\<lparr>in_file_system_object := (in_file_system_object inp)\<lparr>fso_unsupported_aces := []\<rparr>\<rparr>)"
proof -
  let ?ok = "(sample_input sample_file)\<lparr>in_selective_authentication := Some (Denied ''SRV'')\<rparr>"
  let ?inp = "?ok\<lparr>in_file_system_object := sample_file\<lparr>fso_unsupported_aces :=
      [\<lparr>ua_ace_type = 9, ua_flags = 0, ua_mask = 1\<rparr>]\<rparr>\<rparr>"
  obtain r where r: "evaluate lc ?inp = Inr r" by (simp add: evaluate_eq)
  have "logon_dependent ?ok = logon_dependent (sample_input sample_file)"
    by (rule check_irrelevant)
  moreover have "logon_dependent (sample_input sample_file) = None"
    by (rule sample_bounds) (auto simp: sample_file_def sample_ace_def)
  ultimately have "complete_evidence ?ok"
    by (simp add: complete_evidence_def default_provenance_def unread_group_history_def sample_file_def Let_def)
  moreover have "?inp\<lparr>in_file_system_object := (in_file_system_object ?inp)\<lparr>fso_unsupported_aces := []\<rparr>\<rparr> = ?ok"
    by (simp add: sample_input_def sample_file_def sample_object_def)
  moreover have "\<not> effective_determinable r"
    using evaluate_determinable [OF r] by (simp add: complete_evidence_def Let_def)
  moreover have refused: "logon_refused ?inp" by (simp add: logon_refused_def)
  moreover have "ep_effective_mask r = 0" using evaluate_values(2) [OF r] refused by simp
  ultimately show ?thesis using r by (intro exI [of _ ?inp] exI [of _ r]) simp
qed

text \<open>A missing SYNCHRONIZE is always named, never elsewhere, and with its cause. A result
  carries the marker exactly when the logon is not refused, the effective mask holds a right
  besides SYNCHRONIZE, and not even the upper bound holds SYNCHRONIZE; the cause is the share
  when NTFS grants it, else the Deny ACE that decided it, else that no ACE grants it; and the
  marker is certain exactly when the result is determinable.\<close>

theorem synchronize_marker_exact:
  "\<exists>r. evaluate lc inp = Inr r \<and>
     (SynchronizeNotGranted cause certain \<in> set (ep_diagnostics r) \<longleftrightarrow>
        \<not> logon_refused inp \<and> \<not> within (ep_effective_mask r) FILE_SYNCHRONIZE
        \<and> \<not> bit (effective_upper_bound r) 20
        \<and> cause = synchronize_cause inp \<and> certain = effective_determinable r)"
proof -
  obtain r where r: "evaluate lc inp = Inr r" by (simp add: evaluate_eq)
  have "SynchronizeNotGranted cause certain \<in> set (ep_diagnostics r) \<longleftrightarrow>
      SynchronizeNotGranted cause certain \<in> set (synchronize_markers inp (explained_result lc inp))"
    using no_synchronize_marker by (simp add: evaluate_values(3) [OF r])
  also have "\<dots> \<longleftrightarrow> \<not> logon_refused inp \<and> \<not> within (ep_effective_mask r) FILE_SYNCHRONIZE
      \<and> \<not> bit (effective_upper_bound r) 20
      \<and> cause = synchronize_cause inp \<and> certain = effective_determinable r"
  proof (cases "logon_refused inp")
    case True
    then show ?thesis by (simp add: synchronize_markers_def)
  next
    case False
    then show ?thesis
      unfolding evaluate_claims [OF r False]
      by (auto simp: synchronize_markers_def synchronize_gap_def on_some_def beyond_synchronize
          synchronize_bit synchronize_cause_def word_zero_bits [of "_ AND FILE_SYNCHRONIZE"]
          simp flip: synchronize_bit)
  qed
  finally show ?thesis using r by blast
qed

end
