(* ===== verification/Texts.thy ===== *)
theory Texts
  imports Model
begin

text \<open>
  More of the Rust string library, for the input validators, the parsers and the reports: ASCII
  character classes and case, \<open>splitn\<close>, \<open>split_once\<close>, \<open>trim_start_matches\<close>, the first character
  of a UTF-8 text, and the first control character with its code point.
\<close>

section \<open>ASCII classes and case\<close>

definition code :: "char \<Rightarrow> nat" where
  "code c = of_char c"

definition ascii_upper :: "char \<Rightarrow> bool" where
  "ascii_upper c \<longleftrightarrow> 65 \<le> code c \<and> code c \<le> 90"

definition ascii_lower :: "char \<Rightarrow> bool" where
  "ascii_lower c \<longleftrightarrow> 97 \<le> code c \<and> code c \<le> 122"

definition ascii_alphabetic :: "char \<Rightarrow> bool" where
  \<comment> \<open>\<open>u8::is_ascii_alphabetic\<close>.\<close>
  "ascii_alphabetic c \<longleftrightarrow> ascii_upper c \<or> ascii_lower c"

definition ascii_digit :: "char \<Rightarrow> bool" where
  "ascii_digit c \<longleftrightarrow> 48 \<le> code c \<and> code c \<le> 57"

definition ascii_alphanumeric :: "char \<Rightarrow> bool" where
  "ascii_alphanumeric c \<longleftrightarrow> ascii_alphabetic c \<or> ascii_digit c"

definition lower :: "char \<Rightarrow> char" where
  "lower c = (if ascii_upper c then char_of (code c + 32) else c)"

definition to_ascii_lowercase :: "string \<Rightarrow> string" where
  "to_ascii_lowercase s = map lower s"

definition eq_ignore_ascii_case :: "string \<Rightarrow> string \<Rightarrow> bool" where
  "eq_ignore_ascii_case s t \<longleftrightarrow> to_ascii_lowercase s = to_ascii_lowercase t"

lemma code_lower: "code (lower c) = (if ascii_upper c then code c + 32 else code c)"
  by (simp add: lower_def code_def ascii_upper_def take_bit_eq_mod)

lemma lower_idem [simp]: "lower (lower c) = lower c"
proof -
  have "\<not> ascii_upper (lower c)"
    unfolding ascii_upper_def [of "lower c"] code_lower by (auto simp: ascii_upper_def)
  then show ?thesis by (simp add: lower_def [of "lower c"])
qed

lemma lower_same [simp]: "\<not> ascii_upper c \<Longrightarrow> lower c = c"
  by (simp add: lower_def)

lemma to_ascii_lowercase_idem [simp]: "to_ascii_lowercase (to_ascii_lowercase s) = to_ascii_lowercase s"
  by (simp add: to_ascii_lowercase_def)

lemma length_lowercase [simp]: "length (to_ascii_lowercase s) = length s"
  by (simp add: to_ascii_lowercase_def)

lemma lower_eqD: "lower x = y \<Longrightarrow> \<not> ascii_lower y \<Longrightarrow> x = y"
  by (auto simp: lower_def ascii_lower_def code_def ascii_upper_def take_bit_eq_mod split: if_splits)

lemma lower_signs [simp]:
  "lower (CHR 0x5C) = CHR 0x5C" "lower (CHR ''?'') = CHR ''?''" "lower (CHR '':'') = CHR '':''"
  "lower x = CHR 0x5C \<longleftrightarrow> x = CHR 0x5C" "lower x = CHR ''?'' \<longleftrightarrow> x = CHR ''?''"
  "lower x = CHR '':'' \<longleftrightarrow> x = CHR '':''"
proof -
  show c: "lower (CHR 0x5C) = CHR 0x5C" "lower (CHR ''?'') = CHR ''?''" "lower (CHR '':'') = CHR '':''"
    by (simp_all add: ascii_upper_def code_def)
  have "\<not> ascii_lower (CHR 0x5C)" "\<not> ascii_lower (CHR ''?'')" "\<not> ascii_lower (CHR '':'')"
    by (simp_all add: ascii_lower_def code_def)
  with c show "lower x = CHR 0x5C \<longleftrightarrow> x = CHR 0x5C" "lower x = CHR ''?'' \<longleftrightarrow> x = CHR ''?''"
    "lower x = CHR '':'' \<longleftrightarrow> x = CHR '':''"
    using lower_eqD by blast+
qed

section \<open>Splitting and trimming\<close>

fun split_once :: "char \<Rightarrow> string \<Rightarrow> (string \<times> string) option" where
  \<comment> \<open>\<open>str::split_once\<close>: cuts at the first occurrence.\<close>
  "split_once c [] = None"
| "split_once c (x # xs) =
     (if x = c then Some ([], xs) else map_option (\<lambda>(a, b). (x # a, b)) (split_once c xs))"

lemma split_once_None: "split_once c s = None \<longleftrightarrow> c \<notin> set s"
  by (induction s) auto

lemma split_onceD: "split_once c s = Some (a, b) \<Longrightarrow> s = a @ c # b \<and> c \<notin> set a"
  by (induction s arbitrary: a) (auto split: if_splits)

lemma split_once_sep: "c \<notin> set a \<Longrightarrow> split_once c (a @ c # b) = Some (a, b)"
  by (induction a) auto

definition until :: "(char \<Rightarrow> bool) \<Rightarrow> string \<Rightarrow> string" where
  \<comment> \<open>The text before the first character of the class.\<close>
  "until p s = takeWhile (\<lambda>c. \<not> p c) s"

definition splitn3 :: "(char \<Rightarrow> bool) \<Rightarrow> string \<Rightarrow> string list" where
  \<comment> \<open>\<open>str::splitn(3, p)\<close>: at most three pieces, the last one uncut.\<close>
  "splitn3 p s =
     (case dropWhile (\<lambda>c. \<not> p c) s of
        [] \<Rightarrow> [s]
      | _ # rest \<Rightarrow>
          (case dropWhile (\<lambda>c. \<not> p c) rest of
             [] \<Rightarrow> [until p s, rest]
           | _ # rest' \<Rightarrow> [until p s, until p rest, rest']))"

lemma until_all: "\<forall>c \<in> set s. \<not> p c \<Longrightarrow> until p s = s"
  by (simp add: until_def)

lemma dropWhile_none: "\<forall>c \<in> set s. \<not> p c \<Longrightarrow> dropWhile (\<lambda>c. \<not> p c) s = []"
  by simp

lemma until_none: "c \<in> set (until p s) \<Longrightarrow> \<not> p c"
  by (auto simp: until_def dest: set_takeWhileD)

definition trim_start_matches :: "(char \<Rightarrow> bool) \<Rightarrow> string \<Rightarrow> string" where
  "trim_start_matches p s = dropWhile p s"

definition ends_with :: "string \<Rightarrow> string \<Rightarrow> bool" where
  \<comment> \<open>\<open>str::ends_with\<close>: the text first, the pattern second.\<close>
  "ends_with s p \<longleftrightarrow> length p \<le> length s \<and> drop (length s - length p) s = p"

section \<open>Characters of a UTF-8 text\<close>

definition continuation :: "char \<Rightarrow> bool" where
  "continuation c \<longleftrightarrow> 0x80 \<le> code c \<and> code c < 0xC0"

definition first_char :: "string \<Rightarrow> string" where
  \<comment> \<open>The bytes of the first character.\<close>
  "first_char s = (case s of [] \<Rightarrow> [] | c # cs \<Rightarrow> c # takeWhile continuation cs)"

definition first_char_with :: "(char \<Rightarrow> bool) \<Rightarrow> string \<Rightarrow> string option" where
  \<comment> \<open>\<open>chars().find(p)\<close> for a class that is decided by the first byte of a character and, if a
    continuation byte is in it, holds every first byte outside ASCII.\<close>
  "first_char_with p s = (case dropWhile (\<lambda>c. \<not> p c) s of [] \<Rightarrow> None | s' \<Rightarrow> Some (first_char s'))"

fun first_control :: "string \<Rightarrow> nat option" where
  \<comment> \<open>The code point of the first \<open>char::is_control\<close> of the text.\<close>
  "first_control [] = None"
| "first_control (c # cs) =
     (if code c < 0x20 \<or> code c = 0x7F then Some (code c)
      else case cs of
          d # _ \<Rightarrow> (if code c = 0xC2 \<and> 0x80 \<le> code d \<and> code d \<le> 0x9F then Some (code d) else first_control cs)
        | [] \<Rightarrow> None)"

definition hex4 :: "nat \<Rightarrow> string" where
  \<comment> \<open>\<open>{:04X}\<close>.\<close>
  "hex4 n = (let h = map digit_char (digits 16 n) in replicate (4 - length h) (CHR ''0'') @ h)"

lemma first_control_None: "first_control s = None \<longleftrightarrow> \<not> control_in s"
  by (induction s rule: first_control.induct) (auto simp: Let_def code_def split: list.splits)

lemma first_char_with_None: "first_char_with p s = None \<longleftrightarrow> (\<forall>c \<in> set s. \<not> p c)"
proof (cases "dropWhile (\<lambda>c. \<not> p c) s")
  case Nil
  moreover from Nil have "\<forall>c \<in> set s. \<not> p c" by simp
  ultimately show ?thesis unfolding first_char_with_def Nil by simp
next
  case (Cons c cs)
  then have "dropWhile (\<lambda>c. \<not> p c) s \<noteq> []" by simp
  then have "\<exists>c \<in> set s. p c" by auto
  then show ?thesis by (simp add: first_char_with_def Cons)
qed

definition ellipsis :: string where
  "ellipsis = [CHR 0xE2, CHR 0x80, CHR 0xA6]"

section \<open>Errors as values\<close>

definition and_then :: "'e + 'a \<Rightarrow> ('a \<Rightarrow> 'e + 'b) \<Rightarrow> 'e + 'b" where
  \<comment> \<open>The \<open>?\<close> operator.\<close>
  "and_then r f = (case r of Inl e \<Rightarrow> Inl e | Inr x \<Rightarrow> f x)"

definition map_err :: "('e \<Rightarrow> 'f) \<Rightarrow> 'e + 'a \<Rightarrow> 'f + 'a" where
  "map_err g r = (case r of Inl e \<Rightarrow> Inl (g e) | Inr x \<Rightarrow> Inr x)"

definition ok :: "'e + 'a \<Rightarrow> 'a option" where
  \<comment> \<open>\<open>Result::ok\<close>.\<close>
  "ok r = (case r of Inl _ \<Rightarrow> None | Inr x \<Rightarrow> Some x)"

definition is_ok :: "'e + 'a \<Rightarrow> bool" where
  "is_ok r = (case r of Inl _ \<Rightarrow> False | Inr _ \<Rightarrow> True)"

lemma result_simps [simp]:
  "and_then (Inl e) f = Inl e" "and_then (Inr x) f = f x"
  "map_err g (Inl e) = Inl (g e)" "map_err g (Inr x) = Inr x"
  "ok (Inl e) = None" "ok (Inr x) = Some x" "\<not> is_ok (Inl e)" "is_ok (Inr x)"
  by (simp_all add: and_then_def map_err_def ok_def is_ok_def)

lemma and_then_Inr: "and_then r f = Inr y \<longleftrightarrow> (\<exists>x. r = Inr x \<and> f x = Inr y)"
  by (cases r) auto

lemma map_err_Inr [simp]: "map_err g r = Inr y \<longleftrightarrow> r = Inr y"
  by (cases r) auto

lemma is_ok_iff: "is_ok r \<longleftrightarrow> (\<exists>x. r = Inr x)"
  by (cases r) auto

lemma first_char_case [simp]:
  "(case first_char_with p s of None \<Rightarrow> r | Some bad \<Rightarrow> Inl (e bad)) = Inr x \<longleftrightarrow> (\<forall>c \<in> set s. \<not> p c) \<and> r = Inr x"
  using first_char_with_None [of p s] by (cases "first_char_with p s") auto

lemma first_control_case [simp]:
  "(case first_control s of None \<Rightarrow> r | Some bad \<Rightarrow> Inl (e bad)) = Inr x \<longleftrightarrow> \<not> control_in s \<and> r = Inr x"
  using first_control_None [of s] by (cases "first_control s") auto

primrec error_text :: "CoreError \<Rightarrow> string" where
  \<comment> \<open>\<open>Display for CoreError\<close>.\<close>
  "error_text (AdConnection m) = ''AD connection error: '' @ m"
| "error_text (LdapQuery m) = ''LDAP query error: '' @ m"
| "error_text (SidResolution m) = ''SID resolution error: '' @ m"
| "error_text (AccessDenied m) = ''Access denied: '' @ m"
| "error_text (PathNotFound m) = ''Path not found: '' @ m"
| "error_text (InvalidSecurityDescriptor m) = ''Invalid security descriptor: '' @ m"
| "error_text (UnsupportedAceType m) = ''Unsupported ACE type: '' @ m"
| "error_text (ShareEnumeration m) = ''Share enumeration error: '' @ m"
| "error_text (Database m) = ''Database error: '' @ m"
| "error_text (Export m) = ''Export error: '' @ m"
| "error_text Cancelled = ''Cancellation requested''"
| "error_text (Validation m) = ''Validation error: '' @ m"
| "error_text (ReparseCycle m) = ''Reparse cycle: '' @ m"
| "error_text (ReparseDuplicateTarget m) = ''Duplicate reparse target: '' @ m"
| "error_text (OtherShare m) = ''Served from another share: '' @ m"
| "error_text (ReparseNotFollowed m) = ''Link not followed: '' @ m"

section \<open>Trimming leaves nothing to trim\<close>

lemma strip_all_suffix: "\<exists>p. s = p @ strip_all k ps s"
proof (induction k ps s rule: strip_all.induct)
  case (2 k ps s)
  show ?case
  proof (cases "find (starts_with s) ps")
    case (Some p)
    then have "s = p @ drop (length p) s" by (auto simp: find_Some_iff dest: starts_withD)
    moreover obtain q where "drop (length p) s = q @ strip_all k ps (drop (length p) s)"
      using 2 Some by blast
    ultimately show ?thesis using Some by (metis append.assoc option.simps(5) strip_all.simps(2))
  qed auto
qed simp

lemma strip_all_fixed: "find (starts_with s) ps = None \<Longrightarrow> strip_all k ps s = s"
  by (cases k) auto

lemma white_space_nonempty: "\<forall>p \<in> set white_space. p \<noteq> []" "\<forall>p \<in> set (map rev white_space). p \<noteq> []"
  by (simp_all add: white_space_def)

lemma starts_with_iff: "starts_with s p \<longleftrightarrow> (\<exists>r. s = p @ r)"
  by (auto dest: starts_withD)

lemma trim_end_prefix: "\<exists>v. s = trim_end s @ v"
proof -
  obtain p where "rev s = p @ strip_all (length s) (map rev white_space) (rev s)"
    using strip_all_suffix by blast
  then have "s = trim_end s @ rev p"
    unfolding trim_end_def by (metis rev_append rev_rev_ident)
  then show ?thesis by blast
qed

lemma trim_start_done: "find (starts_with (trim_start s)) white_space = None"
  unfolding trim_start_def by (rule strip_all_done [OF white_space_nonempty(1)]) simp

lemma trim_end_done: "find (starts_with (rev (trim_end s))) (map rev white_space) = None"
  unfolding trim_end_def rev_rev_ident by (rule strip_all_done [OF white_space_nonempty(2)]) simp

lemma trim_end_fixed: "trim_end (trim_end s) = trim_end s"
  unfolding trim_end_def [of "trim_end s"] by (simp add: strip_all_fixed [OF trim_end_done])

lemma no_blank_prefix: "find (starts_with (u @ v)) white_space = None \<Longrightarrow> find (starts_with u) white_space = None"
  by (auto simp: find_None_iff starts_with_iff)

lemma trim_idem [simp]: "trim (trim s) = trim s"
proof -
  obtain v where "trim_start s = trim s @ v" unfolding trim_def using trim_end_prefix by blast
  then have "find (starts_with (trim s)) white_space = None"
    using trim_start_done [of s] no_blank_prefix by simp
  then have "trim_start (trim s) = trim s" by (simp add: trim_start_def strip_all_fixed)
  then show ?thesis unfolding trim_def [of "trim s"] by (simp add: trim_def trim_end_fixed)
qed

lemma strip_all_chars: "set s \<subseteq> set (strip_all k ps s) \<union> \<Union> (set ` set ps)"
proof (induction k ps s rule: strip_all.induct)
  case (2 k ps s)
  show ?case
  proof (cases "find (starts_with s) ps")
    case (Some p)
    then have p: "p \<in> set ps" "starts_with s p" by (auto simp: find_Some_iff)
    then have "set s = set p \<union> set (drop (length p) s)"
      using starts_withD [of s p] by (metis set_append)
    with p(1) 2 [OF Some] Some show ?thesis by auto
  qed auto
qed simp

lemma trim_chars: "set s \<subseteq> set (trim s) \<union> \<Union> (set ` set white_space)"
proof -
  have "set s \<subseteq> set (trim_start s) \<union> \<Union> (set ` set white_space)"
    unfolding trim_start_def by (rule strip_all_chars)
  moreover have "set t \<subseteq> set (trim_end t) \<union> \<Union> (set ` set white_space)" for t
    using strip_all_chars [of "rev t" "length t" "map rev white_space"]
    by (simp add: trim_end_def image_image)
  ultimately show ?thesis unfolding trim_def by blast
qed

definition blank_bytes :: "char set" where
  "blank_bytes = \<Union> (set ` set white_space)"

lemma blank_bytes_code: "c \<in> blank_bytes \<Longrightarrow> code c \<in> {0x09, 0x0A, 0x0B, 0x0C, 0x0D, 0x20} \<or> 0x80 \<le> code c"
  by (auto simp: blank_bytes_def white_space_def code_def of_char_of take_bit_eq_mod)

lemma trim_head:
  assumes "trim s \<noteq> []"
  shows "hd s = hd (trim s) \<or> (\<exists>w \<in> set white_space. hd s = hd w)"
proof (cases "find (starts_with s) white_space")
  case None
  then have "trim_start s = s" by (simp add: trim_start_def strip_all_fixed)
  then obtain v where "s = trim s @ v" using trim_end_prefix [of s] by (auto simp: trim_def)
  then show ?thesis using assms by (metis hd_append2)
next
  case (Some w)
  then have w: "w \<in> set white_space" "starts_with s w" by (auto simp: find_Some_iff)
  moreover from w have "hd s = hd w"
    using white_space_nonempty(1) starts_withD [of s w] by (metis hd_append2)
  ultimately show ?thesis by blast
qed

lemma trim_plain: "set s \<inter> blank_bytes = {} \<Longrightarrow> trim s = s"
proof -
  assume *: "set s \<inter> blank_bytes = {}"
  have none: "find (starts_with t) ps = None"
    if "set t \<subseteq> set s" "\<forall>p \<in> set ps. p \<noteq> [] \<and> set p \<subseteq> blank_bytes" for t ps
  proof -
    have "\<not> starts_with t p" if "p \<in> set ps" for p
    proof
      assume "starts_with t p"
      then have "set p \<subseteq> set s" using \<open>set t \<subseteq> set s\<close> by (auto simp: starts_with_iff)
      moreover have "p \<noteq> []" "set p \<subseteq> blank_bytes" using that \<open>\<forall>p \<in> set ps. _ p\<close> by auto
      ultimately show False using * by (cases p) auto
    qed
    then show ?thesis by (auto simp: find_None_iff)
  qed
  have "trim_start s = s"
    unfolding trim_start_def
    by (rule strip_all_fixed, rule none) (use white_space_nonempty(1) in \<open>auto simp: blank_bytes_def\<close>)
  moreover have "trim_end s = s"
  proof -
    have "find (starts_with (rev s)) (map rev white_space) = None"
      by (rule none) (use white_space_nonempty(1) in \<open>auto simp: blank_bytes_def\<close>)
    then show ?thesis by (simp add: trim_end_def strip_all_fixed)
  qed
  ultimately show ?thesis by (simp add: trim_def)
qed

section \<open>Numbers and their texts\<close>

lemma digit_val_char: "d < 10 \<Longrightarrow> digit_val (digit_char d) = Some d"
  by (simp add: digit_val_def digit_char_def take_bit_eq_mod)

lemma digits_le_value: "acc \<le> foldl (\<lambda>a d. a * 10 + d) acc (ds :: nat list)"
proof (induction ds arbitrary: acc)
  case (Cons d ds)
  have "acc \<le> acc * 10 + d" by simp
  also have "\<dots> \<le> foldl (\<lambda>a d. a * 10 + d) acc (d # ds)" using Cons.IH [of "acc * 10 + d"] by simp
  finally show ?case .
qed simp

lemma parse_digit_chars:
  "\<forall>d \<in> set ds. d < 10 \<Longrightarrow> foldl (\<lambda>a d. a * 10 + d) acc ds < bound \<Longrightarrow>
     parse_digits bound acc (map digit_char ds) = Some (foldl (\<lambda>a d. a * 10 + d) acc ds)"
proof (induction ds arbitrary: acc)
  case (Cons d ds)
  moreover have "acc * 10 + d < bound"
    using Cons.prems(2) digits_le_value [of "acc * 10 + d" ds] by simp
  ultimately show ?case by (simp add: digit_val_char)
qed simp

lemma dec_ascii_digits: "c \<in> set (dec n) \<Longrightarrow> ascii_digit c"
proof -
  assume "c \<in> set (dec n)"
  then obtain d where "c = digit_char d" "d < 10" by (auto simp: dec_def dest: digits_less [rotated])
  then show ?thesis by (auto simp: ascii_digit_def code_def digit_char_def take_bit_eq_mod)
qed

lemma dec_nonempty [simp]: "dec n \<noteq> []"
  unfolding dec_def by (subst digits.simps) simp

lemma parse_dec: "n < bound \<Longrightarrow> parse_uint bound (dec n) = Some n"
proof -
  assume "n < bound"
  have "foldl (\<lambda>a d. a * 10 + d) 0 (digits 10 n) = n" using undigits_digits [of 10 n] by simp
  then have "parse_digits bound 0 (dec n) = Some n"
    using \<open>n < bound\<close> digits_less [of 10 _ n] by (simp add: dec_def parse_digit_chars)
  moreover have "CHR ''+'' \<notin> set (dec n)"
    using dec_ascii_digits [of "CHR ''+''" n] by (auto simp: ascii_digit_def code_def)
  ultimately show ?thesis
    using dec_nonempty [of n] unfolding parse_uint_def Let_def by (cases "dec n") auto
qed

lemma parse_digits_bound: "parse_digits bound acc s = Some n \<Longrightarrow> acc < bound \<Longrightarrow> n < bound"
  by (induction bound acc s rule: parse_digits.induct) (auto simp: Let_def split: option.splits if_splits)

lemma parse_uint_bound: "0 < bound \<Longrightarrow> parse_uint bound s = Some n \<Longrightarrow> n < bound"
  unfolding parse_uint_def Let_def using parse_digits_bound [of bound 0] by (metis option.distinct(1))

end
