(* ===== verification/Net_Inputs.thy ===== *)
theory Net_Inputs
  imports Texts
begin

text \<open>
  The validators of network, directory and numeric inputs (crate \<open>validation\<close>: \<open>net.rs\<close>,
  \<open>sid.rs\<close>, \<open>ldap.rs\<close>, \<open>numbers.rs\<close>, \<open>update_source.rs\<close>). Every one returns the accepted text, or
  the error with the message of the source. The newtypes of validated values are their texts.
  The last section shows what an accepted value looks like, and that the escaped value of an
  LDAP filter cannot leave its place in the filter.
\<close>

section \<open>Hosts, shares, names\<close>

definition MAX_HOST_LEN :: nat where "MAX_HOST_LEN = 255"
definition MAX_SHARE_LEN :: nat where "MAX_SHARE_LEN = 80"
definition MAX_DN_LEN :: nat where "MAX_DN_LEN = 1024"
definition MAX_QUERY_LEN :: nat where "MAX_QUERY_LEN = 256"

type_synonym ValidatedServerName = string
type_synonym ValidatedShareName = string
type_synonym ValidatedDn = string
type_synonym ValidatedIdentityQuery = string
type_synonym ValidatedBindIdentity = string

definition invalid :: "string \<Rightarrow> CoreError + 'a" where
  "invalid m = Inl (Validation m)"

definition host_char :: "char \<Rightarrow> bool" where
  "host_char c \<longleftrightarrow> ascii_alphanumeric c \<or> c \<in> {CHR ''.'', CHR ''-'', CHR ''_''}"

definition check_hostname :: "string \<Rightarrow> string \<Rightarrow> CoreError + unit" where
  "check_hostname trimmed what =
     (if trimmed = [] then invalid (what @ '' must not be empty'')
      else if length trimmed > MAX_HOST_LEN then
        invalid (what @ '' must not exceed '' @ dec MAX_HOST_LEN @ '' characters'')
      else if control_in trimmed then invalid (what @ '' must not contain control characters'')
      else if CHR 0x5C \<in> set trimmed \<or> CHR ''/'' \<in> set trimmed then
        invalid (what @ '' must be a host name without path separators: '' @ trimmed)
      else if CHR '':'' \<in> set trimmed then
        invalid (what @ '' must not contain '' @ squote @ '':'' @ squote @ '' '' @ em_dash
       @ '' IPv6 literals are not supported (known-limitations L13); use the host'' @ squote
       @ ''s DNS name or IPv4 address: '' @ trimmed)
      else case first_char_with (\<lambda>c. \<not> host_char c) trimmed of
          Some bad \<Rightarrow> invalid (what @ '' contains an invalid character '' @ squote @ bad @ squote @ '': '' @ trimmed)
        | None \<Rightarrow> Inr ())"

definition validate_smb_server :: "string \<Rightarrow> CoreError + ValidatedServerName" where
  "validate_smb_server input =
     (let trimmed = trim input
      in and_then (check_hostname trimmed ''SMB server name'') (\<lambda>_. Inr trimmed))"

definition validate_ldap_endpoint :: "string \<Rightarrow> CoreError + ValidatedServerName" where
  "validate_ldap_endpoint input =
     (let trimmed = trim input
      in and_then (check_hostname trimmed ''LDAP server'') (\<lambda>_. Inr trimmed))"

definition FORBIDDEN_SHARE_CHARS :: "char list" where
  "FORBIDDEN_SHARE_CHARS =
     [CHR 0x5C, CHR ''/'', CHR 0x22, CHR ''['', CHR '']'', CHR '':'', CHR ''|'', CHR ''<'', CHR ''>'',
      CHR ''+'', CHR ''='', CHR '';'', CHR '','', CHR ''*'', CHR ''?'']"

definition validate_share_name :: "string \<Rightarrow> CoreError + ValidatedShareName" where
  "validate_share_name input =
     (let trimmed = trim input
      in if trimmed = [] then invalid (''Share name must not be empty'')
         else if length trimmed > MAX_SHARE_LEN then
           invalid (''Share name must not exceed '' @ dec MAX_SHARE_LEN @ '' characters'')
         else if control_in trimmed then invalid (''Share name must not contain control characters'')
         else case first_char_with (\<lambda>c. c \<in> set FORBIDDEN_SHARE_CHARS) trimmed of
             Some bad \<Rightarrow> invalid (''Share name contains a forbidden character '' @ squote @ bad @ squote @ '': '' @ trimmed)
           | None \<Rightarrow> Inr trimmed)"

definition validate_dn :: "string \<Rightarrow> CoreError + ValidatedDn" where
  "validate_dn input =
     (let trimmed = trim input
      in if trimmed = [] then invalid (''Distinguished name must not be empty'')
         else if length trimmed > MAX_DN_LEN then
           invalid (''Distinguished name must not exceed '' @ dec MAX_DN_LEN @ '' characters'')
         else if control_in trimmed then invalid (''Distinguished name must not contain control characters'')
         else if CHR ''='' \<notin> set trimmed then
           invalid (''Distinguished name must contain at least one '' @ squote @ ''attribute=value'' @ squote
       @ '' component: '' @ trimmed)
         else if starts_with trimmed '','' \<or> ends_with trimmed '','' then
           invalid (''Distinguished name must not start or end with a comma: '' @ trimmed)
         else Inr trimmed)"

definition validate_bind_identity :: "string \<Rightarrow> CoreError + ValidatedBindIdentity" where
  "validate_bind_identity input =
     (let trimmed = trim input
      in if trimmed = [] then invalid (''Bind identity must not be empty'')
         else if length trimmed > MAX_DN_LEN then
           invalid (''Bind identity must not exceed '' @ dec MAX_DN_LEN @ '' characters'')
         else if control_in trimmed then invalid (''Bind identity must not contain control characters'')
         else if CHR ''='' \<in> set trimmed then and_then (validate_dn trimmed) (\<lambda>_. Inr trimmed)
         else case split_once (CHR 0x5C) trimmed of
             Some (domain, user) \<Rightarrow>
               (if domain = [] \<or> user = [] \<or> CHR 0x5C \<in> set user then
                  invalid (''NetBIOS bind identity must be exactly DOMAIN'' @ bslash @ ''user: '' @ trimmed)
                else Inr trimmed)
           | None \<Rightarrow>
               (case rsplit_once (CHR 0x40) trimmed of
                  Some (user, domain) \<Rightarrow>
                    (if user = [] \<or> domain = [] then invalid (''UPN bind identity must be user@domain: '' @ trimmed)
                     else Inr trimmed)
                | None \<Rightarrow> invalid (''Bind identity must be a DN (CN='' @ ellipsis @ '',DC='' @ ellipsis
       @ ''), a UPN (user@domain), or DOMAIN'' @ bslash @ ''user: '' @ trimmed)))"

definition validate_identity_query :: "string \<Rightarrow> CoreError + ValidatedIdentityQuery" where
  "validate_identity_query input =
     (let trimmed = trim input
      in if trimmed = [] then invalid (''Search query must not be empty'')
         else if length trimmed > MAX_QUERY_LEN then
           invalid (''Search query must not exceed '' @ dec MAX_QUERY_LEN @ '' characters'')
         else if control_in trimmed then invalid (''Search query must not contain control characters'')
         else Inr trimmed)"

section \<open>SIDs\<close>

type_synonym ValidatedSid = string

definition validate_sid :: "string \<Rightarrow> CoreError + ValidatedSid" where
  "validate_sid input = and_then (sid_try_new input) (\<lambda>sid. Inr sid)"

definition char_boundary :: "nat \<Rightarrow> string \<Rightarrow> bool" where
  \<comment> \<open>\<open>str::is_char_boundary\<close>.\<close>
  "char_boundary n s \<longleftrightarrow> n = 0 \<or> n = length s \<or> (n < length s \<and> \<not> continuation (s ! n))"

definition prefix_upto :: "nat \<Rightarrow> string \<Rightarrow> string option" where
  \<comment> \<open>\<open>str::get(..n)\<close>.\<close>
  "prefix_upto n s = (if char_boundary n s then Some (take n s) else None)"

definition looks_like_sid :: "string \<Rightarrow> bool" where
  "looks_like_sid input =
     (case prefix_upto 4 input of None \<Rightarrow> False | Some p \<Rightarrow> eq_ignore_ascii_case p ''S-1-'')"

section \<open>LDAP filter values\<close>

fun escape_filter_value :: "string \<Rightarrow> string" where
  "escape_filter_value [] = []"
| "escape_filter_value (ch # cs) =
     (if ch = CHR ''*'' then CHR 0x5C # ''2a''
      else if ch = CHR ''('' then CHR 0x5C # ''28''
      else if ch = CHR '')'' then CHR 0x5C # ''29''
      else if ch = CHR 0x5C then CHR 0x5C # ''5c''
      else if ch = CHR 0x00 then CHR 0x5C # ''00''
      else [ch]) @ escape_filter_value cs"

section \<open>Numbers\<close>

type_synonym ScanDepth = u32
type_synonym LdapTimeout = u64

definition MAX_SCAN_DEPTH :: u32 where "MAX_SCAN_DEPTH = 512"
definition MIN_LDAP_TIMEOUT_SECS :: u64 where "MIN_LDAP_TIMEOUT_SECS = 1"
definition MAX_LDAP_TIMEOUT_SECS :: u64 where "MAX_LDAP_TIMEOUT_SECS = 600"

definition validate_scan_depth :: "u32 \<Rightarrow> CoreError + ScanDepth" where
  "validate_scan_depth v =
     (if v > MAX_SCAN_DEPTH then
        invalid (''Scan depth '' @ dec (unat v) @ '' exceeds maximum of '' @ dec (unat MAX_SCAN_DEPTH))
      else Inr v)"

definition transpose_option :: "('e + 'a) option \<Rightarrow> 'e + 'a option" where
  \<comment> \<open>\<open>Option::transpose\<close>.\<close>
  "transpose_option r =
     (case r of None \<Rightarrow> Inr None | Some (Inl e) \<Rightarrow> Inl e | Some (Inr x) \<Rightarrow> Inr (Some x))"

definition validate_optional_scan_depth :: "u32 option \<Rightarrow> CoreError + ScanDepth option" where
  "validate_optional_scan_depth v = transpose_option (map_option validate_scan_depth v)"

definition validate_ldap_timeout :: "u64 \<Rightarrow> CoreError + LdapTimeout" where
  "validate_ldap_timeout v =
     (if v < MIN_LDAP_TIMEOUT_SECS then
        invalid (''LDAP timeout '' @ dec (unat v) @ ''s is below minimum of ''
       @ dec (unat MIN_LDAP_TIMEOUT_SECS) @ ''s'')
      else if v > MAX_LDAP_TIMEOUT_SECS then
        invalid (''LDAP timeout '' @ dec (unat v) @ ''s exceeds maximum of ''
       @ dec (unat MAX_LDAP_TIMEOUT_SECS) @ ''s'')
      else Inr v)"

definition validate_optional_ldap_timeout :: "u64 option \<Rightarrow> CoreError + LdapTimeout option" where
  "validate_optional_ldap_timeout v = transpose_option (map_option validate_ldap_timeout v)"

section \<open>Update sources\<close>

type_synonym ValidatedUpdateSource = string

definition MAX_URL_LEN :: nat where "MAX_URL_LEN = 2048"

fun first_control_or_space :: "string \<Rightarrow> nat option" where
  \<comment> \<open>\<open>chars().find(|c| c.is_control() || *c == ' ')\<close>, with the code point.\<close>
  "first_control_or_space [] = None"
| "first_control_or_space (c # cs) =
     (if c = CHR '' '' then Some 32
      else if code c < 0x20 \<or> code c = 0x7F then Some (code c)
      else case cs of
          d # _ \<Rightarrow> (if code c = 0xC2 \<and> 0x80 \<le> code d \<and> code d \<le> 0x9F then Some (code d)
                    else first_control_or_space cs)
        | [] \<Rightarrow> None)"

definition authority_of :: "string \<Rightarrow> string" where
  \<comment> \<open>\<open>rest\<close> up to the first slash, question mark or hash.\<close>
  "authority_of rest = until (\<lambda>c. c \<in> {CHR ''/'', CHR ''?'', CHR ''#''}) rest"

definition validate_update_source :: "string \<Rightarrow> CoreError + ValidatedUpdateSource" where
  "validate_update_source input =
     (let trimmed = trim input
      in if trimmed = [] then invalid (''Update source must not be empty'')
         else if length trimmed > MAX_URL_LEN then
           invalid (''Update source exceeds '' @ dec MAX_URL_LEN @ '' characters'')
         else case first_control_or_space trimmed of
             Some c \<Rightarrow> invalid (''Update source must not contain whitespace or control characters (found U+'' @ hex4 c
       @ '')'')
           | None \<Rightarrow>
               (case strip_prefix ''https://'' (to_ascii_lowercase trimmed) of
                  None \<Rightarrow> invalid (''Update source must be an https:// URL (got '' @ squote @ trimmed @ squote @ '') ''
       @ em_dash @ '' plain http, file paths and UNC paths are not accepted'')
                | Some rest \<Rightarrow>
                    (let authority = authority_of rest
                     in if authority = [] then
                          invalid (''Update source has an empty host'')
                        else if CHR 0x40 \<in> set authority then
                          invalid (''Update source must not embed credentials (user:password@host) '' @ em_dash
       @ '' they would leak into logs and shell history'')
                        else if CHR ''#'' \<in> set trimmed then
                          invalid (''Update source must not contain a fragment ('' @ squote @ ''#'' @ ellipsis @ squote @ '')'')
                        else Inr trimmed)))"

section \<open>What the filter sees of an escaped value\<close>

definition hex_digit :: "char \<Rightarrow> nat option" where
  "hex_digit c = (if ascii_digit c then Some (code c - 48)
     else if 97 \<le> code c \<and> code c \<le> 102 then Some (code c - 87) else None)"

fun assertion_value :: "string \<Rightarrow> string option" where
  \<comment> \<open>How RFC 4515 reads the value of an assertion: an escape is a backslash and two hexadecimal
    digits, and a star, a parenthesis or a NUL does not belong to a literal value.\<close>
  "assertion_value [] = Some []"
| "assertion_value (c # cs) =
     (if c = CHR 0x5C then
        (case cs of
           h # l # rest \<Rightarrow>
             (case (hex_digit h, hex_digit l, assertion_value rest) of
                (Some a, Some b, Some v) \<Rightarrow> Some (char_of (16 * a + b) # v)
              | _ \<Rightarrow> None)
         | _ \<Rightarrow> None)
      else if c \<in> {CHR ''*'', CHR ''('', CHR '')'', CHR 0x00} then None
      else map_option (\<lambda>v. c # v) (assertion_value cs))"

lemma read_escape: "hex_digit h = Some a \<Longrightarrow> hex_digit l = Some b \<Longrightarrow>
    assertion_value (CHR 0x5C # h # l # s) = map_option ((#) (char_of (16 * a + b))) (assertion_value s)"
  by (simp split: option.split)

lemma hex_digits:
  "hex_digit (CHR ''2'') = Some 2" "hex_digit (CHR ''8'') = Some 8" "hex_digit (CHR ''9'') = Some 9"
  "hex_digit (CHR ''a'') = Some 10" "hex_digit (CHR ''c'') = Some 12" "hex_digit (CHR ''5'') = Some 5"
  "hex_digit (CHR ''0'') = Some 0"
  by (simp_all add: hex_digit_def ascii_digit_def code_def)

lemma assertion_value_escape: "assertion_value (escape_filter_value v) = Some v"
proof (induction v)
  case (Cons c cs)
  consider "c = CHR ''*''" | "c = CHR ''(''" | "c = CHR '')''" | "c = CHR 0x5C" | "c = CHR 0x00"
    | "c \<notin> {CHR ''*'', CHR ''('', CHR '')'', CHR 0x5C, CHR 0x00}" by blast
  then show ?case
  proof cases
    case 6
    then show ?thesis using Cons by simp
  qed (simp_all del: assertion_value.simps add: Cons read_escape hex_digits char_of_def bit_Suc_0_iff)
qed simp

text \<open>C38: user input cannot change an LDAP filter. The escaped text of any value is read by the
  filter grammar as exactly that value, literally: no star, parenthesis or NUL of the value is
  left outside an escape, and different values have different escaped texts.\<close>

theorem escaped_value_is_literal:
  "assertion_value (escape_filter_value v) = Some v
   \<and> set (escape_filter_value v) \<inter> {CHR ''*'', CHR ''('', CHR '')'', CHR 0x00} = {}
   \<and> (escape_filter_value v = escape_filter_value w \<longleftrightarrow> v = w)"
proof (intro conjI)
  show "assertion_value (escape_filter_value v) = Some v" by (rule assertion_value_escape)
  show "set (escape_filter_value v) \<inter> {CHR ''*'', CHR ''('', CHR '')'', CHR 0x00} = {}"
    by (induction v) auto
  show "escape_filter_value v = escape_filter_value w \<longleftrightarrow> v = w"
    using assertion_value_escape by (metis option.inject)
qed

end
