(* ===== verification/Path_Inputs.thy ===== *)
theory Path_Inputs
  imports Net_Inputs
begin

text \<open>
  The validators and conversions of paths (\<open>validation/src/path.rs\<close>) and \<open>NormalizedPath\<close>:
  local and UNC paths, the long-path forms, and the SMB context of an audit, which decides
  whose share permissions and local groups are read. The last sections show what an accepted
  path looks like, that accepting is stable, that the long-path form loses nothing, and that
  the server of the context is the server whose local groups are read.
\<close>

section \<open>Segments\<close>

definition MAX_PATH_LEN :: nat where "MAX_PATH_LEN = 32767"

definition FORBIDDEN_PATH_CHARS :: "char list" where
  "FORBIDDEN_PATH_CHARS = [CHR ''<'', CHR ''>'', CHR 0x22, CHR ''|'', CHR ''?'', CHR ''*'']"

definition RESERVED_DEVICE_NAMES :: "string list" where
  "RESERVED_DEVICE_NAMES =
     [''CON'', ''PRN'', ''AUX'', ''NUL'', ''COM0'', ''COM1'', ''COM2'', ''COM3'', ''COM4'', ''COM5'',
      ''COM6'', ''COM7'', ''COM8'', ''COM9'', ''LPT0'', ''LPT1'', ''LPT2'', ''LPT3'', ''LPT4'',
      ''LPT5'', ''LPT6'', ''LPT7'', ''LPT8'', ''LPT9'']"

definition contains_null :: "string \<Rightarrow> bool" where
  "contains_null s \<longleftrightarrow> CHR 0x00 \<in> set s"

type_synonym ValidatedUncPath = string
type_synonym ValidatedLocalPath = string

definition check_path_segment :: "string \<Rightarrow> string \<Rightarrow> CoreError + unit" where
  "check_path_segment segment full_path =
     (if segment = [] then invalid (''Path contains an empty segment (consecutive separators): '' @ full_path)
      else case first_control segment of
          Some c \<Rightarrow> invalid (''Path segment '' @ squote @ segment @ squote @ '' contains a control character (U+''
       @ hex4 c @ ''): '' @ full_path)
        | None \<Rightarrow>
      (case first_char_with (\<lambda>c. c \<in> set FORBIDDEN_PATH_CHARS) segment of
          Some bad \<Rightarrow> invalid (''Path segment '' @ squote @ segment @ squote @ '' contains a forbidden character ''
       @ squote @ bad @ squote @ '': '' @ full_path)
        | None \<Rightarrow>
      (if CHR '':'' \<in> set segment then
         invalid (''Path segment '' @ squote @ segment @ squote @ '' must not contain '' @ squote @ '':''
       @ squote @ '' (drive separator): '' @ full_path)
       else (let stem = hd (split_on (CHR ''.'') segment)
             in if list_ex (\<lambda>r. eq_ignore_ascii_case r stem) RESERVED_DEVICE_NAMES then
                  invalid (''Path segment '' @ squote @ segment @ squote @ '' uses the reserved Windows device name ''
       @ squote @ stem @ squote @ '': '' @ full_path)
                else Inr ()))))"

fun segments_loop :: "string list \<Rightarrow> string \<Rightarrow> CoreError + unit" where
  \<comment> \<open>The loop over the segments; an empty last one is a trailing backslash.\<close>
  "segments_loop [] full_path = Inr ()"
| "segments_loop [segment] full_path =
     (if segment = [] then Inr () else check_path_segment segment full_path)"
| "segments_loop (segment # s # ss) full_path =
     and_then (check_path_segment segment full_path) (\<lambda>_. segments_loop (s # ss) full_path)"

definition check_path_segments :: "string \<Rightarrow> string \<Rightarrow> CoreError + unit" where
  "check_path_segments rest full_path = segments_loop (split_on (CHR 0x5C) rest) full_path"

section \<open>UNC paths, local paths\<close>

definition backslash :: "char \<Rightarrow> bool" where
  "backslash c \<longleftrightarrow> c = CHR 0x5C"

definition unc_prefix :: string where
  "unc_prefix = [CHR 0x5C, CHR 0x5C]"

definition nth_part :: "string list \<Rightarrow> nat \<Rightarrow> string" where
  \<comment> \<open>\<open>parts.next().unwrap_or("")\<close>, the part with this index.\<close>
  "nth_part parts i = (if i < length parts then parts ! i else [])"

definition validate_unc_path :: "string \<Rightarrow> CoreError + ValidatedUncPath" where
  "validate_unc_path input =
     (let trimmed = trim input
      in if trimmed = [] then invalid (''UNC path must not be empty'')
         else if contains_null trimmed then invalid (''UNC path must not contain null bytes'')
         else if length trimmed > MAX_PATH_LEN then
           invalid (''UNC path must not exceed '' @ dec MAX_PATH_LEN @ '' characters'')
         else if \<not> starts_with trimmed unc_prefix then
           invalid (''UNC path must start with '' @ squote @ bslash @ bslash @ squote @ '': '' @ trimmed)
         else
           (let parts = splitn3 backslash (drop 2 trimmed);
                server = nth_part parts 0; share = nth_part parts 1; rest = nth_part parts 2
            in if server = [] \<or> share = [] then
                 invalid (''UNC path must contain at least '' @ bslash @ bslash @ ''server'' @ bslash @ ''share: ''
       @ trimmed)
               else
                 and_then (map_err (\<lambda>e. Validation (''UNC server component '' @ squote @ server @ squote @ '' invalid: '' @ error_text e))
                   (validate_smb_server server)) (\<lambda>_.
                 and_then (map_err (\<lambda>e. Validation (''UNC share component '' @ squote @ share @ squote @ '' invalid: '' @ error_text e))
                   (validate_share_name share)) (\<lambda>_.
                 and_then (if rest \<noteq> [] then check_path_segments rest trimmed else Inr ()) (\<lambda>_.
                 Inr trimmed)))))"

definition is_absolute_drive :: "string \<Rightarrow> bool" where
  "is_absolute_drive s \<longleftrightarrow>
     3 \<le> length s \<and> ascii_alphabetic (s ! 0) \<and> starts_with (drop 1 s) [CHR '':'', CHR 0x5C]"

definition validate_local_path :: "string \<Rightarrow> CoreError + ValidatedLocalPath" where
  "validate_local_path input =
     (let trimmed = trim input
      in if trimmed = [] then invalid (''Local path must not be empty'')
         else if contains_null trimmed then invalid (''Local path must not contain null bytes'')
         else if length trimmed > MAX_PATH_LEN then
           invalid (''Local path must not exceed '' @ dec MAX_PATH_LEN @ '' characters'')
         else if \<not> is_absolute_drive trimmed then
           invalid (''Local path must be an absolute Windows path (e.g. C:'' @ bslash @ ''folder): '' @ trimmed)
         else
           (let rest = drop 3 trimmed
            in and_then (if rest \<noteq> [] then check_path_segments rest trimmed else Inr ()) (\<lambda>_.
               Inr trimmed)))"

definition long_prefix :: string where
  \<comment> \<open>Backslash, backslash, question mark, backslash.\<close>
  "long_prefix = [CHR 0x5C, CHR 0x5C, CHR ''?'', CHR 0x5C]"

definition long_unc_prefix :: string where
  "long_unc_prefix = long_prefix @ ''UNC'' @ [CHR 0x5C]"

definition validate_path :: "string \<Rightarrow> CoreError + NormalizedPath" where
  "validate_path input =
     (let trimmed = trim input
      in case strip_prefix long_unc_prefix trimmed of
           Some rest \<Rightarrow> validate_unc_path (unc_prefix @ rest)
         | None \<Rightarrow>
           (case strip_prefix long_prefix trimmed of
              Some rest \<Rightarrow> validate_local_path rest
            | None \<Rightarrow>
              if starts_with trimmed unc_prefix then validate_unc_path trimmed
              else validate_local_path trimmed))"

section \<open>NormalizedPath\<close>

definition normalized_path_try_new :: "string \<Rightarrow> CoreError + NormalizedPath" where
  \<comment> \<open>\<open>NormalizedPath::try_new\<close>; NUL is a control character.\<close>
  "normalized_path_try_new input =
     (let trimmed = trim input
      in if trimmed = [] then invalid (''Path must not be empty'')
         else case first_control trimmed of
             Some bad \<Rightarrow> invalid (''Path contains an invalid control character (U+'' @ hex4 bad @ '')'')
           | None \<Rightarrow> Inr trimmed)"

section \<open>The SMB context of a path\<close>

definition separator :: "char \<Rightarrow> bool" where
  "separator c \<longleftrightarrow> c = CHR 0x5C \<or> c = CHR ''/''"

definition unc_components :: "string \<Rightarrow> (string \<times> string) option" where
  \<comment> \<open>The part of \<open>parse_unc_components\<close> after the long-path forms.\<close>
  "unc_components normalized =
     (case normalized of
        a # b # _ \<Rightarrow>
          (if separator a \<and> separator b then
             (let parts = splitn3 separator (trim_start_matches separator normalized);
                  server = nth_part parts 0; share = nth_part parts 1
              in if server = [] \<or> share = [] then None else Some (server, share))
           else None)
      | _ \<Rightarrow> None)"

definition parse_unc_components :: "string \<Rightarrow> (string \<times> string) option" where
  "parse_unc_components path =
     (case strip_prefix long_unc_prefix path of
        Some rest \<Rightarrow> unc_components (unc_prefix @ rest)
      | None \<Rightarrow>
          if starts_with path long_prefix \<or> starts_with path ''//?/'' then None
          else unc_components path)"

definition explicit :: "string option \<Rightarrow> string option" where
  \<comment> \<open>\<open>filter(|s| !s.is_empty())\<close>.\<close>
  "explicit s = (case s of None \<Rightarrow> None | Some t \<Rightarrow> if t = [] then None else Some t)"

definition effective_smb_target :: "string \<Rightarrow> string option \<Rightarrow> string option" where
  "effective_smb_target path explicit_smb_server =
     (case explicit explicit_smb_server of
        Some server \<Rightarrow> Some server
      | None \<Rightarrow> map_option fst (parse_unc_components path))"

record SmbAuditContext =
  smb_server :: string
  smb_share :: string

definition smb_resolve :: "string \<Rightarrow> string option \<Rightarrow> string option \<Rightarrow> SmbAuditContext option" where
  \<comment> \<open>\<open>SmbAuditContext::resolve\<close>.\<close>
  "smb_resolve path explicit_smb_server explicit_share_name =
     (let unc = parse_unc_components path;
          server = (case explicit explicit_smb_server of Some s \<Rightarrow> Some s | None \<Rightarrow> map_option fst unc);
          share = (case explicit explicit_share_name of Some s \<Rightarrow> Some s | None \<Rightarrow> map_option snd unc)
      in case (server, share) of
           (Some sv, Some sh) \<Rightarrow> Some \<lparr>smb_server = sv, smb_share = sh\<rparr>
         | _ \<Rightarrow> None)"

section \<open>Long-path forms\<close>

definition strip_long_path_prefix :: "string \<Rightarrow> string" where
  "strip_long_path_prefix path =
     (if (case prefix_upto 8 path of None \<Rightarrow> False | Some p \<Rightarrow> eq_ignore_ascii_case p long_unc_prefix)
      then unc_prefix @ drop 8 path
      else case strip_prefix long_prefix path of Some rest \<Rightarrow> rest | None \<Rightarrow> path)"

definition to_windows_api_path :: "string \<Rightarrow> string" where
  "to_windows_api_path path =
     (if starts_with path long_prefix then path
      else case strip_prefix unc_prefix path of
          Some rest \<Rightarrow> long_unc_prefix @ rest
        | None \<Rightarrow> if is_absolute_drive path then long_prefix @ path else path)"

section \<open>What an accepted path looks like\<close>

definition good_segment :: "string \<Rightarrow> bool" where
  "good_segment s \<longleftrightarrow> s \<noteq> [] \<and> \<not> control_in s \<and> set s \<inter> set FORBIDDEN_PATH_CHARS = {} \<and> CHR '':'' \<notin> set s
     \<and> (\<forall>r \<in> set RESERVED_DEVICE_NAMES. \<not> eq_ignore_ascii_case r (hd (split_on (CHR ''.'') s)))"

definition good_segments :: "string list \<Rightarrow> bool" where
  \<comment> \<open>Every segment is good, except that the last may be empty (a trailing backslash).\<close>
  "good_segments ss \<longleftrightarrow> list_all good_segment (butlast ss) \<and> (last ss = [] \<or> good_segment (last ss))"

definition local_path_spec :: "string \<Rightarrow> bool" where
  "local_path_spec p \<longleftrightarrow> is_absolute_drive p \<and> length p \<le> MAX_PATH_LEN \<and> CHR 0x00 \<notin> set p
     \<and> good_segments (split_on (CHR 0x5C) (drop 3 p))"

lemma check_path_segment_ok: "check_path_segment s full = Inr () \<longleftrightarrow> good_segment s"
  unfolding check_path_segment_def good_segment_def Let_def list_ex_iff invalid_def
  by (auto simp del: split_paired_Ex)

lemma good_segments_Nil [simp]: "good_segments [[]]"
  by (simp add: good_segments_def)

lemma segments_loop_ok: "ss \<noteq> [] \<Longrightarrow> segments_loop ss full = Inr () \<longleftrightarrow> good_segments ss"
proof (induction ss full rule: segments_loop.induct)
  case (2 s full)
  then show ?case by (simp add: good_segments_def check_path_segment_ok)
next
  case (3 s t ss full)
  have "segments_loop (s # t # ss) full = Inr () \<longleftrightarrow>
      check_path_segment s full = Inr () \<and> segments_loop (t # ss) full = Inr ()"
    by (cases "check_path_segment s full") auto
  also have "\<dots> \<longleftrightarrow> good_segment s \<and> good_segments (t # ss)"
    using 3 check_path_segment_ok [of s full] by (cases "check_path_segment s full") auto
  also have "\<dots> \<longleftrightarrow> good_segments (s # t # ss)"
    by (auto simp: good_segments_def)
  finally show ?case .
qed simp

lemma check_path_segments_ok:
  "check_path_segments rest full = Inr () \<longleftrightarrow> good_segments (split_on (CHR 0x5C) rest)"
  by (simp add: check_path_segments_def segments_loop_ok)

lemma is_absolute_drive_iff: "is_absolute_drive s \<longleftrightarrow>
    (\<exists>d rest. s = d # CHR '':'' # CHR 0x5C # rest \<and> ascii_alphabetic d)"
proof
  assume "is_absolute_drive s"
  moreover obtain d s1 where "s = d # s1"
    using calculation by (cases s) (auto simp: is_absolute_drive_def)
  ultimately show "\<exists>d rest. s = d # CHR '':'' # CHR 0x5C # rest \<and> ascii_alphabetic d"
    by (auto simp: is_absolute_drive_def starts_with_iff)
qed (auto simp: is_absolute_drive_def)

lemma rest_ok: "(if rest \<noteq> [] then check_path_segments rest full else Inr ()) = Inr () \<longleftrightarrow>
    good_segments (split_on (CHR 0x5C) rest)"
  by (simp add: check_path_segments_ok)

lemma unit_then: "and_then r (\<lambda>_. Inr x) = Inr y \<longleftrightarrow> r = Inr () \<and> x = y"
  by (cases r) auto

lemma validate_local_path_ok: "validate_local_path input = Inr p \<longleftrightarrow> p = trim input \<and> local_path_spec p"
proof (cases "is_absolute_drive (trim input)")
  case True
  then have "trim input \<noteq> []" by (auto simp: is_absolute_drive_iff)
  with True show ?thesis
    by (auto simp: validate_local_path_def local_path_spec_def Let_def invalid_def contains_null_def
        unit_then check_path_segments_ok)
next
  case False
  then show ?thesis
    by (auto simp: validate_local_path_def local_path_spec_def Let_def invalid_def)
qed

definition unc_parts :: "string \<Rightarrow> string \<times> string \<times> string" where
  "unc_parts p = (let parts = splitn3 backslash (drop 2 p) in (nth_part parts 0, nth_part parts 1, nth_part parts 2))"

definition host_spec :: "string \<Rightarrow> bool" where
  "host_spec s \<longleftrightarrow> s \<noteq> [] \<and> length s \<le> MAX_HOST_LEN \<and> \<not> control_in s \<and> (\<forall>c \<in> set s. host_char c)"

definition share_spec :: "string \<Rightarrow> bool" where
  "share_spec s \<longleftrightarrow> s \<noteq> [] \<and> length s \<le> MAX_SHARE_LEN \<and> \<not> control_in s
     \<and> set s \<inter> set FORBIDDEN_SHARE_CHARS = {}"

definition unc_path_spec :: "string \<Rightarrow> bool" where
  \<comment> \<open>What the validator tolerates: white space may surround the server and the share.\<close>
  "unc_path_spec p \<longleftrightarrow> starts_with p unc_prefix \<and> length p \<le> MAX_PATH_LEN \<and> CHR 0x00 \<notin> set p
     \<and> (let (server, share, rest) = unc_parts p
        in host_spec (trim server) \<and> share_spec (trim share) \<and> good_segments (split_on (CHR 0x5C) rest))"

lemma host_char_code: "host_char c \<Longrightarrow> c \<noteq> CHR 0x5C \<and> c \<noteq> CHR ''/'' \<and> c \<noteq> CHR '':'' \<and> c \<noteq> CHR ''?''"
  by (auto simp: host_char_def ascii_alphanumeric_def ascii_alphabetic_def ascii_upper_def ascii_lower_def
      ascii_digit_def code_def)

lemma check_hostname_ok: "check_hostname s what = Inr () \<longleftrightarrow> host_spec s"
  unfolding check_hostname_def host_spec_def invalid_def by (auto dest: host_char_code)

lemma validate_smb_server_ok: "validate_smb_server input = Inr s \<longleftrightarrow> s = trim input \<and> host_spec s"
  by (auto simp: validate_smb_server_def Let_def unit_then check_hostname_ok)

lemma validate_share_name_ok: "validate_share_name input = Inr s \<longleftrightarrow> s = trim input \<and> share_spec s"
  unfolding validate_share_name_def share_spec_def invalid_def Let_def by auto

lemma validate_unc_path_ok: "validate_unc_path input = Inr p \<longleftrightarrow> p = trim input \<and> unc_path_spec p"
proof -
  obtain server share rest where parts: "unc_parts (trim input) = (server, share, rest)"
    by (cases "unc_parts (trim input)")
  then have p: "nth_part (splitn3 backslash (drop 2 (trim input))) 0 = server"
      "nth_part (splitn3 backslash (drop 2 (trim input))) 1 = share"
      "nth_part (splitn3 backslash (drop 2 (trim input))) 2 = rest"
    by (simp_all add: unc_parts_def Let_def)
  have empty: "\<not> host_spec (trim [])" "\<not> share_spec (trim [])"
    by (simp_all add: host_spec_def share_spec_def trim_def trim_start_def trim_end_def)
  have "validate_unc_path input = Inr p \<longleftrightarrow> p = trim input \<and> trim input \<noteq> [] \<and> CHR 0x00 \<notin> set (trim input)
      \<and> length (trim input) \<le> MAX_PATH_LEN \<and> starts_with (trim input) unc_prefix \<and> server \<noteq> [] \<and> share \<noteq> []
      \<and> is_ok (validate_smb_server server) \<and> is_ok (validate_share_name share)
      \<and> good_segments (split_on (CHR 0x5C) rest)"
    unfolding validate_unc_path_def Let_def p invalid_def contains_null_def
    by (auto simp: and_then_Inr is_ok_iff rest_ok split del: if_split split: if_split_asm)
  then show ?thesis
    using empty by (auto simp: unc_path_spec_def parts is_ok_iff validate_smb_server_ok validate_share_name_ok
        unc_prefix_def)
qed

section \<open>Accepting is stable, and the long form loses nothing\<close>

lemma trim_question: "trim ''?'' = ''?''"
  by (simp add: trim_def trim_start_def trim_end_def white_space_def starts_with_def)

lemma unc_not_long: "unc_path_spec p \<Longrightarrow> \<not> starts_with p long_prefix"
proof
  assume unc: "unc_path_spec p" and "starts_with p long_prefix"
  then obtain r where "p = long_prefix @ r" by (auto simp: starts_with_iff)
  then have "fst (unc_parts p) = ''?''"
    by (simp add: unc_parts_def Let_def long_prefix_def splitn3_def backslash_def until_def nth_part_def
        split: list.split)
  then have "host_spec ''?''"
    using unc by (auto simp: unc_path_spec_def trim_question split: prod.splits)
  then show False
    using host_char_code [of "CHR ''?''"] by (simp add: host_spec_def)
qed

lemma long_unc_is_long: "starts_with p long_unc_prefix \<Longrightarrow> starts_with p long_prefix"
  by (auto simp: starts_with_iff long_unc_prefix_def)

lemma local_starts:
  assumes "local_path_spec p"
  shows "\<not> starts_with p unc_prefix" "\<not> starts_with p long_prefix"
proof -
  obtain d rest where "p = d # CHR '':'' # CHR 0x5C # rest" "ascii_alphabetic d"
    using assms by (auto simp: local_path_spec_def is_absolute_drive_iff)
  moreover have "\<not> ascii_alphabetic (CHR 0x5C)"
    by (simp add: ascii_alphabetic_def ascii_upper_def ascii_lower_def code_def)
  ultimately show "\<not> starts_with p unc_prefix" "\<not> starts_with p long_prefix"
    by (auto simp: unc_prefix_def long_prefix_def)
qed

lemma validate_path_ok:
  assumes "validate_path input = Inr p"
  shows "trim p = p" "local_path_spec p \<or> unc_path_spec p"
proof -
  have "(\<exists>s. validate_local_path s = Inr p) \<or> (\<exists>s. validate_unc_path s = Inr p)"
    using assms by (auto simp: validate_path_def Let_def split: option.splits if_splits)
  then show "trim p = p" "local_path_spec p \<or> unc_path_spec p"
    by (auto simp: validate_local_path_ok validate_unc_path_ok)
qed

lemma validate_path_again:
  assumes "trim p = p" and "local_path_spec p \<or> unc_path_spec p"
  shows "validate_path p = Inr p"
  using assms(2)
proof
  assume l: "local_path_spec p"
  then have "\<not> starts_with p long_unc_prefix" using local_starts(2) long_unc_is_long by blast
  then show ?thesis
    using l local_starts [OF l] assms(1) validate_local_path_ok [of p p]
    by (simp add: validate_path_def strip_prefix_def)
next
  assume u: "unc_path_spec p"
  then have "\<not> starts_with p long_unc_prefix" using unc_not_long long_unc_is_long by blast
  moreover have "starts_with p unc_prefix" using u by (simp add: unc_path_spec_def)
  ultimately show ?thesis
    using u unc_not_long [OF u] assms(1) validate_unc_path_ok [of p p]
    by (simp add: validate_path_def strip_prefix_def)
qed

lemma splitn3_first: "nth_part (splitn3 p s) 0 = until p s"
proof (cases "dropWhile (\<lambda>c. \<not> p c) s")
  case Nil
  then have "until p s = s" by (auto intro: until_all)
  then show ?thesis unfolding splitn3_def Nil by (simp add: nth_part_def)
next
  case (Cons c cs)
  then show ?thesis by (simp add: splitn3_def nth_part_def split: list.split)
qed

lemma unc_first_server:
  assumes "unc_path_spec p"
  obtains c rest where "p = unc_prefix @ c # rest" "\<not> continuation c" "\<not> separator c" "c \<noteq> CHR ''?''"
proof -
  obtain r where p: "p = unc_prefix @ r" using assms by (auto simp: unc_path_spec_def starts_with_iff)
  obtain server share rest where parts: "unc_parts p = (server, share, rest)" by (cases "unc_parts p")
  then have host: "host_spec (trim server)" using assms by (simp add: unc_path_spec_def)
  have server: "server = until backslash r"
    using parts p by (auto simp: unc_parts_def Let_def unc_prefix_def splitn3_first)
  have "server \<noteq> []" using host by (auto simp: host_spec_def trim_def trim_start_def trim_end_def)
  then obtain c s where "server = c # s" by (cases server) auto
  then obtain r' where r: "r = c # r'" using server by (cases r) (auto simp: until_def split: if_splits)
  have "trim server \<noteq> []" using host by (simp add: host_spec_def)
  from trim_head [OF this] consider "c = hd (trim server)" | w where "w \<in> set white_space" "c = hd w"
    using \<open>server = c # s\<close> by auto
  then have "\<not> continuation c \<and> \<not> separator c \<and> c \<noteq> CHR ''?''"
  proof cases
    case 1
    then have "host_char c" using host by (auto simp: host_spec_def)
    then show ?thesis
      using host_char_code [of c] by (auto simp: separator_def continuation_def host_char_def
          ascii_alphanumeric_def ascii_alphabetic_def ascii_upper_def ascii_lower_def ascii_digit_def code_def)
  next
    case 2
    then show ?thesis by (auto simp: white_space_def continuation_def separator_def code_def)
  qed
  then show ?thesis using that p r by blast
qed

lemma long_form_local:
  assumes "local_path_spec p"
  shows "strip_long_path_prefix (to_windows_api_path p) = p" "strip_long_path_prefix p = p"
proof -
  obtain d rest where p: "p = d # CHR '':'' # CHR 0x5C # rest" and d: "ascii_alphabetic d"
    using assms by (auto simp: local_path_spec_def is_absolute_drive_iff)
  have drive: "is_absolute_drive p" using assms by (simp add: local_path_spec_def)
  have "d \<noteq> CHR 0x5C" "lower d \<noteq> CHR 0x5C"
    using d by (auto simp: ascii_alphabetic_def ascii_upper_def ascii_lower_def code_def lower_def
        char_of_eq_iff take_bit_eq_mod)
  then show "strip_long_path_prefix p = p"
    using p by (auto simp: strip_long_path_prefix_def prefix_upto_def eq_ignore_ascii_case_def
        to_ascii_lowercase_def long_unc_prefix_def long_prefix_def strip_prefix_def)
  have "to_windows_api_path p = long_prefix @ p"
    using local_starts [OF assms] drive by (simp add: to_windows_api_path_def strip_prefix_def)
  moreover have "lower (CHR ''N'') = CHR ''n''" by (simp add: lower_def ascii_upper_def code_def char_of_eq_iff)
  ultimately show "strip_long_path_prefix (to_windows_api_path p) = p"
    using p by (auto simp: strip_long_path_prefix_def prefix_upto_def eq_ignore_ascii_case_def
        to_ascii_lowercase_def long_unc_prefix_def long_prefix_def strip_prefix_def)
qed

lemma strip_long_unc:
  assumes "\<not> continuation c" and "c \<noteq> CHR ''?''"
  shows "strip_long_path_prefix (long_unc_prefix @ c # s) = unc_prefix @ c # s"
    "strip_long_path_prefix (unc_prefix @ c # s) = unc_prefix @ c # s"
proof -
  have len: "length long_unc_prefix = 8" by (simp add: long_unc_prefix_def long_prefix_def)
  then have "prefix_upto 8 (long_unc_prefix @ c # s) = Some long_unc_prefix"
    using assms(1) by (simp add: prefix_upto_def char_boundary_def nth_append)
  then show "strip_long_path_prefix (long_unc_prefix @ c # s) = unc_prefix @ c # s"
    using len by (simp add: strip_long_path_prefix_def eq_ignore_ascii_case_def)
  have "lower c \<noteq> CHR ''?''" using assms(2) lower_eqD [of c "CHR ''?''"] by (auto simp: ascii_lower_def code_def)
  then have "\<not> eq_ignore_ascii_case q long_unc_prefix" if "prefix_upto 8 (unc_prefix @ c # s) = Some q" for q
    using that by (auto simp: prefix_upto_def eq_ignore_ascii_case_def to_ascii_lowercase_def long_unc_prefix_def
        long_prefix_def unc_prefix_def lower_def ascii_upper_def code_def numeral_eq_Suc split: if_splits)
  then show "strip_long_path_prefix (unc_prefix @ c # s) = unc_prefix @ c # s"
    using assms(2) by (auto simp: strip_long_path_prefix_def strip_prefix_def long_prefix_def unc_prefix_def split: option.split)
qed

lemma long_form_unc:
  assumes "unc_path_spec p"
  shows "strip_long_path_prefix (to_windows_api_path p) = p" "strip_long_path_prefix p = p"
proof -
  obtain c rest where p: "p = unc_prefix @ c # rest" and c: "\<not> continuation c" "c \<noteq> CHR ''?''"
    using unc_first_server [OF assms] by blast
  have "to_windows_api_path p = long_unc_prefix @ c # rest"
    using unc_not_long [OF assms] by (simp add: to_windows_api_path_def strip_prefix_def p)
  then show "strip_long_path_prefix (to_windows_api_path p) = p" "strip_long_path_prefix p = p"
    using strip_long_unc [OF c] by (simp_all add: p)
qed

section \<open>Who is asked\<close>

lemma splitn3_parts:
  assumes "\<forall>c \<in> set a. \<not> p c" and "\<forall>c \<in> set b. \<not> p c" and "p x" and "p y"
  shows "splitn3 p (a @ x # b) = [a, b]" "splitn3 p (a @ x # b @ y # r) = [a, b, r]"
  using assms by (simp_all add: splitn3_def until_def dropWhile_append takeWhile_append dropWhile_none)

lemma splitn3_cases:
  obtains "splitn3 p s = [s]" "\<forall>c \<in> set s. \<not> p c"
  | a x b where "splitn3 p s = [a, b]" "s = a @ x # b" "p x" "\<forall>c \<in> set a \<union> set b. \<not> p c"
  | a x b y r where "splitn3 p s = [a, b, r]" "s = a @ x # b @ y # r" "p x" "p y" "\<forall>c \<in> set a \<union> set b. \<not> p c"
proof (cases "\<forall>c \<in> set s. \<not> p c")
  case True
  then show ?thesis using that(1) by (simp add: splitn3_def dropWhile_none)
next
  case False
  then obtain a x t where s: "s = a @ x # t" "p x" "\<forall>c \<in> set a. \<not> p c"
    using split_list_first_prop by metis
  show ?thesis
  proof (cases "\<forall>c \<in> set t. \<not> p c")
    case True
    then show ?thesis
      using s splitn3_parts(1) [of a p t x x] by (intro that(2) [of a t x]) auto
  next
    case False
    then obtain b y r where "t = b @ y # r" "p y" "\<forall>c \<in> set b. \<not> p c"
      using split_list_first_prop by metis
    then show ?thesis
      using s splitn3_parts(2) [of a p b x y r] by (intro that(3) [of a b r x y]) auto
  qed
qed

lemma plain_component:
  assumes "\<forall>c \<in> set (trim s). c \<noteq> CHR ''/''" and "\<forall>c \<in> set s. \<not> backslash c"
  shows "\<forall>c \<in> set s. \<not> separator c"
proof
  fix c assume c: "c \<in> set s"
  have "c \<noteq> CHR ''/''"
  proof
    assume "c = CHR ''/''"
    then have "CHR ''/'' \<in> blank_bytes" using c assms(1) trim_chars [of s] by (auto simp: blank_bytes_def)
    then show False using blank_bytes_code [of "CHR ''/''"] by (simp add: code_def)
  qed
  then show "\<not> separator c" using assms(2) c by (auto simp: separator_def backslash_def)
qed

lemma share_spec_no_slash: "share_spec s \<Longrightarrow> \<forall>c \<in> set s. c \<noteq> CHR ''/''"
  by (auto simp: share_spec_def FORBIDDEN_SHARE_CHARS_def)

lemma host_spec_no_slash: "host_spec s \<Longrightarrow> \<forall>c \<in> set s. c \<noteq> CHR ''/''"
  by (auto simp: host_spec_def dest: host_char_code)

lemma accepted_unc_components:
  assumes "unc_path_spec p"
  shows "parse_unc_components p = Some (fst (unc_parts p), fst (snd (unc_parts p)))"
proof -
  obtain server share rest where parts: "unc_parts p = (server, share, rest)" by (cases "unc_parts p")
  have spec: "host_spec (trim server)" "share_spec (trim share)"
    using assms parts by (simp_all add: unc_path_spec_def)
  have ne: "server \<noteq> []" "share \<noteq> []"
    using spec by (auto simp: host_spec_def share_spec_def trim_def trim_start_def trim_end_def)
  obtain c r where p: "p = unc_prefix @ c # r" and c: "\<not> separator c" using unc_first_server [OF assms] by blast
  let ?t = "c # r"
  have t: "unc_parts p = (nth_part (splitn3 backslash ?t) 0, nth_part (splitn3 backslash ?t) 1, nth_part (splitn3 backslash ?t) 2)"
    by (simp add: unc_parts_def Let_def p unc_prefix_def)
  have seps: "separator x" if "backslash x" for x using that by (simp add: separator_def backslash_def)
  have "\<exists>tl. splitn3 separator ?t = server # share # tl"
  proof (cases rule: splitn3_cases [of backslash ?t])
    case 1
    then show ?thesis using parts t ne by (simp add: nth_part_def)
  next
    case (2 a x b)
    then have "server = a" "share = b" using parts t by (simp_all add: nth_part_def)
    moreover have "\<forall>c \<in> set a \<union> set b. \<not> separator c"
      using plain_component [of a] plain_component [of b] spec 2(4) \<open>server = a\<close> \<open>share = b\<close>
      by (auto dest: share_spec_no_slash host_spec_no_slash)
    ultimately show ?thesis
      using splitn3_parts(1) [of a separator b x x] 2(2) seps [OF 2(3)] by simp
  next
    case (3 a x b y r')
    then have "server = a" "share = b" using parts t by (simp_all add: nth_part_def)
    moreover have "\<forall>c \<in> set a \<union> set b. \<not> separator c"
      using plain_component [of a] plain_component [of b] spec 3(5) \<open>server = a\<close> \<open>share = b\<close>
      by (auto dest: share_spec_no_slash host_spec_no_slash)
    ultimately show ?thesis
      using splitn3_parts(2) [of a separator b x y r'] 3(2) seps [OF 3(3)] seps [OF 3(4)] by simp
  qed
  then obtain tl where "splitn3 separator ?t = server # share # tl" by blast
  moreover have "trim_start_matches separator p = ?t"
    using c by (simp add: trim_start_matches_def p unc_prefix_def separator_def)
  moreover have "separator (CHR 0x5C)" by (simp add: separator_def)
  ultimately have "unc_components p = Some (server, share)"
    using ne by (simp add: unc_components_def p unc_prefix_def Let_def nth_part_def)
  moreover have "\<not> starts_with p long_unc_prefix" "\<not> starts_with p long_prefix"
    using unc_not_long [OF assms] long_unc_is_long by blast+
  moreover have "\<not> starts_with p ''//?/''" by (simp add: p unc_prefix_def)
  ultimately show ?thesis by (simp add: parse_unc_components_def strip_prefix_def parts)
qed

lemma accepted_local_components:
  assumes "local_path_spec p"
  shows "parse_unc_components p = None"
proof -
  obtain d rest where p: "p = d # CHR '':'' # CHR 0x5C # rest" "ascii_alphabetic d"
    using assms by (auto simp: local_path_spec_def is_absolute_drive_iff)
  have "\<not> separator (CHR '':'')" by (simp add: separator_def)
  then show ?thesis
    using p local_starts [OF assms] long_unc_is_long [of p]
    by (auto simp: parse_unc_components_def strip_prefix_def unc_components_def)
qed

section \<open>Well-formed UNC paths\<close>

definition well_formed_unc :: "string \<Rightarrow> bool" where
  \<comment> \<open>Two backslashes, a host name, a backslash, a share name, and below them good segments; no white
    space around the names and no control character anywhere.\<close>
  "well_formed_unc p \<longleftrightarrow> length p \<le> MAX_PATH_LEN \<and> \<not> control_in p
     \<and> (\<exists>server share below. p = unc_prefix @ server @ CHR 0x5C # share @ below
          \<and> host_spec server \<and> share_spec share \<and> trim server = server \<and> trim share = share
          \<and> (below = [] \<or> (\<exists>rest. below = CHR 0x5C # rest \<and> good_segments (split_on (CHR 0x5C) rest))))"

definition unpadded :: "string \<Rightarrow> bool" where
  \<comment> \<open>No white space around the server or the share of a UNC path.\<close>
  "unpadded p = (let (server, share, _) = unc_parts p in trim server = server \<and> trim share = share)"

lemma control_in_split: "control_in (a @ CHR 0x5C # b) \<longleftrightarrow> control_in a \<or> control_in b"
  by (induction a) (auto simp: Let_def neq_Nil_conv split: list.splits)

lemma control_in_segments: "control_in s \<longleftrightarrow> list_ex control_in (split_on (CHR 0x5C) s)"
proof -
  have "control_in (join [CHR 0x5C] ws) \<longleftrightarrow> list_ex control_in ws" for ws
    by (induction "[CHR 0x5C]" ws rule: join.induct) (simp_all add: control_in_split del: control_in.simps(2))
  from this [of "split_on (CHR 0x5C) s"] show ?thesis by (simp add: join_split_on)
qed

lemma control_in_NUL: "CHR 0x00 \<in> set s \<Longrightarrow> control_in s"
  by (induction s) (auto simp: Let_def)

lemma good_segments_no_control:
  assumes "good_segments (split_on (CHR 0x5C) rest)"
  shows "\<not> control_in rest"
proof -
  have "\<not> list_ex control_in (butlast ss @ [last ss])" if "good_segments ss" for ss
    using that by (auto simp: good_segments_def list_all_iff list_ex_iff good_segment_def)
  from this [OF assms] have "\<not> list_ex control_in (split_on (CHR 0x5C) rest)" by simp
  then show ?thesis using control_in_segments [of rest] by blast
qed

lemma names_no_backslash:
  "host_spec s \<Longrightarrow> \<forall>c \<in> set s. \<not> backslash c" "share_spec s \<Longrightarrow> \<forall>c \<in> set s. \<not> backslash c"
  by (auto simp: host_spec_def share_spec_def backslash_def FORBIDDEN_SHARE_CHARS_def dest: host_char_code)

lemma unc_parts_of:
  assumes "\<forall>c \<in> set server. \<not> backslash c" and "\<forall>c \<in> set share. \<not> backslash c"
  shows "unc_parts (unc_prefix @ server @ CHR 0x5C # share) = (server, share, [])"
    "unc_parts (unc_prefix @ server @ CHR 0x5C # share @ CHR 0x5C # rest) = (server, share, rest)"
proof -
  have sep: "backslash (CHR 0x5C)" by (simp add: backslash_def)
  show "unc_parts (unc_prefix @ server @ CHR 0x5C # share) = (server, share, [])"
    "unc_parts (unc_prefix @ server @ CHR 0x5C # share @ CHR 0x5C # rest) = (server, share, rest)"
    by (simp_all add: unc_parts_def Let_def unc_prefix_def nth_part_def splitn3_parts [OF assms sep sep])
qed

lemma unc_parts_shape:
  assumes "starts_with p unc_prefix" and "unc_parts p = (server, share, rest)" and "share \<noteq> []"
  shows "p = unc_prefix @ server @ CHR 0x5C # share @ (if rest = [] then [] else CHR 0x5C # rest)
    \<or> (rest = [] \<and> p = unc_prefix @ server @ CHR 0x5C # share @ [CHR 0x5C])"
proof -
  obtain t where p: "p = unc_prefix @ t" using assms(1) by (auto simp: starts_with_iff)
  have parts: "(server, share, rest) =
      (nth_part (splitn3 backslash t) 0, nth_part (splitn3 backslash t) 1, nth_part (splitn3 backslash t) 2)"
    using assms(2) by (simp add: p unc_parts_def Let_def unc_prefix_def)
  show ?thesis
    by (cases rule: splitn3_cases [of backslash t])
      (use parts assms(3) p in \<open>auto simp: nth_part_def backslash_def\<close>)
qed

lemma well_formed_unc_iff: "well_formed_unc p \<longleftrightarrow> unc_path_spec p \<and> unpadded p"
proof
  assume w: "well_formed_unc p"
  then obtain server share below where p: "p = unc_prefix @ server @ CHR 0x5C # share @ below"
      "host_spec server" "share_spec share" "trim server = server" "trim share = share"
      "below = [] \<or> (\<exists>rest. below = CHR 0x5C # rest \<and> good_segments (split_on (CHR 0x5C) rest))"
    by (auto simp: well_formed_unc_def)
  then obtain rest where "unc_parts p = (server, share, rest)" "good_segments (split_on (CHR 0x5C) rest)"
    using unc_parts_of [OF names_no_backslash(1) [OF p(2)] names_no_backslash(2) [OF p(3)]] by auto
  then show "unc_path_spec p \<and> unpadded p"
    using p w control_in_NUL [of p] by (auto simp: unc_path_spec_def unpadded_def well_formed_unc_def)
next
  assume u: "unc_path_spec p \<and> unpadded p"
  obtain server share rest where parts: "unc_parts p = (server, share, rest)" by (cases "unc_parts p")
  have spec: "starts_with p unc_prefix" "length p \<le> MAX_PATH_LEN" "host_spec server" "share_spec share"
      "trim server = server" "trim share = share" "good_segments (split_on (CHR 0x5C) rest)"
    using u by (auto simp: unc_path_spec_def unpadded_def parts)
  have "\<exists>below. p = unc_prefix @ server @ CHR 0x5C # share @ below
      \<and> (below = [] \<or> (\<exists>rest. below = CHR 0x5C # rest \<and> good_segments (split_on (CHR 0x5C) rest)))"
    using unc_parts_shape [OF spec(1) parts] spec(4,7) by (auto simp: share_spec_def split: if_splits)
  then obtain below where p: "p = unc_prefix @ server @ CHR 0x5C # share @ below"
      "below = [] \<or> (\<exists>rest. below = CHR 0x5C # rest \<and> good_segments (split_on (CHR 0x5C) rest))" by blast
  have "\<not> control_in (share @ below)"
    using p(2) spec(4) good_segments_no_control by (auto simp: control_in_split share_spec_def)
  then have "\<not> control_in p"
    using spec(3) control_in_split [of "[]"] by (simp add: p(1) unc_prefix_def control_in_split host_spec_def)
  with spec p show "well_formed_unc p" unfolding well_formed_unc_def by blast
qed

section \<open>Properties\<close>

lemma accepted_components:
  assumes "validate_path input = Inr p"
  shows "parse_unc_components p =
    (if starts_with p unc_prefix then Some (fst (unc_parts p), fst (snd (unc_parts p))) else None)"
  using validate_path_ok(2) [OF assms]
proof
  assume l: "local_path_spec p"
  then show ?thesis using local_starts(1) [OF l] accepted_local_components by simp
next
  assume u: "unc_path_spec p"
  moreover have "starts_with p unc_prefix" using u by (simp add: unc_path_spec_def)
  ultimately show ?thesis using accepted_unc_components by simp
qed

definition sample_local :: string where
  "sample_local = [CHR ''C'', CHR '':'', CHR 0x5C, CHR ''d'']"

definition sample_unc :: string where
  \<comment> \<open>A tab ends the server component.\<close>
  "sample_unc = [CHR 0x5C, CHR 0x5C, CHR ''f'', CHR 0x09, CHR 0x5C, CHR ''d'']"

lemma sample_trims: "trim sample_local = sample_local" "trim sample_unc = sample_unc"
  "trim [CHR ''f'', CHR 0x09] = ''f''" "trim ''d'' = ''d''"
  by (simp_all add: sample_local_def sample_unc_def trim_def trim_start_def trim_end_def white_space_def
      starts_with_def)

lemma sample_local_ok: "validate_path sample_local = Inr sample_local"
proof (rule validate_path_again [OF sample_trims(1)])
  show "local_path_spec sample_local \<or> unc_path_spec sample_local"
    by (simp add: sample_local_def local_path_spec_def is_absolute_drive_def good_segments_def
        good_segment_def ascii_alphabetic_def ascii_upper_def ascii_lower_def code_def MAX_PATH_LEN_def
        FORBIDDEN_PATH_CHARS_def RESERVED_DEVICE_NAMES_def eq_ignore_ascii_case_def to_ascii_lowercase_def)
qed

lemma sample_unc_ok: "validate_path sample_unc = Inr sample_unc"
proof (rule validate_path_again [OF sample_trims(2)])
  show "local_path_spec sample_unc \<or> unc_path_spec sample_unc"
    by (simp add: sample_unc_def unc_path_spec_def unc_prefix_def unc_parts_def splitn3_def until_def
        backslash_def nth_part_def sample_trims MAX_PATH_LEN_def host_spec_def share_spec_def
        MAX_HOST_LEN_def MAX_SHARE_LEN_def FORBIDDEN_SHARE_CHARS_def host_char_def ascii_alphanumeric_def
        ascii_alphabetic_def ascii_upper_def ascii_lower_def code_def)
qed

text \<open>C37: what the path validators accept. A local path is accepted, as its trimmed text, if and only
  if it is drive letter, colon and backslash followed by segments that are not empty (the last may
  be), hold no control or forbidden character and no colon, and whose stem is no device name in any
  case. A UNC path without white space around its server and its share is accepted, as its trimmed
  text, if and only if it is well-formed: two backslashes, a host name, a share name, such segments
  below, and no control character anywhere. Beyond these the validator of UNC paths accepts exactly the
  paths whose server and share are names once white space, tabs and line ends included, is cut off
  them; that it keeps that white space is the defect shown by \<open>unc_component_keeps_control\<close>.
  No accepted path exceeds the length limit or holds NUL.\<close>

theorem validators_exact:
  "(validate_local_path input = Inr p \<longleftrightarrow> p = trim input \<and> local_path_spec p)
   \<and> (validate_unc_path input = Inr p \<and> unpadded p \<longleftrightarrow> p = trim input \<and> well_formed_unc p)
   \<and> (validate_unc_path input = Inr p \<longleftrightarrow> p = trim input \<and> unc_path_spec p)"
  by (auto simp: validate_local_path_ok validate_unc_path_ok well_formed_unc_iff)

text \<open>Accepting a path is stable, and converting an accepted path for the Windows API loses
  nothing. The path \<open>validate_path\<close> returns is accepted again, unchanged; its API form is a fixed
  point of the conversion; and stripping the long-path prefix of the API form, or of the path
  itself, gives the path back.\<close>

theorem accepted_path_is_stable:
  assumes "validate_path input = Inr p"
  shows "validate_path p = Inr p
    \<and> to_windows_api_path (to_windows_api_path p) = to_windows_api_path p
    \<and> strip_long_path_prefix (to_windows_api_path p) = p
    \<and> strip_long_path_prefix p = p"
proof -
  have "to_windows_api_path (to_windows_api_path q) = to_windows_api_path q" for q
    by (auto simp: to_windows_api_path_def strip_prefix_def long_unc_prefix_def starts_with_iff)
  then show ?thesis
    using validate_path_again [OF validate_path_ok [OF assms]] validate_path_ok(2) [OF assms]
      long_form_local long_form_unc by blast
qed

lemma accepted_path_is_stable_witness:
  "validate_path sample_unc = Inr sample_unc \<and> strip_long_path_prefix (to_windows_api_path sample_unc) = sample_unc"
  using accepted_path_is_stable [OF sample_unc_ok] by blast

text \<open>The SMB context is derived from the path the user gave, and never from a drive. For an
  accepted UNC path the context without explicit flags is the server and the share of the path,
  for an accepted local path there is none; and whatever the flags are, the server whose share
  permissions are read is the server whose local groups are read.\<close>

theorem context_of_accepted_path:
  assumes "validate_path input = Inr p"
  shows "smb_resolve p None None = (if starts_with p unc_prefix
      then Some \<lparr>smb_server = fst (unc_parts p), smb_share = fst (snd (unc_parts p))\<rparr> else None)
    \<and> (case smb_resolve path server share of None \<Rightarrow> True
        | Some ctx \<Rightarrow> effective_smb_target path server = Some (smb_server ctx))"
proof
  show "smb_resolve p None None = (if starts_with p unc_prefix
      then Some \<lparr>smb_server = fst (unc_parts p), smb_share = fst (snd (unc_parts p))\<rparr> else None)"
    using accepted_components [OF assms] by (simp add: smb_resolve_def explicit_def)
  show "case smb_resolve path server share of None \<Rightarrow> True
      | Some ctx \<Rightarrow> effective_smb_target path server = Some (smb_server ctx)"
    by (auto simp: smb_resolve_def effective_smb_target_def Let_def split: option.splits)
qed

lemma context_of_accepted_path_witness:
  "smb_resolve sample_local None None = None"
  using context_of_accepted_path [OF sample_local_ok]
  by (simp add: sample_local_def unc_prefix_def)

text \<open>A control character can pass the validation of a UNC path. The server and the share are
  trimmed before they are checked, but the accepted path keeps them untrimmed: there is an
  accepted path with a tab in it, which \<open>NormalizedPath::try_new\<close> refuses.\<close>

theorem unc_component_keeps_control:
  "\<exists>input p. validate_path input = Inr p \<and> control_in p \<and> \<not> is_ok (normalized_path_try_new p)"
proof (intro exI conjI)
  show "validate_path sample_unc = Inr sample_unc" by (rule sample_unc_ok)
  show control: "control_in sample_unc" by (simp add: sample_unc_def Let_def)
  then show "\<not> is_ok (normalized_path_try_new sample_unc)"
    using first_control_None [of sample_unc]
    by (auto simp: normalized_path_try_new_def Let_def sample_trims invalid_def split: option.split)
qed

end
