(* ===== verification/Fs_Objects.thy ===== *)
theory Fs_Objects
  imports Engine_Results Path_Inputs
begin

unbundle bit_operations_syntax

text \<open>
  Reading one file-system object (\<open>crates/fs_scanner/src/acl.rs\<close>): the ACEs of its DACL, the parsed
  security descriptor, the cache of descriptors of a scan, and the object the engine receives;
  and (\<open>crates/fs_scanner/src/file_id.rs\<close>) the identity of a directory and the target a link stores.

  The replies of the Win32 calls are parameters: what \<open>GetFileAttributesW\<close>,
  \<open>GetNamedSecurityInfoW\<close>, \<open>GetAclInformation\<close>, \<open>GetAce\<close> and the conversion of a SID to text return.
\<close>

section \<open>The ACEs of a DACL\<close>

type_synonym u16 = "16 word"

definition OBJECT_INHERIT_ACE :: u8 where "OBJECT_INHERIT_ACE = 0x01"
definition CONTAINER_INHERIT_ACE :: u8 where "CONTAINER_INHERIT_ACE = 0x02"
definition NO_PROPAGATE_INHERIT_ACE :: u8 where "NO_PROPAGATE_INHERIT_ACE = 0x04"
definition INHERIT_ONLY_ACE_FLAG :: u8 where "INHERIT_ONLY_ACE_FLAG = 0x08"
definition INHERITED_ACE :: u8 where "INHERITED_ACE = 0x10"
definition ALLOWED_ACE_TYPE :: u8 where "ALLOWED_ACE_TYPE = 0"
definition DENIED_ACE_TYPE :: u8 where "DENIED_ACE_TYPE = 1"
definition ACE_TYPE_ACL_UNREADABLE :: u8 where "ACE_TYPE_ACL_UNREADABLE = 0xFF"
definition ACE_TYPE_ACE_UNREADABLE :: u8 where "ACE_TYPE_ACE_UNREADABLE = 0xFE"

definition split_ace_flags :: "u8 \<Rightarrow> u32 \<times> u32" where
  "split_ace_flags ace_flags =
     (let inheritance = ace_flags AND (OBJECT_INHERIT_ACE OR CONTAINER_INHERIT_ACE);
          propagation = ace_flags AND (NO_PROPAGATE_INHERIT_ACE OR INHERIT_ONLY_ACE_FLAG)
      in (ucast inheritance, ucast propagation))"

record RawAce =
  ra_type :: u8
  ra_flags :: u8
  ra_mask :: u32
  ra_sid :: "u32 + string"
    \<comment> \<open>The trustee as text, or the error of \<open>ConvertSidToStringSidW\<close>.\<close>

datatype ParseAceOutcome = Entry AceEntry | Unsupported UnsupportedAce | SidUnreadable UnsupportedAce

definition ace_outcome :: "AceKind \<Rightarrow> RawAce \<Rightarrow> ParseAceOutcome" where
  \<comment> \<open>The arms of the two supported types.\<close>
  "ace_outcome kind raw =
     (let (inheritance_flags, propagation_flags) = split_ace_flags (ra_flags raw)
      in case ra_sid raw of
           Inr sid_str \<Rightarrow> Entry \<lparr>ace_kind = kind, ace_sid = sid_str, ace_mask = ra_mask raw,
             ace_inherited = (ra_flags raw AND INHERITED_ACE \<noteq> 0),
             ace_inheritance_flags = inheritance_flags, ace_propagation_flags = propagation_flags\<rparr>
         | Inl _ \<Rightarrow> SidUnreadable \<lparr>ua_ace_type = ra_type raw, ua_flags = ra_flags raw, ua_mask = ra_mask raw\<rparr>)"

definition parse_ace :: "RawAce \<Rightarrow> ParseAceOutcome" where
  "parse_ace raw =
     (if ra_type raw = ALLOWED_ACE_TYPE then ace_outcome Allow raw
      else if ra_type raw = DENIED_ACE_TYPE then ace_outcome Deny raw
      else Unsupported \<lparr>ua_ace_type = ra_type raw, ua_flags = ra_flags raw, ua_mask = ra_mask raw\<rparr>)"

fun dacl_loop ::
  "RawAce option list \<Rightarrow> AceEntry list \<times> UnsupportedAce list \<Rightarrow> AceEntry list \<times> UnsupportedAce list" where
  \<comment> \<open>The replies of \<open>GetAce\<close> in index order, \<open>None\<close> for a failure or a null pointer.\<close>
  "dacl_loop [] acc = acc"
| "dacl_loop (None # replies) (entries, unsupported) =
     dacl_loop replies (entries, unsupported @ [\<lparr>ua_ace_type = ACE_TYPE_ACE_UNREADABLE, ua_flags = 0, ua_mask = 0\<rparr>])"
| "dacl_loop (Some raw # replies) (entries, unsupported) =
     (case parse_ace raw of
        Entry e \<Rightarrow> dacl_loop replies (entries @ [e], unsupported)
      | Unsupported u \<Rightarrow> dacl_loop replies (entries, unsupported @ [u])
      | SidUnreadable u \<Rightarrow> dacl_loop replies (entries, unsupported @ [u]))"

definition parse_dacl :: "RawAce option list option \<Rightarrow> AceEntry list \<times> UnsupportedAce list" where
  \<comment> \<open>\<open>None\<close>: \<open>GetAclInformation\<close> failed.\<close>
  "parse_dacl acl =
     (case acl of
        None \<Rightarrow> ([], [\<lparr>ua_ace_type = ACE_TYPE_ACL_UNREADABLE, ua_flags = 0, ua_mask = 0\<rparr>])
      | Some replies \<Rightarrow> dacl_loop replies ([], []))"

section \<open>The security descriptor and its cache\<close>

definition SE_DACL_PROTECTED :: u16 where "SE_DACL_PROTECTED = 0x1000"

record SecurityReply =
  sr_owner :: "(u32 + string) option"
    \<comment> \<open>\<open>None\<close>: a null owner pointer.\<close>
  sr_dacl :: "RawAce option list option option"
    \<comment> \<open>\<open>None\<close>: a null DACL pointer.\<close>
  sr_control :: "u16 option"
    \<comment> \<open>\<open>None\<close>: a null descriptor, or \<open>GetSecurityDescriptorControl\<close> failed.\<close>

record ParsedFields =
  pf_owner_sid :: "Sid option"
  pf_dacl :: "AceEntry list"
  pf_unsupported_aces :: "UnsupportedAce list"
  pf_null_dacl :: bool
  pf_inheritance_disabled :: bool

record ParsedSecurity =
  ps_sd_bytes :: "u8 list"
  ps_fields :: ParsedFields

type_synonym SdCache = "u64 \<rightharpoonup> ParsedSecurity"

definition fnv1a_64 :: "u8 list \<Rightarrow> u64" where
  "fnv1a_64 bytes =
     foldl (\<lambda>hash b. (hash XOR ucast b) * 0x00000100000001b3) 0xcbf29ce484222325 bytes"

definition parse_security :: "SecurityReply \<Rightarrow> u8 list \<Rightarrow> ParsedSecurity" where
  "parse_security sd sd_bytes =
     (let owner_sid = (case sr_owner sd of Some (Inr s) \<Rightarrow> Some s | _ \<Rightarrow> None);
          (dacl, unsupported_aces, null_dacl) =
            (case sr_dacl sd of
               None \<Rightarrow> ([], [], True)
             | Some acl \<Rightarrow> (let (entries, unsupported) = parse_dacl acl in (entries, unsupported, False)));
          inheritance_disabled = (case sr_control sd of None \<Rightarrow> False
            | Some control \<Rightarrow> control AND SE_DACL_PROTECTED \<noteq> 0)
      in \<lparr>ps_sd_bytes = sd_bytes,
          ps_fields = \<lparr>pf_owner_sid = owner_sid, pf_dacl = dacl, pf_unsupported_aces = unsupported_aces,
            pf_null_dacl = null_dacl, pf_inheritance_disabled = inheritance_disabled\<rparr>\<rparr>)"

definition cached_parse :: "SecurityReply \<Rightarrow> u8 list \<Rightarrow> SdCache \<Rightarrow> ParsedFields \<times> SdCache" where
  \<comment> \<open>The lookup, the comparison of the bytes, and the entry that keeps an existing one.\<close>
  "cached_parse sd sd_bytes cache =
     (let sd_hash = fnv1a_64 sd_bytes;
          hit = (case cache sd_hash of
            Some cached \<Rightarrow> (if ps_sd_bytes cached = sd_bytes then Some (ps_fields cached) else None)
          | None \<Rightarrow> None)
      in case hit of
           Some known \<Rightarrow> (known, cache)
         | None \<Rightarrow> (let p = parse_security sd sd_bytes
                   in (ps_fields p, if cache sd_hash = None then cache(sd_hash \<mapsto> p) else cache)))"

section \<open>One object\<close>

definition INVALID_FILE_ATTRIBUTES :: u32 where "INVALID_FILE_ATTRIBUTES = 0xFFFFFFFF"
definition FILE_ATTRIBUTE_DIRECTORY :: u32 where "FILE_ATTRIBUTE_DIRECTORY = 0x10"
definition FILE_ATTRIBUTE_REPARSE_POINT :: u32 where "FILE_ATTRIBUTE_REPARSE_POINT = 0x400"
definition ERROR_ACCESS_DENIED :: u32 where "ERROR_ACCESS_DENIED = 5"

record ObjectReplies =
  or_attributes :: "u32 \<times> u32"
    \<comment> \<open>The attributes and the last error.\<close>
  or_security :: "u32 \<times> SecurityReply"
    \<comment> \<open>The status and the descriptor.\<close>
  or_sd_bytes :: "u8 list"
    \<comment> \<open>The bytes of the descriptor; empty for a null descriptor or length 0.\<close>
  or_link :: "LinkInfo option"

definition read_file_system_object_cached ::
  "string \<Rightarrow> ObjectReplies \<Rightarrow> SdCache \<Rightarrow> (CoreError + FileSystemObject) \<times> SdCache" where
  "read_file_system_object_cached path replies cache =
     (case or_attributes replies of (attrs, err) \<Rightarrow>
      if attrs = INVALID_FILE_ATTRIBUTES then
        (if err = 2 \<or> err = 3 then Inl (PathNotFound path)
         else if err = 5 then Inl (AccessDenied path)
         else Inl (InvalidSecurityDescriptor (''GetFileAttributesW('' @ path @ '') failed: error '' @ dec (unat err))), cache)
      else case or_security replies of (result, sd) \<Rightarrow>
      if result \<noteq> 0 then
        (if result = ERROR_ACCESS_DENIED then Inl (AccessDenied path)
         else Inl (InvalidSecurityDescriptor (''GetNamedSecurityInfoW('' @ path @ '') failed: error '' @ dec (unat result))), cache)
      else
        (let is_directory = (attrs AND FILE_ATTRIBUTE_DIRECTORY \<noteq> 0);
             is_reparse_point = (attrs AND FILE_ATTRIBUTE_REPARSE_POINT \<noteq> 0);
             (parsed, cache) = cached_parse sd (or_sd_bytes replies) cache
         in (Inr \<lparr>fso_path = strip_long_path_prefix path, fso_is_directory = is_directory,
               fso_owner_sid = pf_owner_sid parsed, fso_dacl = pf_dacl parsed,
               fso_inheritance_disabled = pf_inheritance_disabled parsed,
               fso_is_reparse_point = is_reparse_point, fso_unsupported_aces = pf_unsupported_aces parsed,
               fso_null_dacl = pf_null_dacl parsed, fso_sd_hash = Some (fnv1a_64 (or_sd_bytes replies)),
               fso_link = (if is_reparse_point then or_link replies else None),
               fso_identity_unknown = None\<rparr>, cache)))"

definition read_file_system_object :: "string \<Rightarrow> ObjectReplies \<Rightarrow> CoreError + FileSystemObject" where
  "read_file_system_object path replies = fst (read_file_system_object_cached path replies Map.empty)"

fun read_objects ::
  "(string \<times> ObjectReplies) list \<Rightarrow> SdCache \<Rightarrow> (CoreError + FileSystemObject) list" where
  \<comment> \<open>The reads of a walk through its one cache.\<close>
  "read_objects [] cache = []"
| "read_objects ((path, replies) # rest) cache =
     (let (result, cache) = read_file_system_object_cached path replies cache
      in result # read_objects rest cache)"

section \<open>The identity of a directory\<close>

definition hex_lower :: "nat \<Rightarrow> nat \<Rightarrow> string" where
  \<comment> \<open>\<open>{:0wx}\<close>.\<close>
  "hex_lower width n =
     (let ds = map (\<lambda>d. lower (digit_char d)) (digits 16 n)
      in replicate (width - length ds) (CHR ''0'') @ ds)"

fun from_le_bytes :: "u8 list \<Rightarrow> nat" where
  "from_le_bytes [] = 0"
| "from_le_bytes (b # bs) = unat b + 256 * from_le_bytes bs"

definition identity_key :: "u64 \<Rightarrow> u8 list \<Rightarrow> string option" where
  "identity_key volume_serial file_id =
     (let id = from_le_bytes file_id
      in if volume_serial = 0 \<or> id = 0 then None
         else Some (''fid:'' @ hex_lower 16 (unat volume_serial) @ '':'' @ hex_lower 32 id))"

definition identity_of :: "u32 + u64 \<times> u8 list \<Rightarrow> string + string" where
  \<comment> \<open>The reply of \<open>GetFileInformationByHandleEx\<close>: the error, or serial and file ID.\<close>
  "identity_of reply =
     (case reply of
        Inl win_error \<Rightarrow> Inl (''the server did not return its file ID, Windows error '' @ dec (unat win_error))
      | Inr (volume_serial, file_id) \<Rightarrow>
          (case identity_key volume_serial file_id of
             Some key \<Rightarrow> Inr key
           | None \<Rightarrow> Inl (''the server reports a volume serial or file ID of 0 (some non-Windows SMB ''
       @ ''servers do)'')))"

definition unc_form :: "string \<Rightarrow> string option" where
  "unc_form raw =
     (let unc = strip_long_path_prefix raw
      in if parse_unc_components unc = None then None else Some unc)"

record DirectoryProbe =
  dp_identity :: "string option"
  dp_identity_error :: "string option"
  dp_final_path :: "string option"

definition probe_directory_once :: "u32 + ((u32 + u64 \<times> u8 list) \<times> string option) \<Rightarrow> DirectoryProbe" where
  \<comment> \<open>The open, and for the handle its file ID and the raw text of its final path.\<close>
  "probe_directory_once reply =
     (case reply of
        Inl win_error \<Rightarrow> \<lparr>dp_identity = None,
          dp_identity_error = Some (''the folder could not be opened, Windows error '' @ dec (unat win_error)),
          dp_final_path = None\<rparr>
      | Inr (file_id, raw) \<Rightarrow>
          (let (identity, identity_error) = (case identity_of file_id of
              Inr ident \<Rightarrow> (Some ident, None) | Inl reason \<Rightarrow> (None, Some reason))
           in \<lparr>dp_identity = identity, dp_identity_error = identity_error,
               dp_final_path = Option.bind raw unc_form\<rparr>))"

fun retry_probe :: "(nat \<Rightarrow> DirectoryProbe) \<Rightarrow> nat list \<Rightarrow> DirectoryProbe \<Rightarrow> DirectoryProbe" where
  "retry_probe attempt [] probe = probe"
| "retry_probe attempt (i # is) probe =
     (if is_some (dp_identity probe) then probe else retry_probe attempt is (attempt i))"

definition probe_directory :: "(nat \<Rightarrow> DirectoryProbe) \<Rightarrow> DirectoryProbe" where
  \<comment> \<open>\<open>attempt i\<close> is what the open answers at the \<open>i\<close>-th try; two retries.\<close>
  "probe_directory attempt = retry_probe attempt [1, 2] (attempt 0)"

section \<open>The target a link stores\<close>

definition IO_REPARSE_TAG_MOUNT_POINT :: nat where "IO_REPARSE_TAG_MOUNT_POINT = 0xA0000003"
definition IO_REPARSE_TAG_SYMLINK :: nat where "IO_REPARSE_TAG_SYMLINK = 0xA000000C"
definition SYMLINK_FLAG_RELATIVE :: u32 where "SYMLINK_FLAG_RELATIVE = 1"

definition get_range :: "'a list \<Rightarrow> nat \<Rightarrow> nat \<Rightarrow> 'a list option" where
  \<comment> \<open>\<open>slice::get(lo..hi)\<close>.\<close>
  "get_range xs lo hi = (if lo \<le> hi \<and> hi \<le> length xs then Some (take (hi - lo) (drop lo xs)) else None)"

definition u16_at :: "u8 list \<Rightarrow> nat \<Rightarrow> nat option" where
  "u16_at b off = map_option from_le_bytes (get_range b off (off + 2))"

definition utf8_char :: "nat \<Rightarrow> string" where
  \<comment> \<open>The UTF-8 bytes of a code point.\<close>
  "utf8_char c =
     map char_of
       (if c < 0x80 then [c]
        else if c < 0x800 then [0xC0 + c div 64, 0x80 + c mod 64]
        else if c < 0x10000 then [0xE0 + c div 4096, 0x80 + c div 64 mod 64, 0x80 + c mod 64]
        else [0xF0 + c div 262144, 0x80 + c div 4096 mod 64, 0x80 + c div 64 mod 64, 0x80 + c mod 64])"

fun from_utf16 :: "nat list \<Rightarrow> string option" where
  \<comment> \<open>\<open>String::from_utf16\<close>: a surrogate that is not part of a pair is an error.\<close>
  "from_utf16 [] = Some []"
| "from_utf16 (u # us) =
     (if u < 0xD800 \<or> 0xE000 \<le> u then map_option ((@) (utf8_char u)) (from_utf16 us)
      else if 0xDC00 \<le> u then None
      else case us of
          [] \<Rightarrow> None
        | v # vs \<Rightarrow>
            (if 0xDC00 \<le> v \<and> v < 0xE000 then
               map_option ((@) (utf8_char (0x10000 + (u - 0xD800) * 1024 + (v - 0xDC00)))) (from_utf16 vs)
             else None))"

fun u16_chunks :: "u8 list \<Rightarrow> nat list" where
  \<comment> \<open>\<open>as_chunks::<2>().0\<close> read as little-endian units.\<close>
  "u16_chunks (a # b # rest) = from_le_bytes [a, b] # u16_chunks rest"
| "u16_chunks rest = []"

definition link_name :: "u8 list \<Rightarrow> nat \<Rightarrow> nat \<Rightarrow> string option" where
  \<comment> \<open>The closure \<open>name\<close>. Offset and length are 16-bit values, so their sum does not overflow.\<close>
  "link_name names offset len =
     (if offset mod 2 \<noteq> 0 \<or> len mod 2 \<noteq> 0 then None
      else Option.bind (get_range names offset (offset + len)) (\<lambda>bytes. from_utf16 (u16_chunks bytes)))"

definition name_at :: "u8 list \<Rightarrow> u8 list \<Rightarrow> nat \<Rightarrow> string option" where
  \<comment> \<open>\<open>name\<close> with the offset and the length stored at two positions of the body.\<close>
  "name_at body names at =
     Option.bind (u16_at body at) (\<lambda>offset. Option.bind (u16_at body (at + 2)) (\<lambda>len. link_name names offset len))"

definition reparse_layout :: "nat \<Rightarrow> u8 list \<Rightarrow> (LinkKind \<times> nat \<times> bool) option" where
  "reparse_layout tag body =
     (if tag = IO_REPARSE_TAG_MOUNT_POINT then Some (Junction, 8, False)
      else if tag = IO_REPARSE_TAG_SYMLINK then
        map_option (\<lambda>b. (SymbolicLink, 12, (of_nat (from_le_bytes b) :: u32) AND SYMLINK_FLAG_RELATIVE \<noteq> 0))
          (get_range body 8 12)
      else None)"

definition nt_prefix :: string where
  \<comment> \<open>Backslash, two question marks, backslash.\<close>
  "nt_prefix = [CHR 0x5C, CHR ''?'', CHR ''?'', CHR 0x5C]"

definition link_text :: "u8 list \<Rightarrow> u8 list \<Rightarrow> string option" where
  \<comment> \<open>The print name, or the substitute name without the NT prefix.\<close>
  "link_text body names =
     Option.bind (name_at body names 4) (\<lambda>print.
       if print = [] then
         map_option (\<lambda>substitute. case strip_prefix nt_prefix substitute of Some t \<Rightarrow> t | None \<Rightarrow> substitute)
           (name_at body names 0)
       else Some print)"

definition parse_reparse_data :: "u8 list \<Rightarrow> LinkInfo option" where
  "parse_reparse_data data =
     Option.bind (get_range data 0 4) (\<lambda>tag_bytes.
     Option.bind (u16_at data 4) (\<lambda>body_len.
     Option.bind (get_range data 8 (8 + body_len)) (\<lambda>body.
     Option.bind (reparse_layout (from_le_bytes tag_bytes) body) (\<lambda>(kind, names_at, relative).
     Option.bind (get_range body names_at (length body)) (\<lambda>names.
     Option.bind (link_text body names) (\<lambda>target.
       if target = [] \<or> length target > 32767 \<or> control_in target then None
       else Some \<lparr>link_kind = kind, link_target = target, link_relative = relative\<rparr>))))))"

definition file_link_target :: "u8 list option \<Rightarrow> LinkInfo option" where
  \<comment> \<open>\<open>link_target\<close>: \<open>None\<close> when the link could not be opened or read.\<close>
  "file_link_target reply = Option.bind reply parse_reparse_data"

section \<open>No ACE is lost\<close>

definition interpretable :: "RawAce option \<Rightarrow> bool" where
  \<comment> \<open>Windows returned the ACE, it is a plain allow or deny ACE, and its trustee has a readable SID.\<close>
  "interpretable reply \<longleftrightarrow>
     (\<exists>raw sid. reply = Some raw \<and> (ra_type raw = 0 \<or> ra_type raw = 1) \<and> ra_sid raw = Inr sid)"

definition stands_for :: "RawAce option \<Rightarrow> AceEntry \<Rightarrow> bool" where
  \<comment> \<open>The entry says what the ACE says: kind, trustee, mask, and the flags of \<open>ACE_HEADER\<close>.\<close>
  "stands_for reply e \<longleftrightarrow> (\<exists>raw. reply = Some raw
     \<and> ra_type raw = (case ace_kind e of Allow \<Rightarrow> 0 | Deny \<Rightarrow> 1)
     \<and> ra_sid raw = Inr (ace_sid e) \<and> ra_mask raw = ace_mask e
     \<and> (ace_inherited e \<longleftrightarrow> bit (ra_flags raw) 4)
     \<and> ace_inheritance_flags e = ucast (ra_flags raw AND 0x03)
     \<and> ace_propagation_flags e = ucast (ra_flags raw AND 0x0C))"

definition record_of :: "RawAce option \<Rightarrow> UnsupportedAce \<Rightarrow> bool" where
  "record_of reply u \<longleftrightarrow>
     (case reply of
        None \<Rightarrow> ua_ace_type u = ACE_TYPE_ACE_UNREADABLE
      | Some raw \<Rightarrow> ua_ace_type u = ra_type raw \<and> ua_flags u = ra_flags raw \<and> ua_mask u = ra_mask raw)"

definition fully_read :: "RawAce option list option \<Rightarrow> bool" where
  "fully_read acl = (case acl of None \<Rightarrow> False | Some replies \<Rightarrow> list_all interpretable replies)"

definition entry_of :: "RawAce option \<Rightarrow> AceEntry option" where
  "entry_of reply = (case reply of None \<Rightarrow> None
     | Some raw \<Rightarrow> (case parse_ace raw of Entry e \<Rightarrow> Some e | _ \<Rightarrow> None))"

definition unsupported_of :: "RawAce option \<Rightarrow> UnsupportedAce option" where
  "unsupported_of reply = (case reply of
       None \<Rightarrow> Some \<lparr>ua_ace_type = ACE_TYPE_ACE_UNREADABLE, ua_flags = 0, ua_mask = 0\<rparr>
     | Some raw \<Rightarrow> (case parse_ace raw of Entry e \<Rightarrow> None | Unsupported u \<Rightarrow> Some u | SidUnreadable u \<Rightarrow> Some u))"

lemma dacl_loop_spec: "dacl_loop replies (es, us) =
    (es @ filter_map entry_of replies, us @ filter_map unsupported_of replies)"
  by (induction replies "(es, us)" arbitrary: es us rule: dacl_loop.induct)
    (auto simp: entry_of_def unsupported_of_def split: ParseAceOutcome.split)

lemmas ace_constants = ALLOWED_ACE_TYPE_def DENIED_ACE_TYPE_def OBJECT_INHERIT_ACE_def CONTAINER_INHERIT_ACE_def
  NO_PROPAGATE_INHERIT_ACE_def INHERIT_ONLY_ACE_FLAG_def INHERITED_ACE_def

lemma inherited_bit: "(f :: u8) AND 0x10 \<noteq> 0 \<longleftrightarrow> bit f 4"
proof -
  have "(0x10 :: u8) = push_bit 4 1" by simp
  then show ?thesis by (metis and_exp_eq_0_iff_not_bit push_bit_of_1)
qed

lemma entry_stands:
  "is_some (entry_of reply) \<longleftrightarrow> interpretable reply" "entry_of reply = Some e \<Longrightarrow> stands_for reply e"
  by (auto simp: entry_of_def interpretable_def stands_for_def parse_ace_def ace_outcome_def split_ace_flags_def
      ace_constants inherited_bit Let_def split: option.splits if_splits sum.splits)

lemma unsupported_records:
  "is_some (unsupported_of reply) \<longleftrightarrow> \<not> interpretable reply" "unsupported_of reply = Some u \<Longrightarrow> record_of reply u"
  by (auto simp: unsupported_of_def interpretable_def record_of_def parse_ace_def ace_outcome_def split_ace_flags_def
      ace_constants Let_def split: option.splits if_splits sum.splits)

lemma filter_map_related:
  assumes "\<And>x. is_some (f x) \<longleftrightarrow> P x" and "\<And>x y. f x = Some y \<Longrightarrow> R x y"
  shows "list_all2 R (filter P xs) (filter_map f xs)"
proof (induction xs)
  case (Cons x xs)
  then show ?case using assms(1) [of x] assms(2) [of x] by (cases "f x") auto
qed simp

lemma entries_stand: "list_all2 stands_for (filter interpretable replies) (filter_map entry_of replies)"
  by (rule filter_map_related) (rule entry_stands)+

lemma records_stand: "list_all2 record_of (filter (\<lambda>reply. \<not> interpretable reply) replies) (filter_map unsupported_of replies)"
  by (rule filter_map_related) (rule unsupported_records)+

lemma unsupported_empty: "snd (parse_dacl acl) = [] \<longleftrightarrow> fully_read acl"
proof -
  have none: "unsupported_of reply = None \<longleftrightarrow> interpretable reply" for reply
    using unsupported_records(1) [of reply] by (cases "unsupported_of reply") simp_all
  show ?thesis
    by (cases acl) (auto simp: parse_dacl_def fully_read_def dacl_loop_spec filter_map_eq_Nil none list_all_iff)
qed

text \<open>C28: reading a DACL loses no ACE and makes none up. The entries stand, in stored order, for exactly
  the plain allow and deny ACEs whose trustee Windows could turn into a SID: same kind, trustee, mask,
  inherited mark and flags. Every other ACE (another type, an unreadable trustee, one that could not
  be retrieved) is recorded in stored order as unsupported, with its type, flags and mask; a list that
  could not be read at all gives a record and no entry. So there is no record exactly when
  everything was interpreted.\<close>

theorem every_ace_entered_or_recorded:
  "list_all2 stands_for (filter interpretable replies) (fst (parse_dacl (Some replies)))
   \<and> list_all2 record_of (filter (\<lambda>reply. \<not> interpretable reply) replies) (snd (parse_dacl (Some replies)))
   \<and> parse_dacl None = ([], [\<lparr>ua_ace_type = ACE_TYPE_ACL_UNREADABLE, ua_flags = 0, ua_mask = 0\<rparr>])
   \<and> (snd (parse_dacl acl) = [] \<longleftrightarrow> fully_read acl)"
  using unsupported_empty [of acl] entries_stand [of replies] records_stand [of replies]
  by (simp add: parse_dacl_def dacl_loop_spec)

lemma read_fields:
  assumes "read_file_system_object path replies = Inr fso"
  shows "fso_unsupported_aces fso = pf_unsupported_aces (ps_fields (parse_security (snd (or_security replies)) (or_sd_bytes replies)))"
    "fso_dacl fso = pf_dacl (ps_fields (parse_security (snd (or_security replies)) (or_sd_bytes replies)))"
    "fso_null_dacl fso = pf_null_dacl (ps_fields (parse_security (snd (or_security replies)) (or_sd_bytes replies)))"
  using assms by (auto simp: read_file_system_object_def read_file_system_object_cached_def cached_parse_def Let_def
      split: prod.splits if_splits)

lemma unread_recorded:
  assumes "read_file_system_object path replies = Inr fso" and "sr_dacl (snd (or_security replies)) = Some acl"
    and "\<not> fully_read acl"
  shows "fso_unsupported_aces fso \<noteq> []"
proof -
  have "fso_unsupported_aces fso = snd (parse_dacl acl)"
    using read_fields(1) [OF assms(1)] assms(2) by (simp add: parse_security_def Let_def split: prod.split)
  then show ?thesis using unsupported_empty [of acl] assms(3) by simp
qed

text \<open>C27: what could not be read is never presented as certain. When an ACE of an object or its
  whole access control list could not be read, no evaluation of that object is determinable, whoever is
  evaluated and whatever else is known.\<close>

theorem unread_acl_is_never_certain:
  assumes "read_file_system_object path replies = Inr fso" and "sr_dacl (snd (or_security replies)) = Some acl"
    and "\<not> fully_read acl" and "in_file_system_object inp = fso" and "evaluate lc inp = Inr r"
  shows "\<not> effective_determinable r"
proof -
  have "\<not> complete_evidence inp"
    using unread_recorded [OF assms(1-3)] assms(4) by (simp add: complete_evidence_def Let_def)
  then show ?thesis using evaluate_determinable [OF assms(5)] by blast
qed

section \<open>The cache changes nothing\<close>

definition cache_sound :: "(u8 list \<Rightarrow> SecurityReply) \<Rightarrow> SdCache \<Rightarrow> bool" where
  "cache_sound decode cache \<longleftrightarrow>
     (\<forall>h e. cache h = Some e \<longrightarrow> e = parse_security (decode (ps_sd_bytes e)) (ps_sd_bytes e))"

lemma ps_sd_bytes_parse [simp]: "ps_sd_bytes (parse_security sd bytes) = bytes"
  by (simp add: parse_security_def Let_def split: prod.split)

lemma cached_parse_sound:
  assumes "cache_sound decode cache" and "cached_parse (decode bytes) bytes cache = (known, cache')"
  shows "known = ps_fields (parse_security (decode bytes) bytes)" "cache_sound decode cache'"
proof -
  show "known = ps_fields (parse_security (decode bytes) bytes)"
    using assms by (fastforce simp: cached_parse_def cache_sound_def Let_def split: option.splits if_splits)
  show "cache_sound decode cache'"
    using assms by (auto simp: cached_parse_def cache_sound_def Let_def split: option.splits if_splits)
qed

lemma empty_cache_sound: "cache_sound decode Map.empty"
  by (simp add: cache_sound_def)

lemma cached_read_sound:
  assumes "cache_sound decode cache" and "snd (or_security replies) = decode (or_sd_bytes replies)"
  shows "fst (read_file_system_object_cached path replies cache) = read_file_system_object path replies"
    "cache_sound decode (snd (read_file_system_object_cached path replies cache))"
proof -
  obtain known cache' where c: "cached_parse (decode (or_sd_bytes replies)) (or_sd_bytes replies) cache = (known, cache')"
    by (cases "cached_parse (decode (or_sd_bytes replies)) (or_sd_bytes replies) cache")
  obtain known0 cache0 where c0: "cached_parse (decode (or_sd_bytes replies)) (or_sd_bytes replies) Map.empty = (known0, cache0)"
    by (cases "cached_parse (decode (or_sd_bytes replies)) (or_sd_bytes replies) Map.empty")
  have "known = known0"
    using cached_parse_sound(1) [where decode = decode, OF assms(1) c]
      cached_parse_sound(1) [where decode = decode, OF empty_cache_sound c0] by simp
  then show "fst (read_file_system_object_cached path replies cache) = read_file_system_object path replies"
    using assms(2) c c0
    by (auto simp: read_file_system_object_def read_file_system_object_cached_def Let_def split: prod.split)
  show "cache_sound decode (snd (read_file_system_object_cached path replies cache))"
    using assms c cached_parse_sound(2) [where decode = decode, OF assms(1) c]
    by (auto simp: read_file_system_object_cached_def Let_def split: prod.split)
qed

lemma read_objects_sound:
  assumes "cache_sound decode cache"
    and "list_all (\<lambda>(path, replies). snd (or_security replies) = decode (or_sd_bytes replies)) objs"
  shows "read_objects objs cache = map (\<lambda>(path, replies). read_file_system_object path replies) objs"
  using assms
proof (induction objs cache rule: read_objects.induct)
  case (2 path replies rest cache)
  obtain result cache' where r: "read_file_system_object_cached path replies cache = (result, cache')"
    by (cases "read_file_system_object_cached path replies cache")
  moreover have "result = read_file_system_object path replies" "cache_sound decode cache'"
    using cached_read_sound [of decode cache replies path] 2(2,3) r by auto
  ultimately show ?case using 2 by auto
qed simp

text \<open>The cache of security descriptors changes no result. Reading the objects of a scan one
  after the other through one cache gives for each of them what reading it alone gives, also when
  the hashes of different descriptors collide, as long as equal descriptor bytes mean equal
  descriptors.\<close>

theorem cached_reads_equal_single_reads:
  assumes "list_all (\<lambda>(path, replies). snd (or_security replies) = decode (or_sd_bytes replies)) objs"
  shows "read_objects objs Map.empty = map (\<lambda>(path, replies). read_file_system_object path replies) objs"
  by (rule read_objects_sound [OF empty_cache_sound assms])

section \<open>Identities tell directories apart\<close>

lemma lower_digits: "map (\<lambda>d. lower (digit_char d)) [0..<16] = ''0123456789abcdef''"
  by (simp add: upt_conv_Cons digit_char_def lower_def ascii_upper_def code_def char_of_eq_iff)

lemma lower_digit_nth: "d < 16 \<Longrightarrow> lower (digit_char d) = ''0123456789abcdef'' ! d"
  using arg_cong [OF lower_digits, of "\<lambda>xs. xs ! d"] by (simp del: upt_Suc)

lemma lower_digit_inj:
  assumes "d < 16" and "e < 16" and "lower (digit_char d) = lower (digit_char e)"
  shows "d = e"
proof -
  have "distinct ''0123456789abcdef''" by simp
  then show ?thesis using assms by (simp add: lower_digit_nth nth_eq_iff_index_eq)
qed

lemma undigits_zeros: "undigits b (replicate k 0 @ ds) = undigits b ds"
  by (induction k) auto

lemma hex_lower_digits: "hex_lower width n =
    map (\<lambda>d. lower (digit_char d)) (replicate (width - length (digits 16 n)) 0 @ digits 16 n)"
  by (simp add: hex_lower_def Let_def lower_digit_nth)

lemma hex_lower_inj:
  assumes "hex_lower width m = hex_lower width n"
  shows "m = n"
proof -
  have "replicate (width - length (digits 16 m)) 0 @ digits 16 m =
      replicate (width - length (digits 16 n)) 0 @ digits 16 n"
  proof (rule list.inj_map_strong)
    show "map (\<lambda>d. lower (digit_char d)) (replicate (width - length (digits 16 m)) 0 @ digits 16 m) =
        map (\<lambda>d. lower (digit_char d)) (replicate (width - length (digits 16 n)) 0 @ digits 16 n)"
      using assms by (simp add: hex_lower_digits)
  qed (use digits_less [of 16] in \<open>auto intro: lower_digit_inj\<close>)
  then have "undigits 16 (digits 16 m) = undigits 16 (digits 16 n)" by (metis undigits_zeros)
  moreover have "undigits 16 (digits 16 k) = k" for k by (rule undigits_digits) simp
  ultimately show ?thesis by metis
qed

lemma hex_lower_no_colon: "CHR '':'' \<notin> set (hex_lower width n)"
proof
  assume "CHR '':'' \<in> set (hex_lower width n)"
  then obtain d where d: "d \<in> set (replicate (width - length (digits 16 n)) 0 @ digits 16 n)"
      "CHR '':'' = lower (digit_char d)"
    unfolding hex_lower_digits set_map by (rule imageE)
  have "d < 16" using d(1) digits_less [of 16 d n] by auto
  then have "lower (digit_char d) \<in> set ''0123456789abcdef''"
    unfolding lower_digits [symmetric] by (simp del: upt_Suc)
  then show False unfolding d(2) [symmetric] by simp
qed

lemma first_sep_unique:
  fixes c :: char
  assumes "c \<notin> set a" and "c \<notin> set a'" and "a @ c # b = a' @ c # b'"
  shows "a = a' \<and> b = b'"
proof -
  have "Some (a, b) = split_once c (a @ c # b)" using split_once_sep [OF assms(1)] by simp
  also have "\<dots> = Some (a', b')" unfolding assms(3) by (rule split_once_sep [OF assms(2)])
  finally show ?thesis by simp
qed

lemma identity_key_text:
  "identity_key v a = Some key \<Longrightarrow>
     key = ''fid:'' @ hex_lower 16 (unat v) @ '':'' @ hex_lower 32 (from_le_bytes a) \<and> v \<noteq> 0 \<and> from_le_bytes a \<noteq> 0"
  unfolding identity_key_def Let_def by (metis option.distinct(1) option.inject)

lemma low_byte_first:
  fixes a b c d :: nat
  assumes "a < 256" "b < 256" "a + 256 * c = b + 256 * d"
  shows "a = b" "c = d"
proof -
  have "(a + 256 * c) mod 256 = (b + 256 * d) mod 256" using assms(3) by simp
  then show "a = b" using assms(1,2) unfolding mod_mult_self2 by simp
  then show "c = d" using assms(3) by simp
qed

lemma from_le_bytes_inj:
  "length a = length b \<Longrightarrow> from_le_bytes a = from_le_bytes b \<Longrightarrow> a = b"
proof (induction a b rule: list_induct2)
  case (Cons x xs y ys)
  have "unat x < 256" "unat y < 256" using unsigned_less [of x] unsigned_less [of y] by simp_all
  moreover have sum: "unat x + 256 * from_le_bytes xs = unat y + 256 * from_le_bytes ys" using Cons.prems by simp
  ultimately have "unat x = unat y" "from_le_bytes xs = from_le_bytes ys"
    using low_byte_first by blast+
  then show ?case using Cons.IH by (simp add: unsigned_word_eqI)
qed simp

text \<open>An identity names one directory. Two directories have the same key exactly when the serial
  numbers of their volumes and all 16 bytes of their file IDs agree, and a server that reports a
  serial number or a file ID of zero gives no key at all.\<close>

theorem identity_key_exact:
  assumes "length a = 16" and "length b = 16" and "identity_key v a = Some key"
  shows "identity_key w b = Some key \<longleftrightarrow> w = v \<and> b = a"
    and "v \<noteq> 0 \<and> from_le_bytes a \<noteq> 0"
proof -
  show "v \<noteq> 0 \<and> from_le_bytes a \<noteq> 0"
    using identity_key_text [OF assms(3)] by blast
  show "identity_key w b = Some key \<longleftrightarrow> w = v \<and> b = a"
  proof
    assume "identity_key w b = Some key"
    then have "''fid:'' @ hex_lower 16 (unat w) @ '':'' @ hex_lower 32 (from_le_bytes b) =
        ''fid:'' @ hex_lower 16 (unat v) @ '':'' @ hex_lower 32 (from_le_bytes a)"
      using identity_key_text [OF assms(3)] identity_key_text [of w b key] by metis
    then have "hex_lower 16 (unat w) @ CHR '':'' # hex_lower 32 (from_le_bytes b) =
        hex_lower 16 (unat v) @ CHR '':'' # hex_lower 32 (from_le_bytes a)" by simp
    then have parts: "hex_lower 16 (unat w) = hex_lower 16 (unat v)" "hex_lower 32 (from_le_bytes b) = hex_lower 32 (from_le_bytes a)"
      using first_sep_unique [OF hex_lower_no_colon hex_lower_no_colon] by blast+
    have "unat w = unat v" using parts(1) by (rule hex_lower_inj)
    moreover have "from_le_bytes b = from_le_bytes a" using parts(2) by (rule hex_lower_inj)
    ultimately show "w = v \<and> b = a" using from_le_bytes_inj [of b a] assms(1,2) by (simp add: unsigned_word_eqI)
  qed (use assms(3) in simp)
qed

section \<open>What a link stores is what is read\<close>

definition le16 :: "nat \<Rightarrow> u8 list" where
  "le16 n = [of_nat (n mod 256), of_nat (n div 256)]"

record ReparseBuffer =
  \<comment> \<open>\<open>REPARSE_DATA_BUFFER\<close> of a junction or a symbolic link: the offsets and lengths of the two names
    in bytes, the flags of a symbolic link, and the bytes of the path buffer.\<close>
  rb_kind :: LinkKind
  rb_substitute :: "nat \<times> nat"
  rb_print :: "nat \<times> nat"
  rb_flags :: "u8 list"
  rb_path_buffer :: "u8 list"

definition tag_bytes :: "LinkKind \<Rightarrow> u8 list" where
  "tag_bytes kind = (case kind of Junction \<Rightarrow> [0x03, 0, 0, 0xA0] | SymbolicLink \<Rightarrow> [0x0C, 0, 0, 0xA0])"

definition buffer_body :: "ReparseBuffer \<Rightarrow> u8 list" where
  "buffer_body b = le16 (fst (rb_substitute b)) @ le16 (snd (rb_substitute b)) @ le16 (fst (rb_print b))
     @ le16 (snd (rb_print b)) @ rb_flags b @ rb_path_buffer b"

definition holds_buffer :: "u8 list \<Rightarrow> ReparseBuffer \<Rightarrow> bool" where
  \<comment> \<open>The bytes are the tag, the length of the data, two reserved bytes and the data; more may follow.\<close>
  "holds_buffer data b \<longleftrightarrow>
     (\<exists>reserved trailing. length reserved = 2 \<and>
        data = tag_bytes (rb_kind b) @ le16 (length (buffer_body b)) @ reserved @ buffer_body b @ trailing)
     \<and> length (buffer_body b) < 65536
     \<and> length (rb_flags b) = (case rb_kind b of Junction \<Rightarrow> 0 | SymbolicLink \<Rightarrow> 4)
     \<and> fst (rb_substitute b) < 65536 \<and> snd (rb_substitute b) < 65536
     \<and> fst (rb_print b) < 65536 \<and> snd (rb_print b) < 65536"

definition stored_name :: "u8 list \<Rightarrow> nat \<times> nat \<Rightarrow> string \<Rightarrow> bool" where
  \<comment> \<open>The UTF-16 text of that many bytes at that even offset of the path buffer, wherever it lies and
    whatever lies around it.\<close>
  "stored_name names at text \<longleftrightarrow> even (fst at) \<and>
     (\<exists>before units after. names = before @ concat (map le16 units) @ after \<and> length before = fst at
        \<and> 2 * length units = snd at \<and> list_all (\<lambda>u. u < 65536) units \<and> from_utf16 units = Some text)"

definition stored_target :: "ReparseBuffer \<Rightarrow> string \<Rightarrow> bool" where
  \<comment> \<open>The print name, or without one the substitute name less its NT prefix.\<close>
  "stored_target b target \<longleftrightarrow>
     (\<exists>print. stored_name (rb_path_buffer b) (rb_print b) print
        \<and> (if print \<noteq> [] then target = print
           else \<exists>substitute. stored_name (rb_path_buffer b) (rb_substitute b) substitute
             \<and> (if prefix nt_prefix substitute then substitute = nt_prefix @ target else target = substitute)))"

lemma get_range_iff:
  "get_range xs lo hi = Some ys \<longleftrightarrow> (\<exists>before after. xs = before @ ys @ after \<and> length before = lo \<and> hi = lo + length ys)"
proof
  assume "get_range xs lo hi = Some ys"
  then have "xs = take lo xs @ ys @ drop hi xs" "length (take lo xs) = lo" "hi = lo + length ys"
    by (auto simp: get_range_def drop_take split: if_splits)
      (metis append_take_drop_id drop_drop le_add_diff_inverse2 add.commute)
  then show "\<exists>before after. xs = before @ ys @ after \<and> length before = lo \<and> hi = lo + length ys" by blast
qed (auto simp: get_range_def)

lemma le16_read: "n < 65536 \<Longrightarrow> from_le_bytes (le16 n) = n"
  by (simp add: le16_def unat_of_nat)

lemma length_le16 [simp]: "length (le16 n) = 2"
  by (simp add: le16_def)

lemma two_bytes:
  assumes "length bs = 2"
  shows "bs = le16 (from_le_bytes bs) \<and> from_le_bytes bs < 65536"
proof -
  obtain a b where bs: "bs = [a, b]" using assms by (auto simp: length_Suc_conv numeral_2_eq_2)
  have "unat a < 256" "unat b < 256" using unsigned_less [of a] unsigned_less [of b] by simp_all
  then show ?thesis by (simp add: bs le16_def)
qed

lemma u16_here:
  assumes "length xs = off" and "n < 65536"
  shows "u16_at (xs @ le16 n @ zs) off = Some n"
proof -
  have "get_range (xs @ le16 n @ zs) off (off + 2) = Some (le16 n)"
    unfolding get_range_iff using assms(1) by (intro exI [of _ xs] exI [of _ zs]) simp
  then show ?thesis by (simp add: u16_at_def le16_read [OF assms(2)])
qed

lemma length_units [simp]: "length (concat (map le16 us)) = 2 * length us"
  by (induction us) auto

lemma chunks_units: "list_all (\<lambda>u. u < 65536) us \<Longrightarrow> u16_chunks (concat (map le16 us)) = us"
proof (induction us)
  case (Cons u us)
  obtain a b where "le16 u = [a, b]" by (simp add: le16_def)
  then show ?case using Cons le16_read [of u] by simp
qed simp

lemma units_chunks: "even (length bs) \<Longrightarrow>
    bs = concat (map le16 (u16_chunks bs)) \<and> list_all (\<lambda>u. u < 65536) (u16_chunks bs) \<and> 2 * length (u16_chunks bs) = length bs"
proof (induction bs rule: u16_chunks.induct)
  case (1 a b rest)
  then show ?case using two_bytes [of "[a, b]"] by (simp del: from_le_bytes.simps)
qed simp_all

lemma link_name_iff: "link_name names offset len = Some text \<longleftrightarrow> stored_name names (offset, len) text"
proof
  assume "link_name names offset len = Some text"
  then obtain bytes where b: "even offset" "even len" "get_range names offset (offset + len) = Some bytes"
      "from_utf16 (u16_chunks bytes) = Some text"
    by (auto simp: link_name_def bind_eq_Some_conv even_iff_mod_2_eq_zero split: if_splits)
  then have "length bytes = len" by (auto simp: get_range_iff)
  with b units_chunks [of bytes] show "stored_name names (offset, len) text"
    unfolding stored_name_def fst_conv snd_conv get_range_iff by metis
next
  assume "stored_name names (offset, len) text"
  then obtain before units after where u: "even offset" "names = before @ concat (map le16 units) @ after"
      "length before = offset" "2 * length units = len" "list_all (\<lambda>u. u < 65536) units" "from_utf16 units = Some text"
    by (auto simp: stored_name_def)
  then have "get_range names offset (offset + len) = Some (concat (map le16 units))" by (auto simp: get_range_iff)
  then show "link_name names offset len = Some text"
    using u(1,4-6) by (auto simp: link_name_def chunks_units)
qed

lemma buffer_parts:
  assumes "holds_buffer data b"
  shows "get_range data 0 4 = Some (tag_bytes (rb_kind b))" "u16_at data 4 = Some (length (buffer_body b))"
    "get_range data 8 (8 + length (buffer_body b)) = Some (buffer_body b)"
    "name_at (buffer_body b) names 0 = link_name names (fst (rb_substitute b)) (snd (rb_substitute b))"
    "name_at (buffer_body b) names 4 = link_name names (fst (rb_print b)) (snd (rb_print b))"
proof -
  obtain reserved trailing where d: "length reserved = 2"
      "data = tag_bytes (rb_kind b) @ le16 (length (buffer_body b)) @ reserved @ buffer_body b @ trailing"
    and n: "length (buffer_body b) < 65536" "fst (rb_substitute b) < 65536" "snd (rb_substitute b) < 65536"
      "fst (rb_print b) < 65536" "snd (rb_print b) < 65536"
    using assms by (auto simp: holds_buffer_def)
  have t: "length (tag_bytes (rb_kind b)) = 4" by (simp add: tag_bytes_def split: LinkKind.split)
  show "get_range data 0 4 = Some (tag_bytes (rb_kind b))"
    unfolding get_range_iff by (rule exI [of _ "[]"]) (simp add: d t)
  show "u16_at data 4 = Some (length (buffer_body b))"
    unfolding d(2) by (rule u16_here [OF t n(1)])
  show "get_range data 8 (8 + length (buffer_body b)) = Some (buffer_body b)"
    unfolding get_range_iff
    by (rule exI [of _ "tag_bytes (rb_kind b) @ le16 (length (buffer_body b)) @ reserved"]) (simp add: d t)
  have "u16_at (buffer_body b) 0 = Some (fst (rb_substitute b))"
    using u16_here [of "[]" 0, OF _ n(2)] by (simp add: buffer_body_def)
  moreover have "u16_at (buffer_body b) 2 = Some (snd (rb_substitute b))"
    using u16_here [of "le16 (fst (rb_substitute b))" 2, OF _ n(3)] by (simp add: buffer_body_def)
  moreover have "u16_at (buffer_body b) 4 = Some (fst (rb_print b))"
    using u16_here [of "le16 (fst (rb_substitute b)) @ le16 (snd (rb_substitute b))" 4, OF _ n(4)]
    by (simp add: buffer_body_def)
  moreover have "u16_at (buffer_body b) 6 = Some (snd (rb_print b))"
    using u16_here [of "le16 (fst (rb_substitute b)) @ le16 (snd (rb_substitute b)) @ le16 (fst (rb_print b))" 6, OF _ n(5)]
    by (simp add: buffer_body_def)
  ultimately show "name_at (buffer_body b) names 0 = link_name names (fst (rb_substitute b)) (snd (rb_substitute b))"
    "name_at (buffer_body b) names 4 = link_name names (fst (rb_print b)) (snd (rb_print b))"
    by (simp_all add: name_at_def numeral_2_eq_2 [symmetric])
qed
lemma relative_flag:
  assumes "length fs = 4"
  shows "(of_nat (from_le_bytes fs) :: u32) AND SYMLINK_FLAG_RELATIVE \<noteq> 0 \<longleftrightarrow> bit (fs ! 0) 0"
proof -
  obtain f rest where fs: "fs = f # rest" using assms by (cases fs) auto
  have "(of_nat (from_le_bytes fs) :: u32) AND 1 \<noteq> 0 \<longleftrightarrow> odd (from_le_bytes fs)"
    by (simp add: and_one_eq mod2_eq_if)
  also have "\<dots> \<longleftrightarrow> odd (unat f)" by (simp add: fs)
  also have "\<dots> \<longleftrightarrow> bit f 0" by (simp add: bit_unsigned_iff flip: bit_0)
  finally show ?thesis by (simp add: SYMLINK_FLAG_RELATIVE_def fs)
qed

definition names_start :: "LinkKind \<Rightarrow> nat" where
  "names_start kind = (case kind of Junction \<Rightarrow> 8 | SymbolicLink \<Rightarrow> 12)"

definition is_relative :: "ReparseBuffer \<Rightarrow> bool" where
  "is_relative b \<longleftrightarrow> rb_kind b = SymbolicLink \<and> bit (rb_flags b ! 0) 0"

lemma tag_values: "from_le_bytes (tag_bytes Junction) = IO_REPARSE_TAG_MOUNT_POINT"
    "from_le_bytes (tag_bytes SymbolicLink) = IO_REPARSE_TAG_SYMLINK"
  by (simp_all add: tag_bytes_def IO_REPARSE_TAG_MOUNT_POINT_def IO_REPARSE_TAG_SYMLINK_def)

lemma layout_of_buffer:
  assumes "holds_buffer data b"
  shows "reparse_layout (from_le_bytes (tag_bytes (rb_kind b))) (buffer_body b) =
      Some (rb_kind b, names_start (rb_kind b), is_relative b)"
    "get_range (buffer_body b) (names_start (rb_kind b)) (length (buffer_body b)) = Some (rb_path_buffer b)"
proof -
  let ?head = "le16 (fst (rb_substitute b)) @ le16 (snd (rb_substitute b)) @ le16 (fst (rb_print b)) @ le16 (snd (rb_print b))"
  have body: "buffer_body b = ?head @ rb_flags b @ rb_path_buffer b" by (simp add: buffer_body_def)
  have flags: "length (rb_flags b) = (case rb_kind b of Junction \<Rightarrow> 0 | SymbolicLink \<Rightarrow> 4)"
    using assms by (simp add: holds_buffer_def)
  show "get_range (buffer_body b) (names_start (rb_kind b)) (length (buffer_body b)) = Some (rb_path_buffer b)"
    unfolding get_range_iff by (rule exI [of _ "?head @ rb_flags b"], rule exI [of _ "[]"])
      (simp add: body flags names_start_def split: LinkKind.split)
  have "get_range (buffer_body b) 8 12 = Some (rb_flags b)" if "rb_kind b = SymbolicLink"
    unfolding get_range_iff by (rule exI [of _ ?head]) (simp add: body flags that)
  then show "reparse_layout (from_le_bytes (tag_bytes (rb_kind b))) (buffer_body b) =
      Some (rb_kind b, names_start (rb_kind b), is_relative b)"
    using flags relative_flag [of "rb_flags b"]
    by (cases "rb_kind b") (auto simp: tag_values reparse_layout_def names_start_def is_relative_def
        IO_REPARSE_TAG_MOUNT_POINT_def IO_REPARSE_TAG_SYMLINK_def)
qed

lemma link_text_iff:
  assumes "holds_buffer data b"
  shows "link_text (buffer_body b) (rb_path_buffer b) = Some target \<longleftrightarrow> stored_target b target"
proof -
  have strip: "(case strip_prefix nt_prefix s of Some t \<Rightarrow> t | None \<Rightarrow> s) = target \<longleftrightarrow>
      (if prefix nt_prefix s then s = nt_prefix @ target else target = s)" for s
    by (auto simp: strip_prefix_def prefix_def split: if_splits dest: starts_withD)
  have name: "link_name (rb_path_buffer b) (fst at) (snd at) = Some s \<longleftrightarrow> stored_name (rb_path_buffer b) at s" for at s
    using link_name_iff [of "rb_path_buffer b" "fst at" "snd at"] by simp
  show ?thesis
    unfolding link_text_def buffer_parts(4,5) [OF assms] stored_target_def bind_eq_Some_conv name
    by (intro ex_cong conj_cong refl) (auto simp: name strip split: if_splits)
qed

lemma parse_of_buffer:
  assumes "holds_buffer data b"
  shows "parse_reparse_data data = Some l \<longleftrightarrow>
    link_kind l = rb_kind b \<and> link_relative l = is_relative b \<and> stored_target b (link_target l)
    \<and> link_target l \<noteq> [] \<and> length (link_target l) \<le> 32767 \<and> \<not> control_in (link_target l)"
proof -
  have "parse_reparse_data data = Option.bind (link_text (buffer_body b) (rb_path_buffer b)) (\<lambda>target.
      if target = [] \<or> length target > 32767 \<or> control_in target then None
      else Some \<lparr>link_kind = rb_kind b, link_target = target, link_relative = is_relative b\<rparr>)"
    by (simp add: parse_reparse_data_def buffer_parts(1-3) [OF assms] layout_of_buffer [OF assms])
  then show ?thesis
    by (cases l) (auto simp: bind_eq_Some_conv link_text_iff [OF assms] split: if_splits)
qed

lemma tag_of_bytes:
  assumes "length t = 4" and "from_le_bytes t = from_le_bytes (tag_bytes kind)"
  shows "t = tag_bytes kind"
  using assms from_le_bytes_inj [of t "tag_bytes kind"] by (simp add: tag_bytes_def split: LinkKind.splits)

lemma four_numbers:
  assumes "length bs = 8"
  obtains a b c d where "bs = le16 a @ le16 b @ le16 c @ le16 d" "a < 65536" "b < 65536" "c < 65536" "d < 65536"
proof -
  let ?b1 = "take 2 bs" and ?b2 = "take 2 (drop 2 bs)" and ?b3 = "take 2 (drop 4 bs)" and ?b4 = "drop 6 bs"
  have bs: "bs = ?b1 @ ?b2 @ ?b3 @ ?b4"
    using append_take_drop_id [of 2 bs] append_take_drop_id [of 2 "drop 2 bs"] append_take_drop_id [of 2 "drop 4 bs"] by simp
  have "length ?b1 = 2" "length ?b2 = 2" "length ?b3 = 2" "length ?b4 = 2" using assms by simp_all
  note numbers = this [THEN two_bytes]
  have "bs = le16 (from_le_bytes ?b1) @ le16 (from_le_bytes ?b2) @ le16 (from_le_bytes ?b3) @ le16 (from_le_bytes ?b4)"
    using bs numbers by metis
  then show thesis using that numbers by metis
qed

lemma buffer_of_parse:
  assumes "parse_reparse_data data = Some l"
  obtains b where "holds_buffer data b"
proof -
  obtain t n body kind names_at relative names where p: "get_range data 0 4 = Some t" "u16_at data 4 = Some n"
      "get_range data 8 (8 + n) = Some body" "reparse_layout (from_le_bytes t) body = Some (kind, names_at, relative)"
      "get_range body names_at (length body) = Some names"
    using assms by (auto simp: parse_reparse_data_def bind_eq_Some_conv)
  have t: "length t = 4" "n = length body" using p(1,3) by (auto simp: get_range_iff)
  have kind: "t = tag_bytes kind" "names_at = names_start kind"
    using p(4) tag_of_bytes [OF t(1)]
    by (auto simp: reparse_layout_def tag_values [symmetric] names_start_def split: if_splits)
  have long: "names_start kind \<le> length body" using p(5) kind(2) by (auto simp: get_range_def split: if_splits)
  then have "8 \<le> length body" by (simp add: names_start_def split: LinkKind.splits)
  then obtain so sl po pl where head: "take 8 body = le16 so @ le16 sl @ le16 po @ le16 pl"
      "so < 65536" "sl < 65536" "po < 65536" "pl < 65536"
    using four_numbers [of "take 8 body"] by (metis length_take min.absorb2)
  obtain bs where bs: "get_range data 4 6 = Some bs" "from_le_bytes bs = n"
    using p(2) by (auto simp: u16_at_def)
  then have len: "bs = le16 n" "n < 65536" using two_bytes [of bs] by (auto simp: get_range_iff)
  define b where "b = \<lparr>rb_kind = kind, rb_substitute = (so, sl), rb_print = (po, pl),
      rb_flags = take (names_start kind - 8) (drop 8 body), rb_path_buffer = drop (names_start kind) body\<rparr>"
  have "body = take 8 body @ take (names_start kind - 8) (drop 8 body) @ drop (names_start kind) body"
    using append_take_drop_id [of 8 body] append_take_drop_id [of "names_start kind - 8" "drop 8 body"]
    by (simp add: names_start_def split: LinkKind.splits)
  then have body: "buffer_body b = body" by (simp add: buffer_body_def b_def head(1))
  have "data = take 4 data @ take 2 (drop 4 data) @ take 2 (drop 6 data) @ take n (drop 8 data) @ drop (8 + n) data"
    using append_take_drop_id [of 4 data] append_take_drop_id [of 2 "drop 4 data"] append_take_drop_id [of 2 "drop 6 data"]
      append_take_drop_id [of n "drop 8 data"] by (simp add: add.commute)
  moreover have "take 4 data = t" "take 2 (drop 4 data) = bs" "take n (drop 8 data) = body" "length (take 2 (drop 6 data)) = 2"
    using p(1,3) bs(1) by (auto simp: get_range_def split: if_splits)
  ultimately have "\<exists>reserved trailing. length reserved = 2 \<and> data = tag_bytes kind @ le16 n @ reserved @ body @ trailing"
    using kind(1) len(1) by metis
  moreover have "length (rb_flags b) = (case kind of Junction \<Rightarrow> 0 | SymbolicLink \<Rightarrow> 4)"
    using long by (simp add: b_def names_start_def split: LinkKind.splits)
  ultimately have "holds_buffer data b"
    unfolding holds_buffer_def body using head(2-5) len(2) t(2) by (simp add: b_def)
  then show thesis by (rule that)
qed

text \<open>C29: the target of a link is read exactly as it is stored. For any bytes the parser returns a link
  exactly when they hold a reparse buffer of a junction or a symbolic link, in whatever order and with
  whatever bytes (such as terminators) around the two names, whose print name, or, if that is
  empty, whose substitute name without the NT prefix, is the target: not empty, at most 32,767 bytes
  long and free of control characters. Kind and relativity are those of tag and flags; everything
  else, such as an offset beyond the buffer or text that is not UTF-16, gives nothing.\<close>

theorem stored_link_is_read:
  "parse_reparse_data data = Some l \<longleftrightarrow>
     (\<exists>b. holds_buffer data b \<and> link_kind l = rb_kind b \<and> link_relative l = is_relative b
        \<and> stored_target b (link_target l)
        \<and> link_target l \<noteq> [] \<and> length (link_target l) \<le> 32767 \<and> \<not> control_in (link_target l))"
  using parse_of_buffer [of data _ l] buffer_of_parse [of data l] by metis

section \<open>Witnesses\<close>

definition sample_unread :: ObjectReplies where
  \<comment> \<open>A folder whose only ACE could not be retrieved.\<close>
  "sample_unread = \<lparr>or_attributes = (0x10, 0),
     or_security = (0, \<lparr>sr_owner = None, sr_dacl = Some (Some [None]), sr_control = None\<rparr>),
     or_sd_bytes = [1], or_link = None\<rparr>"

lemma sample_unread_read: "\<exists>fso. read_file_system_object ''C:'' sample_unread = Inr fso"
  by (simp add: sample_unread_def read_file_system_object_def read_file_system_object_cached_def
      INVALID_FILE_ATTRIBUTES_def Let_def split: prod.split)

lemma unread_acl_is_never_certain_witness:
  "\<exists>fso r. read_file_system_object ''C:'' sample_unread = Inr fso
     \<and> evaluate (\<lambda>s. s) (sample_input fso) = Inr r \<and> \<not> effective_determinable r"
proof -
  obtain fso where fso: "read_file_system_object ''C:'' sample_unread = Inr fso"
    using sample_unread_read by blast
  obtain r where r: "evaluate (\<lambda>s. s) (sample_input fso) = Inr r" by (simp add: evaluate_eq)
  have "\<not> effective_determinable r"
    by (rule unread_acl_is_never_certain [OF fso _ _ _ r, where acl = "Some [None]"])
      (simp_all add: sample_unread_def fully_read_def interpretable_def)
  with fso r show ?thesis by blast
qed

lemma cached_reads_equal_single_reads_witness:
  "read_objects [(''C:'', sample_unread), (''D:'', sample_unread)] Map.empty =
     [read_file_system_object ''C:'' sample_unread, read_file_system_object ''D:'' sample_unread]"
  using cached_reads_equal_single_reads [of "\<lambda>_. snd (or_security sample_unread)"
      "[(''C:'', sample_unread), (''D:'', sample_unread)]"] by simp

lemma identity_key_exact_witness:
  "\<exists>key. identity_key 1 (1 # replicate 15 0) = Some key
     \<and> identity_key 2 (1 # replicate 15 0) \<noteq> Some key \<and> identity_key 1 (2 # replicate 15 0) \<noteq> Some key"
proof -
  obtain key where key: "identity_key 1 (1 # replicate 15 0) = Some key"
    by (simp add: identity_key_def Let_def)
  show ?thesis
    using key identity_key_exact(1) [OF _ _ key, of "1 # replicate 15 0" 2]
      identity_key_exact(1) [OF _ _ key, of "2 # replicate 15 0" 1] by simp
qed

end
