(* ===== verification/Walker.thy ===== *)
theory Walker
  imports Fs_Objects "HOL-Library.While_Combinator" "HOL-Library.Multiset"
begin

text \<open>
  The walk of a directory tree (\<open>crates/fs_scanner/src/walker.rs\<close>, \<open>cancel.rs\<close>): the decision for one
  directory, the detection of cycles and of directories reached twice, the reasons the walk
  states when it stops, and the loop over the explicit stack of pending work.

  The file system is a parameter, a record of what it answers for every path; the flag of the
  cancellation token is a parameter too, what the \<open>i\<close>-th poll reads.
\<close>

section \<open>What a walk produces\<close>

record WalkConfig =
  wc_max_depth :: "u32 option"

record WalkError =
  we_path :: string
  we_error :: CoreError

datatype WalkItem = Object FileSystemObject | Error WalkError

record WalkResult =
  wr_objects :: "FileSystemObject list"
  wr_errors :: "WalkError list"
  wr_cancelled :: bool

section \<open>Loop keys and messages\<close>

definition is_remote_path :: "string \<Rightarrow> bool" where
  "is_remote_path path =
     (case prefix_upto 8 (to_windows_api_path path) of None \<Rightarrow> False
      | Some p \<Rightarrow> eq_ignore_ascii_case p long_unc_prefix)"

definition select_loop_key :: "bool \<Rightarrow> string option \<Rightarrow> string \<Rightarrow> string" where
  "select_loop_key remote file_identity canonical =
     (case (remote, file_identity) of (True, Some key) \<Rightarrow> key | _ \<Rightarrow> canonical)"

datatype DuplicateRoute = LocalLink string | LocalDirectory | Remote bool

definition classify_route :: "bool \<Rightarrow> bool \<Rightarrow> bool \<Rightarrow> string \<Rightarrow> DuplicateRoute" where
  \<comment> \<open>\<open>DuplicateRoute::classify\<close>.\<close>
  "classify_route remote by_file_id is_reparse canonical =
     (if remote then Remote by_file_id else if is_reparse then LocalLink canonical else LocalDirectory)"

definition is_drive_path :: "string \<Rightarrow> bool" where
  "is_drive_path path =
     (case path of d # c # b # _ \<Rightarrow> c = CHR '':'' \<and> b = CHR 0x5C \<and> ascii_alphabetic d | _ \<Rightarrow> False)"

definition TAIL :: string where
  "TAIL = ''Recursion stopped at this junction/link. The object itself is in the ''
       @ ''result with its DACL; objects behind the link were not enumerated.''"

definition missing_target :: "int option \<Rightarrow> nat option" where
  \<comment> \<open>The pattern \<open>Some(code @ (2 | 3))\<close>.\<close>
  "missing_target os_error =
     (if os_error = Some 2 then Some 2 else if os_error = Some 3 then Some 3 else None)"

definition int_text :: "int \<Rightarrow> string" where
  \<comment> \<open>\<open>{}\<close> on a signed integer.\<close>
  "int_text i = (if i < 0 then ''-'' @ dec (nat (- i)) else dec (nat i))"

definition remote_symlink_error :: "int option \<Rightarrow> string \<Rightarrow> CoreError" where
  \<comment> \<open>A symbolic link of a share that names a drive path.\<close>
  "remote_symlink_error os_error target =
     (let why =
        (if os_error = Some 1463 then ''its symbolic link evaluation policy does not allow that (Windows error '' @ ''1463: ''
       @ dquote @ ''remote to local'' @ dquote
       @ '', disabled by default; see `fsutil behavior query SymlinkEvaluation`)''
         else case missing_target os_error of
             Some win_error \<Rightarrow> ''that path does not exist here (Windows error '' @ dec win_error @ '')''
           | None \<Rightarrow> (case os_error of
               Some win_error \<Rightarrow> ''that failed (Windows error '' @ int_text win_error @ '')''
             | None \<Rightarrow> ''that failed''))
      in ReparseNotFollowed (''this symbolic link points to '' @ target @ '', a path on the server'' @ squote
       @ ''s own disk. Over SMB, Windows follows a symbolic link on the client, so ''
       @ ''this machine resolved '' @ target @ '' on itself: '' @ why
       @ ''. No SMB client reaches the server'' @ squote
       @ ''s folder through this link, and whether that folder exists on the server ''
       @ ''cannot be seen over SMB. '' @ TAIL))"

definition link_name_text :: "LinkInfo option \<Rightarrow> string" where
  "link_name_text link =
     (case link of
        Some l \<Rightarrow>
          (if link_kind l = Junction then ''this junction ('' @ right_arrow @ '' '' @ link_target l @ '')''
           else ''this symbolic link ('' @ right_arrow @ '' '' @ link_target l @ '')'')
      | None \<Rightarrow> ''this junction/link'')"

definition known_link_error :: "int option \<Rightarrow> LinkInfo \<Rightarrow> bool \<Rightarrow> CoreError option" where
  \<comment> \<open>The returns for a link whose data could be read.\<close>
  "known_link_error os_error l remote =
     (if os_error = Some 1463 then
        Some (ReparseNotFollowed (''this machine'' @ squote @ ''s symbolic link evaluation policy does not allow following ''
       @ link_name_text (Some l)
       @ '' (Windows error 1463; see `fsutil behavior query SymlinkEvaluation`). A ''
       @ ''client with the same policy cannot follow it either. '' @ TAIL))
      else case missing_target os_error of
          Some win_error \<Rightarrow>
            (let place = (if link_kind l = Junction \<and> remote then '' on the server'' else [])
             in Some (PathNotFound (''the target of '' @ link_name_text (Some l) @ '' does not exist'' @ place
       @ '' (Windows error '' @ dec win_error @ '') '' @ em_dash @ '' a broken link. ''
       @ TAIL)))
        | None \<Rightarrow> None)"

definition unknown_link_error :: "int option \<Rightarrow> string \<Rightarrow> bool \<Rightarrow> CoreError" where
  \<comment> \<open>The last \<open>match\<close>.\<close>
  "unknown_link_error os_error what remote =
     (if os_error = Some 1463 then
        ReparseNotFollowed (''this machine'' @ squote
       @ ''s symbolic link evaluation policy does not allow following this link type ''
       @ ''(Windows error 1463 '' @ em_dash
       @ '' e.g. a link on a share that points to a local path of the server, '' @ dquote
       @ ''remote to local'' @ dquote
       @ '', which Windows disables by default; see `fsutil behavior query ''
       @ ''SymlinkEvaluation`). A client with the same policy cannot follow it ''
       @ ''either. '' @ TAIL)
      else if os_error = Some 5 then
        AccessDenied (''the target of '' @ what @ '' could not be opened (Windows error 5, access denied). ''
       @ TAIL)
      else case missing_target os_error of
          Some win_error \<Rightarrow>
            (if remote then PathNotFound (''the target of this junction/link was not found (Windows error '' @ dec win_error
       @ ''): the link is broken, or it is a symbolic link to a path on the server''
       @ squote @ ''s own disk, which Windows resolves on this machine over SMB. The link ''
       @ ''could not be read to tell which. '' @ TAIL)
             else PathNotFound (''the target of this junction/link does not exist (Windows error '' @ dec win_error @ '') ''
       @ em_dash @ '' a broken link. '' @ TAIL))
        | None \<Rightarrow>
            (if os_error = Some 1921 then
               ReparseNotFollowed (''Windows stopped resolving this link after too many reparse points ''
       @ ''(Windows error 1921 '' @ em_dash @ '' a loop of links). '' @ TAIL)
             else case os_error of
                 Some win_error \<Rightarrow> ReparseNotFollowed (''the target of '' @ what @ '' could not be resolved (Windows error '' @ int_text win_error
       @ ''). '' @ TAIL)
               | None \<Rightarrow> ReparseNotFollowed (''the target of '' @ what @ '' could not be resolved. '' @ TAIL)))"

definition unresolved_reparse_error :: "int option \<Rightarrow> LinkInfo option \<Rightarrow> bool \<Rightarrow> CoreError" where
  "unresolved_reparse_error os_error link remote =
     (case link of
        None \<Rightarrow> unknown_link_error os_error (link_name_text None) remote
      | Some l \<Rightarrow>
          (if remote \<and> link_kind l = SymbolicLink \<and> \<not> link_relative l \<and> is_drive_path (link_target l) then
             remote_symlink_error os_error (link_target l)
           else case known_link_error os_error l remote of
               Some e \<Rightarrow> e
             | None \<Rightarrow> unknown_link_error os_error (link_name_text (Some l)) remote))"

definition local_resolution_error :: "string \<Rightarrow> LinkInfo option \<Rightarrow> CoreError" where
  "local_resolution_error resolved link =
     (let stored = (case link of None \<Rightarrow> [] | Some l \<Rightarrow> '' (it stores '' @ link_target l @ '')'')
      in ReparseNotFollowed (''this link'' @ stored @ '' resolves to '' @ resolved
       @ '' on this machine, not on the server: over SMB, Windows follows a symbolic ''
       @ ''link on the client, and this machine'' @ squote
       @ ''s symbolic link evaluation policy allows '' @ dquote @ ''remote to local''
       @ dquote
       @ '' (see `fsutil behavior query SymlinkEvaluation`). What it reaches is this ''
       @ ''computer'' @ squote
       @ ''s own folder, so it was not enumerated as part of the share. The link ''
       @ ''object itself is in the result with its DACL. Which folder the link ''
       @ ''reaches on the server cannot be seen over SMB.''))"

definition other_share_message :: "(string \<times> string) option \<Rightarrow> string option \<Rightarrow> string option" where
  "other_share_message root_share final_path =
     (case (root_share, Option.bind final_path parse_unc_components) of
        (Some (root_server, root_name), Some (server, share)) \<Rightarrow>
          (if eq_ignore_ascii_case server root_server \<and> eq_ignore_ascii_case share root_name then None
           else Some (''this directory is served from '' @ bslash @ bslash @ server @ bslash @ share
       @ '', not from the share of the scan root ('' @ bslash @ bslash @ root_server
       @ bslash @ root_name @ '') '' @ em_dash
       @ '' a folder of a DFS namespace or a link to another share. Its share ''
       @ ''permissions and local groups are those of that share'' @ squote
       @ ''s server, so it was not evaluated in this scan and its content was not ''
       @ ''enumerated; scan this path on its own.''))
      | _ \<Rightarrow> None)"

definition duplicate_route_message :: "string \<Rightarrow> DuplicateRoute \<Rightarrow> string" where
  "duplicate_route_message first_path route =
     (let first = strip_long_path_prefix first_path
      in case route of
           LocalLink target \<Rightarrow> ''Reparse point target already enumerated in this scan under '' @ squote @ first @ squote
       @ '' '' @ em_dash
       @ '' subtree not enumerated again under this namespace path (duplicate ''
       @ ''target, not a cycle). Target: '' @ strip_long_path_prefix target
       @ ''. The link object itself is in the result with its DACL.''
         | LocalDirectory \<Rightarrow> ''Directory already enumerated in this scan under '' @ squote @ first @ squote
       @ '', reached there through a reparse point '' @ em_dash
       @ '' subtree not enumerated again under this path (duplicate route, not a ''
       @ ''cycle). The directory itself is in the result with its DACL.''
         | Remote by_file_id \<Rightarrow>
             (let identity = (if by_file_id then ''same volume serial and file ID'' else ''same resolved path'')
              in ''Directory already enumerated in this scan under '' @ squote @ first @ squote @ '' ''
       @ em_dash @ '' this path leads to the same directory ('' @ identity
       @ ''); its subtree is not enumerated again (duplicate route, not a cycle). ''
       @ ''The object at this path is in the result with its DACL.''))"

section \<open>Cycles and directories reached twice\<close>

datatype DescendDecision = Fresh | Cycle string | DuplicateTarget string

record LoopDetector =
  ld_chain :: "(string \<times> string) list"
    \<comment> \<open>The active chain, outermost directory first.\<close>
  ld_seen_first_path :: "string \<rightharpoonup> string"

definition new_detector :: LoopDetector where
  "new_detector = \<lparr>ld_chain = [], ld_seen_first_path = Map.empty\<rparr>"

definition enter :: "LoopDetector \<Rightarrow> string \<Rightarrow> string \<Rightarrow> DescendDecision \<times> LoopDetector" where
  "enter det key namespace_path =
     (case find (\<lambda>e. fst e = key) (ld_chain det) of
        Some (_, ancestor) \<Rightarrow> (Cycle ancestor, det)
      | None \<Rightarrow>
          (case ld_seen_first_path det key of
             Some first \<Rightarrow> (DuplicateTarget first, det)
           | None \<Rightarrow> (Fresh, det\<lparr>ld_seen_first_path := (ld_seen_first_path det)(key \<mapsto> namespace_path),
               ld_chain := ld_chain det @ [(key, namespace_path)]\<rparr>)))"

definition leave :: "LoopDetector \<Rightarrow> LoopDetector" where
  "leave det = det\<lparr>ld_chain := butlast (ld_chain det)\<rparr>"

section \<open>The file system and the work\<close>

record DirEntry =
  dn_path :: string
  dn_is_symlink :: bool

record FileSystem =
  fv_read :: "string \<Rightarrow> CoreError + FileSystemObject"
  fv_link :: "string \<Rightarrow> LinkInfo option"
  fv_probe :: "string \<Rightarrow> DirectoryProbe"
  fv_final :: "string \<Rightarrow> string option"
    \<comment> \<open>\<open>final_unc_path\<close>.\<close>
  fv_resolve :: "string \<Rightarrow> int option + string"
    \<comment> \<open>\<open>std::fs::canonicalize\<close> of the API form: the Windows error, or the resolved path.\<close>
  fv_file_name :: "string \<Rightarrow> string option"
    \<comment> \<open>\<open>std::path::Path::file_name\<close>.\<close>
  fv_list :: "string \<Rightarrow> string + (string + DirEntry) list"
    \<comment> \<open>\<open>std::fs::read_dir\<close>: the error, or the entries, each an error or a child.\<close>

record VisitWork =
  vw_path :: string
  vw_parent_canonical :: "string option"
  vw_depth :: u32
  vw_listed_as_link :: bool

datatype WalkWork = Visit VisitWork | Leave | DirEntryError WalkError

definition canonicalize_path :: "FileSystem \<Rightarrow> string \<Rightarrow> string option" where
  "canonicalize_path fs path = map_option to_ascii_lowercase (ok (fv_resolve fs path))"

definition walk_error :: "string \<Rightarrow> CoreError \<Rightarrow> WalkItem" where
  "walk_error path e = Error \<lparr>we_path = path, we_error = e\<rparr>"

definition root_share_of :: "FileSystem \<Rightarrow> string \<Rightarrow> (string \<times> string) option" where
  "root_share_of fs path =
     (if is_remote_path path then
        (case Option.bind (fv_final fs path) parse_unc_components of
           Some sh \<Rightarrow> Some sh | None \<Rightarrow> parse_unc_components path)
      else None)"

record WalkRoot =
  wk_remote :: bool
  wk_share :: "(string \<times> string) option"

definition canonical_identity :: "FileSystem \<Rightarrow> VisitWork \<Rightarrow> bool \<Rightarrow> string" where
  "canonical_identity fs v is_reparse =
     (let path = vw_path v;
          resolved = (case canonicalize_path fs path of Some c \<Rightarrow> c | None \<Rightarrow> to_ascii_lowercase path)
      in case vw_parent_canonical v of
           None \<Rightarrow> resolved
         | Some parent \<Rightarrow>
             (if is_reparse then resolved
              else case map_option to_ascii_lowercase (fv_file_name fs path) of
                  Some name \<Rightarrow> parent @ bslash @ name
                | None \<Rightarrow> resolved))"

definition probe_of :: "FileSystem \<Rightarrow> WalkRoot \<Rightarrow> VisitWork \<Rightarrow> FileSystemObject \<Rightarrow> DirectoryProbe option" where
  "probe_of fs root v fso =
     (if wk_remote root \<and> fso_is_directory fso then Some (fv_probe fs (vw_path v)) else None)"

definition loop_key :: "FileSystem \<Rightarrow> WalkRoot \<Rightarrow> VisitWork \<Rightarrow> FileSystemObject \<Rightarrow> string" where
  "loop_key fs root v fso =
     select_loop_key (wk_remote root) (Option.bind (probe_of fs root v fso) dp_identity)
       (canonical_identity fs v (fso_is_reparse_point fso))"

definition linked_object :: "FileSystem \<Rightarrow> VisitWork \<Rightarrow> FileSystemObject \<Rightarrow> FileSystemObject" where
  "linked_object fs v fso =
     (if fso_link fso = None \<and> vw_listed_as_link v then fso\<lparr>fso_link := fv_link fs (vw_path v)\<rparr> else fso)"

definition identity_reason :: "DirectoryProbe option \<Rightarrow> string option" where
  "identity_reason probe =
     (case probe of None \<Rightarrow> None
      | Some p \<Rightarrow> if dp_identity p = None then dp_identity_error p else None)"

definition outside_share :: "WalkRoot \<Rightarrow> VisitWork \<Rightarrow> DirectoryProbe option \<Rightarrow> string option" where
  \<comment> \<open>The message of a directory that is served from another share than the root.\<close>
  "outside_share root v probe =
     (if vw_parent_canonical v = None then None
      else other_share_message (wk_share root) (Option.bind probe dp_final_path))"

definition reparse_stop :: "FileSystem \<Rightarrow> WalkRoot \<Rightarrow> VisitWork \<Rightarrow> FileSystemObject \<Rightarrow> CoreError option" where
  \<comment> \<open>Why the walk stops at a reparse point.\<close>
  "reparse_stop fs root v fso =
     (if fso_is_reparse_point fso then
        (case fv_resolve fs (vw_path v) of
           Inl os_error \<Rightarrow> Some (unresolved_reparse_error os_error (fso_link fso) (wk_remote root))
         | Inr raw \<Rightarrow>
             (let resolved = strip_long_path_prefix raw
              in if wk_remote root \<and> parse_unc_components resolved = None
                 then Some (local_resolution_error resolved (fso_link fso)) else None))
      else None)"

definition child_work :: "string \<Rightarrow> string \<Rightarrow> u32 \<Rightarrow> string + DirEntry \<Rightarrow> WalkWork" where
  "child_work path canonical depth entry =
     (case entry of
        Inl e \<Rightarrow> DirEntryError \<lparr>we_path = path, we_error = AccessDenied (''Directory entry error: '' @ e)\<rparr>
      | Inr d \<Rightarrow> Visit \<lparr>vw_path = dn_path d, vw_parent_canonical = Some canonical, vw_depth = depth + 1,
          vw_listed_as_link = dn_is_symlink d\<rparr>)"

definition depth_ok :: "WalkConfig \<Rightarrow> u32 \<Rightarrow> bool" where
  "depth_ok cfg depth = (case wc_max_depth cfg of None \<Rightarrow> True | Some limit \<Rightarrow> depth < limit)"

record Visited =
  vo_items :: "WalkItem list"
  vo_detector :: LoopDetector
  vo_work :: "WalkWork list"
    \<comment> \<open>What is pushed on the stack, the first to be popped first.\<close>

definition descend :: "FileSystem \<Rightarrow> WalkConfig \<Rightarrow> VisitWork \<Rightarrow> FileSystemObject \<Rightarrow> string option \<Rightarrow> string
    \<Rightarrow> WalkItem list \<times> WalkWork list" where
  \<comment> \<open>The part after a \<open>Fresh\<close> decision.\<close>
  "descend fs cfg v fso reason canonical =
     (if depth_ok cfg (vw_depth v) then
        (case fv_list fs (vw_path v) of
           Inl e \<Rightarrow> ([Object fso, walk_error (vw_path v) (AccessDenied (''Cannot enumerate directory: '' @ e))], [Leave])
         | Inr entries \<Rightarrow>
             ([Object (fso\<lparr>fso_identity_unknown := reason\<rparr>)],
              map (child_work (vw_path v) canonical (vw_depth v)) entries @ [Leave]))
      else ([Object fso], [Leave]))"

definition visit_directory :: "FileSystem \<Rightarrow> WalkConfig \<Rightarrow> WalkRoot \<Rightarrow> VisitWork \<Rightarrow> FileSystemObject \<Rightarrow> LoopDetector
    \<Rightarrow> Visited" where
  "visit_directory fs cfg root v fso det =
     (let probe = probe_of fs root v fso;
          canonical = canonical_identity fs v (fso_is_reparse_point fso);
          keyed_by_file_id = (wk_remote root \<and> Option.bind probe dp_identity \<noteq> None)
      in case enter det (loop_key fs root v fso) (vw_path v) of
           (Cycle ancestor_path, det) \<Rightarrow>
             \<lparr>vo_items = [Object fso, walk_error (vw_path v)
                (ReparseCycle (''Reparse point target is an ancestor of the current traversal chain '' @ em_dash
       @ '' descending would loop forever; recursion stopped at this junction/link. ''
       @ ''Target: '' @ strip_long_path_prefix ancestor_path
       @ ''. The object itself is in the result with its DACL.''))],
              vo_detector = det, vo_work = []\<rparr>
         | (DuplicateTarget first_path, det) \<Rightarrow>
             \<lparr>vo_items = [Object fso, walk_error (vw_path v) (ReparseDuplicateTarget (duplicate_route_message first_path
                (classify_route (wk_remote root) keyed_by_file_id (fso_is_reparse_point fso) canonical)))],
              vo_detector = det, vo_work = []\<rparr>
         | (Fresh, det) \<Rightarrow>
             (let (items, work) = descend fs cfg v fso (identity_reason probe) canonical
              in \<lparr>vo_items = items, vo_detector = det, vo_work = work\<rparr>))"

definition visit :: "FileSystem \<Rightarrow> WalkConfig \<Rightarrow> WalkRoot \<Rightarrow> VisitWork \<Rightarrow> LoopDetector \<Rightarrow> Visited" where
  \<comment> \<open>The body of the loop for one \<open>Visit\<close>.\<close>
  "visit fs cfg root v det =
     (case fv_read fs (vw_path v) of
        Inl e \<Rightarrow> \<lparr>vo_items = [walk_error (vw_path v) e], vo_detector = det, vo_work = []\<rparr>
      | Inr read_object \<Rightarrow>
          (let fso = linked_object fs v read_object
           in case outside_share root v (probe_of fs root v fso) of
                Some message \<Rightarrow>
                  \<lparr>vo_items = [walk_error (vw_path v) (OtherShare message)], vo_detector = det, vo_work = []\<rparr>
              | None \<Rightarrow>
             (case reparse_stop fs root v fso of
                Some e \<Rightarrow> \<lparr>vo_items = [Object fso, walk_error (vw_path v) e], vo_detector = det, vo_work = []\<rparr>
              | None \<Rightarrow>
                  (if \<not> fso_is_directory fso then \<lparr>vo_items = [Object fso], vo_detector = det, vo_work = []\<rparr>
                   else visit_directory fs cfg root v fso det))))"

section \<open>The loop\<close>

record WalkState =
  ws_stack :: "WalkWork list"
    \<comment> \<open>The top of the stack first.\<close>
  ws_detector :: LoopDetector
  ws_items :: "WalkItem list"
    \<comment> \<open>What \<open>on_item\<close> has received, in order.\<close>
  ws_polls :: nat
    \<comment> \<open>how often the cancellation flag has been read.\<close>
  ws_stopped :: bool

definition walk_step :: "FileSystem \<Rightarrow> WalkConfig \<Rightarrow> WalkRoot \<Rightarrow> (nat \<Rightarrow> bool) \<Rightarrow> WalkState \<Rightarrow> WalkState" where
  "walk_step fs cfg root cancel s =
     (case ws_stack s of
        [] \<Rightarrow> s
      | work # stack \<Rightarrow>
          (let polled = s\<lparr>ws_stack := stack, ws_polls := ws_polls s + 1\<rparr>
           in if cancel (ws_polls s) then polled\<lparr>ws_stopped := True\<rparr>
              else case work of
                  Leave \<Rightarrow> polled\<lparr>ws_detector := leave (ws_detector s)\<rparr>
                | DirEntryError e \<Rightarrow> polled\<lparr>ws_items := ws_items s @ [Error e]\<rparr>
                | Visit v \<Rightarrow>
                    (let out = visit fs cfg root v (ws_detector s)
                     in polled\<lparr>ws_items := ws_items s @ vo_items out, ws_detector := vo_detector out,
                          ws_stack := vo_work out @ stack\<rparr>)))"

definition walk_goes_on :: "WalkState \<Rightarrow> bool" where
  "walk_goes_on s \<longleftrightarrow> \<not> ws_stopped s \<and> ws_stack s \<noteq> []"

definition tree_start :: "string \<Rightarrow> WalkState" where
  "tree_start path =
     \<lparr>ws_stack = [Visit \<lparr>vw_path = path, vw_parent_canonical = None, vw_depth = 0, vw_listed_as_link = False\<rparr>],
      ws_detector = new_detector, ws_items = [], ws_polls = 0, ws_stopped = False\<rparr>"

definition walk_root :: "FileSystem \<Rightarrow> string \<Rightarrow> WalkRoot" where
  "walk_root fs path = \<lparr>wk_remote = is_remote_path path, wk_share = root_share_of fs path\<rparr>"

definition walk_dir :: "FileSystem \<Rightarrow> WalkConfig \<Rightarrow> (nat \<Rightarrow> bool) \<Rightarrow> string \<Rightarrow> WalkState option" where
  \<comment> \<open>\<open>None\<close>: the loop does not end.\<close>
  "walk_dir fs cfg cancel path =
     while_option walk_goes_on (walk_step fs cfg (walk_root fs path) cancel) (tree_start path)"

definition walk_tree_streaming ::
  "FileSystem \<Rightarrow> WalkConfig \<Rightarrow> (nat \<Rightarrow> bool) \<Rightarrow> string \<Rightarrow> (WalkItem list \<times> bool) option" where
  \<comment> \<open>The items in the order of the callback, and the flag read once more at the end.\<close>
  "walk_tree_streaming fs cfg cancel path =
     map_option (\<lambda>s. (ws_items s, cancel (ws_polls s))) (walk_dir fs cfg cancel path)"

definition walk_tree :: "FileSystem \<Rightarrow> WalkConfig \<Rightarrow> (nat \<Rightarrow> bool) \<Rightarrow> string \<Rightarrow> WalkResult option" where
  "walk_tree fs cfg cancel path =
     map_option (\<lambda>(items, cancelled).
         \<lparr>wr_objects = filter_map (\<lambda>i. case i of Object obj \<Rightarrow> Some obj | Error _ \<Rightarrow> None) items,
          wr_errors = filter_map (\<lambda>i. case i of Error e \<Rightarrow> Some e | Object _ \<Rightarrow> None) items,
          wr_cancelled = cancelled\<rparr>)
       (walk_tree_streaming fs cfg cancel path)"

end
