(* ===== verification/Walker_Results.thy ===== *)
theory Walker_Results
  imports Walker
begin

text \<open>
  What a walk guarantees: it ends, it leaves out nothing without saying so, it lists no directory
  twice, and the cycles it reports are cycles.

  A directory is \<^emph>\<open>entered\<close> when the loop detection decides \<open>Fresh\<close>; the proofs carry the list of the
  entered directories with their loop keys beside the state of the loop.
\<close>

section \<open>The work a directory gives rise to\<close>

definition object_of :: "FileSystem \<Rightarrow> VisitWork \<Rightarrow> FileSystemObject option" where
  "object_of fs v = map_option (linked_object fs v) (ok (fv_read fs (vw_path v)))"

definition listed_work :: "FileSystem \<Rightarrow> WalkConfig \<Rightarrow> VisitWork \<Rightarrow> WalkWork list" where
  \<comment> \<open>One piece of work for every entry of the directory; none at the depth limit.\<close>
  "listed_work fs cfg v =
     (case (object_of fs v, fv_list fs (vw_path v)) of
        (Some fso, Inr entries) \<Rightarrow>
          (if depth_ok cfg (vw_depth v)
           then map (child_work (vw_path v) (canonical_identity fs v (fso_is_reparse_point fso)) (vw_depth v)) entries
           else [])
      | _ \<Rightarrow> [])"

definition root_visit :: "string \<Rightarrow> VisitWork" where
  "root_visit path = \<lparr>vw_path = path, vw_parent_canonical = None, vw_depth = 0, vw_listed_as_link = False\<rparr>"

type_synonym Entered = "(string \<times> VisitWork) list"

definition found :: "FileSystem \<Rightarrow> WalkConfig \<Rightarrow> string \<Rightarrow> Entered \<Rightarrow> WalkWork list" where
  \<comment> \<open>The root, and the entries of every entered directory.\<close>
  "found fs cfg path entered = Visit (root_visit path) # concat (map (listed_work fs cfg \<circ> snd) entered)"

lemma found_snoc [simp]: "found fs cfg path (entered @ [(k, v)]) = found fs cfg path entered @ listed_work fs cfg v"
  by (simp add: found_def)

lemma no_leave_listed: "Leave \<notin> set (listed_work fs cfg v)"
  by (auto simp: listed_work_def child_work_def split: option.splits sum.splits if_splits)

lemma no_leave_found: "Leave \<notin> set (found fs cfg path entered)"
  using no_leave_listed by (auto simp: found_def)

section \<open>What accounts for a piece of work\<close>

definition came_before :: "WalkItem list \<Rightarrow> string \<Rightarrow> bool" where
  \<comment> \<open>The walk says that this path leads to a directory it has already entered.\<close>
  "came_before items path \<longleftrightarrow>
     (\<exists>m. walk_error path (ReparseCycle m) \<in> set items \<or> walk_error path (ReparseDuplicateTarget m) \<in> set items)"

definition directory_accounted :: "FileSystem \<Rightarrow> WalkRoot \<Rightarrow> WalkItem list \<Rightarrow> Entered \<Rightarrow> VisitWork \<Rightarrow> FileSystemObject \<Rightarrow> bool" where
  "directory_accounted fs root items entered v fso \<longleftrightarrow>
     (\<exists>reason. Object (fso\<lparr>fso_identity_unknown := reason\<rparr>) \<in> set items)
     \<and> (\<exists>w. (loop_key fs root v fso, w) \<in> set entered \<and> (w = v \<or> came_before items (vw_path v)))"

definition visit_accounted :: "FileSystem \<Rightarrow> WalkRoot \<Rightarrow> WalkItem list \<Rightarrow> Entered \<Rightarrow> VisitWork \<Rightarrow> bool" where
  "visit_accounted fs root items entered v \<longleftrightarrow>
     (case fv_read fs (vw_path v) of
        Inl e \<Rightarrow> walk_error (vw_path v) e \<in> set items
      | Inr read_object \<Rightarrow>
          (let fso = linked_object fs v read_object
           in case outside_share root v (probe_of fs root v fso) of
                Some m \<Rightarrow> walk_error (vw_path v) (OtherShare m) \<in> set items
              | None \<Rightarrow>
             (case reparse_stop fs root v fso of
                Some e \<Rightarrow> Object fso \<in> set items \<and> walk_error (vw_path v) e \<in> set items
              | None \<Rightarrow> (if fso_is_directory fso then directory_accounted fs root items entered v fso
                         else Object fso \<in> set items))))"

definition work_accounted :: "FileSystem \<Rightarrow> WalkRoot \<Rightarrow> WalkItem list \<Rightarrow> Entered \<Rightarrow> WalkWork \<Rightarrow> bool" where
  "work_accounted fs root items entered work =
     (case work of Leave \<Rightarrow> True | DirEntryError e \<Rightarrow> Error e \<in> set items
      | Visit v \<Rightarrow> visit_accounted fs root items entered v)"

definition entered_accounted :: "FileSystem \<Rightarrow> WalkConfig \<Rightarrow> WalkRoot \<Rightarrow> WalkItem list \<Rightarrow> string \<times> VisitWork \<Rightarrow> bool" where
  \<comment> \<open>An entered directory is listed, or its listing error is stated, or it is at the depth limit.\<close>
  "entered_accounted fs cfg root items entry =
     (case entry of (k, v) \<Rightarrow>
        (\<exists>fso. object_of fs v = Some fso \<and> fso_is_directory fso \<and> k = loop_key fs root v fso)
        \<and> (case fv_list fs (vw_path v) of
             Inr _ \<Rightarrow> True
           | Inl e \<Rightarrow> \<not> depth_ok cfg (vw_depth v)
               \<or> (\<exists>m. walk_error (vw_path v) (AccessDenied m) \<in> set items)))"

definition item_from :: "FileSystem \<Rightarrow> WalkWork \<Rightarrow> WalkItem \<Rightarrow> bool" where
  \<comment> \<open>The item is about this piece of work.\<close>
  "item_from fs work item =
     (case (work, item) of
        (DirEntryError e, Error e') \<Rightarrow> e' = e
      | (Visit v, Error e) \<Rightarrow> we_path e = vw_path v
      | (Visit v, Object obj) \<Rightarrow>
          (\<exists>fso reason. object_of fs v = Some fso \<and> obj = fso\<lparr>fso_identity_unknown := reason\<rparr>)
      | _ \<Rightarrow> False)"

lemma came_before_mono: "came_before items path \<Longrightarrow> came_before (items @ later) path"
  by (auto simp: came_before_def)

lemma visit_accounted_mono:
  "visit_accounted fs root items entered v \<Longrightarrow> visit_accounted fs root (items @ later) (entered @ further) v"
  by (auto simp: visit_accounted_def directory_accounted_def Let_def came_before_mono
      split: sum.splits option.splits if_splits)

lemma work_accounted_mono:
  "work_accounted fs root items entered work \<Longrightarrow> work_accounted fs root (items @ later) (entered @ further) work"
  by (auto simp: work_accounted_def visit_accounted_mono split: WalkWork.splits)

lemma entered_accounted_mono:
  "entered_accounted fs cfg root items entry \<Longrightarrow> entered_accounted fs cfg root (items @ later) entry"
  by (auto simp: entered_accounted_def split: prod.splits sum.splits)

section \<open>One visit\<close>

definition knows :: "LoopDetector \<Rightarrow> string \<Rightarrow> bool" where
  "knows det key \<longleftrightarrow> key \<in> fst ` set (ld_chain det) \<or> ld_seen_first_path det key \<noteq> None"

lemma enter_cases:
  obtains (cycle) p where "enter det key path = (Cycle p, det)" "(key, p) \<in> set (ld_chain det)"
  | (duplicate) p where "enter det key path = (DuplicateTarget p, det)" "ld_seen_first_path det key = Some p"
  | (fresh) "enter det key path = (Fresh, det\<lparr>ld_seen_first_path := (ld_seen_first_path det)(key \<mapsto> path),
       ld_chain := ld_chain det @ [(key, path)]\<rparr>)" "\<not> knows det key"
proof (cases "find (\<lambda>e. fst e = key) (ld_chain det)")
  case (Some e)
  then have "fst e = key" "e \<in> set (ld_chain det)" by (auto simp: find_Some_iff in_set_conv_nth)
  then show ?thesis using Some cycle [of "snd e"] by (cases e) (auto simp: enter_def)
next
  case None
  then have "key \<notin> fst ` set (ld_chain det)" by (auto simp: find_None_iff)
  then show ?thesis using None duplicate fresh
    by (cases "ld_seen_first_path det key") (auto simp: enter_def knows_def)
qed

definition entered_by :: "FileSystem \<Rightarrow> WalkConfig \<Rightarrow> WalkRoot \<Rightarrow> VisitWork \<Rightarrow> LoopDetector \<Rightarrow> FileSystemObject \<Rightarrow> bool" where
  \<comment> \<open>The visit enters its directory.\<close>
  "entered_by fs cfg root v det fso \<longleftrightarrow>
     object_of fs v = Some fso \<and> fso_is_directory fso \<and> \<not> knows det (loop_key fs root v fso)
     \<and> vo_detector (visit fs cfg root v det) = det\<lparr>
          ld_seen_first_path := (ld_seen_first_path det)(loop_key fs root v fso \<mapsto> vw_path v),
          ld_chain := ld_chain det @ [(loop_key fs root v fso, vw_path v)]\<rparr>
     \<and> vo_work (visit fs cfg root v det) = listed_work fs cfg v @ [Leave]"

lemma unchanged_object: "\<exists>reason. fso = fso\<lparr>fso_identity_unknown := reason\<rparr>"
  by (rule exI [of _ "fso_identity_unknown fso"]) simp

lemma descend_work:
  assumes "object_of fs v = Some fso"
    and "descend fs cfg v fso reason (canonical_identity fs v (fso_is_reparse_point fso)) = (items, work)"
  shows "work = listed_work fs cfg v @ [Leave]"
    "\<exists>reason. Object (fso\<lparr>fso_identity_unknown := reason\<rparr>) \<in> set items"
    "fv_list fs (vw_path v) = Inl e \<Longrightarrow> depth_ok cfg (vw_depth v) \<Longrightarrow> \<exists>m. walk_error (vw_path v) (AccessDenied m) \<in> set items"
proof -
  show "work = listed_work fs cfg v @ [Leave]"
    using assms by (auto simp: descend_def listed_work_def split: if_splits sum.splits)
  have "items \<noteq> [] \<and> (hd items = Object fso \<or> (\<exists>reason. hd items = Object (fso\<lparr>fso_identity_unknown := reason\<rparr>)))"
    using assms(2) by (auto simp: descend_def split: if_splits sum.splits)
  then show "\<exists>reason. Object (fso\<lparr>fso_identity_unknown := reason\<rparr>) \<in> set items"
    using unchanged_object by (metis hd_in_set)
  show "\<exists>m. walk_error (vw_path v) (AccessDenied m) \<in> set items"
    if "fv_list fs (vw_path v) = Inl e" "depth_ok cfg (vw_depth v)"
    using assms(2) that by (auto simp: descend_def)
qed

lemma object_of_Inr: "fv_read fs (vw_path v) = Inr obj \<Longrightarrow> object_of fs v = Some (linked_object fs v obj)"
  by (simp add: object_of_def ok_def)

lemma item_from_unchanged: "object_of fs v = Some fso \<Longrightarrow> item_from fs (Visit v) (Object fso)"
  using unchanged_object [of fso] by (auto simp: item_from_def)

lemma item_from_visit:
  "object_of fs v = Some fso \<Longrightarrow> item_from fs (Visit v) (Object (fso\<lparr>fso_identity_unknown := reason\<rparr>))"
  "item_from fs (Visit v) (walk_error (vw_path v) e)"
  by (auto simp: item_from_def walk_error_def)

lemma visit_items_from: "item \<in> set (vo_items (visit fs cfg root v det)) \<Longrightarrow> item_from fs (Visit v) item"
  by (auto simp: visit_def visit_directory_def descend_def Let_def item_from_visit item_from_unchanged object_of_Inr
      split: sum.splits option.splits if_splits prod.splits DescendDecision.splits)

lemma visit_directory_cases:
  assumes "fv_read fs (vw_path v) = Inr obj" and fso: "fso = linked_object fs v obj"
    and "outside_share root v (probe_of fs root v fso) = None" and "reparse_stop fs root v fso = None"
    and "fso_is_directory fso"
    and known: "\<forall>key. knows det key \<longrightarrow> key \<in> fst ` set entered"
    and out_def: "out = visit fs cfg root v det"
  shows "vo_detector out = det \<and> vo_work out = [] \<and> visit_accounted fs root (items @ vo_items out) entered v
    \<or> entered_by fs cfg root v det fso
      \<and> visit_accounted fs root (items @ vo_items out) (entered @ [(loop_key fs root v fso, v)]) v
      \<and> entered_accounted fs cfg root (items @ vo_items out) (loop_key fs root v fso, v)"
proof -
  have out: "out = visit_directory fs cfg root v fso det"
    using assms(1-5) by (simp add: out_def visit_def Let_def)
  have acc: "visit_accounted fs root its ent v = directory_accounted fs root its ent v fso" for its ent
    using assms(1-5) by (simp add: visit_accounted_def Let_def)
  have object: "\<exists>reason. Object (fso\<lparr>fso_identity_unknown := reason\<rparr>) \<in> set its" if "Object fso \<in> set its" for its
    using that unchanged_object by metis
  show ?thesis
  proof (cases rule: enter_cases [of det "loop_key fs root v fso" "vw_path v"])
    case (cycle p)
    then have "knows det (loop_key fs root v fso)" by (force simp: knows_def)
    then obtain w where "(loop_key fs root v fso, w) \<in> set entered" using known by fastforce
    moreover have "Object fso \<in> set (vo_items out) \<and> came_before (items @ vo_items out) (vw_path v)"
      using cycle by (auto simp: out visit_directory_def Let_def came_before_def)
    ultimately have "directory_accounted fs root (items @ vo_items out) entered v fso"
      unfolding directory_accounted_def using object [of "items @ vo_items out"] by auto
    then show ?thesis using cycle by (simp add: acc) (simp add: out visit_directory_def Let_def)
  next
    case (duplicate p)
    then have "knows det (loop_key fs root v fso)" by (simp add: knows_def)
    then obtain w where "(loop_key fs root v fso, w) \<in> set entered" using known by fastforce
    moreover have "Object fso \<in> set (vo_items out) \<and> came_before (items @ vo_items out) (vw_path v)"
      using duplicate by (auto simp: out visit_directory_def Let_def came_before_def)
    ultimately have "directory_accounted fs root (items @ vo_items out) entered v fso"
      unfolding directory_accounted_def using object [of "items @ vo_items out"] by auto
    then show ?thesis using duplicate by (simp add: acc) (simp add: out visit_directory_def Let_def)
  next
    case fresh
    obtain its work where d: "descend fs cfg v fso (identity_reason (probe_of fs root v fso))
        (canonical_identity fs v (fso_is_reparse_point fso)) = (its, work)" by fastforce
    have obj: "object_of fs v = Some fso" using assms(1) fso by (simp add: object_of_Inr)
    note w = descend_work [OF obj d]
    have o: "vo_items out = its" "vo_work out = work"
      using fresh d by (simp_all add: out visit_directory_def Let_def)
    have "entered_by fs cfg root v det fso"
      using fresh d w(1) obj assms(5) out by (simp add: entered_by_def out_def visit_directory_def Let_def)
    moreover have "directory_accounted fs root (items @ vo_items out) (entered @ [(loop_key fs root v fso, v)]) v fso"
      using w(2) o by (auto simp: directory_accounted_def)
    moreover have "entered_accounted fs cfg root (items @ vo_items out) (loop_key fs root v fso, v)"
      using w(3) o obj assms(5) by (auto simp: entered_accounted_def split: sum.split)
    ultimately show ?thesis by (simp add: acc)
  qed
qed

lemma visit_cases:
  assumes known: "\<forall>key. knows det key \<longrightarrow> key \<in> fst ` set entered"
    and out_def: "out = visit fs cfg root v det"
  shows "vo_detector out = det \<and> vo_work out = [] \<and> visit_accounted fs root (items @ vo_items out) entered v
    \<or> (\<exists>fso. entered_by fs cfg root v det fso
      \<and> visit_accounted fs root (items @ vo_items out) (entered @ [(loop_key fs root v fso, v)]) v
      \<and> entered_accounted fs cfg root (items @ vo_items out) (loop_key fs root v fso, v))"
proof (cases "fv_read fs (vw_path v)")
  case (Inl e)
  then show ?thesis by (simp add: out_def visit_def visit_accounted_def)
next
  case (Inr obj)
  define fso where "fso = linked_object fs v obj"
  note d = Inr fso_def [symmetric]
  consider m where "outside_share root v (probe_of fs root v fso) = Some m"
    | e where "outside_share root v (probe_of fs root v fso) = None" "reparse_stop fs root v fso = Some e"
    | "outside_share root v (probe_of fs root v fso) = None" "reparse_stop fs root v fso = None" "\<not> fso_is_directory fso"
    | "outside_share root v (probe_of fs root v fso) = None" "reparse_stop fs root v fso = None" "fso_is_directory fso"
    by fastforce
  then show ?thesis
  proof cases
    case 4
    from visit_directory_cases [OF Inr fso_def 4 known out_def, of items] show ?thesis by blast
  qed (use d in \<open>simp_all add: out_def visit_def visit_accounted_def Let_def\<close>)
qed

section \<open>The invariant of the loop\<close>

definition tree_inv ::
  "FileSystem \<Rightarrow> WalkConfig \<Rightarrow> WalkRoot \<Rightarrow> string \<Rightarrow> Entered \<Rightarrow> WalkState \<Rightarrow> bool" where
  "tree_inv fs cfg root path entered s \<longleftrightarrow>
     distinct (map fst entered)
     \<and> (\<forall>key. ld_seen_first_path (ws_detector s) key = map_option vw_path (map_of entered key))
     \<and> fst ` set (ld_chain (ws_detector s)) \<subseteq> fst ` set entered
     \<and> (\<forall>work \<in> set (found fs cfg path entered). work \<in> set (ws_stack s) \<or> work_accounted fs root (ws_items s) entered work)
     \<and> set (ws_stack s) \<subseteq> insert Leave (set (found fs cfg path entered))
     \<and> (\<forall>item \<in> set (ws_items s). \<exists>work \<in> set (found fs cfg path entered). item_from fs work item)
     \<and> (\<forall>entry \<in> set entered. entered_accounted fs cfg root (ws_items s) entry
          \<and> Visit (snd entry) \<in> set (found fs cfg path entered))"

lemma tree_inv_start: "tree_inv fs cfg root path [] (tree_start path)"
  by (simp add: tree_inv_def tree_start_def found_def root_visit_def new_detector_def)

lemma tree_inv_knows:
  assumes "tree_inv fs cfg root path entered s"
  shows "knows (ws_detector s) key \<longleftrightarrow> key \<in> fst ` set entered"
proof -
  have "ld_seen_first_path (ws_detector s) key \<noteq> None \<longleftrightarrow> key \<in> fst ` set entered"
    using assms by (simp add: tree_inv_def map_of_eq_None_iff)
  then show ?thesis using assms by (auto simp: tree_inv_def knows_def)
qed

lemma found_mono: "set (found fs cfg path entered) \<subseteq> set (found fs cfg path (entered @ further))"
  by (auto simp: found_def)

lemma tree_inv_quiet:
  \<comment> \<open>A step that takes one piece of work off the stack and accounts for it.\<close>
  assumes inv: "tree_inv fs cfg root path entered s" and stack: "ws_stack s = work # stack"
    and det: "ld_seen_first_path (ws_detector s') = ld_seen_first_path (ws_detector s)"
      "set (ld_chain (ws_detector s')) \<subseteq> set (ld_chain (ws_detector s))"
    and later: "ws_stack s' = stack" "ws_items s' = ws_items s @ later"
    and done_work: "work_accounted fs root (ws_items s @ later) entered work" "\<forall>item \<in> set later. item_from fs work item"
  shows "tree_inv fs cfg root path entered s'"
proof -
  have "u \<in> set (ws_stack s') \<or> work_accounted fs root (ws_items s') entered u"
    if "u \<in> set (found fs cfg path entered)" for u
    using that inv stack later done_work(1) work_accounted_mono [of fs root "ws_items s" entered u later "[]"]
    by (auto simp: tree_inv_def)
  moreover have "entered_accounted fs cfg root (ws_items s') entry" if "entry \<in> set entered" for entry
    using that inv entered_accounted_mono [of fs cfg root "ws_items s" entry later] later(2) by (auto simp: tree_inv_def)
  moreover have "fst ` set (ld_chain (ws_detector s')) \<subseteq> fst ` set entered"
    using inv det(2) unfolding tree_inv_def by (meson image_mono order_trans)
  moreover have "set (ws_stack s') \<subseteq> insert Leave (set (found fs cfg path entered))"
    using inv stack later(1) by (simp add: tree_inv_def)
  moreover have "work \<noteq> Leave \<Longrightarrow> work \<in> set (found fs cfg path entered)" and "later \<noteq> [] \<Longrightarrow> work \<noteq> Leave"
    using inv stack done_work(2) by (auto simp: tree_inv_def item_from_def neq_Nil_conv)
  then have "\<exists>work \<in> set (found fs cfg path entered). item_from fs work item" if "item \<in> set (ws_items s')" for item
    using that inv later(2) done_work(2) by (cases "item \<in> set later") (force simp: tree_inv_def)+
  ultimately show ?thesis using inv det(1) unfolding tree_inv_def by simp
qed

lemma map_of_snoc: "k \<notin> fst ` set entered \<Longrightarrow> map_of (entered @ [(k, v)]) = (map_of entered)(k \<mapsto> v)"
proof -
  assume "k \<notin> fst ` set entered"
  then have "map_of entered k = None" by (simp add: map_of_eq_None_iff)
  then show ?thesis by (auto simp: fun_eq_iff map_add_def split: option.split)
qed

lemma tree_inv_enter:
  assumes inv: "tree_inv fs cfg root path entered s" and stack: "ws_stack s = Visit v # stack"
    and enters: "entered_by fs cfg root v (ws_detector s) fso"
    and det: "ws_detector s' = vo_detector (visit fs cfg root v (ws_detector s))"
    and later: "ws_stack s' = vo_work (visit fs cfg root v (ws_detector s)) @ stack" "ws_items s' = ws_items s @ later"
    and items: "\<forall>item \<in> set later. item_from fs (Visit v) item"
    and acc: "visit_accounted fs root (ws_items s @ later) (entered @ [(loop_key fs root v fso, v)]) v"
      "entered_accounted fs cfg root (ws_items s @ later) (loop_key fs root v fso, v)"
  shows "tree_inv fs cfg root path (entered @ [(loop_key fs root v fso, v)]) s'"
proof -
  let ?k = "loop_key fs root v fso" and ?entered = "entered @ [(loop_key fs root v fso, v)]"
  have fresh: "?k \<notin> fst ` set entered"
    using enters tree_inv_knows [OF inv] by (simp add: entered_by_def)
  have d: "ws_detector s' = (ws_detector s)\<lparr>ld_seen_first_path := (ld_seen_first_path (ws_detector s))(?k \<mapsto> vw_path v),
      ld_chain := ld_chain (ws_detector s) @ [(?k, vw_path v)]\<rparr>"
    and work: "ws_stack s' = listed_work fs cfg v @ Leave # stack"
    using enters det later(1) by (simp_all add: entered_by_def)
  have v: "Visit v \<in> set (found fs cfg path entered)"
    using inv stack by (auto simp: tree_inv_def)
  have "distinct (map fst ?entered)" using inv fresh by (simp add: tree_inv_def)
  moreover have "ld_seen_first_path (ws_detector s') key = map_option vw_path (map_of ?entered key)" for key
    using inv fresh d map_of_snoc [of ?k entered v] by (auto simp: tree_inv_def)
  moreover have "fst ` set (ld_chain (ws_detector s')) \<subseteq> fst ` set ?entered"
    using inv d by (auto simp: tree_inv_def)
  moreover have "u \<in> set (ws_stack s') \<or> work_accounted fs root (ws_items s') ?entered u"
    if "u \<in> set (found fs cfg path ?entered)" for u
  proof -
    from that consider "u \<in> set (listed_work fs cfg v)" | "u \<in> set (found fs cfg path entered)" by auto
    then show ?thesis
    proof cases
      case 2
      then consider "u = Visit v" | "u \<in> set stack" | "work_accounted fs root (ws_items s) entered u"
        using inv stack by (auto simp: tree_inv_def)
      then show ?thesis
        using acc(1) later(2) work work_accounted_mono [of fs root "ws_items s" entered u later "[(?k, v)]"]
        by cases (auto simp: work_accounted_def)
    qed (use work in simp)
  qed
  moreover have "set (ws_stack s') \<subseteq> insert Leave (set (found fs cfg path ?entered))"
    using inv stack work by (auto simp: tree_inv_def)
  moreover have "\<exists>work \<in> set (found fs cfg path ?entered). item_from fs work item" if "item \<in> set (ws_items s')" for item
  proof (cases "item \<in> set later")
    case True
    then show ?thesis using items v by (auto intro: bexI [of _ "Visit v"])
  next
    case False
    then show ?thesis using that inv later(2) by (auto simp: tree_inv_def)
  qed
  moreover have "entered_accounted fs cfg root (ws_items s') entry \<and> Visit (snd entry) \<in> set (found fs cfg path ?entered)"
    if "entry \<in> set ?entered" for entry
    using that inv acc(2) v later(2) entered_accounted_mono [of fs cfg root "ws_items s" entry later]
    by (auto simp: tree_inv_def)
  ultimately show ?thesis unfolding tree_inv_def by blast
qed

lemma leave_chain: "set (ld_chain (leave det)) \<subseteq> set (ld_chain det)" "ld_seen_first_path (leave det) = ld_seen_first_path det"
  by (auto simp: leave_def dest: in_set_butlastD)

lemma tree_inv_step:
  assumes inv: "tree_inv fs cfg root path entered s" and go: "walk_goes_on s"
    and going: "\<not> ws_stopped (walk_step fs cfg root cancel s)"
  shows "\<exists>further. tree_inv fs cfg root path (entered @ further) (walk_step fs cfg root cancel s)"
proof -
  obtain work stack where stack: "ws_stack s = work # stack" using go by (cases "ws_stack s") (auto simp: walk_goes_on_def)
  have run: "\<not> cancel (ws_polls s)" using going stack by (auto simp: walk_step_def Let_def split: if_splits)
  show ?thesis
  proof (cases work)
    case Leave
    then have "tree_inv fs cfg root path entered (walk_step fs cfg root cancel s)"
      using run stack leave_chain [of "ws_detector s"]
      by (intro tree_inv_quiet [OF inv stack, where later = "[]"]) (simp_all add: walk_step_def Let_def work_accounted_def visit_items_from)
    then show ?thesis by (metis append_Nil2)
  next
    case (DirEntryError e)
    then have "tree_inv fs cfg root path entered (walk_step fs cfg root cancel s)"
      using run stack
      by (intro tree_inv_quiet [OF inv stack, where later = "[Error e]"]) (simp_all add: walk_step_def Let_def work_accounted_def item_from_def)
    then show ?thesis by (metis append_Nil2)
  next
    case (Visit v)
    let ?out = "visit fs cfg root v (ws_detector s)"
    have known: "\<forall>key. knows (ws_detector s) key \<longrightarrow> key \<in> fst ` set entered"
      using tree_inv_knows [OF inv] by blast
    from visit_cases [OF known refl, of fs cfg root v "ws_items s"]
    consider (quiet) "vo_detector ?out = ws_detector s" "vo_work ?out = []"
        "visit_accounted fs root (ws_items s @ vo_items ?out) entered v"
      | (enters) fso where "entered_by fs cfg root v (ws_detector s) fso"
        "visit_accounted fs root (ws_items s @ vo_items ?out) (entered @ [(loop_key fs root v fso, v)]) v"
        "entered_accounted fs cfg root (ws_items s @ vo_items ?out) (loop_key fs root v fso, v)"
      by blast
    then show ?thesis
    proof cases
      case quiet
      then have "tree_inv fs cfg root path entered (walk_step fs cfg root cancel s)"
        using run stack Visit
        by (intro tree_inv_quiet [OF inv stack, where later = "vo_items ?out"])
          (simp_all add: walk_step_def Let_def work_accounted_def visit_items_from)
      then show ?thesis by (metis append_Nil2)
    next
      case (enters fso)
      then have "tree_inv fs cfg root path (entered @ [(loop_key fs root v fso, v)]) (walk_step fs cfg root cancel s)"
        using run stack Visit
        by (intro tree_inv_enter [OF inv, where later = "vo_items ?out"]) (simp_all add: walk_step_def Let_def visit_items_from)
      then show ?thesis by blast
    qed
  qed
qed

section \<open>A sample: a directory with a file and a junction to the directory itself\<close>

definition sample_node :: "string \<Rightarrow> FileSystemObject" where
  "sample_node path =
     \<lparr>fso_path = path, fso_is_directory = (path \<noteq> ''f''), fso_owner_sid = None, fso_dacl = [],
      fso_inheritance_disabled = False, fso_is_reparse_point = (path = ''l''), fso_unsupported_aces = [],
      fso_null_dacl = False, fso_sd_hash = None, fso_link = None, fso_identity_unknown = None\<rparr>"

definition sample_fs :: FileSystem where
  "sample_fs =
     \<lparr>fv_read = (\<lambda>p. Inr (sample_node p)), fv_link = (\<lambda>_. None),
      fv_probe = (\<lambda>_. \<lparr>dp_identity = None, dp_identity_error = None, dp_final_path = None\<rparr>),
      fv_final = (\<lambda>_. None), fv_resolve = (\<lambda>_. Inr ''d''), fv_file_name = Some,
      fv_list = (\<lambda>p. if p = ''f'' then Inl ''not a directory''
        else Inr [Inr \<lparr>dn_path = ''f'', dn_is_symlink = False\<rparr>, Inr \<lparr>dn_path = ''l'', dn_is_symlink = True\<rparr>])\<rparr>"

abbreviation no_limit :: WalkConfig where "no_limit \<equiv> \<lparr>wc_max_depth = None\<rparr>"

definition sample_outcome :: "(WalkItem list \<times> bool) option \<Rightarrow> bool" where
  "sample_outcome r =
     (case r of None \<Rightarrow> False
      | Some (items, cancelled) \<Rightarrow> \<not> cancelled
          \<and> map (\<lambda>i. case i of Object obj \<Rightarrow> fso_path obj | Error e \<Rightarrow> we_path e) items = [''d'', ''f'', ''l'', ''l''])"

lemma sample_walk:
  "\<exists>items. walk_tree_streaming sample_fs no_limit (\<lambda>_. False) ''d'' = Some (items, False)
     \<and> map (\<lambda>i. case i of Object obj \<Rightarrow> fso_path obj | Error e \<Rightarrow> we_path e) items = [''d'', ''f'', ''l'', ''l'']"
proof -
  have "sample_outcome (walk_tree_streaming sample_fs no_limit (\<lambda>_. False) ''d'')" by code_simp
  then show ?thesis by (auto simp: sample_outcome_def split: option.split_asm prod.split_asm)
qed

lemma sample_walk_length:
  "\<exists>items. walk_tree_streaming sample_fs no_limit (\<lambda>_. False) ''d'' = Some (items, False) \<and> length items = 4"
  using sample_walk by (auto dest: arg_cong [where f = length])

section \<open>A walk that was not cancelled is complete\<close>

lemma tree_inv_end:
  assumes "walk_dir fs cfg cancel path = Some s" and "\<not> ws_stopped s"
  shows "ws_stack s = [] \<and> (\<exists>entered. tree_inv fs cfg (walk_root fs path) path entered s)"
proof -
  let ?root = "walk_root fs path"
  have "ws_stopped s \<or> (\<exists>entered. tree_inv fs cfg ?root path entered s)"
  proof (rule while_option_rule [OF _ assms(1) [unfolded walk_dir_def], where P = "\<lambda>s. ws_stopped s \<or> (\<exists>entered. tree_inv fs cfg ?root path entered s)"])
    show "ws_stopped (walk_step fs cfg ?root cancel t) \<or> (\<exists>entered. tree_inv fs cfg ?root path entered (walk_step fs cfg ?root cancel t))"
      if "ws_stopped t \<or> (\<exists>entered. tree_inv fs cfg ?root path entered t)" "walk_goes_on t" for t
      using that tree_inv_step [of fs cfg ?root path _ t cancel] unfolding walk_goes_on_def by blast
  qed (use tree_inv_start in blast)
  moreover have "\<not> walk_goes_on s"
    using assms(1) unfolding walk_dir_def by (rule while_option_stop)
  ultimately show ?thesis using assms(2) by (auto simp: walk_goes_on_def)
qed

definition complete_walk :: "FileSystem \<Rightarrow> WalkConfig \<Rightarrow> string \<Rightarrow> WalkItem list \<Rightarrow> Entered \<Rightarrow> bool" where
  \<comment> \<open>No directory is entered twice, everything found below the root is accounted for, every entered
    directory is listed or its failure stated, and every item is about something found.\<close>
  "complete_walk fs cfg path items entered \<longleftrightarrow>
     distinct (map fst entered)
     \<and> (\<forall>work \<in> set (found fs cfg path entered). work_accounted fs (walk_root fs path) items entered work)
     \<and> (\<forall>entry \<in> set entered. entered_accounted fs cfg (walk_root fs path) items entry)
     \<and> (\<forall>item \<in> set items. \<exists>work \<in> set (found fs cfg path entered). item_from fs work item)"

lemma step_polls:
  "walk_goes_on s \<Longrightarrow> ws_polls (walk_step fs cfg root cancel s) = Suc (ws_polls s)
    \<and> (ws_stopped (walk_step fs cfg root cancel s) \<longleftrightarrow> cancel (ws_polls s))"
  by (cases "ws_stack s") (auto simp: walk_step_def walk_goes_on_def Let_def split: WalkWork.splits)

lemma stopped_was_cancelled:
  assumes "walk_dir fs cfg cancel path = Some s" "ws_stopped s"
  shows "\<exists>i \<le> ws_polls s. cancel i"
proof -
  have "ws_stopped s \<longrightarrow> (\<exists>i \<le> ws_polls s. cancel i)"
  proof (rule while_option_rule [OF _ assms(1) [unfolded walk_dir_def]])
    show "ws_stopped (walk_step fs cfg (walk_root fs path) cancel t)
        \<longrightarrow> (\<exists>i \<le> ws_polls (walk_step fs cfg (walk_root fs path) cancel t). cancel i)" if "walk_goes_on t" for t
      using step_polls [OF that, of fs cfg "walk_root fs path" cancel] by (auto intro: exI [of _ "ws_polls t"])
  qed (simp add: tree_start_def)
  then show ?thesis using assms(2) by blast
qed

text \<open>C24: A walk that returns and reports that it was not cancelled left nothing out: there is a list of the
  directories it entered, none of them twice (one loop key each), such that the root and every entry
  listed in an entered directory is accounted for by the items of the result -- the object itself, the
  error that says why it could not be read, the reason why a link was not followed, or the statement
  that the path leads to a directory entered elsewhere -- every entered directory was listed, its
  failure stated or the depth limit reached, and no item is about anything else. The cancellation
  token is never reset.
\<close>
theorem walk_leaves_nothing_out:
  assumes "walk_tree_streaming fs cfg cancel path = Some (items, False)"
    and "\<forall>i j. i \<le> j \<longrightarrow> cancel i \<longrightarrow> cancel j"
  shows "\<exists>entered. complete_walk fs cfg path items entered"
proof -
  obtain s where s: "walk_dir fs cfg cancel path = Some s" "items = ws_items s" "\<not> cancel (ws_polls s)"
    using assms(1) by (auto simp: walk_tree_streaming_def)
  then have "\<not> ws_stopped s" using stopped_was_cancelled [OF s(1)] assms(2) by blast
  from tree_inv_end [OF s(1) this] obtain entered
    where "ws_stack s = []" "tree_inv fs cfg (walk_root fs path) path entered s" by blast
  then show ?thesis using s(2) by (auto simp: tree_inv_def complete_walk_def intro!: exI [of _ entered])
qed

lemma walk_leaves_nothing_out_witness:
  "\<exists>items entered. walk_tree_streaming sample_fs no_limit (\<lambda>_. False) ''d'' = Some (items, False)
     \<and> length items = 4 \<and> complete_walk sample_fs no_limit ''d'' items entered"
  using sample_walk_length walk_leaves_nothing_out [of sample_fs no_limit "\<lambda>_. False" "''d''"] by force

section \<open>The walk ends\<close>

inductive occurs :: "FileSystem \<Rightarrow> WalkConfig \<Rightarrow> string \<Rightarrow> VisitWork \<Rightarrow> bool" for fs cfg path where
  root: "occurs fs cfg path (root_visit path)"
| child: "occurs fs cfg path v \<Longrightarrow> Visit w \<in> set (listed_work fs cfg v) \<Longrightarrow> occurs fs cfg path w"

definition occurring_keys :: "FileSystem \<Rightarrow> WalkConfig \<Rightarrow> string \<Rightarrow> string set" where
  "occurring_keys fs cfg path =
     {loop_key fs (walk_root fs path) v fso | v fso. occurs fs cfg path v \<and> object_of fs v = Some fso}"

definition stack_occurs :: "FileSystem \<Rightarrow> WalkConfig \<Rightarrow> string \<Rightarrow> WalkState \<Rightarrow> bool" where
  "stack_occurs fs cfg path s \<longleftrightarrow>
     (\<forall>v. Visit v \<in> set (ws_stack s) \<longrightarrow> occurs fs cfg path v)
     \<and> fst ` set (ld_chain (ws_detector s)) \<subseteq> dom (ld_seen_first_path (ws_detector s))"

lemma visit_effect:
  \<comment> \<open>A visit either leaves the detector alone and pushes nothing, or enters its directory.\<close>
  assumes "fst ` set (ld_chain det) \<subseteq> dom (ld_seen_first_path det)" and "finite (dom (ld_seen_first_path det))"
  shows "vo_detector (visit fs cfg root v det) = det \<and> vo_work (visit fs cfg root v det) = []
    \<or> (\<exists>fso. entered_by fs cfg root v det fso)"
proof -
  obtain ks where ks: "set ks = dom (ld_seen_first_path det)" using finite_list [OF assms(2)] by blast
  have "\<forall>key. knows det key \<longrightarrow> key \<in> fst ` set (map (\<lambda>k. (k, v)) ks)"
    using assms(1) by (auto simp: knows_def ks image_image)
  from visit_cases [OF this refl, of fs cfg root v "[]"] show ?thesis by blast
qed

lemma stack_occurs_step:
  assumes inv: "stack_occurs fs cfg path s" "finite (dom (ld_seen_first_path (ws_detector s)))"
    and go: "walk_goes_on s" and step: "s' = walk_step fs cfg (walk_root fs path) cancel s"
  shows "stack_occurs fs cfg path s' \<and> ws_stack s \<noteq> [] \<and>
    (ws_stack s' = tl (ws_stack s) \<and> ld_seen_first_path (ws_detector s') = ld_seen_first_path (ws_detector s)
     \<or> (\<exists>key \<in> occurring_keys fs cfg path. \<exists>p. key \<notin> dom (ld_seen_first_path (ws_detector s))
         \<and> ld_seen_first_path (ws_detector s') = (ld_seen_first_path (ws_detector s))(key \<mapsto> p)))"
proof -
  obtain work stack where stack: "ws_stack s = work # stack" using go by (cases "ws_stack s") (auto simp: walk_goes_on_def)
  consider "cancel (ws_polls s)" | "work = Leave" | e where "work = DirEntryError e"
    | v where "\<not> cancel (ws_polls s)" "work = Visit v" by (cases work) auto
  then show ?thesis
  proof cases
    case 2
    have "fst ` set (butlast (ld_chain (ws_detector s))) \<subseteq> dom (ld_seen_first_path (ws_detector s))"
      using inv(1) unfolding stack_occurs_def by (meson image_mono in_set_butlastD order_trans subsetI)
    then show ?thesis
      using inv(1) stack 2 step by (cases "cancel (ws_polls s)") (simp_all add: walk_step_def Let_def stack_occurs_def leave_def)
  next
    case (4 v)
    then have occ: "occurs fs cfg path v" using inv(1) stack by (auto simp: stack_occurs_def)
    let ?out = "visit fs cfg (walk_root fs path) v (ws_detector s)"
    have s': "ws_stack s' = vo_work ?out @ stack" "ws_detector s' = vo_detector ?out"
      using step stack 4 by (simp_all add: walk_step_def Let_def)
    have chain: "fst ` set (ld_chain (ws_detector s)) \<subseteq> dom (ld_seen_first_path (ws_detector s))"
      using inv(1) by (simp add: stack_occurs_def)
    from visit_effect [OF chain inv(2), of fs cfg "walk_root fs path" v] show ?thesis
    proof (elim disjE exE)
      fix fso assume e: "entered_by fs cfg (walk_root fs path) v (ws_detector s) fso"
      have "loop_key fs (walk_root fs path) v fso \<in> occurring_keys fs cfg path"
        using e occ by (auto simp: entered_by_def occurring_keys_def)
      moreover have "stack_occurs fs cfg path s'"
        using e s' inv(1) stack child [OF occ] by (auto simp: entered_by_def stack_occurs_def)
      ultimately show ?thesis using e s' stack by (fastforce simp: entered_by_def knows_def)
    qed (use s' inv(1) stack in \<open>auto simp: stack_occurs_def\<close>)
  qed (use inv(1) stack step in \<open>auto simp: walk_step_def Let_def stack_occurs_def\<close>)
qed

lemma walk_ends_with_finitely_many_keys:
  assumes fin: "finite (occurring_keys fs cfg path)"
  shows "\<exists>s. walk_dir fs cfg cancel path = Some s"
proof -
  let ?step = "walk_step fs cfg (walk_root fs path) cancel" and ?K = "occurring_keys fs cfg path"
  let ?seen = "\<lambda>s. dom (ld_seen_first_path (ws_detector s))"
  define P where "P s \<longleftrightarrow> stack_occurs fs cfg path s \<and> ?seen s \<subseteq> ?K" for s
  have step: "P (?step s) \<and> (?step s, s) \<in> measures [\<lambda>s. card (?K - ?seen s), \<lambda>s. length (ws_stack s)]"
    if "P s" "walk_goes_on s" for s
  proof -
    have inv: "stack_occurs fs cfg path s" "finite (?seen s)" using that(1) fin by (auto simp: P_def dest: finite_subset)
    from stack_occurs_step [OF inv that(2) refl, of cancel] have step: "stack_occurs fs cfg path (?step s)" "ws_stack s \<noteq> []"
      and cases: "ws_stack (?step s) = tl (ws_stack s) \<and> ld_seen_first_path (ws_detector (?step s)) = ld_seen_first_path (ws_detector s)
         \<or> (\<exists>key \<in> ?K. key \<notin> ?seen s \<and> ?seen (?step s) = insert key (?seen s))" by auto
    from cases show ?thesis
    proof (elim disjE bexE conjE)
      fix key assume key: "key \<in> ?K" "key \<notin> ?seen s" "?seen (?step s) = insert key (?seen s)"
      have "card (?K - insert key (?seen s)) < card (?K - ?seen s)"
        using key(1,2) fin by (intro psubset_card_mono) auto
      then show ?thesis using key step(1) that(1) by (auto simp: P_def)
    qed (use step that(1) in \<open>auto simp: P_def\<close>)
  qed
  show ?thesis unfolding walk_dir_def
  proof (rule wf_while_option_Some [where P = P])
    show "wf {(t, s). (P s \<and> walk_goes_on s) \<and> t = ?step s}"
      by (rule wf_subset [OF wf_measures [of "[\<lambda>s. card (?K - ?seen s), \<lambda>s. length (ws_stack s)]"]]) (use step in blast)
    show "P (tree_start path)"
      using root [of fs cfg path] by (simp add: P_def stack_occurs_def tree_start_def root_visit_def new_detector_def)
  qed (use step in blast)
qed

lemma listed_depth:
  assumes "wc_max_depth cfg = Some limit" and "Visit w \<in> set (listed_work fs cfg u)"
  shows "vw_depth u < limit \<and> unat (vw_depth w) = Suc (unat (vw_depth u))"
proof -
  have "vw_depth u < limit" "vw_depth w = vw_depth u + 1"
    using assms by (auto simp: listed_work_def child_work_def depth_ok_def split: option.splits sum.splits if_splits)
  moreover from this(1) have "unat (vw_depth u + 1) = Suc (unat (vw_depth u))"
    by unat_arith
  ultimately show ?thesis by simp
qed

lemma occurs_depth:
  assumes "wc_max_depth cfg = Some limit" "occurs fs cfg path v"
  shows "v = root_visit path \<or> (\<exists>u. occurs fs cfg path u \<and> Visit v \<in> set (listed_work fs cfg u)
      \<and> vw_depth u < limit \<and> unat (vw_depth v) = Suc (unat (vw_depth u)))"
  using assms(2) by cases (use listed_depth [OF assms(1)] in blast)+

lemma finitely_many_at_depth:
  assumes "wc_max_depth cfg = Some limit"
  shows "finite {v. occurs fs cfg path v \<and> unat (vw_depth v) = n}"
proof (induction n)
  case 0
  have "{v. occurs fs cfg path v \<and> unat (vw_depth v) = 0} \<subseteq> {root_visit path}" using occurs_depth [OF assms] by fastforce
  then show ?case by (rule finite_subset) simp
next
  case (Suc n)
  have "{v. occurs fs cfg path v \<and> unat (vw_depth v) = Suc n}
      \<subseteq> (\<Union>u \<in> {u. occurs fs cfg path u \<and> unat (vw_depth u) = n}. {v. Visit v \<in> set (listed_work fs cfg u)})"
    using occurs_depth [OF assms] by (fastforce simp: root_visit_def)
  moreover have "finite {v. Visit v \<in> set (listed_work fs cfg u)}" for u
    by (rule finite_vimageI [of "set (listed_work fs cfg u)" Visit, unfolded vimage_def]) (simp_all add: inj_def)
  ultimately show ?case using Suc finite_UN_I finite_subset by (metis (no_types, lifting))
qed

lemma bounded_depth_is_finite:
  assumes "wc_max_depth cfg = Some limit"
  shows "finite (occurring_keys fs cfg path)"
proof -
  have depth: "unat (vw_depth v) \<le> unat limit" if "occurs fs cfg path v" for v
    using occurs_depth [OF assms that] by (auto simp: root_visit_def word_less_nat_alt)
  then have "{v. occurs fs cfg path v} \<subseteq> (\<Union>n \<le> unat limit. {v. occurs fs cfg path v \<and> unat (vw_depth v) = n})" by auto
  then have "finite {v. occurs fs cfg path v}"
    by (rule finite_subset) (simp add: finitely_many_at_depth [OF assms])
  moreover have "occurring_keys fs cfg path
      \<subseteq> (\<lambda>v. loop_key fs (walk_root fs path) v (the (object_of fs v))) ` {v. occurs fs cfg path v}"
    by (force simp: occurring_keys_def)
  ultimately show ?thesis by (meson finite_imageI finite_subset)
qed

lemma cancelled_walk_ends:
  assumes "cancel n"
  shows "\<exists>s. walk_dir fs cfg cancel path = Some s"
  unfolding walk_dir_def
proof (rule measure_while_option_Some [where P = "\<lambda>s. ws_stopped s \<or> ws_polls s \<le> n"
      and f = "\<lambda>s. if ws_stopped s then 0 else n + 2 - ws_polls s"])
  fix s assume s: "ws_stopped s \<or> ws_polls s \<le> n" "walk_goes_on s"
  then have "ws_polls s \<le> n" "\<not> ws_stopped s" by (auto simp: walk_goes_on_def)
  moreover from this have "ws_polls s = n \<or> Suc (ws_polls s) \<le> n" by auto
  ultimately show "(ws_stopped (walk_step fs cfg (walk_root fs path) cancel s)
        \<or> ws_polls (walk_step fs cfg (walk_root fs path) cancel s) \<le> n)
      \<and> (if ws_stopped (walk_step fs cfg (walk_root fs path) cancel s) then 0
          else n + 2 - ws_polls (walk_step fs cfg (walk_root fs path) cancel s))
        < (if ws_stopped s then 0 else n + 2 - ws_polls s)"
    using step_polls [OF s(2), of fs cfg "walk_root fs path" cancel] assms by auto
qed (simp add: tree_start_def)

text \<open>C25: The walk ends, whatever the file system answers, when a depth limit is set, when the directories
  below the root have finitely many loop keys -- so also in a tree whose links lead back into it, where
  the paths below the root are infinitely many -- or when the walk is cancelled at some poll.
\<close>
theorem walk_ends:
  assumes "wc_max_depth cfg \<noteq> None \<or> finite (occurring_keys fs cfg path) \<or> (\<exists>n. cancel n)"
  shows "\<exists>items cancelled. walk_tree_streaming fs cfg cancel path = Some (items, cancelled)"
proof -
  have "\<exists>s. walk_dir fs cfg cancel path = Some s"
    using assms walk_ends_with_finitely_many_keys bounded_depth_is_finite cancelled_walk_ends by blast
  then show ?thesis by (auto simp: walk_tree_streaming_def)
qed

lemma sample_canonical:
  "canonical_identity sample_fs v reparse =
     (if reparse \<or> vw_parent_canonical v = None then ''d''
      else the (vw_parent_canonical v) @ bslash @ to_ascii_lowercase (vw_path v))"
proof -
  have d: "to_ascii_lowercase ''d'' = ''d''" by code_simp
  show ?thesis by (auto simp: canonical_identity_def canonicalize_path_def ok_def sample_fs_def Let_def d split: option.split)
qed

lemma sample_node_of: "object_of sample_fs v = Some (sample_node (vw_path v))"
  by (simp add: object_of_def ok_def sample_fs_def linked_object_def sample_node_def)

lemma sample_listed:
  "Visit w \<in> set (listed_work sample_fs no_limit v) \<Longrightarrow> vw_path v \<noteq> ''f'' \<and> vw_path w \<in> {''f'', ''l''}
     \<and> vw_parent_canonical w = Some (canonical_identity sample_fs v (vw_path v = ''l''))"
  by (auto simp: listed_work_def sample_node_of child_work_def split: if_splits)
    (auto simp: sample_fs_def sample_node_def split: if_splits)

lemma sample_occurs:
  "occurs sample_fs no_limit ''d'' v \<Longrightarrow> v = root_visit ''d'' \<or> vw_parent_canonical v = Some ''d'' \<and> vw_path v \<in> {''f'', ''l''}"
proof (induction rule: occurs.induct)
  case (child v w)
  then show ?case using sample_listed [OF child(2)] by (auto simp: sample_canonical root_visit_def)
qed simp

lemma sample_keys: "finite (occurring_keys sample_fs no_limit ''d'')"
proof -
  have "\<not> is_remote_path ''d''" by code_simp
  then have "occurring_keys sample_fs no_limit ''d'' \<subseteq> {''d'', ''d'' @ bslash @ to_ascii_lowercase ''f''}"
    by (auto simp: occurring_keys_def loop_key_def select_loop_key_def walk_root_def sample_canonical
        sample_node_of sample_node_def root_visit_def dest!: sample_occurs)
  then show ?thesis by (rule finite_subset) simp
qed

lemma walk_ends_witness:
  "\<exists>items cancelled. walk_tree_streaming sample_fs no_limit (\<lambda>_. False) ''d'' = Some (items, cancelled)"
  by (rule walk_ends) (simp add: sample_keys)

section \<open>A reported cycle is a cycle\<close>

definition key_of :: "FileSystem \<Rightarrow> WalkRoot \<Rightarrow> VisitWork \<Rightarrow> string" where
  "key_of fs root v = loop_key fs root v (the (object_of fs v))"

fun ancestry :: "FileSystem \<Rightarrow> WalkConfig \<Rightarrow> string \<Rightarrow> VisitWork list \<Rightarrow> bool" where
  \<comment> \<open>Each is listed in the next; the last is the root of the walk.\<close>
  "ancestry fs cfg path [] = True"
| "ancestry fs cfg path [v] = (v = root_visit path)"
| "ancestry fs cfg path (v # u # us) = (Visit v \<in> set (listed_work fs cfg u) \<and> ancestry fs cfg path (u # us))"

fun nested :: "FileSystem \<Rightarrow> WalkConfig \<Rightarrow> string \<Rightarrow> VisitWork list \<Rightarrow> WalkWork list \<Rightarrow> bool" where
  \<comment> \<open>The work on the stack belongs to the directories on the active chain, innermost first.\<close>
  "nested fs cfg path [] stack = (stack = [] \<or> stack = [Visit (root_visit path)])"
| "nested fs cfg path (v # vs) [] = False"
| "nested fs cfg path (v # vs) (Leave # stack) = nested fs cfg path vs stack"
| "nested fs cfg path (v # vs) (work # stack) = (work \<in> set (listed_work fs cfg v) \<and> nested fs cfg path (v # vs) stack)"

lemma nested_push:
  "set ws \<subseteq> set (listed_work fs cfg v) \<Longrightarrow> nested fs cfg path vs stack \<Longrightarrow> nested fs cfg path (v # vs) (ws @ Leave # stack)"
proof (induction ws)
  case (Cons w ws)
  then have "w \<noteq> Leave" using no_leave_listed by fastforce
  then show ?case using Cons by (cases w) auto
qed simp

lemma nested_visit:
  assumes "nested fs cfg path vs (Visit v # stack)" "ancestry fs cfg path vs"
  shows "nested fs cfg path vs stack \<and> ancestry fs cfg path (v # vs)"
  using assms by (cases vs) auto

definition cycle_reports :: "FileSystem \<Rightarrow> WalkConfig \<Rightarrow> string \<Rightarrow> WalkItem list \<Rightarrow> bool" where
  \<comment> \<open>A path reported as a cycle has a directory above it that is the same; one reported as a duplicate has none.\<close>
  "cycle_reports fs cfg path items \<longleftrightarrow>
     (\<forall>p m. walk_error p (ReparseCycle m) \<in> set items \<longrightarrow> fv_read fs p = Inl (ReparseCycle m)
        \<or> (\<exists>v vs. vw_path v = p \<and> ancestry fs cfg path (v # vs)
             \<and> key_of fs (walk_root fs path) v \<in> key_of fs (walk_root fs path) ` set vs))
     \<and> (\<forall>p m. walk_error p (ReparseDuplicateTarget m) \<in> set items \<longrightarrow> fv_read fs p = Inl (ReparseDuplicateTarget m)
        \<or> (\<exists>v vs. vw_path v = p \<and> ancestry fs cfg path (v # vs)
             \<and> key_of fs (walk_root fs path) v \<notin> key_of fs (walk_root fs path) ` set vs))"

lemma reparse_stop_kind:
  "reparse_stop fs root v fso = Some e \<Longrightarrow> e \<noteq> ReparseCycle m \<and> e \<noteq> ReparseDuplicateTarget m"
  by (auto simp: reparse_stop_def unresolved_reparse_error_def unknown_link_error_def known_link_error_def
      remote_symlink_error_def local_resolution_error_def Let_def
      split: if_splits sum.splits option.splits)

lemma visit_reports:
  assumes "walk_error p e \<in> set (vo_items (visit fs cfg root v det))"
    and "e = ReparseCycle m \<or> e = ReparseDuplicateTarget m" and "fv_read fs p \<noteq> Inl e"
  shows "p = vw_path v \<and> fst (enter det (key_of fs root v) (vw_path v)) \<in> (if e = ReparseCycle m then range Cycle else range DuplicateTarget)"
proof (cases "fv_read fs (vw_path v)")
  case (Inl e')
  then show ?thesis using assms by (auto simp: visit_def walk_error_def)
next
  case (Inr obj)
  then have key: "key_of fs root v = loop_key fs root v (linked_object fs v obj)"
    by (simp add: key_of_def object_of_Inr)
  show ?thesis
    using assms(1,2) Inr reparse_stop_kind [of fs root v "linked_object fs v obj" _ m] unfolding key
    by (auto simp: visit_def visit_directory_def descend_def walk_error_def Let_def
        split: option.splits if_splits sum.splits prod.splits DescendDecision.splits)
qed

definition chain_inv :: "FileSystem \<Rightarrow> WalkConfig \<Rightarrow> string \<Rightarrow> WalkState \<Rightarrow> bool" where
  "chain_inv fs cfg path s \<longleftrightarrow>
     stack_occurs fs cfg path s \<and> finite (dom (ld_seen_first_path (ws_detector s)))
     \<and> cycle_reports fs cfg path (ws_items s)
     \<and> (ws_stopped s \<or> (\<exists>vs. nested fs cfg path vs (ws_stack s) \<and> ancestry fs cfg path vs
           \<and> rev (ld_chain (ws_detector s)) = map (\<lambda>v. (key_of fs (walk_root fs path) v, vw_path v)) vs))"

lemma cycle_reports_visit:
  assumes "cycle_reports fs cfg path items" and "ancestry fs cfg path (v # vs)"
    and "rev (ld_chain det) = map (\<lambda>v. (key_of fs (walk_root fs path) v, vw_path v)) vs"
  shows "cycle_reports fs cfg path (items @ vo_items (visit fs cfg (walk_root fs path) v det))"
proof -
  let ?root = "walk_root fs path" and ?out = "visit fs cfg (walk_root fs path) v det"
  have "fst ` set (ld_chain det) = fst ` set (rev (ld_chain det))" by simp
  then have chain: "fst ` set (ld_chain det) = key_of fs ?root ` set vs" unfolding assms(3) by (simp add: image_image)
  have cyc: "key_of fs ?root v \<in> key_of fs ?root ` set vs" if "fst (enter det (key_of fs ?root v) (vw_path v)) \<in> range Cycle"
    by (cases rule: enter_cases [of det "key_of fs ?root v" "vw_path v"]) (use that in \<open>auto simp flip: chain intro: rev_image_eqI\<close>)
  have dup: "key_of fs ?root v \<notin> key_of fs ?root ` set vs" if "fst (enter det (key_of fs ?root v) (vw_path v)) \<in> range DuplicateTarget"
    using that unfolding chain [symmetric]
    by (cases "find (\<lambda>e. fst e = key_of fs ?root v) (ld_chain det)") (auto simp: enter_def find_None_iff)
  have "vw_path v = p \<and> ancestry fs cfg path (v # vs) \<and> key_of fs ?root v \<in> key_of fs ?root ` set vs"
    if "walk_error p (ReparseCycle m) \<in> set (vo_items ?out)" "fv_read fs p \<noteq> Inl (ReparseCycle m)" for p m
    using visit_reports [OF that(1) _ that(2), of m] cyc assms(2) by auto
  moreover have "vw_path v = p \<and> ancestry fs cfg path (v # vs) \<and> key_of fs ?root v \<notin> key_of fs ?root ` set vs"
    if "walk_error p (ReparseDuplicateTarget m) \<in> set (vo_items ?out)" "fv_read fs p \<noteq> Inl (ReparseDuplicateTarget m)" for p m
    using visit_reports [OF that(1) _ that(2), of m] dup assms(2) by auto
  ultimately show ?thesis using assms(1) unfolding cycle_reports_def set_append Un_iff by blast
qed

lemma chain_inv_step:
  assumes inv: "chain_inv fs cfg path s" and go: "walk_goes_on s"
    and step: "s' = walk_step fs cfg (walk_root fs path) cancel s"
  shows "chain_inv fs cfg path s'"
proof -
  let ?root = "walk_root fs path" and ?entry = "\<lambda>v. (key_of fs (walk_root fs path) v, vw_path v)"
  let ?seen = "\<lambda>s. dom (ld_seen_first_path (ws_detector s))"
  have occ: "stack_occurs fs cfg path s" "finite (?seen s)" "cycle_reports fs cfg path (ws_items s)"
    using inv by (simp_all add: chain_inv_def)
  obtain vs where vs: "nested fs cfg path vs (ws_stack s)" "ancestry fs cfg path vs"
      "rev (ld_chain (ws_detector s)) = map ?entry vs"
    using inv go by (auto simp: chain_inv_def walk_goes_on_def)
  obtain work stack where stack: "ws_stack s = work # stack" using go by (cases "ws_stack s") (auto simp: walk_goes_on_def)
  have "stack_occurs fs cfg path s' \<and> finite (?seen s')"
    using stack_occurs_step [OF occ(1,2) go step] occ(2) by auto
  moreover have "cycle_reports fs cfg path (ws_items s') \<and> (ws_stopped s' \<or> (\<exists>vs. nested fs cfg path vs (ws_stack s')
      \<and> ancestry fs cfg path vs \<and> rev (ld_chain (ws_detector s')) = map ?entry vs))"
  proof -
    consider "cancel (ws_polls s)" | "\<not> cancel (ws_polls s)" "work = Leave"
      | e where "\<not> cancel (ws_polls s)" "work = DirEntryError e"
      | v where "\<not> cancel (ws_polls s)" "work = Visit v" by (cases work) auto
    then show ?thesis
    proof cases
      case 1
      then show ?thesis using step stack occ(3) by (simp add: walk_step_def Let_def)
    next
      case 2
      obtain u us where u: "vs = u # us" "nested fs cfg path us stack" "ancestry fs cfg path us"
        using vs(1,2) stack 2 by (cases vs; cases "tl vs") auto
      then have "rev (butlast (ld_chain (ws_detector s))) = map ?entry us"
        using vs(3) by (simp add: rev_swap)
      then show ?thesis using u step stack 2 occ(3) by (auto simp: walk_step_def Let_def leave_def)
    next
      case (3 e)
      obtain u us where u: "vs = u # us" using vs(1) stack 3 by (cases vs) auto
      have "DirEntryError e \<in> set (listed_work fs cfg u)" "nested fs cfg path vs stack" using vs(1) stack 3 u by auto
      moreover have "\<exists>m. we_error e = AccessDenied m"
        using calculation(1) by (auto simp: listed_work_def child_work_def split: option.splits sum.splits if_splits)
      then have "cycle_reports fs cfg path (ws_items s @ [Error e])"
        using occ(3) by (auto simp: cycle_reports_def walk_error_def)
      ultimately show ?thesis using step stack 3 vs by (auto simp: walk_step_def Let_def)
    next
      case (4 v)
      let ?out = "visit fs cfg ?root v (ws_detector s)"
      have v: "nested fs cfg path vs stack" "ancestry fs cfg path (v # vs)" using nested_visit vs(1,2) stack 4 by auto
      have s': "ws_stack s' = vo_work ?out @ stack" "ws_detector s' = vo_detector ?out" "ws_items s' = ws_items s @ vo_items ?out"
        using step stack 4 by (simp_all add: walk_step_def Let_def)
      have "cycle_reports fs cfg path (ws_items s')"
        unfolding s'(3) by (rule cycle_reports_visit [OF occ(3) v(2) vs(3)])
      moreover have "\<exists>vs. nested fs cfg path vs (ws_stack s') \<and> ancestry fs cfg path vs
          \<and> rev (ld_chain (ws_detector s')) = map ?entry vs"
      proof -
        have "fst ` set (ld_chain (ws_detector s)) \<subseteq> ?seen s" using occ(1) by (simp add: stack_occurs_def)
        from visit_effect [OF this occ(2), of fs cfg ?root v] show ?thesis
        proof (elim disjE exE)
          fix fso assume e: "entered_by fs cfg ?root v (ws_detector s) fso"
          then have "nested fs cfg path (v # vs) (ws_stack s')" using s'(1) nested_push [OF order_refl v(1)] by (simp add: entered_by_def)
          moreover have "rev (ld_chain (ws_detector s')) = map ?entry (v # vs)"
            using e s'(2) vs(3) by (simp add: entered_by_def key_of_def)
          ultimately show ?thesis using v(2) by blast
        qed (use s' v vs in auto)
      qed
      ultimately show ?thesis by blast
    qed
  qed
  ultimately show ?thesis by (simp add: chain_inv_def)
qed

text \<open>C26: The walk tells a cycle from a second route. A path is reported as a cycle only when a directory
  on the way from the root of the walk to it is the same directory (has the same loop key), and as a
  directory already enumerated only when none on the way is -- unless the file system itself answered
  the read of that path with this very error.
\<close>
theorem cycles_are_told_from_second_routes:
  assumes "walk_tree_streaming fs cfg cancel path = Some (items, cancelled)"
  shows "cycle_reports fs cfg path items"
proof -
  obtain s where s: "walk_dir fs cfg cancel path = Some s" "items = ws_items s"
    using assms by (auto simp: walk_tree_streaming_def)
  have "chain_inv fs cfg path s"
  proof (rule while_option_rule [OF _ s(1) [unfolded walk_dir_def], where P = "chain_inv fs cfg path"])
    have "nested fs cfg path [] [Visit (root_visit path)]" by simp
    then show "chain_inv fs cfg path (tree_start path)"
      using root [of fs cfg path]
      by (auto simp: chain_inv_def stack_occurs_def tree_start_def root_visit_def new_detector_def cycle_reports_def
          intro!: exI [of _ "[]"])
  qed (rule chain_inv_step [OF _ _ refl])
  then show ?thesis using s(2) by (simp add: chain_inv_def)
qed

lemma cycles_are_told_from_second_routes_witness:
  "\<exists>items. walk_tree_streaming sample_fs no_limit (\<lambda>_. False) ''d'' = Some (items, False)
     \<and> length items = 4 \<and> cycle_reports sample_fs no_limit ''d'' items"
  using sample_walk_length cycles_are_told_from_second_routes [of sample_fs no_limit "\<lambda>_. False" "''d''"] by force

end
