(* ===== verification/Risk.thy ===== *)
theory Risk
  imports Token
begin

unbundle bit_operations_syntax

text \<open>
  \<open>crates/risk_engine/src/rules.rs\<close>: the six built-in risk rules, the registry that runs them
  over all results, and the accumulator that runs them result by result. A rule
  (\<open>dyn RiskRule\<close>) is a function from the results of a scan to findings. Its contract, that it
  judges every result on its own, is the locale \<open>pointwise_rule\<close>; the locale \<open>rule_registry\<close>
  is a list of such rules. \<open>lc\<close> is Unicode lower-casing. The lemmas show that collecting
  findings result by result gives the findings of the whole scan, that no right to change
  content, permissions, ownership or existence of an object goes without a finding, and that a
  finding is worded as a fact exactly when the result is one.
\<close>

section \<open>The audited right\<close>

record AuditedRight =
  ar_mask :: u32
  ar_has :: string
  ar_can :: string
  ar_note :: string

definition audited_right :: "EffectivePermission \<Rightarrow> AuditedRight" where
  \<comment> \<open>\<open>AuditedRight::of\<close>.\<close>
  "audited_right p =
     (let m = effective_upper_bound p
      in if effective_determinable p then
           \<lparr>ar_mask = m, ar_has = ''has'', ar_can = ''can'', ar_note = []\<rparr>
         else (let known = ep_effective_mask p;
                   note = (if m \<noteq> known then
                       '' ('' @ NOT_DETERMINABLE @ '': the known data gives '' @ display_name known @ '' (0x''
       @ hex8 known @ ''); up to '' @ display_name m @ '' (0x'' @ hex8 m
       @ '') is possible)''
                     else '' ('' @ NOT_DETERMINABLE @ '': stated from the known data only)'')
               in \<lparr>ar_mask = m, ar_has = ''may have'', ar_can = ''may be able to'', ar_note = note\<rparr>))"

definition CONTENT_WRITE_BITS :: u32 where
  [mask_consts]: "CONTENT_WRITE_BITS = FILE_WRITE_DATA OR FILE_APPEND_DATA"

definition SID_NETWORK :: Sid where [sid_consts]: "SID_NETWORK = ''S-1-5-2''"

definition SENSITIVE_KEYWORDS :: "string list" where
  "SENSITIVE_KEYWORDS =
     [''password'', ''passwort'', ''pwd'', ''login'', ''credential'', ''credentials'', ''secret'',
      ''secrets'', ''token'', ''api-key'', ''apikey'', ''keyfile'', ''private-key'', ''ssh-key'',
      ''private_key'', ''ssh_key'', ''id_rsa'', ''id_dsa'', ''id_ecdsa'', ''id_ed25519'',
      ''zugangsdaten'', ''kennwort'', ''kennw'' @ [CHR 0xC3, CHR 0xB6] @ ''rt'', ''kennwoert'',
      ''.kdbx'', ''.kdb'', ''.pfx'', ''.p12'', ''.ppk'']"

section \<open>The rules\<close>

definition identity_name :: "EffectivePermission \<Rightarrow> string" where
  \<comment> \<open>\<open>identity.name.as_deref().unwrap_or(sid)\<close>.\<close>
  "identity_name p = (case id_name (ep_identity p) of Some n \<Rightarrow> n | None \<Rightarrow> id_sid (ep_identity p))"

definition finding :: "string \<Rightarrow> RiskSeverity \<Rightarrow> string \<Rightarrow> EffectivePermission \<Rightarrow> RiskFinding" where
  \<comment> \<open>The fields every rule fills in the same way.\<close>
  "finding rule_id sev description p =
     \<lparr>rf_rule_id = rule_id, rf_severity = sev, rf_description = description,
      rf_affected_path = Some (ep_path p), rf_affected_identity = Some (id_sid (ep_identity p)),
      rf_incomplete = is_incomplete p\<rparr>"

definition full_control_of :: "EffectivePermission \<Rightarrow> RiskFinding option" where
  "full_control_of p =
     (let a = audited_right p; name = identity_name p
      in if ar_mask a AND MASK_FULL_CONTROL \<noteq> MASK_FULL_CONTROL then None
         else Some (finding ''FULL_CONTROL'' Critical (squote @ name @ squote @ '' '' @ ar_has a @ '' Full Control '' @ em_dash @ '' '' @ ar_can a
       @ '' read, write, delete and change permissions'' @ ar_note a) p))"

definition FullControlRule :: "EffectivePermission list \<Rightarrow> RiskFinding list" where
  "FullControlRule ps = filter_map full_control_of ps"

definition content_write_bit_names :: "u32 \<Rightarrow> string" where
  "content_write_bit_names m =
     join '' + '' ((if m AND FILE_WRITE_DATA \<noteq> 0 then [''FILE_WRITE_DATA''] else [])
       @ (if m AND FILE_APPEND_DATA \<noteq> 0 then [''FILE_APPEND_DATA''] else []))"

definition write_access_of :: "EffectivePermission \<Rightarrow> RiskFinding option" where
  "write_access_of p =
     (let a = audited_right p; m = ar_mask a; name = identity_name p
      in if m AND MASK_FULL_CONTROL = MASK_FULL_CONTROL then None
         else if m AND MASK_MODIFY = MASK_MODIFY \<or> m AND MASK_WRITE = MASK_WRITE then
           (let level = (if m AND MASK_MODIFY = MASK_MODIFY then ''Modify'' else ''Write'')
            in Some (finding ''WRITE_ACCESS'' High (squote @ name @ squote @ '' '' @ ar_has a @ '' '' @ level @ '' access '' @ em_dash @ '' ''
       @ ar_can a @ '' create or modify files'' @ ar_note a) p))
         else if m AND CONTENT_WRITE_BITS \<noteq> 0 then
           (let bits = content_write_bit_names m
            in Some (finding ''PARTIAL_WRITE'' Medium (squote @ name @ squote @ '' '' @ ar_can a
       @ '' write file content via special permissions ('' @ bits
       @ '') without the full Write composite'' @ ar_note a) p))
         else None)"

definition WriteAccessRule :: "EffectivePermission list \<Rightarrow> RiskFinding list" where
  "WriteAccessRule ps = filter_map write_access_of ps"

definition admin_rights_of :: "EffectivePermission \<Rightarrow> RiskFinding list" where
  \<comment> \<open>The body of the loop.\<close>
  "admin_rights_of p =
     (let a = audited_right p; m = ar_mask a; name = identity_name p; can = ar_can a; note = ar_note a
      in if m AND MASK_FULL_CONTROL = MASK_FULL_CONTROL then []
         else (if m AND FILE_WRITE_DAC \<noteq> 0 then [finding ''PERMISSION_CHANGE'' High
                 (squote @ name @ squote @ '' '' @ can @ '' change permissions (WRITE_DAC) '' @ em_dash
       @ '' enables privilege escalation'' @ note) p] else [])
            @ (if m AND FILE_WRITE_OWNER \<noteq> 0 then [finding ''OWNER_CHANGE'' High
                 (squote @ name @ squote @ '' '' @ can @ '' take ownership (WRITE_OWNER) '' @ em_dash
       @ '' enables privilege escalation'' @ note) p] else [])
            @ (if m AND FILE_DELETE \<noteq> 0 then [finding ''DELETE_RIGHT'' Medium
                 (squote @ name @ squote @ '' '' @ can @ '' delete this object (DELETE)'' @ note) p] else [])
            @ (if m AND FILE_DELETE_CHILD \<noteq> 0 then [finding ''DELETE_CHILD_RIGHT'' Medium
                 (squote @ name @ squote @ '' '' @ can @ '' delete child objects (DELETE_CHILD)'' @ note) p] else []))"

definition AdminRightsRule :: "EffectivePermission list \<Rightarrow> RiskFinding list" where
  "AdminRightsRule ps = concat (map admin_rights_of ps)"

definition broad_sids :: "Sid list" where
  "broad_sids = [SID_EVERYONE, SID_AUTHENTICATED_USERS, SID_ANONYMOUS_LOGON, SID_NETWORK]"

definition broad_audience :: "Sid \<Rightarrow> string \<times> string" where
  "broad_audience sid =
     (if sid = SID_EVERYONE then (''Everyone'', ''every user, including guests'')
      else if sid = SID_AUTHENTICATED_USERS then
        (''Authenticated Users'', ''every authenticated user in the domain'')
      else if sid = SID_ANONYMOUS_LOGON then (''Anonymous Logon'', ''unauthenticated clients'')
      else if sid = SID_NETWORK then (''NETWORK'', ''every user connecting over the network'')
      else (sid, ''a broad built-in principal''))"

definition broad_write_of :: "EffectivePermission \<Rightarrow> RiskFinding option" where
  "broad_write_of p =
     (let a = audited_right p; eff_w = ar_mask a AND CONTENT_WRITE_BITS
      in if eff_w = 0 then None
         else (case find (\<lambda>cs. ca_sid cs \<in> set broad_sids \<and> ca_mask cs AND eff_w \<noteq> 0)
                 (ep_contributing_sids p) of
             None \<Rightarrow> None
           | Some broad \<Rightarrow>
               (let (sid_name, scope) = broad_audience (ca_sid broad); identity_name = identity_name p
                in Some (finding ''BROAD_GROUP_WRITE'' Critical (squote @ identity_name @ squote @ '' '' @ ar_has a @ '' write access via '' @ squote
       @ sid_name @ squote @ '' '' @ em_dash @ '' affects '' @ scope @ ar_note a) p))))"

definition BroadGroupWriteRule :: "EffectivePermission list \<Rightarrow> RiskFinding list" where
  "BroadGroupWriteRule ps = filter_map broad_write_of ps"

definition has_direct_ace :: "EffectivePermission \<Rightarrow> bool" where
  "has_direct_ace p \<longleftrightarrow>
     (id_kind (ep_identity p) = User \<or> id_kind (ep_identity p) = Computer)
     \<and> list_ex (\<lambda>ace. \<not> ace_inherited ace \<and> ace_sid ace = id_sid (ep_identity p)) (ep_matched_aces p)"

definition DirectUserAceRule :: "EffectivePermission list \<Rightarrow> RiskFinding list" where
  "DirectUserAceRule ps = map (\<lambda>p. let name = identity_name p
     in finding ''DIRECT_USER_ACE'' Low (squote @ name @ squote @ '' has a direct explicit ACE '' @ em_dash
       @ '' best practice is to assign permissions via groups'') p)
     (filter has_direct_ace ps)"

definition sensitive_of :: "(string \<Rightarrow> string) \<Rightarrow> EffectivePermission \<Rightarrow> RiskFinding option" where
  "sensitive_of lc p =
     (let a = audited_right p
      in if ar_mask a = 0 then None
         else if list_ex (\<lambda>kw. contains (lc (ep_path p)) kw) SENSITIVE_KEYWORDS then
           (let name = identity_name p;
                keyword = (case find (\<lambda>kw. contains (lc (ep_path p)) kw) SENSITIVE_KEYWORDS of
                    Some kw \<Rightarrow> kw | None \<Rightarrow> ''sensitive'')
            in Some (finding ''SENSITIVE_PATH'' Medium (''Path contains keyword '' @ squote @ keyword @ squote @ '' '' @ em_dash
       @ '' may contain credentials or secrets; '' @ squote @ name @ squote @ '' ''
       @ ar_has a @ '' access'' @ ar_note a) p))
         else None)"

definition SensitivePathRule :: "(string \<Rightarrow> string) \<Rightarrow> EffectivePermission list \<Rightarrow> RiskFinding list" where
  "SensitivePathRule lc ps = filter_map (sensitive_of lc) ps"

section \<open>Registry and accumulator\<close>

type_synonym RiskRule = "EffectivePermission list \<Rightarrow> RiskFinding list"

definition with_defaults :: "(string \<Rightarrow> string) \<Rightarrow> RiskRule list" where
  "with_defaults lc =
     [FullControlRule, WriteAccessRule, AdminRightsRule, BroadGroupWriteRule, DirectUserAceRule,
      SensitivePathRule lc]"

definition register :: "RiskRule list \<Rightarrow> RiskRule \<Rightarrow> RiskRule list" where
  "register rules rule = rules @ [rule]"

definition evaluate_all :: "RiskRule list \<Rightarrow> EffectivePermission list \<Rightarrow> RiskFinding list" where
  "evaluate_all rules ps = concat (map (\<lambda>r. r ps) rules)"

definition accumulator :: "RiskRule list \<Rightarrow> RiskFinding list list" where
  "accumulator rules = replicate (length rules) []"

definition acc_add ::
  "RiskRule list \<Rightarrow> EffectivePermission \<Rightarrow> RiskFinding list list \<Rightarrow> RiskFinding list list" where
  \<comment> \<open>\<open>RiskAccumulator::add\<close>; the result it hands back is its argument.\<close>
  "acc_add rules perm per_rule = map2 (\<lambda>rule out. out @ rule [perm]) rules per_rule"

definition acc_finish :: "RiskFinding list list \<Rightarrow> RiskFinding list" where
  "acc_finish per_rule = concat per_rule"

section \<open>The contract of a rule\<close>

locale pointwise_rule =
  fixes rule :: RiskRule
  assumes judges_each_alone: "rule ps = concat (map (\<lambda>p. rule [p]) ps)"
begin

lemma rule_Nil: "rule [] = []"
  by (rule trans [OF judges_each_alone]) simp

lemma rule_snoc: "rule (ps @ [p]) = rule ps @ rule [p]"
proof -
  have "rule (ps @ [p]) = concat (map (\<lambda>p. rule [p]) (ps @ [p]))" by (rule judges_each_alone)
  also have "\<dots> = concat (map (\<lambda>p. rule [p]) ps) @ rule [p]" by simp
  also have "concat (map (\<lambda>p. rule [p]) ps) = rule ps" by (rule judges_each_alone [symmetric])
  finally show ?thesis .
qed

lemma in_rule: "f \<in> set (rule ps) \<longleftrightarrow> (\<exists>p \<in> set ps. f \<in> set (rule [p]))"
proof -
  have "f \<in> set (rule ps) \<longleftrightarrow> f \<in> set (concat (map (\<lambda>p. rule [p]) ps))"
    by (rule arg_cong [OF judges_each_alone])
  also have "\<dots> \<longleftrightarrow> (\<exists>p \<in> set ps. f \<in> set (rule [p]))" by auto
  finally show ?thesis .
qed

end

locale rule_registry =
  fixes rules :: "RiskRule list"
  assumes all_pointwise: "rule \<in> set rules \<Longrightarrow> pointwise_rule rule"
begin

lemma collected:
  "fold (acc_add rules) ps (accumulator rules) = map (\<lambda>rule. rule ps) rules"
proof (induction ps rule: rev_induct)
  case Nil
  have "map (\<lambda>rule. rule []) rules = map (\<lambda>_. []) rules"
    by (rule map_cong [OF refl]) (rule pointwise_rule.rule_Nil [OF all_pointwise])
  then show ?case by (simp add: accumulator_def map_replicate_const)
next
  case (snoc p ps)
  have map2: "map2 F rs (map G rs) = map (\<lambda>r. F r (G r)) rs" for F :: "RiskRule \<Rightarrow> 'b \<Rightarrow> 'b" and G rs
    by (induction rs) simp_all
  have "fold (acc_add rules) (ps @ [p]) (accumulator rules) = acc_add rules p (map (\<lambda>rule. rule ps) rules)"
    by (simp add: snoc)
  also have "\<dots> = map (\<lambda>rule. rule ps @ rule [p]) rules" by (simp add: acc_add_def map2)
  also have "\<dots> = map (\<lambda>rule. rule (ps @ [p])) rules"
    by (rule map_cong [OF refl]) (rule pointwise_rule.rule_snoc [OF all_pointwise, symmetric])
  finally show ?case .
qed

lemma streaming_is_batch: "acc_finish (fold (acc_add rules) ps (accumulator rules)) = evaluate_all rules ps"
  by (simp add: collected acc_finish_def evaluate_all_def)

lemma in_evaluate_all: "f \<in> set (evaluate_all rules ps) \<longleftrightarrow> (\<exists>p \<in> set ps. f \<in> set (evaluate_all rules [p]))"
proof -
  have "f \<in> set (rule ps) \<longleftrightarrow> (\<exists>p \<in> set ps. f \<in> set (rule [p]))" if "rule \<in> set rules" for rule
    using all_pointwise [OF that] by (rule pointwise_rule.in_rule)
  then show ?thesis by (auto simp: evaluate_all_def)
qed

end

section \<open>The built-in rules obey the contract\<close>

lemma filter_map_pointwise: "filter_map f ps = concat (map (\<lambda>p. filter_map f [p]) ps)"
  by (induction ps) (auto split: option.split)

interpretation full_control: pointwise_rule FullControlRule
  by unfold_locales (unfold FullControlRule_def, rule filter_map_pointwise)

interpretation write_access: pointwise_rule WriteAccessRule
  by unfold_locales (unfold WriteAccessRule_def, rule filter_map_pointwise)

interpretation admin_rights: pointwise_rule AdminRightsRule
  by unfold_locales (simp add: AdminRightsRule_def)

interpretation broad_write: pointwise_rule BroadGroupWriteRule
  by unfold_locales (unfold BroadGroupWriteRule_def, rule filter_map_pointwise)

interpretation direct_ace: pointwise_rule DirectUserAceRule
proof
  fix ps
  show "DirectUserAceRule ps = concat (map (\<lambda>p. DirectUserAceRule [p]) ps)"
    by (induction ps) (simp_all add: DirectUserAceRule_def)
qed

interpretation sensitive_path: pointwise_rule "SensitivePathRule lc" for lc
  by unfold_locales (unfold SensitivePathRule_def, rule filter_map_pointwise)

interpretation defaults: rule_registry "with_defaults lc" for lc
proof (rule rule_registry.intro)
  fix rule
  assume "rule \<in> set (with_defaults lc)"
  then show "pointwise_rule rule"
    using full_control.pointwise_rule_axioms write_access.pointwise_rule_axioms
      admin_rights.pointwise_rule_axioms broad_write.pointwise_rule_axioms
      direct_ace.pointwise_rule_axioms sensitive_path.pointwise_rule_axioms
    by (auto simp: with_defaults_def)
qed

section \<open>What the rules report\<close>

definition DANGEROUS_BITS :: u32 where
  \<comment> \<open>The rights that change content, permissions, owner or existence of an object.\<close>
  "DANGEROUS_BITS = CONTENT_WRITE_BITS OR FILE_WRITE_DAC OR FILE_WRITE_OWNER OR FILE_DELETE OR FILE_DELETE_CHILD"

definition change_rules :: "string list" where
  "change_rules = [''FULL_CONTROL'', ''WRITE_ACCESS'', ''PARTIAL_WRITE'', ''PERMISSION_CHANGE'',
     ''OWNER_CHANGE'', ''DELETE_RIGHT'', ''DELETE_CHILD_RIGHT'']"

lemma audited_mask [simp]: "ar_mask (audited_right p) = effective_upper_bound p"
  by (simp add: audited_right_def Let_def)

lemma rule_ids [simp]: "rf_rule_id (finding r s d p) = r" "rf_affected_path (finding r s d p) = Some (ep_path p)"
  "rf_affected_identity (finding r s d p) = Some (id_sid (ep_identity p))"
  "rf_incomplete (finding r s d p) = is_incomplete p"
  by (simp_all add: finding_def)

lemma composite_meets:
  fixes m c d :: u32
  assumes "m AND c = c" and "c AND d \<noteq> 0"
  shows "m AND d \<noteq> 0"
proof
  assume "m AND d = 0"
  then have "m AND c AND d = 0" by (metis and.commute and.left_commute and_zero_eq)
  with assms show False by (metis and.assoc)
qed

lemma dangerous_iff:
  "m AND DANGEROUS_BITS \<noteq> 0 \<longleftrightarrow> m AND CONTENT_WRITE_BITS \<noteq> 0 \<or> m AND FILE_WRITE_DAC \<noteq> 0
     \<or> m AND FILE_WRITE_OWNER \<noteq> 0 \<or> m AND FILE_DELETE \<noteq> 0 \<or> m AND FILE_DELETE_CHILD \<noteq> 0"
  unfolding mask_and_nonzero_iff DANGEROUS_BITS_def bit_or_iff by blast

lemma composite_dangerous:
  "m AND MASK_FULL_CONTROL = MASK_FULL_CONTROL \<Longrightarrow> m AND DANGEROUS_BITS \<noteq> 0"
  "m AND MASK_MODIFY = MASK_MODIFY \<Longrightarrow> m AND DANGEROUS_BITS \<noteq> 0"
  "m AND MASK_WRITE = MASK_WRITE \<Longrightarrow> m AND DANGEROUS_BITS \<noteq> 0"
  by (erule composite_meets; simp add: DANGEROUS_BITS_def mask_consts)+

lemma change_finding_iff:
  "(\<exists>f \<in> set (evaluate_all (with_defaults lc) [p]). rf_rule_id f \<in> set change_rules) \<longleftrightarrow>
     effective_upper_bound p AND DANGEROUS_BITS \<noteq> 0"
proof -
  let ?m = "effective_upper_bound p"
  have full: "(\<exists>f \<in> set (FullControlRule [p]). rf_rule_id f \<in> set change_rules) \<longleftrightarrow>
      ?m AND MASK_FULL_CONTROL = MASK_FULL_CONTROL"
    by (simp add: FullControlRule_def full_control_of_def Let_def change_rules_def)
  have written: "(\<exists>f \<in> set (WriteAccessRule [p]). rf_rule_id f \<in> set change_rules) \<longleftrightarrow>
      ?m AND MASK_FULL_CONTROL \<noteq> MASK_FULL_CONTROL \<and>
      (?m AND MASK_MODIFY = MASK_MODIFY \<or> ?m AND MASK_WRITE = MASK_WRITE \<or> ?m AND CONTENT_WRITE_BITS \<noteq> 0)"
    by (simp add: WriteAccessRule_def write_access_of_def Let_def change_rules_def)
  have admin: "(\<exists>f \<in> set (AdminRightsRule [p]). rf_rule_id f \<in> set change_rules) \<longleftrightarrow>
      ?m AND MASK_FULL_CONTROL \<noteq> MASK_FULL_CONTROL \<and>
      (?m AND FILE_WRITE_DAC \<noteq> 0 \<or> ?m AND FILE_WRITE_OWNER \<noteq> 0 \<or> ?m AND FILE_DELETE \<noteq> 0
        \<or> ?m AND FILE_DELETE_CHILD \<noteq> 0)"
    unfolding list_ex_iff [symmetric]
    by (auto simp: AdminRightsRule_def admin_rights_of_def Let_def change_rules_def)
  have others: "\<not> (\<exists>f \<in> set (BroadGroupWriteRule [p]). rf_rule_id f \<in> set change_rules)"
      "\<not> (\<exists>f \<in> set (DirectUserAceRule [p]). rf_rule_id f \<in> set change_rules)"
      "\<not> (\<exists>f \<in> set (SensitivePathRule lc [p]). rf_rule_id f \<in> set change_rules)"
    by (simp_all add: BroadGroupWriteRule_def broad_write_of_def DirectUserAceRule_def SensitivePathRule_def
        sensitive_of_def Let_def change_rules_def split: option.split prod.split)
  have "(\<exists>f \<in> set (evaluate_all (with_defaults lc) [p]). rf_rule_id f \<in> set change_rules) \<longleftrightarrow>
      (\<exists>f \<in> set (FullControlRule [p]). rf_rule_id f \<in> set change_rules) \<or>
      (\<exists>f \<in> set (WriteAccessRule [p]). rf_rule_id f \<in> set change_rules) \<or>
      (\<exists>f \<in> set (AdminRightsRule [p]). rf_rule_id f \<in> set change_rules)"
    using others by (auto simp: evaluate_all_def with_defaults_def)
  then show ?thesis
    unfolding full written admin dangerous_iff
    using composite_dangerous [of ?m] unfolding dangerous_iff by blast
qed

definition made_from :: "EffectivePermission \<Rightarrow> RiskFinding \<Rightarrow> bool" where
  "made_from p f \<longleftrightarrow> rf_affected_path f = Some (ep_path p)
     \<and> rf_affected_identity f = Some (id_sid (ep_identity p))
     \<and> rf_incomplete f = (\<not> effective_determinable p)"

lemma made_from_finding [simp]: "made_from p (finding r s d p)"
  by (simp add: made_from_def is_incomplete_def effective_determinable_def)

lemma all_made_from: "list_all (made_from p) (evaluate_all (with_defaults lc) [p])"
proof -
  have "list_all (made_from p) (FullControlRule [p])"
    by (simp add: FullControlRule_def full_control_of_def Let_def)
  moreover have "list_all (made_from p) (WriteAccessRule [p])"
    by (simp add: WriteAccessRule_def write_access_of_def Let_def)
  moreover have "list_all (made_from p) (AdminRightsRule [p])"
    by (simp add: AdminRightsRule_def admin_rights_of_def Let_def)
  moreover have "list_all (made_from p) (BroadGroupWriteRule [p])"
    by (simp add: BroadGroupWriteRule_def broad_write_of_def Let_def split: option.split prod.split)
  moreover have "list_all (made_from p) (DirectUserAceRule [p])"
    by (simp add: DirectUserAceRule_def)
  moreover have "list_all (made_from p) (SensitivePathRule lc [p])"
    by (simp add: SensitivePathRule_def sensitive_of_def Let_def)
  ultimately show ?thesis by (simp add: evaluate_all_def with_defaults_def)
qed

definition change_rights :: "u32 list" where
  "change_rights = [CONTENT_WRITE_BITS, FILE_WRITE_DAC, FILE_WRITE_OWNER, FILE_DELETE, FILE_DELETE_CHILD]"

definition reports_right :: "string \<Rightarrow> u32 \<Rightarrow> bool" where
  \<comment> \<open>A finding of this rule says that the account has this right.\<close>
  "reports_right rule right \<longleftrightarrow>
     rule = ''FULL_CONTROL''
     \<or> (rule \<in> {''WRITE_ACCESS'', ''PARTIAL_WRITE''} \<and> right = CONTENT_WRITE_BITS)
     \<or> (rule = ''PERMISSION_CHANGE'' \<and> right = FILE_WRITE_DAC)
     \<or> (rule = ''OWNER_CHANGE'' \<and> right = FILE_WRITE_OWNER)
     \<or> (rule = ''DELETE_RIGHT'' \<and> right = FILE_DELETE)
     \<or> (rule = ''DELETE_CHILD_RIGHT'' \<and> right = FILE_DELETE_CHILD)"

lemma right_finding:
  assumes "right \<in> set change_rights" and "effective_upper_bound p AND right \<noteq> 0"
  shows "\<exists>f \<in> set (evaluate_all (with_defaults lc) [p]). reports_right (rf_rule_id f) right"
proof (cases "effective_upper_bound p AND MASK_FULL_CONTROL = MASK_FULL_CONTROL")
  case True
  then have "list_ex (\<lambda>f. reports_right (rf_rule_id f) right) (FullControlRule [p])"
    by (simp add: FullControlRule_def full_control_of_def Let_def reports_right_def)
  then show ?thesis by (auto simp: list_ex_iff evaluate_all_def with_defaults_def)
next
  case False
  then have "list_ex (\<lambda>f. reports_right (rf_rule_id f) right) (WriteAccessRule [p] @ AdminRightsRule [p])"
    using assms
    by (auto simp: change_rights_def WriteAccessRule_def write_access_of_def AdminRightsRule_def
        admin_rights_of_def Let_def reports_right_def)
  then show ?thesis by (auto simp: list_ex_iff evaluate_all_def with_defaults_def)
qed

lemma change_findings_iff:
  "(\<exists>f \<in> set (evaluate_all (with_defaults lc) ps). rf_rule_id f \<in> set change_rules) \<longleftrightarrow>
     list_ex (\<lambda>p. effective_upper_bound p AND DANGEROUS_BITS \<noteq> 0) ps"
proof -
  have "(\<exists>f \<in> set (evaluate_all (with_defaults lc) ps). rf_rule_id f \<in> set change_rules) \<longleftrightarrow>
      (\<exists>p \<in> set ps. \<exists>f \<in> set (evaluate_all (with_defaults lc) [p]). rf_rule_id f \<in> set change_rules)"
    using defaults.in_evaluate_all [of _ lc ps] by blast
  then show ?thesis by (simp only: change_finding_iff list_ex_iff)
qed

section \<open>Properties\<close>

text \<open>Collecting findings result by result changes nothing. For every scan, adding the results
  one at a time to the accumulator of the built-in rules and finishing it gives the findings
  of the registry over all results, in the same order.\<close>

theorem streaming_equals_batch:
  "acc_finish (fold (acc_add (with_defaults lc)) ps (accumulator (with_defaults lc))) =
     evaluate_all (with_defaults lc) ps"
  by (rule defaults.streaming_is_batch)

text \<open>No possible change goes unreported. The built-in rules report a full-control, write,
  permission-change, ownership or deletion finding for a scan if and only if the upper bound of
  some result holds a right to write content, change permissions, take ownership, delete the
  object or delete its children.\<close>

theorem every_change_right_is_reported:
  "(\<exists>f \<in> set (evaluate_all (with_defaults lc) ps). rf_rule_id f \<in> set change_rules) \<longleftrightarrow>
     list_ex (\<lambda>p. effective_upper_bound p AND DANGEROUS_BITS \<noteq> 0) ps"
  by (rule change_findings_iff)

text \<open>A finding says whether it rests on a complete evaluation. Every finding of the built-in
  rules comes from one result of the scan, names its path and its identity, and is marked
  incomplete exactly when that result is not determinable.\<close>

theorem findings_state_completeness:
  "list_all (\<lambda>f. list_ex (\<lambda>p. rf_affected_path f = Some (ep_path p)
      \<and> rf_affected_identity f = Some (id_sid (ep_identity p))
      \<and> rf_incomplete f = (\<not> effective_determinable p)) ps) (evaluate_all (with_defaults lc) ps)"
proof -
  have "\<exists>p \<in> set ps. made_from p f" if "f \<in> set (evaluate_all (with_defaults lc) ps)" for f
    using that all_made_from [of _ lc] unfolding defaults.in_evaluate_all [of f lc ps] list_all_iff by blast
  then show ?thesis by (simp only: list_all_iff list_ex_iff made_from_def) blast
qed

end
