(* ===== verification/Share_Walk.thy ===== *)
theory Share_Walk
  imports Dacl_Bounds Engine Path_Inputs
begin

unbundle bit_operations_syntax

text \<open>
  The share side of an evaluation (\<open>share_scanner/src/scanner.rs\<close>): the classification of shares,
  the reading of a share DACL, the token a share ACE is matched against, the stored-order walk
  with its bounds, what each share ACE decided, and the status an evaluation receives.

  The Win32 calls are parameters: the reply of \<open>NetShareEnum\<close> and \<open>NetShareGetInfo\<close>, and a record
  with the replies of the calls that walk a security descriptor. Everything the source computes
  from the replies is a definition.
\<close>

section \<open>Shares and their DACLs\<close>

record Share =
  sh_name :: string
  sh_unc_path :: string
  sh_local_path :: "NormalizedPath option"
  sh_is_admin_share :: bool
  sh_is_hidden :: bool

definition STYPE_SPECIAL :: u32 where [mask_consts]: "STYPE_SPECIAL = 0x80000000"

definition classify_share :: "u32 \<Rightarrow> string \<Rightarrow> bool \<times> bool" where
  "classify_share stype nm = (stype AND STYPE_SPECIAL \<noteq> 0, ends_with nm ''$'')"

definition ACCESS_ALLOWED_ACE_TYPE :: u8 where "ACCESS_ALLOWED_ACE_TYPE = 0"
definition ACCESS_DENIED_ACE_TYPE :: u8 where "ACCESS_DENIED_ACE_TYPE = 1"

datatype ShareDacl = NullDacl | NoSecurityDescriptor | Acl "SharePermission list"

record ShareDaclScan =
  sds_dacl :: ShareDacl
  sds_unsupported_count :: nat

record ShareScanError =
  sse_share_name :: string
  sse_error :: CoreError

record ShareScanResult =
  ssr_shares :: "Share list"
  ssr_permissions :: "SharePermission list"
  ssr_errors :: "ShareScanError list"
  ssr_share_dacls :: "(string \<times> ShareDaclScan) list"

section \<open>Reading one DACL\<close>

datatype DaclClassification = Null | Empty | Normal

definition classify_dacl :: "bool \<Rightarrow> bool \<Rightarrow> u32 \<Rightarrow> DaclClassification" where
  "classify_dacl present ptr_is_null ace_count =
     (if \<not> present \<or> ptr_is_null then Null else if ace_count = 0 then Empty else Normal)"

datatype AceReply =
    NoAce
  | Ace u8 u32 "u32 + string"
    \<comment> \<open>\<open>GetAce\<close> for one index: the type of the ACE, its mask, and its SID as text or the error code.\<close>

record DescriptorReplies =
  dr_dacl :: "u32 + bool \<times> bool"
    \<comment> \<open>\<open>GetSecurityDescriptorDacl\<close>: the error code, or present and whether the pointer is null.\<close>
  dr_ace_count :: "u32 + u32"
    \<comment> \<open>\<open>GetAclInformation\<close>: the error code or the number of ACEs.\<close>
  dr_ace :: "nat \<Rightarrow> AceReply"

fun parse_aces ::
  "string \<Rightarrow> (nat \<Rightarrow> AceReply) \<Rightarrow> nat list \<Rightarrow> SharePermission list \<times> nat \<Rightarrow> SharePermission list \<times> nat" where
  "parse_aces share_name get [] acc = acc"
| "parse_aces share_name get (i # is) (permissions, unsupported_count) =
     parse_aces share_name get is
       (case get i of
          NoAce \<Rightarrow> (permissions, unsupported_count + 1)
        | Ace ace_type m sid \<Rightarrow>
            (case (if ace_type = ACCESS_ALLOWED_ACE_TYPE then Some Allow
                   else if ace_type = ACCESS_DENIED_ACE_TYPE then Some Deny else None) of
               None \<Rightarrow> (permissions, unsupported_count + 1)
             | Some kind \<Rightarrow>
                 (case sid of
                    Inl _ \<Rightarrow> (permissions, unsupported_count + 1)
                  | Inr sid_str \<Rightarrow>
                      (permissions @ [\<lparr>sp_share_name = share_name, sp_sid = sid_str, sp_mask = m,
                         sp_kind = kind\<rparr>], unsupported_count))))"

definition parse_share_dacl ::
  "string \<Rightarrow> DescriptorReplies \<Rightarrow> CoreError + (SharePermission list \<times> nat) option" where
  "parse_share_dacl share_name sd =
     (case dr_dacl sd of
        Inl err \<Rightarrow> Inl (ShareEnumeration (''GetSecurityDescriptorDacl failed for '' @ squote @ share_name @ squote @ '': error ''
       @ dec (unat err)))
      | Inr (present, is_null) \<Rightarrow>
     (case (if is_null then Inr 0 else dr_ace_count sd) of
        Inl err \<Rightarrow> Inl (ShareEnumeration (''GetAclInformation failed for '' @ squote @ share_name @ squote @ '': error ''
       @ dec (unat err)))
      | Inr ace_count \<Rightarrow>
     (case classify_dacl present is_null ace_count of
        Null \<Rightarrow> Inr None
      | Empty \<Rightarrow> Inr (Some ([], 0))
      | Normal \<Rightarrow> Inr (Some (parse_aces share_name (dr_ace sd) [0..<unat ace_count] ([], 0))))))"

definition get_share_dacl ::
  "string \<Rightarrow> string \<Rightarrow> u32 \<times> DescriptorReplies option option \<Rightarrow> CoreError + ShareDaclScan" where
  \<comment> \<open>The reply of \<open>NetShareGetInfo\<close>: its status, and the buffer with the security descriptor,
    each \<open>None\<close> when null.\<close>
  "get_share_dacl server share_name reply =
     (case reply of (status, buf) \<Rightarrow>
        if status \<noteq> 0 then
          Inl (ShareEnumeration (''NetShareGetInfo('' @ server @ '', '' @ share_name @ '') failed: status ''
       @ dec (unat status)))
        else case buf of
            None \<Rightarrow> Inr \<lparr>sds_dacl = NoSecurityDescriptor, sds_unsupported_count = 0\<rparr>
          | Some None \<Rightarrow> Inr \<lparr>sds_dacl = NoSecurityDescriptor, sds_unsupported_count = 0\<rparr>
          | Some (Some sd) \<Rightarrow>
              and_then (parse_share_dacl share_name sd) (\<lambda>parsed.
                case parsed of
                  None \<Rightarrow> Inr \<lparr>sds_dacl = NullDacl, sds_unsupported_count = 0\<rparr>
                | Some (perms, unsupported) \<Rightarrow>
                    Inr \<lparr>sds_dacl = Acl perms, sds_unsupported_count = unsupported\<rparr>))"

section \<open>Scanning a server\<close>

record ShareInfo502 =
  si_netname :: string
  si_path :: string
  si_type :: u32

fun collect_shares :: "string \<Rightarrow> ShareInfo502 list \<Rightarrow> Share list" where
  "collect_shares server_for_unc [] = []"
| "collect_shares server_for_unc (entry # es) =
     (if si_netname entry = [] then collect_shares server_for_unc es
      else (let (is_admin, is_hidden) = classify_share (si_type entry) (si_netname entry)
            in \<lparr>sh_name = si_netname entry,
                sh_unc_path = unc_prefix @ server_for_unc @ bslash @ si_netname entry,
                sh_local_path = (if si_path entry = [] then None else Some (si_path entry)),
                sh_is_admin_share = is_admin, sh_is_hidden = is_hidden\<rparr>)
           # collect_shares server_for_unc es)"

definition enumerate_shares :: "string \<Rightarrow> u32 \<times> ShareInfo502 list option \<Rightarrow> CoreError + Share list" where
  \<comment> \<open>The reply of \<open>NetShareEnum\<close>: its status and its buffer, \<open>None\<close> when null.\<close>
  "enumerate_shares server reply =
     (case reply of (status, buf) \<Rightarrow>
        if status \<noteq> 0 then
          Inl (ShareEnumeration (''NetShareEnum('' @ server @ '') failed: status '' @ dec (unat status)))
        else case buf of
            None \<Rightarrow> Inr []
          | Some entries \<Rightarrow>
              Inr (collect_shares (if server = [] then ''localhost'' else server) entries))"

fun scan_loop :: "(string \<Rightarrow> CoreError + ShareDaclScan) \<Rightarrow> Share list \<Rightarrow> ShareScanResult \<Rightarrow> ShareScanResult" where
  "scan_loop read [] result = result"
| "scan_loop read (share # shares) result =
     scan_loop read shares
       (case read (sh_name share) of
          Inl e \<Rightarrow> result\<lparr>ssr_errors := ssr_errors result @ [\<lparr>sse_share_name = sh_name share, sse_error = e\<rparr>]\<rparr>
        | Inr scan \<Rightarrow>
            result\<lparr>ssr_permissions := ssr_permissions result
                @ (case sds_dacl scan of Acl perms \<Rightarrow> perms | _ \<Rightarrow> []),
              ssr_share_dacls := ssr_share_dacls result @ [(sh_name share, scan)]\<rparr>)"

definition empty_scan :: ShareScanResult where
  "empty_scan = \<lparr>ssr_shares = [], ssr_permissions = [], ssr_errors = [], ssr_share_dacls = []\<rparr>"

definition scan_shares ::
  "CoreError + Share list \<Rightarrow> (string \<Rightarrow> CoreError + ShareDaclScan) \<Rightarrow> ShareScanResult" where
  "scan_shares enumerated read =
     (case enumerated of
        Inl e \<Rightarrow> empty_scan\<lparr>ssr_errors := [\<lparr>sse_share_name = [], sse_error = e\<rparr>]\<rparr>
      | Inr shares \<Rightarrow> (scan_loop read shares empty_scan)\<lparr>ssr_shares := shares\<rparr>)"

section \<open>The stored-order walks\<close>

fun mask_loop :: "Sid set \<Rightarrow> SharePermission list \<Rightarrow> u32 \<Rightarrow> u32 \<Rightarrow> u32" where
  "mask_loop sids [] granted denied = granted"
| "mask_loop sids (perm # perms) granted denied =
     (if sp_sid perm \<notin> sids then mask_loop sids perms granted denied
      else (let m = expand_generic_rights (sp_mask perm);
                bits = m AND NOT (granted OR denied)
            in if bits = 0 then mask_loop sids perms granted denied
               else case sp_kind perm of
                   Allow \<Rightarrow> mask_loop sids perms (granted OR bits) denied
                 | Deny \<Rightarrow> mask_loop sids perms granted (denied OR bits)))"

definition effective_share_mask :: "ShareDacl \<Rightarrow> Sid set \<Rightarrow> AccessMask option" where
  "effective_share_mask dacl sids =
     (case dacl of
        NullDacl \<Rightarrow> None
      | NoSecurityDescriptor \<Rightarrow> Some 0
      | Acl perms \<Rightarrow> Some (mask_loop sids perms 0 0))"

fun share_walk_loop ::
  "(Sid \<Rightarrow> bool) \<Rightarrow> (Sid \<Rightarrow> bool) \<Rightarrow> SharePermission list \<Rightarrow> u32 \<Rightarrow> u32 \<Rightarrow> u32" where
  "share_walk_loop allow_matches deny_matches [] granted denied = granted"
| "share_walk_loop allow_matches deny_matches (p # ps) granted denied =
     (if \<not> (case sp_kind p of Allow \<Rightarrow> allow_matches (sp_sid p) | Deny \<Rightarrow> deny_matches (sp_sid p))
      then share_walk_loop allow_matches deny_matches ps granted denied
      else (let bits = expand_generic_rights (sp_mask p) AND NOT (granted OR denied)
            in case sp_kind p of
                 Allow \<Rightarrow> share_walk_loop allow_matches deny_matches ps (granted OR bits) denied
               | Deny \<Rightarrow> share_walk_loop allow_matches deny_matches ps granted (denied OR bits)))"

definition share_walk :: "SharePermission list \<Rightarrow> (Sid \<Rightarrow> bool) \<Rightarrow> (Sid \<Rightarrow> bool) \<Rightarrow> u32" where
  "share_walk perms allow_matches deny_matches = share_walk_loop allow_matches deny_matches perms 0 0"

fun phase_loop :: "nat \<Rightarrow> nat \<Rightarrow> SharePermission list \<Rightarrow> nat option" where
  "phase_loop max_phase i [] = None"
| "phase_loop max_phase i (p # ps) =
     (let phase = (case sp_kind p of Deny \<Rightarrow> 0 | Allow \<Rightarrow> 1)
      in if phase < max_phase then Some i else phase_loop phase (i + 1) ps)"

definition first_non_canonical_position :: "SharePermission list \<Rightarrow> nat option" where
  "first_non_canonical_position perms = phase_loop 0 0 perms"

section \<open>The share token and the evaluation\<close>

record ShareToken =
  st_enabled :: "Sid set"
  st_deny_only :: "Sid set"
  st_uncertain :: "Sid set"
  st_deny_only_certain :: bool

definition share_token ::
  "string \<Rightarrow> Sid list \<Rightarrow> GroupMembership list \<Rightarrow> Sid list \<Rightarrow> Sid list \<Rightarrow> Sid list \<Rightarrow> AccessContext \<Rightarrow> ShareToken" where
  "share_token user_sid sid_history memberships local_group_sids logon_dependent_group_sids
       uac_filtered_group_sids access_context =
     (let enabled = build_token_sids_with_context user_sid sid_history memberships local_group_sids access_context;
          deny_only = set uac_filtered_group_sids;
          uncertain = (set logon_dependent_group_sids - deny_only) \<union> set (identity_uncertain_well_knowns user_sid);
          enabled = enabled - (deny_only \<union> uncertain);
          crypto = SID_CRYPTOGRAPHIC_OPERATORS \<in> enabled
      in \<lparr>st_enabled = enabled - {SID_CRYPTOGRAPHIC_OPERATORS},
          st_deny_only = deny_only,
          st_uncertain = (if crypto then insert SID_CRYPTOGRAPHIC_OPERATORS uncertain else uncertain),
          st_deny_only_certain = False\<rparr>)"

definition uncertain_permission :: "ShareToken \<Rightarrow> AccessContext \<Rightarrow> SharePermission \<Rightarrow> bool" where
  \<comment> \<open>The closure \<open>uncertain_sid\<close>.\<close>
  "uncertain_permission token context p \<longleftrightarrow>
     sp_sid p \<notin> st_enabled token
     \<and> (sp_sid p \<in> st_uncertain token
        \<or> is_logon_dependent_for (sp_sid p) context (st_enabled token)
        \<or> (sp_kind p = Allow \<and> sp_sid p \<in> st_deny_only token \<and> \<not> st_deny_only_certain token))"

definition evaluate_share_dacl :: "ShareDacl \<Rightarrow> ShareToken \<Rightarrow> AccessContext \<Rightarrow> AccessMask option \<times> nat" where
  "evaluate_share_dacl dacl token context =
     (case dacl of
        NullDacl \<Rightarrow> (None, 0)
      | NoSecurityDescriptor \<Rightarrow> (Some 0, 1)
      | Acl perms \<Rightarrow>
          (let enabled = (\<lambda>s. s \<in> st_enabled token);
               deny_only = (\<lambda>s. s \<in> st_deny_only token);
               uncertain = filter (uncertain_permission token context) perms;
               maybe = (\<lambda>s. s \<in> sp_sid ` set uncertain);
               known = share_walk perms enabled (\<lambda>s. enabled s \<or> deny_only s)
           in if uncertain = [] then (Some known, 0)
              else (let max = share_walk perms (\<lambda>s. enabled s \<or> maybe s) (\<lambda>s. enabled s \<or> deny_only s);
                        min = share_walk perms enabled (\<lambda>s. enabled s \<or> deny_only s \<or> maybe s);
                        count = (if max = min then 0 else length uncertain)
                    in (Some known, count))))"

section \<open>What each ACE decided\<close>

datatype ShareAceOutcome = Decided u32 | NoEffect | Uncertain | NotApplicable

record ShareAceDecision =
  sad_kind :: AceKind
  sad_sid :: Sid
  sad_mask :: AccessMask
  sad_outcome :: ShareAceOutcome

definition applies :: "ShareToken \<Rightarrow> SharePermission \<Rightarrow> bool" where
  "applies token p \<longleftrightarrow>
     (case sp_kind p of
        Allow \<Rightarrow> sp_sid p \<in> st_enabled token
      | Deny \<Rightarrow> sp_sid p \<in> st_enabled token \<or> sp_sid p \<in> st_deny_only token)"

fun decisions_loop ::
  "ShareToken \<Rightarrow> AccessContext \<Rightarrow> SharePermission list \<Rightarrow> u32 \<Rightarrow> u32 \<Rightarrow> ShareAceDecision list" where
  "decisions_loop token context [] granted denied = []"
| "decisions_loop token context (p # ps) granted denied =
     (let bits = expand_generic_rights (sp_mask p) AND NOT (granted OR denied);
          outcome = (if applies token p then (if bits = 0 then ShareAceOutcome.NoEffect else ShareAceOutcome.Decided bits)
                     else if uncertain_permission token context p then ShareAceOutcome.Uncertain
                     else ShareAceOutcome.NotApplicable)
      in \<lparr>sad_kind = sp_kind p, sad_sid = sp_sid p, sad_mask = sp_mask p, sad_outcome = outcome\<rparr>
         # decisions_loop token context ps
             (if applies token p \<and> sp_kind p = Allow then granted OR bits else granted)
             (if applies token p \<and> sp_kind p = Deny then denied OR bits else denied))"

definition share_ace_decisions :: "ShareDacl \<Rightarrow> ShareToken \<Rightarrow> AccessContext \<Rightarrow> ShareAceDecision list" where
  "share_ace_decisions dacl token context =
     (case dacl of Acl perms \<Rightarrow> decisions_loop token context perms 0 0 | _ \<Rightarrow> [])"

definition decision_note :: "ShareAceDecision \<Rightarrow> string option" where
  "decision_note d =
     (case sad_outcome d of
        ShareAceOutcome.Decided bits \<Rightarrow>
          (let verb = (case sad_kind d of Allow \<Rightarrow> ''share grants'' | Deny \<Rightarrow> ''share denies'')
           in Some (''['' @ verb @ '' '' @ display_name bits @ '' (0x'' @ hex8 bits @ '')]''))
      | ShareAceOutcome.NoEffect \<Rightarrow> Some (''[matched, no effective bits contributed]'')
      | ShareAceOutcome.Uncertain \<Rightarrow> Some (''[UNCERTAIN '' @ em_dash
       @ '' the trustee is in the token only for certain logons or session states; ''
       @ ''not in the shown share value]'')
      | ShareAceOutcome.NotApplicable \<Rightarrow> None)"

definition decision_step :: "(string \<rightharpoonup> string) \<Rightarrow> ShareAceDecision \<Rightarrow> string option" where
  "decision_step sid_names d =
     map_option (\<lambda>note.
       (let kind = (case sad_kind d of Allow \<Rightarrow> ''Allow'' | Deny \<Rightarrow> ''Deny'');
            trustee = trustee_with_sid (sad_sid d) sid_names;
            rights = display_name (expand_generic_rights (sad_mask d))
        in ''Share ACE '' @ kind @ '' for '' @ trustee @ '' '' @ right_arrow @ '' '' @ rights
       @ '' (0x'' @ hex8 (sad_mask d) @ '') '' @ note))
       (decision_note d)"

definition share_decision_steps :: "ShareAceDecision list \<Rightarrow> (string \<rightharpoonup> string) \<Rightarrow> string list" where
  "share_decision_steps decisions sid_names =
     (let steps = filter_map (decision_step sid_names) decisions
      in if steps = [] then
           [if decisions = [] then ''Share DACL has no entries '' @ em_dash @ '' the share grants nobody access'' else ''No share ACE applies to this token '' @ em_dash @ '' the share grants nothing'']
         else steps)"

definition outcome_effect :: "ShareAceOutcome \<Rightarrow> AceEffect option" where
  "outcome_effect o' =
     (case o' of
        ShareAceOutcome.Decided bits \<Rightarrow> Some (AceEffect.Decided bits)
      | ShareAceOutcome.NoEffect \<Rightarrow> Some AceEffect.NoEffect
      | ShareAceOutcome.Uncertain \<Rightarrow> Some (AceEffect.Uncertain (''the trustee is in the token only for certain logons or session states; ''
       @ ''not in the shown share value''))
      | ShareAceOutcome.NotApplicable \<Rightarrow> None)"

definition share_ace_outcomes :: "ShareAceDecision list \<Rightarrow> (string \<rightharpoonup> string) \<Rightarrow> AceOutcome list" where
  "share_ace_outcomes decisions sid_names =
     filter_map (\<lambda>d. map_option (\<lambda>effect.
         \<lparr>ao_layer = TraceLayer.Share, ao_kind = sad_kind d, ao_sid = sad_sid d,
          ao_trustee = trustee_with_sid (sad_sid d) sid_names, ao_mask = sad_mask d,
          ao_inherited = False, ao_effect = effect\<rparr>) (outcome_effect (sad_outcome d))) decisions"

section \<open>The status an evaluation receives\<close>

record ShareResolution =
  srs_status :: ShareMaskStatus
  srs_unevaluated :: nat
  srs_decisions :: "ShareAceDecision list"

definition NO_SECURITY_DESCRIPTOR_REASON :: string where
  "NO_SECURITY_DESCRIPTOR_REASON = ''the server reports no security descriptor for this share '' @ em_dash
       @ '' it applies a built-in default Stars cannot see (for C$ and ADMIN$: ''
       @ ''administrators and backup operators only, lab-verified); the share ''
       @ ''permission is not determinable''"

record ShareRequest =
  sq_path :: string
  sq_smb_server :: "string option"
  sq_share_name :: "string option"
  sq_user_sid :: string
  sq_sid_history :: "Sid list"
  sq_memberships :: "GroupMembership list"
  sq_local_group_sids :: "Sid list"
  sq_logon_dependent_group_sids :: "Sid list"
  sq_uac_filtered_group_sids :: "Sid list"
  sq_access_context :: AccessContext
  sq_uac_filter_certain :: bool
  sq_anonymous_everyone :: "bool option"

definition resolved_token :: "ShareRequest \<Rightarrow> ShareToken" where
  "resolved_token q =
     (let token = share_token (sq_user_sid q) (sq_sid_history q) (sq_memberships q) (sq_local_group_sids q)
            (sq_logon_dependent_group_sids q) (sq_uac_filtered_group_sids q) (sq_access_context q);
          token = token\<lparr>st_deny_only_certain := sq_uac_filter_certain q\<rparr>
      in if sq_user_sid q = SID_ANONYMOUS_LOGON \<and> sq_anonymous_everyone q \<noteq> None then
           (let token = token\<lparr>st_uncertain := st_uncertain token - {SID_EVERYONE}\<rparr>
            in if sq_anonymous_everyone q = Some True
               then token\<lparr>st_enabled := insert SID_EVERYONE (st_enabled token)\<rparr> else token)
         else token)"

definition resolve_share_mask_status_explained ::
  "(string \<Rightarrow> string \<Rightarrow> CoreError + ShareDaclScan) \<Rightarrow> ShareRequest \<Rightarrow> ShareResolution" where
  "resolve_share_mask_status_explained read q =
     (case smb_resolve (sq_path q) (sq_smb_server q) (sq_share_name q) of
        None \<Rightarrow> \<lparr>srs_status = ShareMaskStatus.NotApplicable, srs_unevaluated = 0, srs_decisions = []\<rparr>
      | Some ctx \<Rightarrow>
          (let token = resolved_token q
           in case read (smb_server ctx) (smb_share ctx) of
                Inl e \<Rightarrow> \<lparr>srs_status = ShareMaskStatus.ReadFailed (error_text e), srs_unevaluated = 0, srs_decisions = []\<rparr>
              | Inr scan \<Rightarrow>
                  if sds_dacl scan = NoSecurityDescriptor then
                    \<lparr>srs_status = ShareMaskStatus.ReadFailed NO_SECURITY_DESCRIPTOR_REASON, srs_unevaluated = 0,
                     srs_decisions = []\<rparr>
                  else
                    (let (m, logon_dependent) = evaluate_share_dacl (sds_dacl scan) token (sq_access_context q)
                     in \<lparr>srs_status = (case m of Some m \<Rightarrow> ShareMaskStatus.Applied m
                            | None \<Rightarrow> ShareMaskStatus.Unrestricted),
                         srs_unevaluated = sds_unsupported_count scan + logon_dependent,
                         srs_decisions = share_ace_decisions (sds_dacl scan) token (sq_access_context q)\<rparr>)))"

definition resolve_share_mask_status ::
  "(string \<Rightarrow> string \<Rightarrow> CoreError + ShareDaclScan) \<Rightarrow> ShareRequest \<Rightarrow> ShareMaskStatus \<times> nat" where
  "resolve_share_mask_status read q =
     (let r = resolve_share_mask_status_explained read q in (srs_status r, srs_unevaluated r))"

end
