(* ===== verification/Share_Results.thy ===== *)
theory Share_Results
  imports Share_Walk Engine_Results "HOL-Library.Multiset"
begin

unbundle bit_operations_syntax

text \<open>
  What the share side promises: its walks obey the contract of a stored-order walk, they are the
  walks of the NTFS side on the same entries, so that the bounds mean the same; the decisions
  explain the mask; no entry of a DACL and no share of a server is lost; the share token is the
  NTFS token; and a determinable evaluation over SMB is the conjunction of both access checks.
\<close>

section \<open>The share walks obey the contract\<close>

definition is_allow_share :: "SharePermission \<Rightarrow> bool" where
  "is_allow_share p \<longleftrightarrow> sp_kind p = Allow"

definition share_rights :: "SharePermission \<Rightarrow> u32" where
  "share_rights p = expand_generic_rights (sp_mask p)"

definition share_hits :: "(Sid \<Rightarrow> bool) \<times> (Sid \<Rightarrow> bool) \<Rightarrow> SharePermission \<Rightarrow> bool" where
  "share_hits q p \<longleftrightarrow> (case sp_kind p of Allow \<Rightarrow> fst q (sp_sid p) | Deny \<Rightarrow> snd q (sp_sid p))"

definition sid_hits :: "Sid set \<Rightarrow> SharePermission \<Rightarrow> bool" where
  "sid_hits sids p \<longleftrightarrow> sp_sid p \<in> sids"

lemma share_walk_loop_bits:
  "bit (share_walk_loop p q perms g d) n \<longleftrightarrow>
     (if bit (g OR d) n then bit g n
      else decided_for is_allow_share (decider (share_hits (p, q)) share_rights perms n))"
proof (induction perms arbitrary: g d)
  case (Cons a perms)
  show ?case
    by (cases "sp_kind a")
      (auto simp: Cons.IH share_hits_def [of "(p, q)" a] share_rights_def [of a]
        is_allow_share_def [of a] Let_def bit_simps dest: bit_imp_le_length)
qed (simp add: bit_simps)

interpretation share_acl: stored_order_walk is_allow_share share_rights share_hits
    "\<lambda>q perms. share_walk perms (fst q) (snd q)"
  by unfold_locales (simp add: share_walk_def share_walk_loop_bits)

lemma mask_loop_walk: "mask_loop sids perms g d = share_walk_loop (\<lambda>s. s \<in> sids) (\<lambda>s. s \<in> sids) perms g d"
proof (induction sids perms g d rule: mask_loop.induct)
  case (2 sids p ps g d)
  then show ?case by (cases "sp_kind p") (auto simp: Let_def)
qed simp

interpretation sid_acl: stored_order_walk is_allow_share share_rights sid_hits
    "\<lambda>sids perms. the (effective_share_mask (Acl perms) sids)"
proof
  fix sids :: "Sid set" and perms n
  have "share_hits ((\<lambda>s. s \<in> sids), (\<lambda>s. s \<in> sids)) = sid_hits sids"
    by (simp add: share_hits_def sid_hits_def fun_eq_iff split: AceKind.split)
  then show "bit (the (effective_share_mask (Acl perms) sids)) n \<longleftrightarrow>
      decided_for is_allow_share (decider (sid_hits sids) share_rights perms n)"
    by (simp add: effective_share_mask_def mask_loop_walk share_walk_loop_bits)
qed

section \<open>The share side is the NTFS algorithm\<close>

definition as_ace :: "SharePermission \<Rightarrow> AceEntry" where
  \<comment> \<open>The object ACE with the same trustee, kind and mask; share ACEs are not inherited.\<close>
  "as_ace p = \<lparr>ace_kind = sp_kind p, ace_sid = sp_sid p, ace_mask = sp_mask p, ace_inherited = False,
     ace_inheritance_flags = 0, ace_propagation_flags = 0\<rparr>"

lemma as_ace_fields [simp]:
  "ace_kind (as_ace p) = sp_kind p" "ace_sid (as_ace p) = sp_sid p" "ace_mask (as_ace p) = sp_mask p"
  "ace_applies_to_current_object (as_ace p)"
  by (simp_all add: as_ace_def ace_applies_to_current_object_def)

lemma share_walk_loop_as_ntfs:
  "share_walk_loop p q perms g d = granted_with_loop p q (map as_ace perms) g d"
  by (induction perms arbitrary: g d) (simp_all add: Let_def split: AceKind.split)

lemma share_walk_as_ntfs: "share_walk perms p q = walk_granted_with (map as_ace perms) p q"
  by (simp add: share_walk_def walk_granted_with_def share_walk_loop_as_ntfs)

definition token_bounds :: "ShareToken \<Rightarrow> AccessContext \<Rightarrow> SharePermission list \<Rightarrow> LogonDependentBounds option" where
  \<comment> \<open>The bounds of the NTFS side over the same entries, without an owner rule.\<close>
  "token_bounds token ctx perms = logon_dependent_bounds (map as_ace perms) (st_enabled token) ctx
     (st_uncertain token) (st_deny_only token) 0 None (st_deny_only_certain token)"

definition shown_share_mask :: "ShareToken \<Rightarrow> SharePermission list \<Rightarrow> u32" where
  "shown_share_mask token perms =
     wo_granted (walk_dacl_stored_order (map as_ace perms) (st_enabled token) (st_deny_only token))"

lemma uncertain_as_ntfs:
  "uncertain_trustee ctx (st_enabled token) (st_uncertain token) (st_deny_only token) None
     (st_deny_only_certain token) (as_ace p) \<longleftrightarrow> uncertain_permission token ctx p"
  by (auto simp: uncertain_trustee_def uncertain_permission_def is_some_def)

lemma uncertain_list:
  "bound_sids (map as_ace perms) ctx (st_enabled token) (st_uncertain token) (st_deny_only token) None
     (st_deny_only_certain token) = map sp_sid (filter (uncertain_permission token ctx) perms)"
  by (simp add: bound_sids_def filter_map o_def uncertain_as_ntfs)

lemma bounds_differ: "logon_dependent_bounds dacl ms ctx ldg ds implicit uo cert = Some b \<Longrightarrow> ldb_min b \<noteq> ldb_max b"
  by (auto simp: logon_dependent_bounds_def Let_def split: if_splits)

lemma share_evaluation:
  "fst (evaluate_share_dacl (Acl perms) token ctx) = Some (shown_share_mask token perms)"
  "snd (evaluate_share_dacl (Acl perms) token ctx) = 0 \<longleftrightarrow> token_bounds token ctx perms = None"
proof -
  let ?un = "filter (uncertain_permission token ctx) perms"
  have mask: "shown_share_mask token perms =
      share_walk perms (\<lambda>s. s \<in> st_enabled token) (\<lambda>s. s \<in> st_enabled token \<or> s \<in> st_deny_only token)"
    by (simp add: shown_share_mask_def walk_as_predicates share_walk_as_ntfs)
  then show "fst (evaluate_share_dacl (Acl perms) token ctx) = Some (shown_share_mask token perms)"
    by (simp add: evaluate_share_dacl_def Let_def)
  let ?max = "upper_mask (map as_ace perms) ctx (st_enabled token) (st_uncertain token) (st_deny_only token) None
      (st_deny_only_certain token)"
  let ?min = "lower_mask (map as_ace perms) ctx (st_enabled token) (st_uncertain token) (st_deny_only token) None
      (st_deny_only_certain token)"
  have bounds: "token_bounds token ctx perms = None \<longleftrightarrow> ?min = ?max"
    unfolding token_bounds_def
    by (cases rule: bounds_cases [of "map as_ace perms" "st_enabled token" ctx "st_uncertain token"
        "st_deny_only token" 0 None "st_deny_only_certain token"])
      (auto simp: upper_owner_bits_def is_some_def dest: bounds_differ)
  have walks: "?max = share_walk perms (\<lambda>s. s \<in> st_enabled token \<or> s \<in> sp_sid ` set ?un)
        (\<lambda>s. s \<in> st_enabled token \<or> s \<in> st_deny_only token)"
      "?min = share_walk perms (\<lambda>s. s \<in> st_enabled token)
        (\<lambda>s. s \<in> st_enabled token \<or> s \<in> st_deny_only token \<or> s \<in> sp_sid ` set ?un)"
    by (simp_all add: upper_mask_def lower_mask_def uncertain_list share_walk_as_ntfs disj_assoc)
  show "snd (evaluate_share_dacl (Acl perms) token ctx) = 0 \<longleftrightarrow> token_bounds token ctx perms = None"
  proof (cases "?un = []")
    case True
    then show ?thesis unfolding bounds walks by (simp add: evaluate_share_dacl_def Let_def)
  next
    case False
    then have "snd (evaluate_share_dacl (Acl perms) token ctx) = (if ?max = ?min then 0 else length ?un)"
      unfolding walks by (simp add: evaluate_share_dacl_def Let_def)
    moreover from False have "length ?un \<noteq> 0" by (simp only: length_0_conv not_False_eq_True)
    ultimately show ?thesis unfolding bounds by metis
  qed
qed

section \<open>The decisions add up\<close>

definition decided_share :: "AceKind \<Rightarrow> ShareAceDecision list \<Rightarrow> u32" where
  \<comment> \<open>The rights the ACEs of one kind decided.\<close>
  "decided_share kind ds = or_list (map (\<lambda>d. case sad_outcome d of ShareAceOutcome.Decided bits \<Rightarrow> bits | _ \<Rightarrow> 0)
     (filter (\<lambda>d. sad_kind d = kind) ds))"

lemma decided_share_Cons:
  "decided_share kind (d # ds) =
     (if sad_kind d = kind then (case sad_outcome d of ShareAceOutcome.Decided bits \<Rightarrow> bits | _ \<Rightarrow> 0) else 0)
     OR decided_share kind ds"
  by (simp add: decided_share_def)

lemma decisions_loop_mask:
  "g OR decided_share Allow (decisions_loop token ctx perms g d) =
     share_walk_loop (\<lambda>s. s \<in> st_enabled token) (\<lambda>s. s \<in> st_enabled token \<or> s \<in> st_deny_only token) perms g d"
proof (induction perms arbitrary: g d)
  case Nil
  show ?case by (simp add: decided_share_def)
next
  case (Cons p perms)
  let ?bits = "expand_generic_rights (sp_mask p) AND NOT (g OR d)"
  have "(case (if ?bits = 0 then ShareAceOutcome.NoEffect else ShareAceOutcome.Decided ?bits) of
      ShareAceOutcome.Decided bits \<Rightarrow> bits | _ \<Rightarrow> 0) = ?bits" by simp
  then show ?case
    using Cons.IH [of "g OR ?bits" d] Cons.IH [of g "d OR ?bits"] Cons.IH [of g d]
    by (cases "sp_kind p") (simp_all add: decided_share_Cons applies_def Let_def or.assoc)
qed

lemma decisions_map:
  "map (\<lambda>d. (sad_kind d, sad_sid d, sad_mask d)) (decisions_loop token ctx perms g d) =
     map (\<lambda>p. (sp_kind p, sp_sid p, sp_mask p)) perms"
  by (induction perms arbitrary: g d) (simp_all add: Let_def)

lemma decisions_not_applicable:
  "length (filter (\<lambda>d. sad_outcome d = ShareAceOutcome.Uncertain) (decisions_loop token ctx perms g d)) =
     length (filter (\<lambda>p. \<not> applies token p \<and> uncertain_permission token ctx p) perms)"
  by (induction perms arbitrary: g d) (simp_all add: Let_def)

lemma uncertain_applies: "uncertain_permission token ctx p \<Longrightarrow> sp_sid p \<notin> st_deny_only token \<Longrightarrow> \<not> applies token p"
  by (auto simp: uncertain_permission_def applies_def split: AceKind.splits)

section \<open>Nothing is dropped on the way\<close>

lemma scan_loop_accounts:
  "mset (map fst (ssr_share_dacls (scan_loop read shares r)) @ map sse_share_name (ssr_errors (scan_loop read shares r))) =
     mset (map fst (ssr_share_dacls r) @ map sse_share_name (ssr_errors r)) + mset (map sh_name shares)"
  by (induction shares arbitrary: r) (simp_all split: sum.split)

lemma scan_loop_values:
  "set (ssr_share_dacls (scan_loop read shares r)) =
     set (ssr_share_dacls r) \<union> {(sh_name s, scan) | s scan. s \<in> set shares \<and> read (sh_name s) = Inr scan}"
  by (induction shares arbitrary: r) (auto split: sum.split)


definition readable_ace :: "string \<Rightarrow> AceReply \<Rightarrow> SharePermission option" where
  \<comment> \<open>The entry an ACE stands for, when it is of a kind the tool interprets and its SID is readable.\<close>
  "readable_ace nm reply =
     (case reply of
        Ace ty m (Inr sid) \<Rightarrow>
          (if ty \<in> {0, 1} then Some \<lparr>sp_share_name = nm, sp_sid = sid, sp_mask = m,
             sp_kind = (if ty = 0 then Allow else Deny)\<rparr> else None)
      | _ \<Rightarrow> None)"

definition unreadable_count :: "string \<Rightarrow> AceReply list \<Rightarrow> nat" where
  "unreadable_count nm replies = length (filter (\<lambda>r. readable_ace nm r = None) replies)"

lemma parse_aces_spec:
  "parse_aces nm get is (perms, n) =
     (perms @ filter_map (readable_ace nm) (map get is), n + unreadable_count nm (map get is))"
proof (induction "is" arbitrary: perms n)
  case (Cons i "is")
  have "readable_ace nm (get i) = (case get i of NoAce \<Rightarrow> None | Ace ty m sid \<Rightarrow>
      (case sid of Inl _ \<Rightarrow> None | Inr s \<Rightarrow> if ty \<in> {0, 1} then Some \<lparr>sp_share_name = nm, sp_sid = s, sp_mask = m,
             sp_kind = (if ty = 0 then Allow else Deny)\<rparr> else None))"
    by (auto simp: readable_ace_def split: AceReply.split sum.split)
  then show ?case
    by (auto simp: Cons.IH unreadable_count_def ACCESS_ALLOWED_ACE_TYPE_def ACCESS_DENIED_ACE_TYPE_def
        split: AceReply.split sum.split)
qed (simp add: unreadable_count_def)

section \<open>The tokens the share side is about\<close>

definition possible_share_token :: "ShareToken \<Rightarrow> AccessContext \<Rightarrow> Sid set \<times> Sid set \<Rightarrow> bool" where
  \<comment> \<open>A token (enabled SIDs, all SIDs) that agrees with what the share token says is known.\<close>
  "possible_share_token token ctx t \<longleftrightarrow>
     fst t \<subseteq> snd t \<and>
     possible_token ctx (st_enabled token) (st_uncertain token) (st_deny_only token) None
       (st_deny_only_certain token) t"

definition real_share :: "SharePermission list \<Rightarrow> Sid set \<times> Sid set \<Rightarrow> u32" where
  \<comment> \<open>The access-check result on a share DACL: enabled SIDs match Allow, all SIDs match Deny.\<close>
  "real_share perms t = share_walk perms (\<lambda>s. s \<in> fst t) (\<lambda>s. s \<in> snd t)"

lemma real_share_as_ntfs:
  "fst t \<subseteq> snd t \<Longrightarrow> real_share perms t = real_mask (map as_ace perms) t 0"
proof -
  assume "fst t \<subseteq> snd t"
  then have "(\<lambda>s. s \<in> snd t) = (\<lambda>s. s \<in> fst t \<or> s \<in> snd t)" by auto
  then show ?thesis
    by (simp add: real_share_def real_mask_def walk_as_predicates share_walk_as_ntfs)
qed

lemma certain_share_value:
  assumes "evaluate_share_dacl (Acl perms) token ctx = (Some m, 0)" and "possible_share_token token ctx t"
  shows "real_share perms t = m"
proof -
  have "token_bounds token ctx perms = None" "m = shown_share_mask token perms"
    using share_evaluation [of perms token ctx] assms(1) by simp_all
  then show ?thesis
    using no_bounds_value [of "map as_ace perms" "st_enabled token" ctx "st_uncertain token" "st_deny_only token" 0
        None "st_deny_only_certain token" t 0] assms(2)
    by (simp add: token_bounds_def shown_share_mask_def possible_share_token_def real_share_as_ntfs
        possible_owner_bits_def upper_owner_bits_def is_some_def)
qed

section \<open>Properties\<close>

text \<open>C16: a share value without uncertain entries is exact. When the evaluation of a share
  DACL reports no uncertain entry, its mask is the access-check result on the DACL of every token
  that agrees with what is known of the account: the enabled SIDs enabled, the filtered groups at
  least deny-only, and any choice of the SIDs that depend on the logon.\<close>

theorem certain_share_mask_is_real:
  assumes "evaluate_share_dacl (Acl perms) token ctx = (Some m, 0)" and "possible_share_token token ctx t"
  shows "real_share perms t = m"
  using assms by (rule certain_share_value)

definition sample_share_acl :: "SharePermission list" where
  "sample_share_acl =
     [\<lparr>sp_share_name = ''Data'', sp_sid = ''S-1-5-113'', sp_mask = 2, sp_kind = Deny\<rparr>,
      \<lparr>sp_share_name = ''Data'', sp_sid = ''S-1-1-0'', sp_mask = 1, sp_kind = Allow\<rparr>]"

definition sample_share_token :: ShareToken where
  "sample_share_token = \<lparr>st_enabled = {''S-1-1-0''}, st_deny_only = {''S-1-5-32-544''}, st_uncertain = {},
     st_deny_only_certain = False\<rparr>"

lemma certain_share_mask_is_real_witness:
  "real_share sample_share_acl ({''S-1-1-0'', ''S-1-5-113''}, {''S-1-1-0'', ''S-1-5-113'', ''S-1-5-32-544''}) = 1"
proof (rule certain_share_mask_is_real [of _ sample_share_token RemoteSmb])
  have "expand_generic_rights 1 = 1" "expand_generic_rights 2 = 2"
    by (simp_all add: expand_without_generic has_generic_def mask_consts)
  then show "evaluate_share_dacl (Acl sample_share_acl) sample_share_token RemoteSmb = (Some 1, 0)"
    by (simp add: evaluate_share_dacl_def sample_share_acl_def sample_share_token_def share_walk_def
        uncertain_permission_def is_logon_dependent_for_def is_logon_dependent_sid_def sid_consts Let_def)
qed (auto simp: possible_share_token_def sample_share_token_def possible_token_def maybe_present_def
    is_logon_dependent_for_def is_logon_dependent_sid_def sid_consts is_some_def)

text \<open>The share evaluation is the evaluation of the object side. For the same entries, the
  shown mask is the one of the NTFS walk, and an uncertain entry is counted exactly when the
  NTFS side would report bounds.\<close>

theorem share_evaluation_is_ntfs_evaluation:
  "fst (evaluate_share_dacl (Acl perms) token ctx) =
     Some (wo_granted (walk_dacl_stored_order (map as_ace perms) (st_enabled token) (st_deny_only token)))
   \<and> (snd (evaluate_share_dacl (Acl perms) token ctx) = 0 \<longleftrightarrow>
     logon_dependent_bounds (map as_ace perms) (st_enabled token) ctx (st_uncertain token)
       (st_deny_only token) 0 None (st_deny_only_certain token) = None)"
  using share_evaluation [of perms token ctx] by (simp add: shown_share_mask_def token_bounds_def)

text \<open>The share decisions account for the share mask. There is one decision for every entry
  of the DACL, in stored order; the rights the Allow entries decided add up to the mask the
  evaluation applies.\<close>

theorem share_decisions_explain_mask:
  "fst (evaluate_share_dacl (Acl perms) token ctx) =
     Some (decided_share Allow (share_ace_decisions (Acl perms) token ctx))
   \<and> map (\<lambda>d. (sad_kind d, sad_sid d, sad_mask d)) (share_ace_decisions (Acl perms) token ctx) =
     map (\<lambda>p. (sp_kind p, sp_sid p, sp_mask p)) perms"
proof
  have "decided_share Allow (decisions_loop token ctx perms 0 0) =
      share_walk perms (\<lambda>s. s \<in> st_enabled token) (\<lambda>s. s \<in> st_enabled token \<or> s \<in> st_deny_only token)"
    using decisions_loop_mask [of 0 token ctx perms 0] by (simp add: share_walk_def)
  then show "fst (evaluate_share_dacl (Acl perms) token ctx) =
      Some (decided_share Allow (share_ace_decisions (Acl perms) token ctx))"
    by (simp add: evaluate_share_dacl_def share_ace_decisions_def Let_def)
qed (simp add: share_ace_decisions_def decisions_map)

text \<open>No entry of a share DACL is lost. A DACL that is read gives, in stored order, the
  entries of the kinds the tool interprets whose SID is readable, and the count of all others;
  together they are as many as the DACL has.\<close>

theorem every_share_ace_accounted:
  assumes "dr_dacl sd = Inr (True, False)" and "dr_ace_count sd = Inr n"
  shows "parse_share_dacl nm sd = Inr (Some
      (filter_map (readable_ace nm) (map (dr_ace sd) [0..<unat n]),
       unreadable_count nm (map (dr_ace sd) [0..<unat n])))
    \<and> length (filter_map (readable_ace nm) (map (dr_ace sd) [0..<unat n]))
      + unreadable_count nm (map (dr_ace sd) [0..<unat n]) = unat n"
proof
  show "parse_share_dacl nm sd = Inr (Some
      (filter_map (readable_ace nm) (map (dr_ace sd) [0..<unat n]),
       unreadable_count nm (map (dr_ace sd) [0..<unat n])))"
    using assms by (auto simp: parse_share_dacl_def classify_dacl_def parse_aces_spec unreadable_count_def)
  have "length (filter_map f xs) + length (filter (\<lambda>x. f x = None) xs) = length xs" for f :: "AceReply \<Rightarrow> SharePermission option" and xs
    by (induction xs) (auto split: option.split)
  from this [of "readable_ace nm" "map (dr_ace sd) [0..<unat n]"]
  show "length (filter_map (readable_ace nm) (map (dr_ace sd) [0..<unat n]))
      + unreadable_count nm (map (dr_ace sd) [0..<unat n]) = unat n"
    by (simp add: unreadable_count_def)
qed

definition sample_descriptor :: DescriptorReplies where
  "sample_descriptor = \<lparr>dr_dacl = Inr (True, False), dr_ace_count = Inr 2,
     dr_ace = (\<lambda>i. if i = 0 then Ace 0 0x1301BF (Inr ''S-1-1-0'') else NoAce)\<rparr>"

lemma every_share_ace_accounted_witness:
  "parse_share_dacl ''Data'' sample_descriptor = Inr (Some ([\<lparr>sp_share_name = ''Data'', sp_sid = ''S-1-1-0'',
     sp_mask = 0x1301BF, sp_kind = Allow\<rparr>], 1))"
proof -
  have "[0..<2] = [0, 1 :: nat]" by (simp add: upt_rec)
  then show ?thesis
    using every_share_ace_accounted [of sample_descriptor 2 "''Data''"]
    by (simp add: sample_descriptor_def readable_ace_def unreadable_count_def)
qed

text \<open>No share of a server is lost. A scan answers every enumerated share exactly once,
  with the DACL that was read or with an error; the DACLs are those that were read for the
  shares.\<close>

theorem every_share_accounted:
  "mset (map fst (ssr_share_dacls (scan_shares (Inr shares) read))
      @ map sse_share_name (ssr_errors (scan_shares (Inr shares) read))) = mset (map sh_name shares)
   \<and> set (ssr_share_dacls (scan_shares (Inr shares) read)) =
      {(sh_name s, scan) | s scan. s \<in> set shares \<and> read (sh_name s) = Inr scan}
   \<and> ssr_shares (scan_shares (Inr shares) read) = shares"
  using scan_loop_accounts [of read shares empty_scan] scan_loop_values [of read shares empty_scan]
  by (simp add: scan_shares_def empty_scan_def)

end
