(* ===== verification/Local_Groups.thy ===== *)
theory Local_Groups
  imports Membership Net_Inputs
begin

text \<open>
  The local groups of a server (\<open>crates/ad_resolver/src/local_groups.rs\<close>): the enumeration of
  their names page by page, the table of groups with their members by SID and its gaps, and the
  membership paths that explain a local group.

  The replies of \<open>NetLocalGroupEnum\<close>, \<open>NetLocalGroupGetMembers\<close>, \<open>NetUserGetLocalGroups\<close> and of the
  account lookups are parameters; so is \<open>lc\<close>, the Unicode lower case, and \<open>server\<close>, the text
  \<open>{server:?}\<close> of the server.
\<close>

section \<open>The names of the groups\<close>

definition ERROR_ACCESS_DENIED :: u32 where "ERROR_ACCESS_DENIED = 5"
definition ERROR_MORE_DATA :: u32 where "ERROR_MORE_DATA = 234"
definition NERR_USER_NOT_FOUND :: u32 where "NERR_USER_NOT_FOUND = 2221"
definition SID_TYPE_ALIAS :: int where "SID_TYPE_ALIAS = 4"
definition MAX_LOCAL_GROUP_PAGES :: nat where "MAX_LOCAL_GROUP_PAGES = 10000"

fun pages_loop :: "string \<Rightarrow> (nat \<Rightarrow> u32 \<times> string list) \<Rightarrow> nat \<Rightarrow> nat \<Rightarrow> string list \<Rightarrow> CoreError + string list" where
  \<comment> \<open>\<open>page i\<close> is the reply to call \<open>i\<close>: its status and the names in its buffer. The first number
    counts the calls that are left.\<close>
  "pages_loop server page 0 i names =
     Inl (LdapQuery (''NetLocalGroupEnum on '' @ server @ '' did not finish after '' @ dec MAX_LOCAL_GROUP_PAGES
       @ '' pages''))"
| "pages_loop server page (Suc k) i names =
     (case page i of (status, entries) \<Rightarrow>
        if status \<noteq> 0 \<and> status \<noteq> ERROR_MORE_DATA then
          Inl (if status = ERROR_ACCESS_DENIED then AccessDenied (''NetLocalGroupEnum: access denied on '' @ server)
               else LdapQuery (''NetLocalGroupEnum on '' @ server @ '' failed with status '' @ dec (unat status)))
        else if [] \<in> set entries then
          Inl (LdapQuery (''NetLocalGroupEnum on '' @ server @ '' returned a local group without a name''))
        else if status = 0 then Inr (dedup_adjacent (sort (names @ entries)))
        else pages_loop server page k (i + 1) (names @ entries))"

definition enumerate_local_group_names :: "string \<Rightarrow> (nat \<Rightarrow> u32 \<times> string list) \<Rightarrow> CoreError + string list" where
  "enumerate_local_group_names server page = pages_loop server page MAX_LOCAL_GROUP_PAGES 0 []"

section \<open>The table\<close>

record LocalGroupMember =
  lgm_sid :: "Sid option"
  lgm_display_name :: "string option"

record LocalGroupTable =
  lgt_groups :: "LocalGroupDescriptor list"
  lgt_gaps :: "string list"

fun read_members :: "LocalGroupMember list \<Rightarrow> Sid list \<Rightarrow> nat \<Rightarrow> Sid list \<times> nat" where
  "read_members [] member_sids unreadable = (member_sids, unreadable)"
| "read_members (m # ms) member_sids unreadable =
     (case lgm_sid m of
        Some s \<Rightarrow>
          (if is_ok (validate_sid s) then read_members ms (member_sids @ [s]) unreadable
           else read_members ms member_sids (unreadable + 1))
      | None \<Rightarrow> read_members ms member_sids (unreadable + 1))"

record TableState =
  ts_table :: LocalGroupTable
  ts_domains :: "string list"
    \<comment> \<open>\<open>account_domains\<close>: a \<open>BTreeSet\<close>, its elements without repetition.\<close>

definition gap :: "string \<Rightarrow> TableState \<Rightarrow> TableState" where
  "gap text st = st\<lparr>ts_table := (ts_table st)\<lparr>lgt_gaps := lgt_gaps (ts_table st) @ [text]\<rparr>\<rparr>"

definition group_sid :: "(string \<Rightarrow> (string \<times> int) option) \<Rightarrow> string \<Rightarrow> string + Sid" where
  \<comment> \<open>The first \<open>match\<close> of the loop: the SID of the group, or the text of a gap.\<close>
  "group_sid lookup name =
     (case lookup name of
        Some (sid, use') \<Rightarrow>
          (if use' = SID_TYPE_ALIAS then
             (case validate_sid sid of
                Inr _ \<Rightarrow> Inr sid
              | Inl e \<Rightarrow> Inl (''the local group '' @ squote @ name @ squote @ '' returned an invalid SID (''
       @ error_text e @ '')''))
           else Inl (''the name of the local group '' @ squote @ name @ squote @ '' resolves to '' @ sid
       @ '', which is not a local group (SID type ''
       @ (if use' < 0 then ''-'' @ dec (nat (- use')) else dec (nat use')) @ '')''))
      | None \<Rightarrow> Inl (''the SID of the local group '' @ squote @ name @ squote @ '' could not be read''))"

definition note_domain :: "Sid \<Rightarrow> TableState \<Rightarrow> TableState" where
  "note_domain sid st =
     (if \<not> starts_with sid ''S-1-5-32-'' then
        (case rsplit_once (CHR ''-'') sid of
           Some (domain, _) \<Rightarrow> st\<lparr>ts_domains := List.insert domain (ts_domains st)\<rparr>
         | None \<Rightarrow> st)
      else st)"

definition add_group ::
  "(string \<Rightarrow> (string \<times> int) option) \<Rightarrow> (string \<Rightarrow> CoreError + LocalGroupMember list) \<Rightarrow> string
     \<Rightarrow> TableState \<Rightarrow> TableState" where
  \<comment> \<open>The body of the loop over the names.\<close>
  "add_group lookup members_of name st =
     (case group_sid lookup name of
        Inl text \<Rightarrow> gap text st
      | Inr sid \<Rightarrow>
          (let st = note_domain sid st
           in case members_of name of
                Inl e \<Rightarrow> gap (''the members of the local group '' @ squote @ name @ squote @ '' could not be read (''
       @ error_text e @ '')'') st
              | Inr members \<Rightarrow>
                  (let (member_sids, unreadable) = read_members members [] 0;
                       st = (if 0 < unreadable then
                           gap (dec unreadable @ '' member(s) of the local group '' @ squote @ name @ squote
       @ '' have no readable SID'') st else st);
                       table = ts_table st;
                       group = \<lparr>lgd_sid = sid, lgd_name = name, lgd_members = dedup_adjacent (sort member_sids)\<rparr>
                   in st\<lparr>ts_table := table\<lparr>lgt_groups := lgt_groups table @ [group]\<rparr>\<rparr>)))"

definition read_local_group_table ::
  "string \<Rightarrow> (nat \<Rightarrow> u32 \<times> string list) \<Rightarrow> (string \<Rightarrow> (string \<times> int) option) \<Rightarrow>
     (string \<Rightarrow> CoreError + LocalGroupMember list) \<Rightarrow> CoreError + LocalGroupTable" where
  "read_local_group_table server page lookup members_of =
     and_then (enumerate_local_group_names server page) (\<lambda>names.
       let st = fold (add_group lookup members_of) names
             \<lparr>ts_table = \<lparr>lgt_groups = [], lgt_gaps = []\<rparr>, ts_domains = []\<rparr>;
           table = ts_table st;
           table = (if 1 < length (ts_domains st) then
               table\<lparr>lgt_gaps := lgt_gaps table @
                 [''the local groups resolve to '' @ dec (length (ts_domains st))
       @ '' different account domains ('' @ join '', '' (sort (ts_domains st)) @ '') ''
       @ em_dash @ '' a group name may have resolved to a non-local group'']\<rparr>
             else table)
       in Inr (table\<lparr>lgt_groups := sort_key lgd_sid (lgt_groups table)\<rparr>))"

section \<open>Explaining a local group\<close>

definition hop_label :: "(string \<rightharpoonup> string) \<Rightarrow> (string \<rightharpoonup> string) \<Rightarrow> Sid \<Rightarrow> string option" where
  \<comment> \<open>The closure \<open>label\<close>: a known name, else the account lookup of this machine.\<close>
  "hop_label names lookup_display sid =
     (case names sid of Some n \<Rightarrow> Some n | None \<Rightarrow> lookup_display sid)"

definition entry_path ::
  "Identity \<Rightarrow> (string \<rightharpoonup> string) \<Rightarrow> (string \<rightharpoonup> string) \<Rightarrow> LocalGroupEntry \<Rightarrow> MembershipPath" where
  "entry_path identity names lookup_display e =
     (let user = id_sid identity;
          via_self = (case lge_via e of [] \<Rightarrow> False | s # _ \<Rightarrow> s = user);
          rest = map (\<lambda>s. \<lparr>mh_sid = s, mh_name = hop_label names lookup_display s\<rparr>) (filter (\<lambda>s. s \<noteq> user) (lge_via e));
          user_label = id_name identity
      in if via_self \<or> rest = [] then
           \<lparr>mp_nodes = [user, lge_group e], mp_names = [user_label, Some (lge_name e)],
            mp_source = MembershipPathSource.LocalGroup, mp_complete = True, mp_also_via = rest\<rparr>
         else (let first = hd rest; rest = tl rest
           in \<lparr>mp_nodes = [user, mh_sid first, lge_group e],
               mp_names = [user_label, mh_name first, Some (lge_name e)],
               mp_source = MembershipPathSource.LocalGroup, mp_complete = True, mp_also_via = rest\<rparr>))"

definition local_group_memberships ::
  "Identity \<Rightarrow> LocalGroupEntry list \<Rightarrow> (string \<rightharpoonup> string) \<Rightarrow> (string \<rightharpoonup> string) \<Rightarrow> GroupMembership list" where
  "local_group_memberships identity entries names lookup_display =
     map (\<lambda>e. let path = entry_path identity names lookup_display e
        in \<lparr>gm_member_sid = id_sid identity, gm_group_sid = lge_group e,
            gm_direct = (length (mp_nodes path) = 2), gm_group_name = Some (lge_name e),
            gm_path = Some path, gm_group_sid_history_count = 0, gm_group_sid_history = []\<rparr>) entries"

definition hop_order :: "(string \<Rightarrow> string) \<Rightarrow> MembershipHop \<Rightarrow> string \<times> string" where
  "hop_order lc h = (lc (case mh_name h of Some n \<Rightarrow> n | None \<Rightarrow> []), mh_sid h)"

fun dedup_hops :: "MembershipHop list \<Rightarrow> MembershipHop list" where
  \<comment> \<open>\<open>dedup_by\<close> on the SID: the first of adjacent equal ones stays.\<close>
  "dedup_hops [] = []"
| "dedup_hops [h] = [h]"
| "dedup_hops (h # h' # hs) =
     (if mh_sid h = mh_sid h' then dedup_hops (h # hs) else h # dedup_hops (h' # hs))"

definition mediators :: "(string \<Rightarrow> string) \<Rightarrow> Sid \<Rightarrow> LocalGroupMember list \<Rightarrow> (string \<rightharpoonup> string) \<Rightarrow> MembershipHop list" where
  "mediators lc user_sid members known =
     dedup_hops (sort_key (hop_order lc)
       (filter_map (\<lambda>s. map_option (\<lambda>name. \<lparr>mh_sid = s, mh_name = Some name\<rparr>) (known s))
         (filter (\<lambda>s. s \<noteq> user_sid) (filter_map lgm_sid members))))"

definition local_group_path ::
  "(string \<Rightarrow> string) \<Rightarrow> Sid \<Rightarrow> string option \<Rightarrow> Sid \<Rightarrow> string \<Rightarrow> LocalGroupMember list \<Rightarrow> (string \<rightharpoonup> string)
     \<Rightarrow> MembershipPath" where
  "local_group_path lc user_sid user_name grp_sid grp_display members known =
     (let via_self = list_ex (\<lambda>m. lgm_sid m = Some user_sid) members;
          meds = mediators lc user_sid members known
      in if via_self then
           \<lparr>mp_nodes = [user_sid, grp_sid], mp_names = [user_name, Some grp_display],
            mp_source = MembershipPathSource.LocalGroup, mp_complete = True, mp_also_via = meds\<rparr>
         else case meds of
             first # rest \<Rightarrow>
               \<lparr>mp_nodes = [user_sid, mh_sid first, grp_sid], mp_names = [user_name, mh_name first, Some grp_display],
                mp_source = MembershipPathSource.LocalGroup, mp_complete = True, mp_also_via = rest\<rparr>
           | [] \<Rightarrow>
               \<lparr>mp_nodes = [user_sid, grp_sid], mp_names = [user_name, Some grp_display],
                mp_source = MembershipPathSource.LocalGroup, mp_complete = False, mp_also_via = []\<rparr>)"

section \<open>The name-based lookup\<close>

record LocalGroupInfo =
  lgi_name :: string
  lgi_sid :: Sid

fun resolve_names :: "(string \<Rightarrow> string option) \<Rightarrow> string list \<Rightarrow> LocalGroupInfo list \<Rightarrow> string list \<Rightarrow> LocalGroupInfo list \<times> string list" where
  "resolve_names lookup [] result unresolved = (result, unresolved)"
| "resolve_names lookup (name # names) result unresolved =
     (if name = [] then resolve_names lookup names result (unresolved @ [''(a local group with an empty name)''])
      else case lookup name of
          Some sid \<Rightarrow> resolve_names lookup names (result @ [\<lparr>lgi_name = name, lgi_sid = sid\<rparr>]) unresolved
        | None \<Rightarrow> resolve_names lookup names result (unresolved @ [name]))"

definition resolve_local_groups ::
  "string \<Rightarrow> u32 \<times> string list \<Rightarrow> (string \<Rightarrow> string option) \<Rightarrow> string \<Rightarrow>
     CoreError + LocalGroupInfo list \<times> string list" where
  \<comment> \<open>The reply of \<open>NetUserGetLocalGroups\<close>: its status and the names in its buffer.\<close>
  "resolve_local_groups server reply lookup account =
     (case reply of (status, entries) \<Rightarrow>
        if status = ERROR_ACCESS_DENIED then
          Inl (AccessDenied (''NetUserGetLocalGroups: access denied for '' @ squote @ account @ squote @ '' on '' @ server))
        else if status = NERR_USER_NOT_FOUND then Inr ([], [])
        else if status \<noteq> 0 then
          Inl (LdapQuery (''NetUserGetLocalGroups('' @ squote @ account @ squote @ '') failed with status '' @ dec (unat status)))
        else Inr (resolve_names lookup entries [] []))"

datatype LocalGroupLookupOutcome = WithGroups "Sid list" | UserNotFoundOnServer

definition resolve_local_group_sids_strict ::
  "string \<Rightarrow> u32 \<times> string list \<Rightarrow> (string \<Rightarrow> string option) \<Rightarrow> string \<Rightarrow> CoreError + LocalGroupLookupOutcome" where
  "resolve_local_group_sids_strict server reply lookup account =
     (case reply of (status, entries) \<Rightarrow>
        if status = ERROR_ACCESS_DENIED then
          Inl (AccessDenied (''NetUserGetLocalGroups: access denied for '' @ squote @ account @ squote @ '' on '' @ server))
        else if status = NERR_USER_NOT_FOUND then Inr UserNotFoundOnServer
        else if status \<noteq> 0 then
          Inl (LdapQuery (''NetUserGetLocalGroups('' @ squote @ account @ squote @ '') failed with status '' @ dec (unat status)))
        else Inr (WithGroups (filter_map lookup (filter (\<lambda>name. name \<noteq> []) entries))))"

record LocalGroupChains =
  lgc_chains :: "(Sid \<times> string option \<times> MembershipPath) list"
  lgc_gaps :: "string list"

definition chain_order :: "(string \<Rightarrow> string) \<Rightarrow> Sid \<times> string option \<times> MembershipPath \<Rightarrow> string \<times> string" where
  "chain_order lc c = (case c of (sid, name, _) \<Rightarrow> (lc (case name of Some n \<Rightarrow> n | None \<Rightarrow> []), sid))"

definition local_group_chain ::
  "(string \<Rightarrow> string) \<Rightarrow> (string \<Rightarrow> CoreError + LocalGroupMember list) \<Rightarrow> (string \<rightharpoonup> string) \<Rightarrow> Sid \<Rightarrow> string option \<Rightarrow>
     (string \<rightharpoonup> string) \<Rightarrow> LocalGroupInfo \<Rightarrow> Sid \<times> string option \<times> MembershipPath" where
  "local_group_chain lc members_of lookup_display user_sid user_name known lg =
     (let lg_display = (case lookup_display (lgi_sid lg) of Some d \<Rightarrow> d | None \<Rightarrow> lgi_name lg)
      in case members_of (lgi_name lg) of
           Inr members \<Rightarrow>
             (lgi_sid lg, Some lg_display, local_group_path lc user_sid user_name (lgi_sid lg) lg_display members known)
         | Inl e \<Rightarrow>
             (lgi_sid lg, Some lg_display,
              \<lparr>mp_nodes = [user_sid, lgi_sid lg], mp_names = [user_name, Some lg_display],
               mp_source = MembershipPathSource.LocalGroup, mp_complete = False, mp_also_via = []\<rparr>))"

definition resolve_local_group_chains ::
  "(string \<Rightarrow> string) \<Rightarrow> CoreError + LocalGroupInfo list \<times> string list \<Rightarrow>
     (string \<Rightarrow> CoreError + LocalGroupMember list) \<Rightarrow> (string \<rightharpoonup> string) \<Rightarrow> Sid \<Rightarrow> string option \<Rightarrow>
     (string \<rightharpoonup> string) \<Rightarrow> CoreError + LocalGroupChains" where
  "resolve_local_group_chains lc resolved members_of lookup_display user_sid user_name known =
     and_then resolved (\<lambda>(local_groups, unresolved).
       Inr \<lparr>lgc_chains = sort_key (chain_order lc)
              (map (local_group_chain lc members_of lookup_display user_sid user_name known) local_groups),
            lgc_gaps = (if unresolved = [] then []
              else [dec (length unresolved)
       @ '' local group(s) of the target server could not be resolved to a SID and ''
       @ ''are not in the evaluated token: '' @ join '', '' unresolved])\<rparr>)"

section \<open>A table without gaps is complete\<close>

definition readable_member :: "LocalGroupMember \<Rightarrow> Sid option" where
  "readable_member m = (case lgm_sid m of Some s \<Rightarrow> if is_ok (validate_sid s) then Some s else None | None \<Rightarrow> None)"

lemma read_members_eq:
  "read_members ms sids n =
     (sids @ filter_map readable_member ms, n + length (filter (\<lambda>m. readable_member m = None) ms))"
  by (induction ms sids n rule: read_members.induct) (auto simp: readable_member_def split: option.split)

definition described ::
  "(string \<Rightarrow> (string \<times> int) option) \<Rightarrow> (string \<Rightarrow> CoreError + LocalGroupMember list) \<Rightarrow> string
     \<Rightarrow> LocalGroupDescriptor \<Rightarrow> bool" where
  \<comment> \<open>The entry describes the group with this name completely: an alias with a valid SID, and the
    SIDs of all its members, valid, in order and without repetition.\<close>
  "described lookup members_of name g \<longleftrightarrow>
     lgd_name g = name \<and> lookup name = Some (lgd_sid g, SID_TYPE_ALIAS) \<and> is_ok (validate_sid (lgd_sid g))
     \<and> (\<exists>ms. members_of name = Inr ms \<and> lgm_sid ` set ms = Some ` set (lgd_members g))
     \<and> list_all (\<lambda>s. is_ok (validate_sid s)) (lgd_members g) \<and> sorted_wrt (<) (lgd_members g)"

lemma group_sid_ok:
  "group_sid lookup name = Inr sid \<longleftrightarrow> lookup name = Some (sid, SID_TYPE_ALIAS) \<and> is_ok (validate_sid sid)"
  by (auto simp: group_sid_def is_ok_iff split: option.splits sum.splits if_splits)

lemma read_all_members:
  assumes "filter (\<lambda>m. readable_member m = None) ms = []"
  shows "lgm_sid ` set ms = Some ` set (filter_map readable_member ms)"
    and "list_all (\<lambda>s. is_ok (validate_sid s)) (filter_map readable_member ms)"
  using assms by (induction ms) (auto simp: readable_member_def split: option.splits if_splits)

lemma gap_gaps [simp]:
  "lgt_gaps (ts_table (gap text st)) = lgt_gaps (ts_table st) @ [text]"
  "lgt_groups (ts_table (gap text st)) = lgt_groups (ts_table st)"
  by (simp_all add: gap_def)

lemma note_domain_table [simp]: "ts_table (note_domain sid st) = ts_table st"
  by (simp add: note_domain_def split: option.split)

lemma add_group_gapless:
  assumes "lgt_gaps (ts_table (add_group lookup members_of name st)) = []"
  shows "lgt_gaps (ts_table st) = [] \<and> (\<exists>g. described lookup members_of name g
    \<and> lgt_groups (ts_table (add_group lookup members_of name st)) = lgt_groups (ts_table st) @ [g])"
proof (cases "group_sid lookup name")
  case (Inl msg)
  then show ?thesis using assms by (simp add: add_group_def)
next
  case (Inr sid)
  show ?thesis
  proof (cases "members_of name")
    case (Inl e)
    then show ?thesis using assms Inr by (simp add: add_group_def Let_def)
  next
    case members: (Inr ms)
    let ?g = "\<lparr>lgd_sid = sid, lgd_name = name, lgd_members = dedup_adjacent (sort (filter_map readable_member ms))\<rparr>"
    have all: "filter (\<lambda>m. readable_member m = None) ms = []"
      using assms Inr members by (auto simp: add_group_def Let_def read_members_eq split: if_splits)
    have "described lookup members_of name ?g"
      using read_all_members [OF all] Inr members
      by (simp add: described_def group_sid_ok list_all_iff dedup_adjacent_sorted_distinct)
    moreover have "lgt_gaps (ts_table st) = []"
        "lgt_groups (ts_table (add_group lookup members_of name st)) = lgt_groups (ts_table st) @ [?g]"
      using assms Inr members all by (simp_all add: add_group_def Let_def read_members_eq)
    ultimately show ?thesis by blast
  qed
qed

lemma fold_groups_gapless:
  "lgt_gaps (ts_table (fold (add_group lookup members_of) names st)) = [] \<Longrightarrow>
     lgt_gaps (ts_table st) = [] \<and> (\<exists>gs. list_all2 (described lookup members_of) names gs
     \<and> lgt_groups (ts_table (fold (add_group lookup members_of) names st)) = lgt_groups (ts_table st) @ gs)"
proof (induction names arbitrary: st)
  case (Cons name names)
  from Cons.IH [of "add_group lookup members_of name st"] Cons.prems
  obtain gs where gs: "lgt_gaps (ts_table (add_group lookup members_of name st)) = []"
      "list_all2 (described lookup members_of) names gs"
      "lgt_groups (ts_table (fold (add_group lookup members_of) names (add_group lookup members_of name st))) =
        lgt_groups (ts_table (add_group lookup members_of name st)) @ gs" by auto
  from add_group_gapless [OF gs(1)] obtain g where "lgt_gaps (ts_table st) = []" "described lookup members_of name g"
      "lgt_groups (ts_table (add_group lookup members_of name st)) = lgt_groups (ts_table st) @ [g]" by blast
  with gs show ?case by (auto intro!: exI [of _ "g # gs"])
qed simp

lemma pages_loop_names:
  "pages_loop server page k i names = Inr ns \<Longrightarrow>
     \<exists>n<k. fst (page (i + n)) = 0 \<and> (\<forall>j<n. fst (page (i + j)) = ERROR_MORE_DATA)
       \<and> ns = dedup_adjacent (sort (names @ concat (map (\<lambda>j. snd (page (i + j))) [0..<Suc n])))"
proof (induction k arbitrary: i names)
  case (Suc k)
  obtain status entries where p: "page i = (status, entries)" by fastforce
  show ?case
  proof (cases "status = 0")
    case True
    then show ?thesis using Suc.prems p by (intro exI [of _ 0]) (auto split: if_splits)
  next
    case False
    then have more: "status = ERROR_MORE_DATA" "pages_loop server page k (i + 1) (names @ entries) = Inr ns"
      using Suc.prems p by (auto split: if_splits)
    from Suc.IH [OF more(2)] obtain n where n: "n < k" "fst (page (i + 1 + n)) = 0"
        "\<forall>j<n. fst (page (i + 1 + j)) = ERROR_MORE_DATA"
        "ns = dedup_adjacent (sort (names @ entries @ concat (map (\<lambda>j. snd (page (i + 1 + j))) [0..<Suc n])))"
      by auto
    have "concat (map (\<lambda>j. snd (page (i + j))) [0..<Suc (Suc n)]) =
        entries @ concat (map (\<lambda>j. snd (page (i + 1 + j))) [0..<Suc n])"
      by (subst upt_conv_Cons) (simp_all add: p map_Suc_upt [symmetric] comp_def del: upt_Suc)
    moreover have "\<forall>j<Suc n. fst (page (i + j)) = ERROR_MORE_DATA"
      using n(3) more(1) p by (auto simp: less_Suc_eq_0_disj)
    ultimately show ?thesis using n(1,2,4) by (intro exI [of _ "Suc n"]) (simp del: upt_Suc)
  qed
qed simp

lemma table_complete:
  assumes "read_local_group_table server page lookup members_of = Inr table" and "lgt_gaps table = []"
  shows "\<exists>names gs. enumerate_local_group_names server page = Inr names
    \<and> list_all2 (described lookup members_of) names gs \<and> lgt_groups table = sort_key lgd_sid gs"
proof -
  obtain names where names: "enumerate_local_group_names server page = Inr names"
    using assms(1) by (auto simp: read_local_group_table_def and_then_Inr)
  let ?st = "fold (add_group lookup members_of) names \<lparr>ts_table = \<lparr>lgt_groups = [], lgt_gaps = []\<rparr>, ts_domains = []\<rparr>"
  have "lgt_gaps (ts_table ?st) = []" "lgt_groups table = sort_key lgd_sid (lgt_groups (ts_table ?st))"
    using assms names by (auto simp: read_local_group_table_def Let_def split: if_splits)
  from fold_groups_gapless [OF this(1)] obtain gs where "list_all2 (described lookup members_of) names gs"
      "lgt_groups (ts_table ?st) = gs" by auto
  with \<open>lgt_groups table = _\<close> names show ?thesis by blast
qed

section \<open>The shown path\<close>

lemma set_dedup_hops: "inj_on mh_sid (set hs) \<Longrightarrow> set (dedup_hops hs) = set hs"
proof (induction hs rule: dedup_hops.induct)
  case (3 h h' hs)
  have sub: "inj_on mh_sid (set (h # hs))" "inj_on mh_sid (set (h' # hs))"
    by (rule inj_on_subset [OF "3.prems"], fastforce)+
  show ?case
  proof (cases "mh_sid h = mh_sid h'")
    case True
    then have "h = h'" by (rule inj_onD [OF "3.prems"]) simp_all
    with 3 True sub show ?thesis by simp
  qed (use 3 sub in simp)
qed simp_all

lemma dedup_hops_strict:
  assumes "inj_on mh_sid (set hs)" and "sorted (map (hop_order lc) hs)"
  shows "sorted_wrt (<) (map (hop_order lc) (dedup_hops hs))"
  using assms
proof (induction hs rule: dedup_hops.induct)
  case (3 h h' hs)
  have sub: "inj_on mh_sid (set (h # hs))" "inj_on mh_sid (set (h' # hs))"
    by (rule inj_on_subset [OF "3.prems"(1)], fastforce)+
  show ?case
  proof (cases "mh_sid h = mh_sid h'")
    case True
    then have "h = h'" by (rule inj_onD [OF "3.prems"(1)]) simp_all
    with "3.IH"(1) [OF True] "3.prems"(2) sub True show ?thesis by simp
  next
    case False
    then have "hop_order lc h \<noteq> hop_order lc h'" by (simp add: hop_order_def)
    then have less: "hop_order lc h < hop_order lc h'" using "3.prems"(2) by (simp add: order.not_eq_order_implies_strict)
    have IH: "sorted_wrt (<) (map (hop_order lc) (dedup_hops (h' # hs)))"
      using "3.IH"(2) [OF False] "3.prems"(2) sub by simp
    have "\<forall>x \<in> set (h' # hs). hop_order lc h < hop_order lc x"
      using less "3.prems"(2) by (auto intro: less_le_trans)
    then have "\<forall>x \<in> set (dedup_hops (h' # hs)). hop_order lc h < hop_order lc x"
      by (simp only: set_dedup_hops [OF sub(2)])
    with IH False show ?thesis by simp
  qed
qed simp_all

lemma hop_order_inj: "inj_on (hop_order lc) {\<lparr>mh_sid = s, mh_name = f s\<rparr> | s. True}"
  by (auto simp: inj_on_def hop_order_def)

definition known_hops :: "Sid \<Rightarrow> LocalGroupMember list \<Rightarrow> (string \<rightharpoonup> string) \<Rightarrow> MembershipHop list" where
  "known_hops user_sid members known =
     filter_map (\<lambda>s. map_option (\<lambda>name. \<lparr>mh_sid = s, mh_name = Some name\<rparr>) (known s))
       (filter (\<lambda>s. s \<noteq> user_sid) (filter_map lgm_sid members))"

lemma set_known_hops:
  "set (known_hops user_sid members known) =
     {\<lparr>mh_sid = s, mh_name = known s\<rparr> | s. s \<noteq> user_sid \<and> Some s \<in> lgm_sid ` set members \<and> known s \<noteq> None}"
  by (auto simp: known_hops_def set_filter_map image_iff; metis)

lemma mediators_props:
  "set (mediators lc user_sid members known) = set (known_hops user_sid members known)"
  "sorted_wrt (<) (map (hop_order lc) (mediators lc user_sid members known))"
proof -
  have med: "mediators lc user_sid members known = dedup_hops (sort_key (hop_order lc) (known_hops user_sid members known))"
    by (simp add: mediators_def known_hops_def)
  have same: "inj_on mh_sid (set (known_hops user_sid members known))"
    by (auto simp: set_known_hops inj_on_def)
  show "set (mediators lc user_sid members known) = set (known_hops user_sid members known)"
    unfolding med using same by (simp add: set_dedup_hops)
  show "sorted_wrt (<) (map (hop_order lc) (mediators lc user_sid members known))"
    unfolding med by (rule dedup_hops_strict) (simp_all add: same)
qed

lemma mediators_same:
  assumes "lgm_sid ` set members = lgm_sid ` set members'"
  shows "mediators lc user_sid members known = mediators lc user_sid members' known"
proof (rule map_inj_on)
  have sets: "set (known_hops user_sid members known) = set (known_hops user_sid members' known)"
    using assms by (simp add: set_known_hops)
  show "map (hop_order lc) (mediators lc user_sid members known) = map (hop_order lc) (mediators lc user_sid members' known)"
    by (rule strict_sorted_equal) (simp_all add: mediators_props sets)
  show "inj_on (hop_order lc) (set (mediators lc user_sid members known) \<union> set (mediators lc user_sid members' known))"
    by (rule inj_on_subset [OF hop_order_inj [of lc known]]) (auto simp: mediators_props set_known_hops)
qed

section \<open>Properties\<close>

text \<open>C22: a local-group table without gaps is complete. When no gap is reported, the server ended
  the enumeration within the page limit, every enumerated name is described by exactly one group
  of the table, and the table is sorted by SID: the name resolved to an alias with a valid SID,
  and the members listed are all its members, valid, in order and without repetition.\<close>

theorem gapless_table_is_complete:
  assumes "read_local_group_table server page lookup members_of = Inr table" and "lgt_gaps table = []"
  shows "\<exists>n<MAX_LOCAL_GROUP_PAGES. \<exists>gs. fst (page n) = 0 \<and> (\<forall>j<n. fst (page j) = ERROR_MORE_DATA)
    \<and> list_all2 (described lookup members_of)
        (dedup_adjacent (sort (concat (map (\<lambda>j. snd (page j)) [0..<Suc n])))) gs
    \<and> lgt_groups table = sort_key lgd_sid gs"
proof -
  obtain names gs where *: "pages_loop server page MAX_LOCAL_GROUP_PAGES 0 [] = Inr names"
      "list_all2 (described lookup members_of) names gs" "lgt_groups table = sort_key lgd_sid gs"
    using table_complete [OF assms] by (auto simp: enumerate_local_group_names_def)
  with pages_loop_names [OF *(1)] show ?thesis by auto
qed

lemma sample_not_blank:
  "set ''S-1-5-32-545'' \<inter> blank_bytes = {}" "set ''S-1-5-11'' \<inter> blank_bytes = {}"
  by (auto simp: code_def dest!: blank_bytes_code)

lemma gapless_table_is_complete_witness:
  "\<exists>table. read_local_group_table ''None'' (\<lambda>i. (0, [''Users''])) (\<lambda>name. Some (''S-1-5-32-545'', 4))
      (\<lambda>name. Inr [\<lparr>lgm_sid = Some ''S-1-5-11'', lgm_display_name = None\<rparr>]) = Inr table \<and>
    (\<exists>n<MAX_LOCAL_GROUP_PAGES. \<exists>gs. (\<forall>j<n. (0 :: u32) = ERROR_MORE_DATA) \<and>
      lgt_groups table = sort_key lgd_sid gs)"
proof -
  let ?lookup = "\<lambda>name :: string. Some (''S-1-5-32-545'', 4 :: int)"
    and ?members = "\<lambda>name :: string. Inr [\<lparr>lgm_sid = Some ''S-1-5-11'', lgm_display_name = None\<rparr>] :: CoreError + LocalGroupMember list"
  have ok: "validate_sid ''S-1-5-32-545'' = Inr ''S-1-5-32-545''" "validate_sid ''S-1-5-11'' = Inr ''S-1-5-11''"
    by (simp_all only: validate_sid_def sid_try_new_def trim_plain [OF sample_not_blank(1)] trim_plain [OF sample_not_blank(2)])
      (simp_all add: validate_sid_def sid_try_new_def first_non_numeric_def parse_uint_def digit_val_def
        starts_with_def Let_def)
  define table where "table = \<lparr>lgt_groups = [\<lparr>lgd_sid = ''S-1-5-32-545'', lgd_name = ''Users'',
      lgd_members = [''S-1-5-11'']\<rparr>], lgt_gaps = []\<rparr>"
  have pages: "enumerate_local_group_names ''None'' (\<lambda>i. (0, [''Users''])) = Inr [''Users'']"
    unfolding enumerate_local_group_names_def MAX_LOCAL_GROUP_PAGES_def by (subst pages_loop.simps(2) [of _ _ 9999, simplified]) simp
  have run: "read_local_group_table ''None'' (\<lambda>i. (0, [''Users''])) ?lookup ?members = Inr table"
    by (simp add: read_local_group_table_def pages add_group_def group_sid_def SID_TYPE_ALIAS_def ok note_domain_def
        starts_with_def table_def Let_def)
  then show ?thesis
    using gapless_table_is_complete [OF run] by (auto simp: table_def)
qed

text \<open>The explanation of a local group does not depend on the order in which the server lists
  its members: two listings with the same SIDs give the same path.\<close>

theorem local_group_path_order_independent:
  assumes "lgm_sid ` set members = lgm_sid ` set members'"
  shows "local_group_path lc user_sid user_name grp display members known =
    local_group_path lc user_sid user_name grp display members' known"
proof -
  have "list_ex (\<lambda>m. lgm_sid m = Some user_sid) ms \<longleftrightarrow> Some user_sid \<in> lgm_sid ` set ms"
    for ms :: "LocalGroupMember list"
    by (auto simp: list_ex_iff image_iff) (metis)
  then have "list_ex (\<lambda>m. lgm_sid m = Some user_sid) members \<longleftrightarrow> list_ex (\<lambda>m. lgm_sid m = Some user_sid) members'"
    using assms by (simp only:)
  then show ?thesis by (simp only: local_group_path_def mediators_same [OF assms])
qed

lemma local_group_path_order_independent_witness:
  "local_group_path (\<lambda>s. s) ''U'' None ''G'' ''Group''
      [\<lparr>lgm_sid = Some ''A'', lgm_display_name = None\<rparr>, \<lparr>lgm_sid = Some ''B'', lgm_display_name = None\<rparr>] (\<lambda>s. Some s) =
    local_group_path (\<lambda>s. s) ''U'' None ''G'' ''Group''
      [\<lparr>lgm_sid = Some ''B'', lgm_display_name = None\<rparr>, \<lparr>lgm_sid = Some ''A'', lgm_display_name = None\<rparr>] (\<lambda>s. Some s)"
  by (rule local_group_path_order_independent) auto

end
