(* ===== verification/Analysis.thy ===== *)
theory Analysis
  imports Share_Results Local_Groups
begin

unbundle bit_operations_syntax

text \<open>
  The orchestration of an analysis (\<open>crates/analysis\<close>, \<open>crates/share_scanner/src/dfs.rs\<close> and the
  composition in \<open>crates/cli/src/main.rs\<close>): where a path of a DFS namespace is evaluated, the local
  groups and policies of the target, the share status for the same token, and the input of the
  evaluation built from them. The main result is that a determinable answer over SMB is what
  both access checks of the target, on the object and on the share, really grant.

  Parameters: the replies of the target (local group table, policy values), the account lookup,
  the DFS client, the path the redirector opened, and the lower-case function \<open>lc\<close>.
\<close>

section \<open>Local groups of the target\<close>

record LocalGroupResolution =
  lgr_sids :: "Sid list"
  lgr_memberships :: "GroupMembership list"
  lgr_logon_dependent :: "Sid list"
  lgr_logon_dependent_names :: "string list"
  lgr_uac_filtered :: "Sid list"
  lgr_remote_uac :: RemoteUacFiltering
  lgr_anonymous_everyone :: "bool option"
  lgr_status :: LocalGroupEvalStatus

record TargetUacPolicy =
  tup_enable_lua :: PolicyDword
  tup_local_account_token_filter_policy :: PolicyDword
  tup_filter_administrator_token :: PolicyDword

definition uac_filtered_token_groups :: "GroupMembership list \<Rightarrow> Sid list \<Rightarrow> bool \<Rightarrow> AccessContext \<Rightarrow> Sid list" where
  "uac_filtered_token_groups domain_memberships local_group_sids local_account access_context =
     (let token_groups = concat (map (\<lambda>m. gm_group_sid m # gm_group_sid_history m) domain_memberships)
            @ local_group_sids
      in uac_filtered_groups token_groups local_account access_context)"

fun known_names :: "(string \<rightharpoonup> string) \<Rightarrow> GroupMembership list \<Rightarrow> (string \<rightharpoonup> string)" where
  "known_names names [] = names"
| "known_names names (gm # gms) =
     known_names (case gm_group_name gm of Some n \<Rightarrow> names(gm_group_sid gm \<mapsto> n) | None \<Rightarrow> names) gms"

definition target_remote_uac :: "bool \<Rightarrow> Sid list \<Rightarrow> AccessContext \<Rightarrow> string \<Rightarrow> TargetUacPolicy \<Rightarrow> RemoteUacFiltering" where
  "target_remote_uac local_account uac_filtered access_context user policy =
     (if local_account \<and> uac_filtered \<noteq> [] then
        (let builtin_administrator = ends_with user ''-500''
         in case access_context of
              RemoteSmb \<Rightarrow> remote_uac_filtering builtin_administrator (tup_enable_lua policy)
                (tup_local_account_token_filter_policy policy) (tup_filter_administrator_token policy)
            | LocalInteractive \<Rightarrow>
                (if builtin_administrator then
                   local_uac_filtering True (tup_enable_lua policy) (tup_filter_administrator_token policy)
                 else RemoteUacFiltering.Unknown)
            | _ \<Rightarrow> RemoteUacFiltering.Unknown)
      else RemoteUacFiltering.Unknown)"

record TargetReplies =
  tr_everyone_includes_anonymous :: PolicyDword
  tr_local_group_table :: "CoreError + LocalGroupTable"
  tr_uac_policy :: TargetUacPolicy
  tr_account_names :: "string \<rightharpoonup> string"

definition collect_local_groups_on ::
  "(string \<Rightarrow> string) \<Rightarrow> TargetReplies \<Rightarrow> Identity \<Rightarrow> GroupMembership list \<Rightarrow> AccessContext \<Rightarrow> bool
     \<Rightarrow> LocalGroupResolution" where
  "collect_local_groups_on lc target identity domain_memberships access_context local_account =
     (let anon = (if id_sid identity = SID_ANONYMOUS_LOGON
            then anonymous_everyone (tr_everyone_includes_anonymous target) else None)
      in case tr_local_group_table target of
           Inl e \<Rightarrow>
             \<lparr>lgr_sids = [], lgr_memberships = [], lgr_logon_dependent = [], lgr_logon_dependent_names = [],
              lgr_uac_filtered = uac_filtered_token_groups domain_memberships [] local_account access_context,
              lgr_remote_uac = RemoteUacFiltering.Unknown, lgr_anonymous_everyone = anon,
              lgr_status = LocalGroupEvalStatus.NotAvailable (error_text e)\<rparr>
         | Inr table \<Rightarrow>
             (let expansion = expand_local_groups_with lc (id_sid identity) (id_sid_history identity)
                    domain_memberships (lgt_groups table) access_context anon;
                  names = known_names (case id_name identity of Some n \<Rightarrow> Map.empty(id_sid identity \<mapsto> n)
                    | None \<Rightarrow> Map.empty) domain_memberships;
                  memberships = local_group_memberships identity (lgx_certain expansion) names (tr_account_names target);
                  all_sids = map gm_group_sid memberships;
                  uac_filtered = uac_filtered_token_groups domain_memberships all_sids local_account access_context;
                  remote_uac = target_remote_uac local_account uac_filtered access_context (id_sid identity)
                    (tr_uac_policy target);
                  uac_filtered = (case remote_uac of NotFiltered _ \<Rightarrow> [] | _ \<Rightarrow> uac_filtered)
              in \<lparr>lgr_sids = all_sids, lgr_memberships = memberships,
                  lgr_logon_dependent = map lge_group (lgx_logon_dependent expansion),
                  lgr_logon_dependent_names = map lge_name (lgx_logon_dependent expansion),
                  lgr_uac_filtered = uac_filtered, lgr_remote_uac = remote_uac,
                  lgr_anonymous_everyone = anon,
                  lgr_status = (if lgt_gaps table = [] then LocalGroupEvalStatus.Applied
                    else LocalGroupEvalStatus.NotAvailable (join ''; '' (lgt_gaps table)))\<rparr>))"

definition collect_local_group_sids_for_path ::
  "(string \<Rightarrow> string) \<Rightarrow> (string option \<Rightarrow> TargetReplies) \<Rightarrow> string \<Rightarrow> string option \<Rightarrow> Identity \<Rightarrow>
     GroupMembership list \<Rightarrow> AccessContext \<Rightarrow> bool \<Rightarrow> LocalGroupResolution" where
  "collect_local_group_sids_for_path lc replies path explicit_smb_server identity domain_memberships
       access_context local_account =
     collect_local_groups_on lc (replies (effective_smb_target path explicit_smb_server)) identity
       domain_memberships access_context local_account"

section \<open>The share status for the same token\<close>

definition share_request ::
  "string \<Rightarrow> string option \<Rightarrow> string option \<Rightarrow> Identity \<Rightarrow> GroupMembership list \<Rightarrow> Sid list \<Rightarrow> Sid list \<Rightarrow>
     Sid list \<Rightarrow> AccessContext \<Rightarrow> RemoteUacFiltering \<Rightarrow> bool option \<Rightarrow> ShareRequest" where
  \<comment> \<open>The arguments of \<open>resolve_share_mask_status_explained\<close>.\<close>
  "share_request path server share_name identity memberships local_group_sids
       logon_dependent_group_sids uac_filtered_group_sids access_context remote_uac anon =
     \<lparr>sq_path = path, sq_smb_server = server, sq_share_name = share_name,
      sq_user_sid = id_sid identity, sq_sid_history = id_sid_history identity,
      sq_memberships = memberships, sq_local_group_sids = local_group_sids,
      sq_logon_dependent_group_sids = logon_dependent_group_sids,
      sq_uac_filtered_group_sids = uac_filtered_group_sids, sq_access_context = access_context,
      sq_uac_filter_certain = (case remote_uac of Filtered _ \<Rightarrow> True | _ \<Rightarrow> False),
      sq_anonymous_everyone = anon\<rparr>"

definition resolve_share_status ::
  "(string \<Rightarrow> string \<Rightarrow> CoreError + ShareDaclScan) \<Rightarrow> string \<Rightarrow> string option \<Rightarrow> string option \<Rightarrow> Identity \<Rightarrow>
     GroupMembership list \<Rightarrow> Sid list \<Rightarrow> Sid list \<Rightarrow> Sid list \<Rightarrow> AccessContext \<Rightarrow> RemoteUacFiltering \<Rightarrow>
     bool option \<Rightarrow> ShareResolution" where
  "resolve_share_status read path server share_name identity memberships local_group_sids
       logon_dependent_group_sids uac_filtered_group_sids access_context remote_uac anon =
     resolve_share_mask_status_explained read
       (share_request path server share_name identity memberships local_group_sids
         logon_dependent_group_sids uac_filtered_group_sids access_context remote_uac anon)"

section \<open>The input of the evaluation\<close>

definition analysis_input ::
  "Identity \<Rightarrow> GroupMembership list \<Rightarrow> LocalGroupResolution \<Rightarrow> ShareResolution \<Rightarrow> FileSystemObject \<Rightarrow>
     AccessContext \<Rightarrow> (string \<rightharpoonup> string) \<Rightarrow> ResolutionProvenance \<Rightarrow> SelectiveAuthenticationCheck option \<Rightarrow>
     DfsEvaluation option \<Rightarrow> PermissionEvaluationInput" where
  "analysis_input identity memberships groups share fso access_context sid_names engine_flags
       selective_authentication dfs =
     \<lparr>in_identity = identity, in_group_memberships = memberships @ lgr_memberships groups,
      in_file_system_object = fso, in_share_status = srs_status share,
      in_local_group_sids = lgr_sids groups, in_local_group_status = lgr_status groups,
      in_logon_dependent_group_sids = lgr_logon_dependent groups,
      in_uac_filtered_group_sids = lgr_uac_filtered groups, in_remote_uac = lgr_remote_uac groups,
      in_anonymous_everyone = lgr_anonymous_everyone groups,
      in_share_trace = share_ace_outcomes (srs_decisions share) sid_names,
      in_selective_authentication = selective_authentication, in_dfs = dfs,
      in_membership_detail = All, in_access_context = access_context,
      in_unsupported_share_ace_count = srs_unevaluated share, in_sid_names = sid_names,
      in_resolution = engine_flags\<rparr>"

section \<open>The share token is the token of the evaluation\<close>

definition same_token_inputs :: "PermissionEvaluationInput \<Rightarrow> ShareRequest \<Rightarrow> bool" where
  "same_token_inputs inp q \<longleftrightarrow>
     sq_user_sid q = id_sid (in_identity inp)
     \<and> build_token_sids_with_context (sq_user_sid q) (sq_sid_history q) (sq_memberships q) (sq_local_group_sids q)
         (sq_access_context q)
       = collect_user_sids (in_identity inp) (in_group_memberships inp) (in_local_group_sids inp) (in_access_context inp)
     \<and> sq_logon_dependent_group_sids q = in_logon_dependent_group_sids inp
     \<and> sq_uac_filtered_group_sids q = in_uac_filtered_group_sids inp
     \<and> sq_access_context q = in_access_context inp
     \<and> sq_uac_filter_certain q = uac_filter_certain inp
     \<and> sq_anonymous_everyone q = in_anonymous_everyone inp"

definition consistent_lists :: "PermissionEvaluationInput \<Rightarrow> bool" where
  \<comment> \<open>A group that is certainly filtered is not listed as uncertain, and Everyone is in no list of groups.\<close>
  "consistent_lists inp \<longleftrightarrow>
     (uac_filter_certain inp \<longrightarrow>
        set (in_logon_dependent_group_sids inp) \<inter> set (in_uac_filtered_group_sids inp) = {})
     \<and> (id_sid (in_identity inp) = SID_ANONYMOUS_LOGON \<longrightarrow>
        SID_EVERYONE \<notin> set (in_logon_dependent_group_sids inp)
        \<and> SID_EVERYONE \<notin> collect_user_sids (in_identity inp) (in_group_memberships inp) (in_local_group_sids inp)
            (in_access_context inp))"

lemma resolved_token_facts:
  assumes "same_token_inputs inp q" and "consistent_lists inp"
  defines "tok \<equiv> resolved_token q"
  shows "st_deny_only tok = deny_only_sids inp" "st_deny_only_certain tok = uac_filter_certain inp"
    and "st_enabled tok \<subseteq> user_sids inp" "user_sids inp \<subseteq> st_enabled tok \<union> st_uncertain tok"
    and "logon_dependent_groups inp \<subseteq>
      st_uncertain tok \<union> (set (in_logon_dependent_group_sids inp) \<inter> deny_only_sids inp)"
proof -
  let ?user = "id_sid (in_identity inp)" and ?anon = "in_anonymous_everyone inp"
    and ?L = "set (in_logon_dependent_group_sids inp)" and ?D = "deny_only_sids inp"
  let ?all = "collect_user_sids (in_identity inp) (in_group_memberships inp) (in_local_group_sids inp) (in_access_context inp)"
  let ?U = "(?L - ?D) \<union> set (identity_uncertain_well_knowns ?user)"
  let ?C = "SID_CRYPTOGRAPHIC_OPERATORS"
  let ?base = "\<lparr>st_enabled = ?all - (?D \<union> ?U) - {?C}, st_deny_only = ?D,
      st_uncertain = (if ?C \<in> ?all - (?D \<union> ?U) then insert ?C ?U else ?U),
      st_deny_only_certain = uac_filter_certain inp\<rparr>"
  have inputs: "build_token_sids_with_context (sq_user_sid q) (sq_sid_history q) (sq_memberships q)
      (sq_local_group_sids q) (sq_access_context q) = ?all" "sq_user_sid q = ?user"
      "sq_logon_dependent_group_sids q = in_logon_dependent_group_sids inp"
      "sq_uac_filtered_group_sids q = in_uac_filtered_group_sids inp"
      "sq_uac_filter_certain q = uac_filter_certain inp"
    using assms(1) unfolding same_token_inputs_def by blast+
  have base: "(share_token (sq_user_sid q) (sq_sid_history q) (sq_memberships q) (sq_local_group_sids q)
      (sq_logon_dependent_group_sids q) (sq_uac_filtered_group_sids q) (sq_access_context q))
      \<lparr>st_deny_only_certain := sq_uac_filter_certain q\<rparr> = ?base"
    unfolding share_token_def Let_def deny_only_sids_def inputs(1) unfolding inputs(2-5) by (simp only: ShareToken.update_convs)
  have same: "sq_user_sid q = ?user" "sq_anonymous_everyone q = ?anon"
    using assms(1) by (simp_all add: same_token_inputs_def)
  let ?base1 = "?base\<lparr>st_uncertain := st_uncertain ?base - {SID_EVERYONE}\<rparr>"
  have tok: "tok = (if ?user = SID_ANONYMOUS_LOGON \<and> ?anon \<noteq> None then
      (if ?anon = Some True then ?base1\<lparr>st_enabled := insert SID_EVERYONE (st_enabled ?base1)\<rparr> else ?base1)
      else ?base)"
    unfolding tok_def resolved_token_def Let_def base unfolding same by (rule refl)
  have users: "user_sids inp = (?all - ?D) \<union> (if ?user = SID_ANONYMOUS_LOGON \<and> ?anon = Some True
      then {SID_EVERYONE} else {}) - {?C}"
    by (auto simp: user_sids_def token_with_filter_def deny_only_sids_def anonymous_gets_everyone_def Let_def)
  have groups: "logon_dependent_groups inp = ?L
      \<union> (if ?C \<in> ?all \<and> ?C \<notin> ?D then {?C} else {})
      \<union> (if ?user = SID_ANONYMOUS_LOGON \<and> ?anon \<noteq> None then {} else set (identity_uncertain_well_knowns ?user))"
    by (auto simp: logon_dependent_groups_def crypto_operators_uncertain_def token_with_filter_def deny_only_sids_def
        anonymous_gets_everyone_def uncertain_well_knowns_with_def is_some_def sid_consts Let_def)
  have neq: "SID_EVERYONE \<noteq> ?C" by (simp add: sid_consts)
  have unc: "set (identity_uncertain_well_knowns ?user) = (if ?user = SID_ANONYMOUS_LOGON then {SID_EVERYONE} else {})"
    by (simp add: identity_uncertain_well_knowns_def)
  have anon: "?user = SID_ANONYMOUS_LOGON \<Longrightarrow> SID_EVERYONE \<notin> ?L \<and> SID_EVERYONE \<notin> ?all"
    using assms(2) by (simp add: consistent_lists_def)
  show "st_deny_only tok = ?D" "st_deny_only_certain tok = uac_filter_certain inp" by (simp_all add: tok)
  show "st_enabled tok \<subseteq> user_sids inp" unfolding users tok using neq by auto
  show "user_sids inp \<subseteq> st_enabled tok \<union> st_uncertain tok"
    unfolding users tok unc using neq anon by auto
  show "logon_dependent_groups inp \<subseteq> st_uncertain tok \<union> (?L \<inter> ?D)"
    unfolding groups tok unc using neq anon by auto
qed

lemma fewer_decided: "A \<subseteq> B \<Longrightarrow> is_logon_dependent_for s ctx B \<Longrightarrow> is_logon_dependent_for s ctx A"
  by (auto simp: is_logon_dependent_for_def Let_def split: if_splits)

lemma agrees_possible_share:
  assumes "same_token_inputs inp q" and "consistent_lists inp" and "agrees inp t" and "fst t \<subseteq> snd t"
  shows "possible_share_token (resolved_token q) (in_access_context inp) t"
proof -
  note facts = resolved_token_facts [OF assms(1,2)]
  have "st_enabled (resolved_token q) \<subseteq> match_sids inp" using facts(3) by (auto simp: match_sids_def)
  then have maybe: "maybe_present (in_access_context inp) (st_enabled (resolved_token q)) (st_uncertain (resolved_token q)) None s
      \<or> s \<in> set (in_logon_dependent_group_sids inp) \<inter> deny_only_sids inp"
    if "maybe_in_token inp s" for s
    using that facts(5) fewer_decided by (auto simp: maybe_in_token_def maybe_present_def)
  have certain: "uac_filter_certain inp \<Longrightarrow> set (in_logon_dependent_group_sids inp) \<inter> deny_only_sids inp = {}"
    using assms(2) by (simp add: consistent_lists_def deny_only_sids_def)
  have user: "s \<in> st_enabled (resolved_token q) \<or>
      maybe_present (in_access_context inp) (st_enabled (resolved_token q)) (st_uncertain (resolved_token q)) None s"
    if "s \<in> user_sids inp" for s
    using that facts(4) by (auto simp: maybe_present_def)
  show ?thesis
    unfolding possible_share_token_def possible_token_def facts(1,2)
  proof (intro conjI ballI)
    show "fst t \<subseteq> snd t" by (rule assms(4))
    show "st_enabled (resolved_token q) \<subseteq> fst t"
      using facts(3) assms(3) by (auto simp: agrees_def)
    show "st_enabled (resolved_token q) \<union> deny_only_sids inp \<subseteq> snd t"
      using facts(3) assms(3) by (auto simp: agrees_def)
    show "s \<in> st_enabled (resolved_token q)
        \<or> maybe_present (in_access_context inp) (st_enabled (resolved_token q)) (st_uncertain (resolved_token q)) None s
        \<or> s \<in> deny_only_sids inp \<and> \<not> uac_filter_certain inp" if "s \<in> fst t" for s
      using that assms(3) user [of s] maybe [of s] certain unfolding agrees_def by blast
    show "s \<in> st_enabled (resolved_token q) \<union> deny_only_sids inp
        \<or> maybe_present (in_access_context inp) (st_enabled (resolved_token q)) (st_uncertain (resolved_token q)) None s"
      if "s \<in> snd t" for s
      using that assms(3) user [of s] maybe [of s] unfolding agrees_def by blast
  qed
qed

section \<open>The groups the analysis collects\<close>

lemma local_memberships_sids: "map gm_group_sid (local_group_memberships identity es names lk) = map lge_group es"
  by (simp add: local_group_memberships_def comp_def Let_def)

lemma local_memberships_history: "gm \<in> set (local_group_memberships identity es names lk) \<Longrightarrow> gm_group_sid_history gm = []"
  by (auto simp: local_group_memberships_def Let_def)

lemma resolution_fields:
  assumes "g = collect_local_groups_on lc target identity ms ctx la"
  shows "lgr_sids g = map gm_group_sid (lgr_memberships g)"
    and "gm \<in> set (lgr_memberships g) \<Longrightarrow> gm_group_sid_history gm = []"
  by (auto simp: assms collect_local_groups_on_def Let_def local_memberships_history split: sum.splits)

lemma analysis_same_token:
  assumes "g = collect_local_groups_on lc target identity ms ctx la"
  shows "same_token_inputs
    (analysis_input identity ms g share fso ctx sid_names flags sa dfs)
    (share_request path server name identity ms (lgr_sids g) (lgr_logon_dependent g) (lgr_uac_filtered g) ctx
      (lgr_remote_uac g) (lgr_anonymous_everyone g))"
proof -
  have "build_token_sids_with_context (id_sid identity) (id_sid_history identity) ms (lgr_sids g) ctx =
      build_token_sids_with_context (id_sid identity) (id_sid_history identity) (ms @ lgr_memberships g) (lgr_sids g) ctx"
    using resolution_fields [OF assms] by (auto simp: set_eq_iff in_token)
  then show ?thesis
    by (auto simp: same_token_inputs_def analysis_input_def share_request_def collect_user_sids_def
        uac_filter_certain_def uac_certain_reason_def is_some_def split: RemoteUacFiltering.split)
qed

definition separate_groups :: "LocalGroupDescriptor list \<Rightarrow> Identity \<Rightarrow> GroupMembership list \<Rightarrow> bool" where
  \<comment> \<open>The local groups of a machine have SIDs of their own: distinct ones, that are neither well-known
    identities nor groups of the account's domain.\<close>
  "separate_groups gs identity ms \<longleftrightarrow> distinct (map lgd_sid gs)
     \<and> (\<forall>g \<in> set gs. lgd_sid g \<notin> {SID_EVERYONE, SID_LOCAL_ACCOUNT_AND_ADMIN, id_sid identity}
        \<and> lgd_sid g \<notin> set (id_sid_history identity)
        \<and> (\<forall>gm \<in> set ms. lgd_sid g \<noteq> gm_group_sid gm \<and> lgd_sid g \<notin> set (gm_group_sid_history gm)))"

lemma expansion_disjoint:
  assumes "distinct (map lgd_sid gs)"
  shows "set (map lge_group (lgx_certain (expand_local_groups_with lc user hist ms gs ctx ae)))
    \<inter> set (map lge_group (lgx_logon_dependent (expand_local_groups_with lc user hist ms gs ctx ae))) = {}"
proof -
  have "lgd_sid ` {g \<in> set gs. P g} \<inter> lgd_sid ` {g \<in> set gs. \<not> P g \<and> Q g} = {}" for P Q
    using assms by (auto simp: distinct_map inj_on_def)
  from this [of "\<lambda>g. certain_via (expansion_token user hist ms ctx ae) g \<noteq> []"
      "\<lambda>g. uncertain_via (expansion_token user hist ms ctx ae) ctx (uncertain_well_knowns_with user ae) g \<noteq> []"]
  show ?thesis
    by (simp add: expand_parts Let_def certain_entries_def uncertain_entries_def group_entry_def image_image)
qed

lemma expansion_from_table:
  "set (map lge_group (lgx_certain (expand_local_groups_with lc user hist ms gs ctx ae))) \<subseteq> lgd_sid ` set gs"
  "set (map lge_group (lgx_logon_dependent (expand_local_groups_with lc user hist ms gs ctx ae))) \<subseteq> lgd_sid ` set gs"
  by (auto simp: expand_parts Let_def certain_entries_def uncertain_entries_def group_entry_def)

lemma in_uac_filtered_token_groups:
  "s \<in> set (uac_filtered_token_groups ms locals la ctx) \<Longrightarrow>
     s \<in> set locals \<or> s = SID_LOCAL_ACCOUNT_AND_ADMIN
     \<or> (\<exists>gm \<in> set ms. s = gm_group_sid gm \<or> s \<in> set (gm_group_sid_history gm))"
  by (auto simp: uac_filtered_token_groups_def Let_def in_uac_filtered_groups)

lemma analysis_consistent:
  assumes g: "g = collect_local_groups_on lc target identity ms ctx la"
    and groups: "\<And>table. tr_local_group_table target = Inr table \<Longrightarrow> separate_groups (lgt_groups table) identity ms"
    and everyone: "\<forall>gm \<in> set ms. gm_group_sid gm \<noteq> SID_EVERYONE \<and> SID_EVERYONE \<notin> set (gm_group_sid_history gm)"
      "SID_EVERYONE \<notin> set (id_sid_history identity)"
  shows "consistent_lists (analysis_input identity ms g share fso ctx sid_names flags sa dfs)"
proof (cases "tr_local_group_table target")
  case (Inl e)
  then have "lgr_logon_dependent g = []" "lgr_memberships g = []" "lgr_sids g = []"
    by (simp_all add: g collect_local_groups_on_def Let_def)
  then show ?thesis
    using everyone
    by (auto simp: consistent_lists_def analysis_input_def collect_user_sids_def in_token context_sids_def sid_consts
        split: AccessContext.splits)
next
  case (Inr table)
  note sep = groups [OF Inr, unfolded separate_groups_def]
  define anon where "anon = (if id_sid identity = SID_ANONYMOUS_LOGON
      then anonymous_everyone (tr_everyone_includes_anonymous target) else None)"
  define x where "x = expand_local_groups_with lc (id_sid identity) (id_sid_history identity) ms (lgt_groups table) ctx anon"
  have L: "lgr_logon_dependent g = map lge_group (lgx_logon_dependent x)"
    and sids: "lgr_sids g = map lge_group (lgx_certain x)"
    and D: "set (lgr_uac_filtered g) \<subseteq> set (uac_filtered_token_groups ms (map lge_group (lgx_certain x)) la ctx)"
    by (auto simp: g collect_local_groups_on_def Inr Let_def anon_def x_def local_memberships_sids
        split: RemoteUacFiltering.splits)
  have from_table: "set (lgr_logon_dependent g) \<subseteq> lgd_sid ` set (lgt_groups table)"
      "set (lgr_sids g) \<subseteq> lgd_sid ` set (lgt_groups table)"
    unfolding L sids x_def by (rule expansion_from_table)+
  have everyone_apart: "SID_EVERYONE \<notin> lgd_sid ` set (lgt_groups table)" using sep by force
  have "set (lgr_logon_dependent g) \<inter> set (lgr_sids g) = {}"
    using expansion_disjoint [of "lgt_groups table"] sep unfolding L sids x_def by blast
  then have "set (lgr_logon_dependent g) \<inter> set (lgr_uac_filtered g) = {}"
    using D from_table(1) sep in_uac_filtered_token_groups [of _ ms "map lge_group (lgx_certain x)" la ctx]
    unfolding sids by fastforce
  moreover have "SID_EVERYONE \<notin> set (lgr_logon_dependent g)" "SID_EVERYONE \<notin> set (lgr_sids g)"
    using from_table everyone_apart by blast+
  moreover have "SID_EVERYONE \<notin> gm_group_sid ` set (lgr_memberships g)"
    using calculation(3) resolution_fields(1) [OF g] by auto
  ultimately show ?thesis
    using everyone resolution_fields(2) [OF g]
    by (auto simp: consistent_lists_def analysis_input_def collect_user_sids_def in_token context_sids_def sid_consts
        split: AccessContext.splits)
qed

section \<open>The answer over SMB\<close>

definition share_grants :: "ShareDacl \<Rightarrow> Sid set \<times> Sid set \<Rightarrow> u32" where
  \<comment> \<open>What the access check on the share really grants: everything without a DACL.\<close>
  "share_grants dacl t =
     (case dacl of NullDacl \<Rightarrow> NOT 0 | NoSecurityDescriptor \<Rightarrow> 0 | Acl perms \<Rightarrow> real_share perms t)"

lemma determinable_share:
  assumes "evaluate lc inp = Inr r" and "effective_determinable r"
    and "in_share_status inp = srs_status (resolve_share_mask_status_explained read q)"
    and "in_unsupported_share_ace_count inp = srs_unevaluated (resolve_share_mask_status_explained read q)"
    and "smb_resolve (sq_path q) (sq_smb_server q) (sq_share_name q) = Some c"
    and "read (smb_server c) (smb_share c) = Inr scan"
    and "possible_share_token (resolved_token q) (sq_access_context q) t"
  shows "snd (snd (share_side (in_share_status inp) m)) = m AND share_grants (sds_dacl scan) t"
proof -
  have complete: "in_unsupported_share_ace_count inp = 0" "\<forall>e. in_share_status inp \<noteq> ShareMaskStatus.ReadFailed e"
    using assms(2) evaluate_determinable [OF assms(1)] by (simp_all add: complete_evidence_def Let_def)
  show ?thesis
  proof (cases "sds_dacl scan")
    case NoSecurityDescriptor
    then show ?thesis
      using complete(2) assms(3,5,6) by (simp add: resolve_share_mask_status_explained_def Let_def)
  next
    case NullDacl
    then show ?thesis
      using assms(3,5,6)
      by (simp add: resolve_share_mask_status_explained_def evaluate_share_dacl_def share_side_def share_grants_def Let_def)
  next
    case (Acl perms)
    obtain n where ev: "evaluate_share_dacl (Acl perms) (resolved_token q) (sq_access_context q) =
        (Some (shown_share_mask (resolved_token q) perms), n)"
      using share_evaluation(1) [of perms "resolved_token q" "sq_access_context q"] by (metis prod.collapse)
    then have "n = 0" "in_share_status inp = ShareMaskStatus.Applied (shown_share_mask (resolved_token q) perms)"
      using complete(1) assms(3-6) Acl by (simp_all add: resolve_share_mask_status_explained_def Let_def)
    then show ?thesis
      using certain_share_value [OF _ assms(7)] ev Acl by (simp add: share_side_def share_grants_def)
  qed
qed

lemma request_target:
  "smb_resolve path server name = Some c \<Longrightarrow> effective_smb_target path server = Some (smb_server c)"
  by (auto simp: smb_resolve_def effective_smb_target_def Let_def split: option.splits)

lemma smb_answer:
  assumes groups: "g = collect_local_group_sids_for_path lc replies path server identity ms ctx la"
    and share: "s = resolve_share_status read path server name identity ms (lgr_sids g) (lgr_logon_dependent g)
      (lgr_uac_filtered g) ctx (lgr_remote_uac g) (lgr_anonymous_everyone g)"
    and inp: "inp = analysis_input identity ms g s fso ctx sid_names flags sa dfs"
    and smb: "smb_resolve path server name = Some c" "read (smb_server c) (smb_share c) = Inr scan"
    and target: "\<And>table. tr_local_group_table (replies (Some (smb_server c))) = Inr table \<Longrightarrow>
      separate_groups (lgt_groups table) identity ms"
    and everyone: "\<forall>gm \<in> set ms. gm_group_sid gm \<noteq> SID_EVERYONE \<and> SID_EVERYONE \<notin> set (gm_group_sid_history gm)"
      "SID_EVERYONE \<notin> set (id_sid_history identity)"
    and result: "evaluate lc inp = Inr r" "effective_determinable r"
    and token: "agrees inp t" "fst t \<subseteq> snd t" "\<not> owner_unseen inp t"
  shows "ep_effective_mask r =
    (if logon_refused inp then 0 else real_ntfs inp t AND share_grants (sds_dacl scan) t)"
proof -
  let ?q = "share_request path server name identity ms (lgr_sids g) (lgr_logon_dependent g) (lgr_uac_filtered g) ctx
      (lgr_remote_uac g) (lgr_anonymous_everyone g)"
  have g: "g = collect_local_groups_on lc (replies (Some (smb_server c))) identity ms ctx la"
    by (simp add: groups collect_local_group_sids_for_path_def request_target [OF smb(1)])
  have "same_token_inputs inp ?q" unfolding inp by (rule analysis_same_token [OF g])
  moreover have "consistent_lists inp" unfolding inp by (rule analysis_consistent [OF g target everyone])
  ultimately have "possible_share_token (resolved_token ?q) (in_access_context inp) t"
    using token(1,2) by (rule agrees_possible_share)
  moreover have "in_access_context inp = sq_access_context ?q" "sq_path ?q = path" "sq_smb_server ?q = server"
      "sq_share_name ?q = name" "in_share_status inp = srs_status s" "in_unsupported_share_ace_count inp = srs_unevaluated s"
    by (simp_all add: inp analysis_input_def share_request_def)
  moreover have "s = resolve_share_mask_status_explained read ?q" by (simp add: share resolve_share_status_def)
  ultimately have "snd (snd (share_side (in_share_status inp) m)) = m AND share_grants (sds_dacl scan) t" for m
    using determinable_share [OF result(1,2), of read ?q c scan t m] smb by simp
  then show ?thesis
    using determinable_value [OF result(1,2) token(1,3)] by (simp add: real_right_def real_effective_def)
qed

section \<open>Properties\<close>

text \<open>C1: a determinable answer over SMB is what Windows grants. Take the analysis of a path on a
  share: the local groups and policies of the target, the share DACL of the same target, the
  input built from them, and its evaluation. When the answer is determinable, then for every
  token that agrees with the evidence the reported right is nothing if the logon is refused, and
  else exactly the access check on the object cut by the access check on the share, both for that
  token; without a DACL on the share, the access check on the object alone. Hypotheses: the token
  does not own the object by a SID the evidence lists as uncertain (\<open>owner_unseen\<close>, see
  \<open>uncertain_owner_group_missed\<close>); the local groups of the target have distinct SIDs of
  their own, neither well-known ones nor SIDs of the account, its groups or their histories
  (\<open>separate_groups\<close>); no group or historical SID of the account
  is Everyone.\<close>

theorem smb_answer_is_both_checks:
  assumes "g = collect_local_group_sids_for_path lc replies path server identity ms ctx la"
    and "s = resolve_share_status read path server name identity ms (lgr_sids g) (lgr_logon_dependent g)
      (lgr_uac_filtered g) ctx (lgr_remote_uac g) (lgr_anonymous_everyone g)"
    and "inp = analysis_input identity ms g s fso ctx sid_names flags sa dfs"
    and "smb_resolve path server name = Some c" "read (smb_server c) (smb_share c) = Inr scan"
    and "\<And>table. tr_local_group_table (replies (Some (smb_server c))) = Inr table \<Longrightarrow>
      separate_groups (lgt_groups table) identity ms"
    and "\<forall>gm \<in> set ms. gm_group_sid gm \<noteq> SID_EVERYONE \<and> SID_EVERYONE \<notin> set (gm_group_sid_history gm)"
      "SID_EVERYONE \<notin> set (id_sid_history identity)"
    and "evaluate lc inp = Inr r" "effective_determinable r"
    and "agrees inp t" "fst t \<subseteq> snd t" "\<not> owner_unseen inp t"
  shows "ep_effective_mask r =
    (if logon_refused inp then 0 else real_ntfs inp t AND share_grants (sds_dacl scan) t)"
  using assms by (rule smb_answer)

definition sample_target :: TargetReplies where
  "sample_target = \<lparr>tr_everyone_includes_anonymous = Absent,
     tr_local_group_table = Inr \<lparr>lgt_groups = [\<lparr>lgd_sid = ''S-1-5-21-7-8-9-1005'', lgd_name = ''Logon'',
       lgd_members = [''S-1-5-113'']\<rparr>], lgt_gaps = []\<rparr>,
     tr_uac_policy = \<lparr>tup_enable_lua = Absent, tup_local_account_token_filter_policy = Absent,
       tup_filter_administrator_token = Absent\<rparr>,
     tr_account_names = Map.empty\<rparr>"

definition sample_share_scan :: ShareDaclScan where
  "sample_share_scan = \<lparr>sds_dacl = Acl [\<lparr>sp_share_name = ''Data'', sp_sid = ''S-1-1-0'', sp_mask = 0x1301BF,
     sp_kind = Allow\<rparr>], sds_unsupported_count = 0\<rparr>"

definition sample_resolution :: LocalGroupResolution where
  "sample_resolution = \<lparr>lgr_sids = [], lgr_memberships = [], lgr_logon_dependent = [''S-1-5-21-7-8-9-1005''],
     lgr_logon_dependent_names = [''Logon''], lgr_uac_filtered = [], lgr_remote_uac = RemoteUacFiltering.Unknown,
     lgr_anonymous_everyone = None, lgr_status = LocalGroupEvalStatus.Applied\<rparr>"

lemma sample_built: "build_token_sids_with_context ''S-1-5-21-1-2-3-1104'' [] [] [] RemoteSmb =
    {''S-1-5-21-1-2-3-1104'', ''S-1-1-0'', ''S-1-5-11'', ''S-1-5-2''}"
proof -
  have "\<not> is_guest_account ''S-1-5-21-1-2-3-1104''"
    by (simp add: is_guest_account_def domain_rid_def strip_prefix_def)
  then show ?thesis unfolding set_eq_iff in_token by (auto simp: sid_consts context_sids_def)
qed

lemma sample_collect:
  "collect_local_group_sids_for_path (\<lambda>s. s) (\<lambda>_. sample_target) ''C:'' (Some ''SRV'') sample_identity [] RemoteSmb False =
     sample_resolution"
  by (simp add: collect_local_group_sids_for_path_def collect_local_groups_on_def sample_target_def expand_parts
      certain_entries_def uncertain_entries_def certain_via_def uncertain_via_def expansion_token_def sample_built
      anonymous_gets_everyone_def is_logon_dependent_for_def is_logon_dependent_sid_def group_entry_def sort_via_def
      local_group_memberships_def uac_filtered_token_groups_def uac_filtered_groups_def target_remote_uac_def
      sample_resolution_def Let_def sid_consts)

definition sample_status :: ShareResolution where
  "sample_status = resolve_share_status (\<lambda>_ _. Inr sample_share_scan) ''C:'' (Some ''SRV'') (Some ''Data'') sample_identity []
     [] [''S-1-5-21-7-8-9-1005''] [] RemoteSmb RemoteUacFiltering.Unknown None"

lemma sample_smb: "smb_resolve ''C:'' (Some ''SRV'') (Some ''Data'') = Some \<lparr>smb_server = ''SRV'', smb_share = ''Data''\<rparr>"
  by (simp add: smb_resolve_def explicit_def)

lemma sample_status_values:
  "srs_status sample_status = ShareMaskStatus.Applied 0x1301BF" "srs_unevaluated sample_status = 0"
proof -
  let ?q = "share_request ''C:'' (Some ''SRV'') (Some ''Data'') sample_identity [] [] [''S-1-5-21-7-8-9-1005''] [] RemoteSmb
    RemoteUacFiltering.Unknown None"
  have token: "st_enabled (resolved_token ?q) = {''S-1-5-21-1-2-3-1104'', ''S-1-1-0'', ''S-1-5-11'', ''S-1-5-2''}"
    by (auto simp: resolved_token_def share_token_def share_request_def sample_built identity_uncertain_well_knowns_def
        sid_consts Let_def)
  have "expand_generic_rights 0x1301BF = 0x1301BF"
    by (simp add: expand_without_generic has_generic_def mask_consts)
  then have "evaluate_share_dacl (sds_dacl sample_share_scan) (resolved_token ?q) (sq_access_context ?q) = (Some 0x1301BF, 0)"
    by (simp add: evaluate_share_dacl_def sample_share_scan_def uncertain_permission_def token share_walk_def Let_def)
  moreover have "sq_path ?q = ''C:''" "sq_smb_server ?q = Some ''SRV''" "sq_share_name ?q = Some ''Data''"
      "sds_dacl sample_share_scan \<noteq> NoSecurityDescriptor" "sds_unsupported_count sample_share_scan = 0"
    by (simp_all add: share_request_def sample_share_scan_def)
  ultimately show "srs_status sample_status = ShareMaskStatus.Applied 0x1301BF" "srs_unevaluated sample_status = 0"
    by (simp_all add: sample_status_def resolve_share_status_def resolve_share_mask_status_explained_def sample_smb Let_def)
qed

definition sample_analysis :: PermissionEvaluationInput where
  "sample_analysis = analysis_input sample_identity [] sample_resolution sample_status sample_file RemoteSmb Map.empty
     default_provenance None None"

lemma sample_analysis_eq:
  "sample_analysis = (sample_input sample_file)\<lparr>in_share_trace := share_ace_outcomes (srs_decisions sample_status) Map.empty\<rparr>"
  by (simp add: sample_analysis_def analysis_input_def sample_input_def sample_resolution_def sample_status_values)

lemma trace_irrelevant:
  fixes inp :: PermissionEvaluationInput
  assumes jnp_def: "jnp = inp\<lparr>in_share_trace := tr\<rparr>"
  shows "logon_dependent jnp = logon_dependent inp" "user_sids jnp = user_sids inp" "deny_only_sids jnp = deny_only_sids inp"
    "complete_evidence jnp = complete_evidence inp"
    "logon_refused jnp = logon_refused inp" "in_selective_authentication jnp = in_selective_authentication inp"
proof -
  have f: "in_identity jnp = in_identity inp" "in_group_memberships jnp = in_group_memberships inp"
      "in_local_group_sids jnp = in_local_group_sids inp" "in_access_context jnp = in_access_context inp"
      "in_uac_filtered_group_sids jnp = in_uac_filtered_group_sids inp"
      "in_anonymous_everyone jnp = in_anonymous_everyone inp" "in_remote_uac jnp = in_remote_uac inp"
      "in_file_system_object jnp = in_file_system_object inp" "in_resolution jnp = in_resolution inp"
      "in_logon_dependent_group_sids jnp = in_logon_dependent_group_sids inp" "in_dfs jnp = in_dfs inp"
      "in_share_status jnp = in_share_status inp" "in_local_group_status jnp = in_local_group_status inp"
      "in_unsupported_share_ace_count jnp = in_unsupported_share_ace_count inp"
    and sa: "in_selective_authentication jnp = in_selective_authentication inp"
    by (simp_all add: jnp_def)
  show "in_selective_authentication jnp = in_selective_authentication inp" by (rule sa)
  then show "logon_refused jnp = logon_refused inp" by (simp add: logon_refused_def)
  have tok: "token_with_filter jnp = token_with_filter inp" by (simp add: token_with_filter_def f)
  then show us: "user_sids jnp = user_sids inp" by (simp add: user_sids_def)
  show ds: "deny_only_sids jnp = deny_only_sids inp" by (simp add: deny_only_sids_def f)
  have g: "logon_dependent_groups jnp = logon_dependent_groups inp"
    by (simp add: logon_dependent_groups_def crypto_operators_uncertain_def tok f)
  have owner: "user_is_owner jnp = user_is_owner inp" by (simp add: user_is_owner_def us f split: option.split)
  then have ms: "match_sids jnp = match_sids inp" by (simp add: match_sids_def us)
  have uac: "uac_filter_certain jnp = uac_filter_certain inp" by (simp add: uac_filter_certain_def uac_certain_reason_def f)
  show ld: "logon_dependent jnp = logon_dependent inp"
    by (simp add: logon_dependent_def ms g ds uac f owner_implicit_bits_def owner_rights_ace_present_def owner uncertain_owner_def
        split: option.split)
  show "complete_evidence jnp = complete_evidence inp" by (simp add: complete_evidence_def ld f)
qed

lemma smb_answer_is_both_checks_witness:
  "\<exists>r. evaluate (\<lambda>s. s) sample_analysis = Inr r \<and>
     ep_effective_mask r = real_ntfs sample_analysis (user_sids sample_analysis, user_sids sample_analysis)
       AND share_grants (sds_dacl sample_share_scan) (user_sids sample_analysis, user_sids sample_analysis)"
proof -
  let ?inp = "sample_analysis" and ?t = "(user_sids sample_analysis, user_sids sample_analysis)"
  obtain r where r: "evaluate (\<lambda>s. s) ?inp = Inr r" by (simp add: evaluate_eq)
  note same = trace_irrelevant [OF sample_analysis_eq]
  have "logon_dependent (sample_input sample_file) = None"
    by (rule sample_bounds) (auto simp: sample_file_def sample_object_def sample_ace_def)
  then have "complete_evidence ?inp"
    using sample_complete [of sample_file] by (simp add: same sample_file_def)
  then have determinable: "effective_determinable r"
    using evaluate_determinable [OF r] by (simp add: same)
  have refused: "\<not> logon_refused ?inp" by (simp add: same logon_refused_def)
  have agrees: "agrees ?inp ?t"
  proof -
    have "deny_only_sids ?inp = {}" by (simp only: same(3)) (simp add: deny_only_sids_def)
    then show ?thesis using known_token_agrees [of ?inp] by simp
  qed
  have inp: "?inp = analysis_input sample_identity [] sample_resolution sample_status sample_file RemoteSmb Map.empty
      default_provenance None None" by (rule sample_analysis_def)
  have status: "sample_status = resolve_share_status (\<lambda>_ _. Inr sample_share_scan) ''C:'' (Some ''SRV'') (Some ''Data'')
      sample_identity [] (lgr_sids sample_resolution) (lgr_logon_dependent sample_resolution)
      (lgr_uac_filtered sample_resolution) RemoteSmb (lgr_remote_uac sample_resolution)
      (lgr_anonymous_everyone sample_resolution)"
    by (simp add: sample_status_def sample_resolution_def)
  have "separate_groups (lgt_groups table) sample_identity []" if "tr_local_group_table sample_target = Inr table" for table
    using that by (auto simp: sample_target_def separate_groups_def sid_consts)
  then have "ep_effective_mask r = real_ntfs ?inp ?t AND share_grants (sds_dacl sample_share_scan) ?t"
    using smb_answer_is_both_checks [OF sample_collect [symmetric] status inp sample_smb refl _ _ _ r determinable
        agrees _ known_owner_seen] refused by simp
  with r show ?thesis by blast
qed

end
