(* ===== verification/Dfs.thy ===== *)
theory Dfs
  imports Path_Inputs Diagnostics
begin

unbundle bit_operations_syntax

text \<open>
  Paths through a DFS namespace: the answer of the DFS client and its validation
  (\<open>crates/share_scanner/src/dfs.rs\<close>), the decision where a path is evaluated, the step that tells
  the reader, and the mapping of scanned objects back to the requested form
  (\<open>crates/analysis/src/dfs.rs\<close>).

  The reply of \<open>NetDfsGetClientInfo\<close> and the path the redirector opened are parameters.
\<close>

section \<open>The answer of the DFS client\<close>

definition NERR_DFS_NO_SUCH_VOLUME :: u32 where "NERR_DFS_NO_SUCH_VOLUME = 2662"
definition MAX_TARGETS :: u32 where "MAX_TARGETS = 1024"
definition DFS_STORAGE_STATE_ONLINE :: u32 where "DFS_STORAGE_STATE_ONLINE = 2"
definition DFS_STORAGE_STATE_ACTIVE :: u32 where "DFS_STORAGE_STATE_ACTIVE = 4"

record DfsTarget =
  dt_server :: string
  dt_share :: string
  dt_active :: bool
  dt_online :: bool

definition target_unc :: "DfsTarget \<Rightarrow> string" where
  \<comment> \<open>\<open>DfsTarget::unc\<close>.\<close>
  "target_unc t = unc_prefix @ dt_server t @ bslash @ dt_share t"

record DfsLink =
  dl_entry_path :: string
  dl_targets :: "DfsTarget list"

datatype DfsLookup = NotDfs | Link DfsLink | Failed string

definition good_name :: "string \<Rightarrow> bool" where
  \<comment> \<open>The closure \<open>ok\<close>.\<close>
  "good_name s \<longleftrightarrow> s \<noteq> [] \<and> \<not> control_in s \<and> CHR 0x5C \<notin> set s"

fun build_targets :: "string \<Rightarrow> (string \<times> string \<times> u32) list \<Rightarrow> string + DfsTarget list" where
  "build_targets entry_path [] = Inr []"
| "build_targets entry_path ((server, share, state) # rest) =
     (if \<not> good_name server \<or> \<not> good_name share then
        Inl (''the DFS client reported the target '' @ squote @ server @ bslash @ share @ squote
       @ '' for '' @ entry_path)
      else and_then (build_targets entry_path rest) (\<lambda>targets.
        Inr (\<lparr>dt_server = server, dt_share = share, dt_active = (state AND DFS_STORAGE_STATE_ACTIVE \<noteq> 0),
              dt_online = (state AND DFS_STORAGE_STATE_ONLINE \<noteq> 0)\<rparr> # targets)))"

definition build_link :: "string \<Rightarrow> (string \<times> string \<times> u32) list \<Rightarrow> string + DfsLink" where
  "build_link entry raw_targets =
     (let entry_path = unc_prefix @ trim_start_matches backslash entry
      in if parse_unc_components entry_path = None then
           Inl (''the DFS client reported the folder path '' @ squote @ entry @ squote)
         else if raw_targets = [] then
           Inl (''the DFS client reported no target for '' @ entry_path)
         else and_then (build_targets entry_path raw_targets) (\<lambda>targets.
           Inr \<lparr>dl_entry_path = entry_path, dl_targets = targets\<rparr>))"

record DfsClientInfo =
  dci_entry_path :: string
  dci_number_of_storages :: u32
  dci_storage :: "(string \<times> string \<times> u32) list option"

definition dfs_client_link :: "u32 \<times> DfsClientInfo option \<Rightarrow> DfsLookup" where
  "dfs_client_link reply =
     (case reply of (status, buf) \<Rightarrow>
        if status = NERR_DFS_NO_SUCH_VOLUME then NotDfs
        else if status \<noteq> 0 then
          Failed (''NetDfsGetClientInfo failed with status '' @ dec (unat status))
        else case buf of
            None \<Rightarrow> Failed (''NetDfsGetClientInfo returned no data'')
          | Some info \<Rightarrow>
              (if dci_number_of_storages info > MAX_TARGETS then
                 Failed (''NetDfsGetClientInfo reported '' @ dec (unat (dci_number_of_storages info)) @ '' targets'')
               else case (if dci_number_of_storages info = 0 then Some [] else dci_storage info) of
                   None \<Rightarrow> Failed (''NetDfsGetClientInfo reported targets but no list'')
                 | Some targets \<Rightarrow>
                     (case build_link (dci_entry_path info) targets of
                        Inr link \<Rightarrow> Link link
                      | Inl e \<Rightarrow> Failed e)))"

section \<open>Where a path is evaluated\<close>

record EvaluationTarget =
  et_evaluated_path :: string
  et_dfs :: "DfsEvaluation option"

definition unchanged :: "string \<Rightarrow> EvaluationTarget" where
  "unchanged path = \<lparr>et_evaluated_path = path, et_dfs = None\<rparr>"

definition same_share :: "string \<Rightarrow> string \<Rightarrow> bool" where
  "same_share a b =
     (case (parse_unc_components a, parse_unc_components b) of
        (Some (sa, ha), Some (sb, hb)) \<Rightarrow> eq_ignore_ascii_case sa sb \<and> eq_ignore_ascii_case ha hb
      | _ \<Rightarrow> False)"

definition strip_prefix_ignore_case :: "string \<Rightarrow> string \<Rightarrow> string option" where
  "strip_prefix_ignore_case path pre =
     (case (if length pre \<le> length path then prefix_upto (length pre) path else None) of
        None \<Rightarrow> None
      | Some head \<Rightarrow>
          (if \<not> eq_ignore_ascii_case head pre then None
           else (let rest = drop (length pre) path
                 in if rest = [] \<or> starts_with rest bslash then Some rest else None)))"

definition decide_opened :: "string \<Rightarrow> string \<Rightarrow> DfsLink option \<Rightarrow> EvaluationTarget" where
  \<comment> \<open>The branch of \<open>decide\<close> for a path that was opened.\<close>
  "decide_opened requested fp link =
     (if same_share fp requested then unchanged requested
      else (let (folder, other_targets, known) =
              (case link of
                 Some l \<Rightarrow>
                   (let active = filter dt_active (dl_targets l);
                        consistent = (length active = 1 \<and> same_share (target_unc (active ! 0)) fp);
                        others = map target_unc (filter (\<lambda>t. \<not> same_share (target_unc t) fp) (dl_targets l))
                    in (Some (dl_entry_path l), others, consistent))
               | None \<Rightarrow> (None, [], False))
            in \<lparr>et_evaluated_path = fp,
                et_dfs = Some \<lparr>dfs_requested = requested, dfs_target = fp, dfs_folder = folder,
                  dfs_other_targets = other_targets, dfs_other_targets_known = known\<rparr>\<rparr>))"

definition decide_unopened :: "string \<Rightarrow> DfsLink \<Rightarrow> EvaluationTarget" where
  "decide_unopened requested l =
     (case (filter dt_active (dl_targets l), strip_prefix_ignore_case requested (dl_entry_path l)) of
        ([a], Some rest) \<Rightarrow>
          (let target = target_unc a @ rest;
               others = map target_unc (filter (\<lambda>t. \<not> dt_active t) (dl_targets l))
           in \<lparr>et_evaluated_path = target,
               et_dfs = Some \<lparr>dfs_requested = requested, dfs_target = target, dfs_folder = Some (dl_entry_path l),
                 dfs_other_targets = others, dfs_other_targets_known = True\<rparr>\<rparr>)
      | _ \<Rightarrow>
          \<lparr>et_evaluated_path = requested,
           et_dfs = Some \<lparr>dfs_requested = requested, dfs_target = requested, dfs_folder = Some (dl_entry_path l),
             dfs_other_targets = map target_unc (dl_targets l), dfs_other_targets_known = False\<rparr>\<rparr>)"

definition decide :: "string \<Rightarrow> string option \<Rightarrow> DfsLookup \<Rightarrow> EvaluationTarget" where
  "decide requested final_path lookup =
     (let link = (case lookup of Link l \<Rightarrow> Some l | _ \<Rightarrow> None)
      in case final_path of
           Some fp \<Rightarrow> decide_opened requested fp link
         | None \<Rightarrow> (case link of None \<Rightarrow> unchanged requested | Some l \<Rightarrow> decide_unopened requested l))"

definition resolve_evaluation_target ::
  "(string \<Rightarrow> string option) \<Rightarrow> (string \<Rightarrow> DfsLookup) \<Rightarrow> string \<Rightarrow> EvaluationTarget" where
  "resolve_evaluation_target final_unc_path lookup path =
     (if parse_unc_components path = None then unchanged path
      else (let final_path = (case final_unc_path path of
                  Some p \<Rightarrow> if is_ok (validate_path p) then Some p else None | None \<Rightarrow> None)
            in decide path final_path (lookup path)))"

definition attach_step :: "PermissionPath \<Rightarrow> DfsEvaluation \<Rightarrow> PermissionPath" where
  "attach_step path d =
     (let folder = (case dfs_folder d of Some f \<Rightarrow> (''the '' @ entry_label f) | None \<Rightarrow> ''a DFS namespace'');
          step = (''DFS: '' @ dfs_requested d @ '' lies in '' @ folder @ ''; evaluated on '' @ dfs_target d
       @ '', the target this machine is referred to (its share permissions, local ''
       @ ''groups and policies)'');
          at = (if pp_steps path = [] then 0 else 1)
      in path\<lparr>pp_steps := take at (pp_steps path) @ [step] @ drop at (pp_steps path)\<rparr>)"

definition trim_end_backslashes :: "string \<Rightarrow> string" where
  "trim_end_backslashes s = rev (dropWhile backslash (rev s))"

definition for_scanned_object :: "string \<Rightarrow> DfsEvaluation \<Rightarrow> (string \<times> DfsEvaluation) option" where
  "for_scanned_object path root =
     (let path = strip_long_path_prefix path
      in case strip_prefix_ignore_case path (trim_end_backslashes (dfs_target root)) of
           None \<Rightarrow> None
         | Some rest \<Rightarrow>
             (let requested = trim_end_backslashes (dfs_requested root) @ rest
              in Some (requested, root\<lparr>dfs_requested := requested, dfs_target := path\<rparr>)))"

section \<open>When one server answers for a path\<close>

definition referred :: "string \<Rightarrow> DfsLink \<Rightarrow> DfsTarget \<Rightarrow> string \<Rightarrow> bool" where
  \<comment> \<open>The folder has the one active target \<open>a\<close>, and the requested path is the folder, in whatever
    case, followed by \<open>rest\<close> at a component boundary.\<close>
  "referred requested l a rest \<longleftrightarrow> filter dt_active (dl_targets l) = [a]
     \<and> (\<exists>folder. requested = folder @ rest \<and> eq_ignore_ascii_case folder (dl_entry_path l)
          \<and> (rest = [] \<or> starts_with rest bslash))"

definition evaluated_at :: "string \<Rightarrow> string option \<Rightarrow> DfsLookup \<Rightarrow> string \<Rightarrow> bool" where
  \<comment> \<open>Where a path has to be evaluated (ADR 0085): where Windows opened it, or, for a path that was not
    opened, on the active target this machine is referred to; as given without evidence of DFS.\<close>
  "evaluated_at requested final_path lookup place =
     (case final_path of
        Some p \<Rightarrow> place = (if same_share p requested then requested else p)
      | None \<Rightarrow>
          (case lookup of
             Link l \<Rightarrow> (\<exists>a rest. referred requested l a rest \<and> place = target_unc a @ rest)
               \<or> ((\<nexists>a rest. referred requested l a rest) \<and> place = requested)
           | _ \<Rightarrow> place = requested))"

definition one_server :: "string \<Rightarrow> string option \<Rightarrow> DfsLink \<Rightarrow> bool" where
  "one_server requested final_path l =
     (case final_path of
        Some p \<Rightarrow> length (filter dt_active (dl_targets l)) = 1
          \<and> list_all (\<lambda>t. same_share (target_unc t) p) (dl_targets l)
      | None \<Rightarrow> (\<exists>a rest. referred requested l a rest \<and> dl_targets l = [a]))"

lemma boundary_at: "t = [] \<or> starts_with t bslash \<Longrightarrow> char_boundary (length s) (s @ t)"
  by (cases t) (auto simp: char_boundary_def bslash_def starts_with_def nth_append continuation_def code_def)

lemma eq_case_length: "eq_ignore_ascii_case a b \<Longrightarrow> length a = length b"
  unfolding eq_ignore_ascii_case_def by (drule arg_cong [where f = length]) simp

lemma strip_prefix_iff:
  "strip_prefix_ignore_case path pre = Some rest \<longleftrightarrow>
     (\<exists>folder. path = folder @ rest \<and> eq_ignore_ascii_case folder pre \<and> (rest = [] \<or> starts_with rest bslash))"
proof
  assume stripped: "strip_prefix_ignore_case path pre = Some rest"
  then have "path = take (length pre) path @ rest \<and> eq_ignore_ascii_case (take (length pre) path) pre
      \<and> (rest = [] \<or> starts_with rest bslash)"
    by (auto simp: strip_prefix_ignore_case_def prefix_upto_def Let_def split: if_splits)
  then show "\<exists>folder. path = folder @ rest \<and> eq_ignore_ascii_case folder pre \<and> (rest = [] \<or> starts_with rest bslash)"
    by blast
next
  assume "\<exists>folder. path = folder @ rest \<and> eq_ignore_ascii_case folder pre \<and> (rest = [] \<or> starts_with rest bslash)"
  then obtain folder where f: "path = folder @ rest" "eq_ignore_ascii_case folder pre" "rest = [] \<or> starts_with rest bslash"
    by blast
  then show "strip_prefix_ignore_case path pre = Some rest"
    using eq_case_length [OF f(2)] boundary_at [OF f(3), of folder]
    by (simp add: strip_prefix_ignore_case_def prefix_upto_def)
qed

lemma referred_iff:
  "referred requested l a rest \<longleftrightarrow> filter dt_active (dl_targets l) = [a]
     \<and> strip_prefix_ignore_case requested (dl_entry_path l) = Some rest"
  by (simp add: referred_def strip_prefix_iff)

lemma unopened_cases:
  obtains (referred) a rest where "referred requested l a rest"
      "decide_unopened requested l = \<lparr>et_evaluated_path = target_unc a @ rest,
         et_dfs = Some \<lparr>dfs_requested = requested, dfs_target = target_unc a @ rest,
           dfs_folder = Some (dl_entry_path l),
           dfs_other_targets = map target_unc (filter (\<lambda>t. \<not> dt_active t) (dl_targets l)),
           dfs_other_targets_known = True\<rparr>\<rparr>"
    | (open_ended) "\<nexists>a rest. referred requested l a rest"
      "decide_unopened requested l = \<lparr>et_evaluated_path = requested,
         et_dfs = Some \<lparr>dfs_requested = requested, dfs_target = requested, dfs_folder = Some (dl_entry_path l),
           dfs_other_targets = map target_unc (dl_targets l), dfs_other_targets_known = False\<rparr>\<rparr>"
proof (cases "\<exists>a rest. referred requested l a rest")
  case True
  then obtain a rest where r: "referred requested l a rest" by blast
  show thesis by (rule referred [OF r]) (use r in \<open>simp add: referred_iff decide_unopened_def Let_def\<close>)
next
  case False
  show thesis
    by (rule open_ended [OF False]) (use False in \<open>auto simp: referred_iff decide_unopened_def split: list.split option.split\<close>)
qed

lemma exact_marker: "is_incompleteness_trigger (dfs_marker d) \<longleftrightarrow>
  dfs_other_targets d \<noteq> [] \<or> \<not> dfs_other_targets_known d"
  by (auto simp: is_incompleteness_trigger_def dfs_marker_def)

lemma one_active:
  assumes "length (filter dt_active ts) = 1" and "list_all p ts"
  shows "p (filter dt_active ts ! 0)"
proof -
  have "filter dt_active ts ! 0 \<in> set (filter dt_active ts)" using assms(1) by (intro nth_mem) simp
  then show ?thesis using assms(2) by (auto simp: list_all_iff)
qed

lemma decide_opened_exact:
  assumes "et_dfs (decide_opened requested p link) = Some d"
  shows "dfs_requested d = requested" "dfs_target d = et_evaluated_path (decide_opened requested p link)"
    "is_incompleteness_trigger (dfs_marker d) \<longleftrightarrow> \<not> (\<exists>l. link = Some l \<and> one_server requested (Some p) l)"
proof -
  show "dfs_requested d = requested" "dfs_target d = et_evaluated_path (decide_opened requested p link)"
    using assms by (auto simp: decide_opened_def unchanged_def Let_def split: if_splits prod.splits)
  show "is_incompleteness_trigger (dfs_marker d) \<longleftrightarrow> \<not> (\<exists>l. link = Some l \<and> one_server requested (Some p) l)"
  proof (cases link)
    case None
    with assms show ?thesis by (auto simp: decide_opened_def unchanged_def exact_marker split: if_splits)
  next
    case (Some l)
    have d: "dfs_other_targets d = [] \<longleftrightarrow> list_all (\<lambda>t. same_share (target_unc t) p) (dl_targets l)"
      "dfs_other_targets_known d \<longleftrightarrow> length (filter dt_active (dl_targets l)) = 1
         \<and> same_share (target_unc (filter dt_active (dl_targets l) ! 0)) p"
      using assms Some by (auto simp: decide_opened_def unchanged_def Let_def filter_empty_conv list_all_iff split: if_splits)
    show ?thesis
      unfolding exact_marker d one_server_def Some
      using one_active [of "dl_targets l" "\<lambda>t. same_share (target_unc t) p"] d(1) by auto
  qed
qed

lemma decide_opened_None: "et_dfs (decide_opened requested p link) = None \<longleftrightarrow> same_share p requested"
  by (simp add: decide_opened_def unchanged_def Let_def split: option.split)

lemma referred_single:
  "referred requested l a rest \<Longrightarrow> filter (\<lambda>t. \<not> dt_active t) (dl_targets l) = [] \<longleftrightarrow> dl_targets l = [a]"
  unfolding referred_def by (auto simp: filter_empty_conv filter_id_conv dest: filter_eq_ConsD)

lemma decide_unopened_exact:
  "\<exists>d. et_dfs (decide_unopened requested l) = Some d \<and> dfs_requested d = requested
     \<and> dfs_target d = et_evaluated_path (decide_unopened requested l)
     \<and> evaluated_at requested None (Link l) (et_evaluated_path (decide_unopened requested l))
     \<and> (is_incompleteness_trigger (dfs_marker d) \<longleftrightarrow> \<not> one_server requested None l)"
proof (cases rule: unopened_cases [of requested l])
  case (referred a rest)
  have only: "a' = a" if "referred requested l a' rest'" for a' rest'
    using that referred(1) by (simp add: referred_def)
  have "(\<exists>a rest. referred requested l a rest \<and> dl_targets l = [a]) \<longleftrightarrow> dl_targets l = [a]"
    using referred(1) only by blast
  moreover have "evaluated_at requested None (Link l) (target_unc a @ rest)"
    using referred(1) by (auto simp: evaluated_at_def)
  ultimately show ?thesis
    using referred_single [OF referred(1)] by (simp add: referred(2) exact_marker one_server_def)
next
  case open_ended
  then show ?thesis by (simp add: exact_marker one_server_def evaluated_at_def)
qed

text \<open>C23: where a path through a DFS namespace is evaluated, and when the result is exact. A path that
  was opened on its own share is evaluated as given, one that was opened elsewhere where Windows
  opened it; one that was not opened on the one active target the DFS client refers to, with the
  part below the folder appended, and as given when there is no such target or no folder. A DFS
  evaluation is recorded exactly when the path was opened elsewhere or was not opened and the DFS
  client knows a folder; the record names the requested and the evaluated path, and its marker
  leaves the result exact precisely when the DFS client reports a folder with one active target
  such that every target of the folder is the share that was opened, or, for a path that was not
  opened, when that active target is the only target and the path lies in the folder.\<close>

theorem dfs_exact_on_one_server:
  "evaluated_at requested final_path lookup (et_evaluated_path (decide requested final_path lookup))
   \<and> (case et_dfs (decide requested final_path lookup) of
        None \<Rightarrow> (case final_path of Some p \<Rightarrow> same_share p requested | None \<Rightarrow> \<not> (\<exists>l. lookup = Link l))
      | Some d \<Rightarrow> (case final_path of Some p \<Rightarrow> \<not> same_share p requested | None \<Rightarrow> \<exists>l. lookup = Link l)
          \<and> dfs_requested d = requested
          \<and> dfs_target d = et_evaluated_path (decide requested final_path lookup)
          \<and> \<not> is_incompleteness_trigger (dfs_marker d) = (\<exists>l. lookup = Link l \<and> one_server requested final_path l))"
proof (cases final_path)
  case None
  show ?thesis
  proof (cases lookup)
    case (Link l)
    then show ?thesis using None decide_unopened_exact [of requested l] by (auto simp: decide_def)
  qed (simp_all add: None decide_def unchanged_def evaluated_at_def)
next
  case (Some p)
  show ?thesis
  proof (cases "same_share p requested")
    case True
    then show ?thesis using Some by (simp add: decide_def decide_opened_def unchanged_def evaluated_at_def)
  next
    case False
    then have "et_evaluated_path (decide_opened requested p link) = p" for link
      by (simp add: decide_opened_def Let_def split: prod.split option.split)
    then show ?thesis using Some False
      by (cases lookup) (auto simp: decide_def decide_opened_None decide_opened_exact evaluated_at_def split: option.split)
  qed
qed

section \<open>The objects of a redirected scan\<close>

lemma strip_prefix_here:
  "t = [] \<or> starts_with t bslash \<Longrightarrow> strip_prefix_ignore_case (s @ t) s = Some t"
  by (auto simp: strip_prefix_iff eq_ignore_ascii_case_def)

lemma trim_end_backslashes_none:
  assumes "\<not> ends_with (c # b) bslash"
  shows "trim_end_backslashes (p @ c # b) = p @ c # b"
proof -
  obtain x y where e: "c # b = y @ [x]" by (metis append_butlast_last_id list.distinct(1))
  then have "x \<noteq> CHR 0x5C" using assms by (auto simp: ends_with_def bslash_def)
  then show ?thesis unfolding e by (simp add: trim_end_backslashes_def backslash_def)
qed

text \<open>The objects of a scan that was redirected to a DFS target are reported under the path
  the reader asked for. An object below the evaluated root, in the plain or in the long form
  the walker may use, is shown as the requested root followed by the same part below it, and
  its own evaluation keeps the folder and the other targets of the root.\<close>

theorem scanned_object_keeps_requested_path:
  assumes root: "validate_unc_path (dfs_target root) = Inr (unc_prefix @ body)" "dfs_target root = unc_prefix @ body"
    and ends: "\<not> ends_with body bslash" and below: "rest = [] \<or> starts_with rest bslash"
    and path: "path = unc_prefix @ body @ rest \<or> path = long_unc_prefix @ body @ rest"
  shows "for_scanned_object path root =
    Some (trim_end_backslashes (dfs_requested root) @ rest,
      root\<lparr>dfs_requested := trim_end_backslashes (dfs_requested root) @ rest, dfs_target := dfs_target root @ rest\<rparr>)"
proof -
  obtain c b where body: "body = c # b" and c: "\<not> continuation c" "c \<noteq> CHR ''?''"
    using root unc_first_server [of "unc_prefix @ body"] by (metis same_append_eq validate_unc_path_ok)
  have "strip_long_path_prefix path = dfs_target root @ rest"
    using path strip_long_unc [OF c] root(2) body by auto
  moreover have "trim_end_backslashes (dfs_target root) = dfs_target root"
    unfolding root(2) body by (rule trim_end_backslashes_none) (use ends body in simp)
  ultimately show ?thesis using strip_prefix_here [OF below] by (simp add: for_scanned_object_def Let_def)
qed

lemma scanned_object_keeps_requested_path_witness:
  "for_scanned_object (long_unc_prefix @ ''F'' @ bslash @ ''S'' @ bslash @ ''x'')
     \<lparr>dfs_requested = unc_prefix @ ''D'' @ bslash @ ''n'', dfs_target = unc_prefix @ ''F'' @ bslash @ ''S'',
      dfs_folder = None, dfs_other_targets = [], dfs_other_targets_known = False\<rparr> =
   Some (unc_prefix @ ''D'' @ bslash @ ''n'' @ bslash @ ''x'',
     \<lparr>dfs_requested = unc_prefix @ ''D'' @ bslash @ ''n'' @ bslash @ ''x'',
      dfs_target = unc_prefix @ ''F'' @ bslash @ ''S'' @ bslash @ ''x'',
      dfs_folder = None, dfs_other_targets = [], dfs_other_targets_known = False\<rparr>)"
proof -
  let ?body = "''F'' @ bslash @ ''S''"
  have trim: "trim (unc_prefix @ ?body) = unc_prefix @ ?body" "trim ''F'' = ''F''" "trim ''S'' = ''S''"
    by (simp_all add: trim_def trim_start_def trim_end_def white_space_def starts_with_def unc_prefix_def bslash_def)
  have unc: "unc_path_spec (unc_prefix @ ?body)"
    by (simp add: unc_path_spec_def unc_parts_def splitn3_def until_def nth_part_def Let_def trim backslash_def
        host_spec_def share_spec_def good_segments_def unc_prefix_def bslash_def MAX_PATH_LEN_def MAX_HOST_LEN_def
        MAX_SHARE_LEN_def FORBIDDEN_SHARE_CHARS_def host_char_def ascii_alphanumeric_def ascii_alphabetic_def
        ascii_upper_def code_def)
  let ?root = "\<lparr>dfs_requested = unc_prefix @ ''D'' @ bslash @ ''n'', dfs_target = unc_prefix @ ''F'' @ bslash @ ''S'',
      dfs_folder = None, dfs_other_targets = [], dfs_other_targets_known = False\<rparr>"
  have "validate_unc_path (dfs_target ?root) = Inr (unc_prefix @ ?body)"
    using unc trim by (simp add: validate_unc_path_ok)
  from scanned_object_keeps_requested_path [OF this, of "bslash @ ''x''" "long_unc_prefix @ ?body @ bslash @ ''x''"]
  show ?thesis by (simp add: trim_end_backslashes_def backslash_def ends_with_def bslash_def unc_prefix_def)
qed

end
