(* ===== verification/Delta.thy ===== *)
theory Delta
  imports Diagnostics Texts "HOL-Library.AList" "HOL-Library.Multiset"
begin

text \<open>
  The comparison of two scan runs (\<open>crates/persistence/src/delta.rs\<close>): the signature of a
  stored permission, the reasons for a change, and the list of entries that were added, removed
  or changed between the runs.

  A \<open>HashMap\<close> is an association list without duplicate keys, and the order in which a loop visits
  it is a parameter: any rearrangement of its entries. The two database reads of
  \<open>compare_scans\<close> (the target of a run and its permissions) are parameters too.
\<close>

section \<open>What is compared\<close>

datatype ShareStatusTag = NotApplicable | Applied | Unrestricted | ReadFailed string

definition share_status_tag :: "ShareEvalStatus \<Rightarrow> ShareStatusTag" where
  \<comment> \<open>\<open>impl From<&ShareEvalStatus> for ShareStatusTag\<close>.\<close>
  "share_status_tag s =
     (case s of
        ShareEvalStatus.NotApplicable \<Rightarrow> ShareStatusTag.NotApplicable
      | ShareEvalStatus.Applied \<Rightarrow> ShareStatusTag.Applied
      | ShareEvalStatus.Unrestricted \<Rightarrow> ShareStatusTag.Unrestricted
      | ShareEvalStatus.ReadFailed msg \<Rightarrow> ShareStatusTag.ReadFailed msg)"

datatype LocalGroupStatusTag = NotQueried | Applied | NotAvailable string

definition local_group_status_tag :: "LocalGroupEvalStatus \<Rightarrow> LocalGroupStatusTag" where
  "local_group_status_tag s =
     (case s of
        LocalGroupEvalStatus.NotQueried \<Rightarrow> LocalGroupStatusTag.NotQueried
      | LocalGroupEvalStatus.Applied \<Rightarrow> LocalGroupStatusTag.Applied
      | LocalGroupEvalStatus.NotAvailable msg \<Rightarrow> LocalGroupStatusTag.NotAvailable msg)"

record PermissionSignature =
  ps_effective_mask :: u32
  ps_ntfs_mask :: u32
  ps_share_mask :: "u32 option"
  ps_share_status :: ShareStatusTag
  ps_local_group_status :: LocalGroupStatusTag
  ps_unsupported_ace_count :: nat
  ps_diagnostics :: "PermissionDiagnostic list"
  ps_effective_determinable :: bool

definition signature_from :: "EffectivePermission \<Rightarrow> PermissionSignature" where
  "signature_from p =
     \<lparr>ps_effective_mask = ep_effective_mask p, ps_ntfs_mask = ep_ntfs_mask p,
      ps_share_mask = ep_share_mask p,
      ps_share_status = share_status_tag (ep_share_status p),
      ps_local_group_status = local_group_status_tag (ep_local_group_status p),
      ps_unsupported_ace_count = ep_unsupported_ace_count p,
      ps_diagnostics = ep_diagnostics p,
      ps_effective_determinable = effective_determinable p\<rparr>"

datatype DeltaReason =
    EffectiveMaskChanged | DeterminabilityChanged | NtfsMaskChanged | ShareMaskChanged
  | ShareStatusChanged | LocalGroupStatusChanged | UnsupportedAceCountChanged | DiagnosticsChanged

definition reason_label :: "DeltaReason \<Rightarrow> string" where
  "reason_label r =
     (case r of
        EffectiveMaskChanged \<Rightarrow> ''effective mask''
      | DeterminabilityChanged \<Rightarrow> ''determinability''
      | NtfsMaskChanged \<Rightarrow> ''NTFS mask''
      | ShareMaskChanged \<Rightarrow> ''share mask''
      | ShareStatusChanged \<Rightarrow> ''share status''
      | LocalGroupStatusChanged \<Rightarrow> ''local-group status''
      | UnsupportedAceCountChanged \<Rightarrow> ''unsupported-ACE count''
      | DiagnosticsChanged \<Rightarrow> ''diagnostics'')"

definition signature_diff :: "PermissionSignature \<Rightarrow> PermissionSignature \<Rightarrow> DeltaReason list" where
  "signature_diff old new =
     (if ps_effective_mask old \<noteq> ps_effective_mask new then [EffectiveMaskChanged] else [])
     @ (if ps_effective_determinable old \<noteq> ps_effective_determinable new then [DeterminabilityChanged] else [])
     @ (if ps_ntfs_mask old \<noteq> ps_ntfs_mask new then [NtfsMaskChanged] else [])
     @ (if ps_share_mask old \<noteq> ps_share_mask new then [ShareMaskChanged] else [])
     @ (if ps_share_status old \<noteq> ps_share_status new then [ShareStatusChanged] else [])
     @ (if ps_local_group_status old \<noteq> ps_local_group_status new then [LocalGroupStatusChanged] else [])
     @ (if ps_unsupported_ace_count old \<noteq> ps_unsupported_ace_count new then [UnsupportedAceCountChanged] else [])
     @ (if ps_diagnostics old \<noteq> ps_diagnostics new then [DiagnosticsChanged] else [])"

datatype DeltaKind = Added | Removed | Changed AccessMask AccessMask "DeltaReason list"

record DeltaEntry =
  de_path :: NormalizedPath
  de_kind :: DeltaKind
  de_old_perm :: "EffectivePermission option"
  de_new_perm :: "EffectivePermission option"

section \<open>The comparison\<close>

type_synonym Key = "string \<times> string"

definition key_of :: "EffectivePermission \<Rightarrow> Key" where
  "key_of p = (id_sid (ep_identity p), ep_path p)"

definition collect_map :: "EffectivePermission list \<Rightarrow> (Key \<times> EffectivePermission) list" where
  \<comment> \<open>\<open>collect()\<close> into a \<open>HashMap\<close>: a later value for a key replaces the earlier one.\<close>
  "collect_map ps = fold (\<lambda>p. AList.update (key_of p) p) ps []"

definition new_entry :: "(Key \<times> EffectivePermission) list \<Rightarrow> Key \<times> EffectivePermission \<Rightarrow> DeltaEntry option" where
  \<comment> \<open>The body of the first loop.\<close>
  "new_entry old_map kv =
     (case kv of (key, new_p) \<Rightarrow>
        (case map_of old_map key of
           None \<Rightarrow> Some \<lparr>de_path = snd key, de_kind = Added, de_old_perm = None, de_new_perm = Some new_p\<rparr>
         | Some old_p \<Rightarrow>
             (let reasons = signature_diff (signature_from old_p) (signature_from new_p)
              in if reasons \<noteq> [] then
                   Some \<lparr>de_path = snd key,
                     de_kind = Changed (ep_effective_mask old_p) (ep_effective_mask new_p) reasons,
                     de_old_perm = Some old_p, de_new_perm = Some new_p\<rparr>
                 else None)))"

definition removed_entry :: "(Key \<times> EffectivePermission) list \<Rightarrow> Key \<times> EffectivePermission \<Rightarrow> DeltaEntry option" where
  "removed_entry new_map kv =
     (case kv of (key, old_p) \<Rightarrow>
        (if map_of new_map key = None then
           Some \<lparr>de_path = snd key, de_kind = Removed, de_old_perm = Some old_p, de_new_perm = None\<rparr>
         else None))"

definition entry_sid :: "DeltaEntry \<Rightarrow> string" where
  "entry_sid e =
     (case de_new_perm e of
        Some p \<Rightarrow> id_sid (ep_identity p)
      | None \<Rightarrow> (case de_old_perm e of Some p \<Rightarrow> id_sid (ep_identity p) | None \<Rightarrow> []))"

definition entry_order :: "DeltaEntry \<Rightarrow> string \<times> string" where
  "entry_order e = (de_path e, entry_sid e)"

definition diff_permission_lists ::
  "((Key \<times> EffectivePermission) list \<Rightarrow> (Key \<times> EffectivePermission) list) \<Rightarrow>
     EffectivePermission list \<Rightarrow> EffectivePermission list \<Rightarrow> DeltaEntry list" where
  \<comment> \<open>\<open>visit\<close> is the iteration order of the hash maps.\<close>
  "diff_permission_lists visit old new =
     (let old_map = collect_map old;
          new_map = collect_map new;
          entries = filter_map (new_entry old_map) (visit new_map)
            @ filter_map (removed_entry new_map) (visit old_map)
      in sort_key entry_order entries)"

definition run_target :: "(string \<Rightarrow> string option + string) \<Rightarrow> string \<Rightarrow> CoreError + string" where
  \<comment> \<open>The row query is a parameter: \<open>Inl None\<close> is \<open>QueryReturnedNoRows\<close>, \<open>Inl (Some text)\<close> any
    other database error.\<close>
  "run_target query_row run_id =
     (case query_row run_id of
        Inr target \<Rightarrow> Inr target
      | Inl None \<Rightarrow> Inl (Validation (''unknown scan run id '' @ squote @ run_id @ squote))
      | Inl (Some other') \<Rightarrow> Inl (Database (''reading scan run '' @ squote @ run_id @ squote @ '': '' @ other')))"

definition compare_scans ::
  "((Key \<times> EffectivePermission) list \<Rightarrow> (Key \<times> EffectivePermission) list) \<Rightarrow>
     (string \<Rightarrow> string option + string) \<Rightarrow> (string \<Rightarrow> CoreError + EffectivePermission list) \<Rightarrow>
     string \<Rightarrow> string \<Rightarrow> CoreError + DeltaEntry list" where
  "compare_scans visit query_row load old_run_id new_run_id =
     and_then (run_target query_row old_run_id) (\<lambda>old_target.
     and_then (run_target query_row new_run_id) (\<lambda>new_target.
       if old_target \<noteq> new_target then
         Inl (Validation (''scan runs are not comparable: the old run scanned '' @ squote @ old_target @ squote
       @ '', the new run scanned '' @ squote @ new_target @ squote))
       else
         and_then (load old_run_id) (\<lambda>old_perms.
         and_then (load new_run_id) (\<lambda>new_perms.
           Inr (diff_permission_lists visit old_perms new_perms)))))"

section \<open>Collecting into a map\<close>

definition last_with :: "Key \<Rightarrow> EffectivePermission list \<Rightarrow> EffectivePermission option" where
  \<comment> \<open>What a run says about a key: its last permission with this key.\<close>
  "last_with key ps = find (\<lambda>p. key_of p = key) (rev ps)"

lemma last_with_snoc: "last_with key (ps @ [p]) = (if key_of p = key then Some p else last_with key ps)"
  by (simp add: last_with_def)

lemma last_with_key: "last_with key ps = Some p \<Longrightarrow> key_of p = key"
  by (auto simp: last_with_def find_Some_iff)

lemma last_with_None: "last_with key ps = None \<longleftrightarrow> (\<forall>p \<in> set ps. key_of p \<noteq> key)"
  by (auto simp: last_with_def find_None_iff)

lemma collect_map_props:
  "distinct (map fst (collect_map ps)) \<and> map_of (collect_map ps) key = last_with key ps"
proof (induction ps rule: rev_induct)
  case Nil
  show ?case by (simp add: collect_map_def last_with_def)
next
  case (snoc p ps)
  have step: "collect_map (ps @ [p]) = AList.update (key_of p) p (collect_map ps)"
    by (simp add: collect_map_def)
  show ?case using snoc.IH
    unfolding step by (auto simp: last_with_snoc update_conv' distinct_update)
qed

lemma collect_map_iff: "(key, p) \<in> set (collect_map ps) \<longleftrightarrow> last_with key ps = Some p"
  using collect_map_props [of ps key] by (metis map_of_is_SomeI map_of_SomeD)

section \<open>The entries of a comparison\<close>

definition visits :: "('a list \<Rightarrow> 'a list) \<Rightarrow> bool" where
  \<comment> \<open>An iteration order: every entry exactly once.\<close>
  "visits visit \<longleftrightarrow> (\<forall>xs. mset (visit xs) = mset xs)"

definition delta_of :: "EffectivePermission option \<Rightarrow> EffectivePermission option \<Rightarrow> DeltaEntry option" where
  \<comment> \<open>What the report says of one identity and path.\<close>
  "delta_of old new =
     (case (old, new) of
        (None, None) \<Rightarrow> None
      | (None, Some n) \<Rightarrow> Some \<lparr>de_path = ep_path n, de_kind = Added, de_old_perm = None, de_new_perm = Some n\<rparr>
      | (Some o', None) \<Rightarrow> Some \<lparr>de_path = ep_path o', de_kind = Removed, de_old_perm = Some o', de_new_perm = None\<rparr>
      | (Some o', Some n) \<Rightarrow>
          (if signature_from o' = signature_from n then None
           else Some \<lparr>de_path = ep_path n,
             de_kind = Changed (ep_effective_mask o') (ep_effective_mask n)
               (signature_diff (signature_from o') (signature_from n)),
             de_old_perm = Some o', de_new_perm = Some n\<rparr>))"

lemma signature_diff_Nil: "signature_diff old new = [] \<longleftrightarrow> old = new"
  by (cases old, cases new) (auto simp: signature_diff_def)

lemma set_visit: "visits visit \<Longrightarrow> set (visit xs) = set xs"
  unfolding visits_def by (metis set_mset_mset)

definition unsorted_entries where
  "unsorted_entries visit old new =
     filter_map (new_entry (collect_map old)) (visit (collect_map new))
     @ filter_map (removed_entry (collect_map new)) (visit (collect_map old))"

lemma new_entry_iff:
  assumes "last_with key new = Some n"
  shows "new_entry (collect_map old) (key, n) = delta_of (last_with key old) (Some n)"
proof -
  have "snd key = ep_path n" using last_with_key [OF assms] by (auto simp: key_of_def)
  then show ?thesis
    using collect_map_props [of old key]
    by (auto simp: new_entry_def delta_of_def signature_diff_Nil Let_def split: option.split)
qed

lemma removed_entry_iff:
  assumes "last_with key old = Some o'"
  shows "removed_entry (collect_map new) (key, o') =
    (if last_with key new = None then delta_of (Some o') None else None)"
proof -
  have "snd key = ep_path o'" using last_with_key [OF assms] by (auto simp: key_of_def)
  then show ?thesis
    using collect_map_props [of new key] by (simp add: removed_entry_def delta_of_def)
qed

lemma unsorted_entries_iff:
  assumes "visits visit"
  shows "e \<in> set (unsorted_entries visit old new) \<longleftrightarrow>
    (\<exists>key. delta_of (last_with key old) (last_with key new) = Some e)"
proof
  assume "e \<in> set (unsorted_entries visit old new)"
  then consider key n where "last_with key new = Some n" "new_entry (collect_map old) (key, n) = Some e"
    | key o' where "last_with key old = Some o'" "removed_entry (collect_map new) (key, o') = Some e"
    by (auto simp: unsorted_entries_def set_filter_map set_visit [OF assms] collect_map_iff)
  then show "\<exists>key. delta_of (last_with key old) (last_with key new) = Some e"
  proof cases
    case 1
    then show ?thesis using new_entry_iff [OF 1(1), of old] by metis
  next
    case 2
    then show ?thesis using removed_entry_iff [OF 2(1), of new] by (metis option.distinct(1))
  qed
next
  assume "\<exists>key. delta_of (last_with key old) (last_with key new) = Some e"
  then obtain key where *: "delta_of (last_with key old) (last_with key new) = Some e" ..
  show "e \<in> set (unsorted_entries visit old new)"
  proof (cases "last_with key new")
    case (Some n)
    then have "new_entry (collect_map old) (key, n) = Some e"
      using * new_entry_iff [OF Some, of old] by simp
    then show ?thesis
      using Some by (auto simp: unsorted_entries_def set_filter_map set_visit [OF assms] collect_map_iff)
  next
    case None
    then obtain o' where o': "last_with key old = Some o'"
      using * by (cases "last_with key old") (auto simp: delta_of_def)
    then have "removed_entry (collect_map new) (key, o') = Some e"
      using * None removed_entry_iff [OF o', of new] by simp
    then show ?thesis
      using o' by (auto simp: unsorted_entries_def set_filter_map set_visit [OF assms] collect_map_iff)
  qed
qed


lemma delta_of_order:
  assumes "delta_of (last_with key old) (last_with key new) = Some e"
  shows "entry_order e = (snd key, fst key)"
  using assms last_with_key [of key old] last_with_key [of key new]
  by (auto simp: delta_of_def entry_order_def entry_sid_def key_of_def split: option.splits if_splits)

lemma distinct_filter_map:
  assumes "distinct (map fst xs)" and "\<And>k v e. (k, v) \<in> set xs \<Longrightarrow> f (k, v) = Some e \<Longrightarrow> order e = prod.swap k"
  shows "distinct (map order (filter_map f xs))
    \<and> order ` set (filter_map f xs) \<subseteq> prod.swap ` fst ` set xs"
  using assms
proof (induction xs)
  case (Cons kv xs)
  obtain k v where kv: "kv = (k, v)" by (cases kv)
  have IH: "distinct (map order (filter_map f xs))" "order ` set (filter_map f xs) \<subseteq> prod.swap ` fst ` set xs"
    using Cons.IH Cons.prems by (simp_all add: kv) (metis (no_types, lifting))+
  show ?case
  proof (cases "f kv")
    case None
    then show ?thesis using IH by (auto simp: kv)
  next
    case (Some e)
    have "order e = prod.swap k" using Cons.prems(2) [of k v e] Some by (simp add: kv)
    moreover have "prod.swap k \<notin> prod.swap ` fst ` set xs"
      using Cons.prems(1) by (auto simp: kv inj_image_mem_iff)
    ultimately show ?thesis using IH Some by (auto simp: kv)
  qed
qed simp

lemma keys_collect_map: "fst ` set (collect_map ps) = {key. last_with key ps \<noteq> None}"
  using collect_map_iff by (force simp: image_iff)

lemma distinct_visit: "visits visit \<Longrightarrow> distinct (map fst (visit (collect_map ps)))"
proof -
  assume "visits visit"
  then have "mset (map fst (visit (collect_map ps))) = mset (map fst (collect_map ps))"
    by (simp add: visits_def)
  then show ?thesis using collect_map_props [of ps] mset_eq_imp_distinct_iff by blast
qed

lemma distinct_entries:
  assumes "visits visit"
  shows "distinct (map entry_order (unsorted_entries visit old new))"
proof -
  let ?news = "filter_map (new_entry (collect_map old)) (visit (collect_map new))"
    and ?gone = "filter_map (removed_entry (collect_map new)) (visit (collect_map old))"
  have news: "distinct (map entry_order ?news) \<and>
      entry_order ` set ?news \<subseteq> prod.swap ` fst ` set (visit (collect_map new))"
  proof (rule distinct_filter_map [OF distinct_visit [OF assms]])
    fix k v e
    assume "(k, v) \<in> set (visit (collect_map new))" "new_entry (collect_map old) (k, v) = Some e"
    then have "last_with k new = Some v" "delta_of (last_with k old) (last_with k new) = Some e"
      using new_entry_iff [where key = k and new = new and n = v and old = old] by (simp_all add: set_visit [OF assms] collect_map_iff)
    then show "entry_order e = prod.swap k" using delta_of_order [of k old new e] by (cases k) simp
  qed
  have step: "entry_order e = prod.swap k \<and> last_with k new = None"
    if "(k, v) \<in> set (visit (collect_map old))" "removed_entry (collect_map new) (k, v) = Some e" for k v e
  proof -
    have "last_with k old = Some v" using that by (simp add: set_visit [OF assms] collect_map_iff)
    moreover from this that have "last_with k new = None" "delta_of (last_with k old) (last_with k new) = Some e"
      using removed_entry_iff [where key = k and old = old and o' = v and new = new] by (auto split: if_splits)
    ultimately show ?thesis using delta_of_order [of k old new e] by (cases k) simp
  qed
  have gone: "distinct (map entry_order ?gone)"
    using distinct_filter_map [OF distinct_visit [OF assms, of old], of "removed_entry (collect_map new)" entry_order] step
    by auto
  have "entry_order ` set ?news \<inter> entry_order ` set ?gone = {}"
  proof (rule equals0I)
    fix ord
    assume "ord \<in> entry_order ` set ?news \<inter> entry_order ` set ?gone"
    moreover have "entry_order ` set ?gone \<subseteq> prod.swap ` {key. last_with key new = None}"
      using step by (force simp: set_filter_map)
    moreover have "entry_order ` set ?news \<subseteq> prod.swap ` {key. last_with key new \<noteq> None}"
      using news by (simp add: set_visit [OF assms] keys_collect_map)
    ultimately have "ord \<in> prod.swap ` {key. last_with key new = None}"
        "ord \<in> prod.swap ` {key. last_with key new \<noteq> None}" by blast+
    then show False by (elim imageE) (metis mem_Collect_eq swap_swap)
  qed
  then show ?thesis using news gone by (simp add: unsorted_entries_def)
qed

lemma diff_sorts: "diff_permission_lists visit old new = sort_key entry_order (unsorted_entries visit old new)"
  by (simp add: diff_permission_lists_def unsorted_entries_def Let_def)

lemma diff_is_listing:
  assumes "visits visit"
  shows "sorted (map entry_order (diff_permission_lists visit old new))"
    and "distinct (map entry_order (diff_permission_lists visit old new))"
    and "e \<in> set (diff_permission_lists visit old new) \<longleftrightarrow>
      (\<exists>key. delta_of (last_with key old) (last_with key new) = Some e)"
proof -
  let ?es = "unsorted_entries visit old new"
  show "sorted (map entry_order (diff_permission_lists visit old new))"
    by (simp add: diff_sorts)
  have "mset (map entry_order (sort_key entry_order ?es)) = mset (map entry_order ?es)" by simp
  then show "distinct (map entry_order (diff_permission_lists visit old new))"
    using distinct_entries [OF assms, of old new] by (metis diff_sorts mset_eq_imp_distinct_iff)
  show "e \<in> set (diff_permission_lists visit old new) \<longleftrightarrow>
      (\<exists>key. delta_of (last_with key old) (last_with key new) = Some e)"
    using unsorted_entries_iff [OF assms, of e old new] by (simp add: diff_sorts)
qed

lemma listing_unique:
  assumes "sorted (map entry_order xs)" "distinct (map entry_order xs)"
    and "sorted (map entry_order ys)" "distinct (map entry_order ys)" and "set xs = set ys"
  shows "xs = ys"
  using assms by (intro map_sorted_distinct_set_unique [of entry_order]) (auto simp: distinct_map)

definition reversed_entry :: "DeltaEntry \<Rightarrow> DeltaEntry" where
  \<comment> \<open>The same change, seen from the new run to the old one.\<close>
  "reversed_entry e =
     \<lparr>de_path = de_path e,
      de_kind = (case de_kind e of Added \<Rightarrow> Removed | Removed \<Rightarrow> Added | Changed a b reasons \<Rightarrow> Changed b a reasons),
      de_old_perm = de_new_perm e, de_new_perm = de_old_perm e\<rparr>"

lemma signature_diff_sym: "signature_diff old new = signature_diff new old"
  by (simp add: signature_diff_def eq_commute)

lemma reversed_twice [simp]: "reversed_entry (reversed_entry e) = e"
  by (cases e) (simp add: reversed_entry_def split: DeltaKind.split)

lemma delta_of_reversed:
  assumes "\<And>o' n. old = Some o' \<Longrightarrow> new = Some n \<Longrightarrow> ep_path o' = ep_path n"
  shows "delta_of new old = map_option reversed_entry (delta_of old new)"
  using assms by (auto simp: delta_of_def reversed_entry_def signature_diff_sym split: option.split)

lemma delta_of_runs_reversed:
  "delta_of (last_with key new) (last_with key old) =
     map_option reversed_entry (delta_of (last_with key old) (last_with key new))"
proof (rule delta_of_reversed)
  fix o' n
  assume "last_with key old = Some o'" "last_with key new = Some n"
  then show "ep_path o' = ep_path n" using last_with_key [of key] by (auto simp: key_of_def)
qed

lemma entry_order_reversed: "e \<in> set (diff_permission_lists visit old new) \<Longrightarrow> visits visit \<Longrightarrow>
    entry_order (reversed_entry e) = entry_order e"
proof -
  assume "e \<in> set (diff_permission_lists visit old new)" "visits visit"
  then obtain key where *: "delta_of (last_with key old) (last_with key new) = Some e"
    using diff_is_listing(3) by blast
  then have "delta_of (last_with key new) (last_with key old) = Some (reversed_entry e)"
    using delta_of_runs_reversed [of key new old] by (simp only: * option.map)
  from delta_of_order [OF this] delta_of_order [OF *] show ?thesis by simp
qed

lemma identity_visits [simp]: "visits (\<lambda>xs. xs)" "visits rev"
  by (simp_all add: visits_def)

section \<open>Properties\<close>

text \<open>C35: the delta report is exact. Whatever order the hash maps are visited in, the report
  has exactly one entry for every identity and path whose last permission appears, disappears
  or differs in its signature between the runs, sorted by path and then by identity; it is empty
  exactly when every identity and path has the same signature in both runs.\<close>

theorem delta_report_exact:
  assumes "visits visit"
  shows "(\<forall>e. e \<in> set (diff_permission_lists visit old new) \<longleftrightarrow>
      (\<exists>key. delta_of (last_with key old) (last_with key new) = Some e))
    \<and> sorted (map entry_order (diff_permission_lists visit old new))
    \<and> distinct (map entry_order (diff_permission_lists visit old new))
    \<and> (diff_permission_lists visit old new = [] \<longleftrightarrow>
      (\<forall>key. map_option signature_from (last_with key old) = map_option signature_from (last_with key new)))"
proof (intro conjI allI)
  have none: "delta_of a b = None \<longleftrightarrow> map_option signature_from a = map_option signature_from b" for a b
    by (cases a; cases b) (simp_all add: delta_of_def)
  have "diff_permission_lists visit old new = [] \<longleftrightarrow>
      (\<forall>key. delta_of (last_with key old) (last_with key new) = None)"
    using diff_is_listing(3) [OF assms, of _ old new]
    by (simp only: set_empty [symmetric] set_eq_iff empty_iff) (metis not_None_eq)
  then show "diff_permission_lists visit old new = [] \<longleftrightarrow>
      (\<forall>key. map_option signature_from (last_with key old) = map_option signature_from (last_with key new))"
    by (simp add: none)
qed (rule diff_is_listing [OF assms])+

definition sample_permission :: "string \<Rightarrow> u32 \<Rightarrow> EffectivePermission" where
  "sample_permission path m =
     \<lparr>ep_identity = \<lparr>id_sid = ''S-1-5-21-1-2-3-1104'', id_name = None, id_domain = None, id_kind = User,
        id_disabled = False, id_user_principal_name = None, id_sid_history_count = 0, id_sid_history = []\<rparr>,
      ep_path = path, ep_ntfs_mask = m, ep_share_mask = None, ep_effective_mask = m,
      ep_path_explanation = \<lparr>pp_steps = []\<rparr>, ep_share_status = ShareEvalStatus.NotApplicable,
      ep_local_group_status = LocalGroupEvalStatus.Applied, ep_contributing_sids = [],
      ep_unsupported_ace_count = 0, ep_matched_aces = [], ep_diagnostics = [], ep_trace = empty_trace\<rparr>"

lemma delta_report_exact_witness:
  "diff_permission_lists rev [sample_permission ''C:'' 1, sample_permission ''D:'' 1]
     [sample_permission ''D:'' 1, sample_permission ''C:'' 1] = []"
proof -
  have "last_with key [sample_permission ''C:'' 1, sample_permission ''D:'' 1] =
      last_with key [sample_permission ''D:'' 1, sample_permission ''C:'' 1]" for key
    by (auto simp: last_with_def key_of_def sample_permission_def)
  then show ?thesis
    using delta_report_exact [OF identity_visits(2), of "[sample_permission ''C:'' 1, sample_permission ''D:'' 1]"
      "[sample_permission ''D:'' 1, sample_permission ''C:'' 1]"] by simp
qed

text \<open>The delta report is deterministic and symmetric. It does not depend on the order in
  which the hash maps are visited, although that order differs from run to run of the program;
  and comparing the runs the other way round gives the same entries in the same order, with
  added and removed, the two masks and the two permissions exchanged.\<close>

theorem delta_report_deterministic:
  assumes "visits visit" and "visits visit'"
  shows "diff_permission_lists visit old new = diff_permission_lists visit' old new
    \<and> diff_permission_lists visit new old = map reversed_entry (diff_permission_lists visit' old new)"
proof
  note here = diff_is_listing [OF assms(1)] and there = diff_is_listing [OF assms(2)]
  show "diff_permission_lists visit old new = diff_permission_lists visit' old new"
    using here there by (intro listing_unique) (auto simp del: sort_key_simps)
  let ?mirrored = "map reversed_entry (diff_permission_lists visit' old new)"
  have orders: "map entry_order ?mirrored = map entry_order (diff_permission_lists visit' old new)"
    using entry_order_reversed [OF _ assms(2)] by simp
  have "set (diff_permission_lists visit new old) = set ?mirrored"
  proof (rule set_eqI)
    fix e
    have "e \<in> set ?mirrored \<longleftrightarrow> (\<exists>d. e = reversed_entry d \<and>
        (\<exists>key. delta_of (last_with key old) (last_with key new) = Some d))"
      unfolding set_map image_iff there(3) [symmetric] by auto
    also have "\<dots> \<longleftrightarrow> (\<exists>key. map_option reversed_entry (delta_of (last_with key old) (last_with key new)) = Some e)"
      by auto
    also have "\<dots> \<longleftrightarrow> (\<exists>key. delta_of (last_with key new) (last_with key old) = Some e)"
      using delta_of_runs_reversed [where new = new and old = old] by simp
    finally show "e \<in> set (diff_permission_lists visit new old) \<longleftrightarrow> e \<in> set ?mirrored"
      using here(3) by simp
  qed
  then show "diff_permission_lists visit new old = ?mirrored"
    using here(1,2) [of new old] there(1,2) [of old new] unfolding orders [symmetric] by (intro listing_unique)
qed

lemma delta_report_deterministic_witness:
  "diff_permission_lists rev [] [sample_permission ''C:'' 1] =
     map reversed_entry (diff_permission_lists (\<lambda>xs. xs) [sample_permission ''C:'' 1] [])"
  using delta_report_deterministic [OF identity_visits(2) identity_visits(1)] by (rule conjunct2)

text \<open>Runs of different targets are never compared. A comparison succeeds exactly when both
  runs exist, have the same target, and both their permissions could be read; then it is the
  report over these permissions.\<close>

theorem comparison_guarded:
  "compare_scans visit query_row load old_id new_id = Inr entries \<longleftrightarrow>
     (\<exists>target old new. query_row old_id = Inr target \<and> query_row new_id = Inr target
       \<and> load old_id = Inr old \<and> load new_id = Inr new
       \<and> entries = diff_permission_lists visit old new)"
proof -
  have "run_target query_row i = Inr t \<longleftrightarrow> query_row i = Inr t" for i t
    by (simp add: run_target_def split: sum.split option.split)
  then show ?thesis by (auto simp: compare_scans_def and_then_Inr)
qed

end
