(* ===== verification/Version.thy ===== *)
theory Version
  imports Texts
begin

text \<open>
  Application versions and their precedence (\<open>crates/update_manager/src/version.rs\<close>): parsing a
  version text, and the comparison of two versions, which is shown to be the linear order of a
  normal form.
\<close>

section \<open>Orderings\<close>

datatype Ordering = Less | Equal | Greater

definition compare :: "'a::linorder \<Rightarrow> 'a \<Rightarrow> Ordering" where
  \<comment> \<open>\<open>Ord::cmp\<close> of a linearly ordered type.\<close>
  "compare a b = (if a < b then Less else if a = b then Equal else Greater)"

lemma compare_iff [simp]:
  "compare a b = Less \<longleftrightarrow> a < b" "compare a b = Equal \<longleftrightarrow> a = b" "compare a b = Greater \<longleftrightarrow> b < a"
  by (auto simp: compare_def)

text \<open>A comparison that is the linear order of a key is a total preorder.\<close>

locale keyed_order =
  fixes cmp :: "'a \<Rightarrow> 'a \<Rightarrow> Ordering" and key :: "'a \<Rightarrow> 'k::linorder"
  assumes cmp_key: "cmp a b = compare (key a) (key b)"
begin

lemma cmp_refl: "cmp a a = Equal"
  by (simp add: cmp_key)

lemma cmp_swap: "cmp a b = Less \<longleftrightarrow> cmp b a = Greater" "cmp a b = Equal \<longleftrightarrow> cmp b a = Equal"
  by (auto simp: cmp_key)

lemma cmp_trans: "cmp a b \<noteq> Greater \<Longrightarrow> cmp b c \<noteq> Greater \<Longrightarrow> cmp a c \<noteq> Greater"
  by (simp add: cmp_key)

lemma cmp_less_trans: "cmp a b = Less \<Longrightarrow> cmp b c \<noteq> Greater \<Longrightarrow> cmp a c = Less"
  by (simp add: cmp_key)

end

section \<open>Pre-release identifiers\<close>

datatype PreReleaseId = Num nat | Alpha string
  \<comment> \<open>The number of \<open>Num\<close> is a \<open>u64\<close>: it comes from the parser, which bounds it.\<close>

definition compare_id :: "PreReleaseId \<Rightarrow> PreReleaseId \<Rightarrow> Ordering" where
  \<comment> \<open>The \<open>match\<close> in \<open>compare_prerelease\<close>.\<close>
  "compare_id ai bi =
     (case (ai, bi) of
        (Num x, Num y) \<Rightarrow> compare x y
      | (Num _, Alpha _) \<Rightarrow> Less
      | (Alpha _, Num _) \<Rightarrow> Greater
      | (Alpha x, Alpha y) \<Rightarrow> compare x y)"

fun compare_ids :: "(PreReleaseId \<times> PreReleaseId) list \<Rightarrow> Ordering" where
  \<comment> \<open>The loop over the zipped lists; \<open>Equal\<close> when it falls through.\<close>
  "compare_ids [] = Equal"
| "compare_ids ((ai, bi) # rest) =
     (let ord = compare_id ai bi in if ord \<noteq> Equal then ord else compare_ids rest)"

definition compare_prerelease :: "PreReleaseId list \<Rightarrow> PreReleaseId list \<Rightarrow> Ordering" where
  "compare_prerelease a b =
     (let ord = compare_ids (zip a b) in if ord \<noteq> Equal then ord else compare (length a) (length b))"

text \<open>The comparison of identifiers is a linear order: numbers before texts.\<close>

instantiation PreReleaseId :: linorder
begin

definition less_eq_PreReleaseId :: "PreReleaseId \<Rightarrow> PreReleaseId \<Rightarrow> bool" where
  "less_eq_PreReleaseId a b \<longleftrightarrow> compare_id a b \<noteq> Greater"

definition less_PreReleaseId :: "PreReleaseId \<Rightarrow> PreReleaseId \<Rightarrow> bool" where
  "less_PreReleaseId a b \<longleftrightarrow> compare_id a b = Less"

instance
proof
  fix x y z :: PreReleaseId
  show "x < y \<longleftrightarrow> x \<le> y \<and> \<not> y \<le> x"
    by (auto simp: less_PreReleaseId_def less_eq_PreReleaseId_def compare_id_def split: PreReleaseId.split)
  show "x \<le> x"
    by (simp add: less_eq_PreReleaseId_def compare_id_def split: PreReleaseId.split)
  show "x \<le> y \<Longrightarrow> y \<le> z \<Longrightarrow> x \<le> z"
    by (auto simp: less_eq_PreReleaseId_def compare_id_def split: PreReleaseId.splits)
  show "x \<le> y \<Longrightarrow> y \<le> x \<Longrightarrow> x = y"
    by (auto simp: less_eq_PreReleaseId_def compare_id_def split: PreReleaseId.splits)
  show "x \<le> y \<or> y \<le> x"
    by (auto simp: less_eq_PreReleaseId_def compare_id_def split: PreReleaseId.split)
qed

end

lemma compare_id_order: "compare_id a b = compare a b"
  by (cases a; cases b)
    (auto simp: compare_def [of "Num _"] compare_def [of "Alpha _"] less_PreReleaseId_def compare_id_def)

section \<open>Versions\<close>

record AppVersion =
  av_core :: "nat list"
  av_pre :: "PreReleaseId list option"

definition invalid_version :: "string \<Rightarrow> CoreError + 'a" where
  "invalid_version msg = Inl (Validation msg)"

fun digits_error :: "nat \<Rightarrow> nat \<Rightarrow> string \<Rightarrow> string" where
  \<comment> \<open>\<open>Display for ParseIntError\<close>, for a text without a sign that does not parse: the first digit that does not fit.\<close>
  "digits_error bound acc [] = []"
| "digits_error bound acc (c # cs) =
     (case digit_val c of
        None \<Rightarrow> ''invalid digit found in string''
      | Some d \<Rightarrow>
          (if bound \<le> acc * 10 + d then ''number too large to fit in target type''
           else digits_error bound (acc * 10 + d) cs))"

definition parse_error :: "nat \<Rightarrow> string \<Rightarrow> string" where
  "parse_error bound s =
     (if s = [] then ''cannot parse integer from empty string''
      else if s = ''+'' then ''invalid digit found in string''
      else digits_error bound 0 (case s of c # cs \<Rightarrow> if c = CHR ''+'' then cs else s | [] \<Rightarrow> s))"

definition identifier_char :: "char \<Rightarrow> bool" where
  "identifier_char c \<longleftrightarrow> ascii_alphanumeric c \<or> c = CHR ''-''"

fun validate_identifiers :: "string list \<Rightarrow> string \<Rightarrow> string \<Rightarrow> CoreError + unit" where
  "validate_identifiers [] what input = Inr ()"
| "validate_identifiers (id' # ids) what input =
     (if id' = [] then invalid_version (what @ '' in '' @ squote @ input @ squote @ '' contains an empty identifier'')
      else if \<not> list_all identifier_char id' then
        invalid_version (what @ '' identifier '' @ squote @ id' @ squote @ '' in '' @ squote @ input @ squote
       @ '' contains characters outside [0-9A-Za-z-]'')
      else validate_identifiers ids what input)"

definition validate_identifier_list :: "string \<Rightarrow> string \<Rightarrow> string \<Rightarrow> CoreError + unit" where
  "validate_identifier_list ls what input = validate_identifiers (split_on (CHR ''.'') ls) what input"

fun parse_core :: "string list \<Rightarrow> string \<Rightarrow> CoreError + nat list" where
  "parse_core [] input = Inr []"
| "parse_core (seg # segs) input =
     (case parse_uint (2 ^ 64) seg of
        None \<Rightarrow> invalid_version (''version segment '' @ squote @ seg @ squote @ '' in '' @ squote @ input @ squote
       @ '' is not numeric: '' @ parse_error (2 ^ 64) seg)
      | Some n \<Rightarrow> and_then (parse_core segs input) (\<lambda>ns. Inr (n # ns)))"

definition prerelease_id :: "string \<Rightarrow> PreReleaseId" where
  "prerelease_id id' = (case parse_uint (2 ^ 64) id' of Some n \<Rightarrow> Num n | None \<Rightarrow> Alpha id')"

definition version_parse :: "string \<Rightarrow> CoreError + AppVersion" where
  \<comment> \<open>\<open>AppVersion::parse\<close>.\<close>
  "version_parse input =
     (let s = trim input
      in if s = [] then invalid_version (''version must not be empty'')
         else
           (let (rest, build) = (case split_once (CHR ''+'') s of Some (r, b) \<Rightarrow> (r, Some b) | None \<Rightarrow> (s, None))
            in and_then (case build of Some b \<Rightarrow> validate_identifier_list b ''build metadata'' input | None \<Rightarrow> Inr ())
              (\<lambda>_. let (core_str, pre_str) =
                     (case split_once (CHR ''-'') rest of Some (c, p) \<Rightarrow> (c, Some p) | None \<Rightarrow> (rest, None))
                   in and_then (parse_core (split_on (CHR ''.'') core_str) input) (\<lambda>core.
                      and_then (case pre_str of
                          None \<Rightarrow> Inr None
                        | Some p \<Rightarrow> and_then (validate_identifier_list p ''pre-release'' input)
                            (\<lambda>_. Inr (Some (map prerelease_id (split_on (CHR ''.'') p))))) (\<lambda>pre.
                      Inr \<lparr>av_core = core, av_pre = pre\<rparr>)))))"

definition is_prerelease :: "AppVersion \<Rightarrow> bool" where
  "is_prerelease v = is_some (av_pre v)"

definition core_segment :: "nat list \<Rightarrow> nat \<Rightarrow> nat" where
  \<comment> \<open>\<open>core.get(i).copied().unwrap_or(0)\<close>.\<close>
  "core_segment core i = (if i < length core then core ! i else 0)"

fun compare_core :: "nat list \<Rightarrow> nat list \<Rightarrow> nat list \<Rightarrow> Ordering" where
  \<comment> \<open>The loop over the indices.\<close>
  "compare_core a b [] = Equal"
| "compare_core a b (i # is) =
     (case compare (core_segment a i) (core_segment b i) of Equal \<Rightarrow> compare_core a b is | other' \<Rightarrow> other')"

definition version_cmp :: "AppVersion \<Rightarrow> AppVersion \<Rightarrow> Ordering" where
  \<comment> \<open>\<open>Ord::cmp\<close> for \<open>AppVersion\<close>.\<close>
  "version_cmp v w =
     (let len = max (length (av_core v)) (length (av_core w))
      in case compare_core (av_core v) (av_core w) [0..<len] of
           Equal \<Rightarrow>
             (case (av_pre v, av_pre w) of
                (None, None) \<Rightarrow> Equal
              | (None, Some _) \<Rightarrow> Greater
              | (Some _, None) \<Rightarrow> Less
              | (Some a, Some b) \<Rightarrow> compare_prerelease a b)
         | other' \<Rightarrow> other')"

section \<open>The comparison is a linear order of a normal form\<close>

fun significant :: "nat list \<Rightarrow> nat list" where
  \<comment> \<open>The core without its trailing zeros.\<close>
  "significant [] = []"
| "significant (x # xs) = (if x = 0 \<and> significant xs = [] then [] else x # significant xs)"

definition version_key :: "AppVersion \<Rightarrow> nat list \<times> bool \<times> PreReleaseId list" where
  \<comment> \<open>What a version is compared by: its core, whether it is final, and its identifiers.\<close>
  "version_key v = (significant (av_core v), av_pre v = None,
     case av_pre v of None \<Rightarrow> [] | Some ids \<Rightarrow> ids)"

lemma compare_Cons:
  "compare (x # xs) (y # ys) = (case compare x y of Equal \<Rightarrow> compare xs ys | o' \<Rightarrow> o')"
  "compare [] (y # ys) = Less" "compare (x # xs) [] = Greater" "compare [] ([] :: 'a::linorder list) = Equal"
  by (auto simp: compare_def)

lemma compare_pair: "compare (a, b) (c, d) = (case compare a c of Equal \<Rightarrow> compare b d | o' \<Rightarrow> o')"
  by (auto simp: compare_def)

lemma compare_ids_order: "compare_prerelease a b = compare a b"
proof (induction a b rule: list_induct2')
  case (4 x xs y ys)
  then show ?case
    by (auto simp: compare_prerelease_def compare_id_order compare_Cons Let_def split: Ordering.splits)
      (auto simp: compare_def split: if_splits)
qed (simp_all add: compare_prerelease_def compare_Cons)

lemma segment_tl: "core_segment (tl core) i = core_segment core (Suc i)"
  by (cases core) (simp_all add: core_segment_def)

lemma compare_core_tl: "compare_core a b (map Suc is) = compare_core (tl a) (tl b) is"
  by (induction "is") (simp_all add: segment_tl split: Ordering.split)

lemma compare_significant:
  "compare (significant a) (significant b) =
     (case compare (core_segment a 0) (core_segment b 0) of
        Equal \<Rightarrow> compare (significant (tl a)) (significant (tl b)) | o' \<Rightarrow> o')"
  by (cases a; cases b; cases "significant (tl a)"; cases "significant (tl b)")
    (auto simp: core_segment_def compare_Cons compare_def)

lemma compare_core_order:
  "length a \<le> n \<Longrightarrow> length b \<le> n \<Longrightarrow> compare_core a b [0..<n] = compare (significant a) (significant b)"
proof (induction n arbitrary: a b)
  case 0
  then show ?case by (simp add: compare_def)
next
  case (Suc n)
  then have IH: "compare_core (tl a) (tl b) [0..<n] = compare (significant (tl a)) (significant (tl b))"
    by simp
  have "[0..<Suc n] = 0 # map Suc [0..<n]"
    by (simp add: map_Suc_upt upt_conv_Cons)
  then show ?case
    unfolding compare_significant [of a b] by (simp only: compare_core.simps compare_core_tl IH)
qed

lemma version_cmp_key: "version_cmp v w = compare (version_key v) (version_key w)"
proof -
  have core: "compare_core (av_core v) (av_core w) [0..<max (length (av_core v)) (length (av_core w))] =
      compare (significant (av_core v)) (significant (av_core w))"
    by (rule compare_core_order) simp_all
  have pre: "(case (av_pre v, av_pre w) of (None, None) \<Rightarrow> Equal | (None, Some _) \<Rightarrow> Greater | (Some _, None) \<Rightarrow> Less
      | (Some a, Some b) \<Rightarrow> compare_prerelease a b) =
      compare (snd (version_key v)) (snd (version_key w))"
    by (auto simp: version_key_def compare_pair compare_ids_order split: option.split)
      (simp_all add: compare_def)
  have "compare (version_key v) (version_key w) =
      compare (significant (av_core v), snd (version_key v)) (significant (av_core w), snd (version_key w))"
    by (simp add: version_key_def)
  also have "\<dots> = version_cmp v w"
    unfolding version_cmp_def Let_def core pre by (rule compare_pair)
  finally show ?thesis ..
qed

interpretation prerelease_order: keyed_order compare_prerelease "\<lambda>ids. ids"
  by unfold_locales (rule compare_ids_order)

interpretation version_order: keyed_order version_cmp version_key
  by unfold_locales (rule version_cmp_key)

section \<open>Version texts\<close>

fun id_text :: "PreReleaseId \<Rightarrow> string" where
  "id_text (Num n) = dec n"
| "id_text (Alpha s) = s"

definition version_text :: "AppVersion \<Rightarrow> string" where
  \<comment> \<open>The text of a version in the documented form.\<close>
  "version_text v = join ''.'' (map dec (av_core v))
     @ (case av_pre v of None \<Rightarrow> [] | Some ids \<Rightarrow> ''-'' @ join ''.'' (map id_text ids))"

fun good_id :: "PreReleaseId \<Rightarrow> bool" where
  "good_id (Num n) \<longleftrightarrow> n < 2 ^ 64"
| "good_id (Alpha s) \<longleftrightarrow> s \<noteq> [] \<and> list_all identifier_char s \<and> parse_uint (2 ^ 64) s = None"

definition good_version :: "AppVersion \<Rightarrow> bool" where
  \<comment> \<open>What the parser produces: a nonempty core of 64-bit numbers, and identifiers without a text that is a number.\<close>
  "good_version v \<longleftrightarrow> av_core v \<noteq> [] \<and> (\<forall>n \<in> set (av_core v). n < 2 ^ 64)
     \<and> (\<forall>ids. av_pre v = Some ids \<longrightarrow> ids \<noteq> [] \<and> list_all good_id ids)"

lemma identifier_chars:
  "identifier_char c \<Longrightarrow> c \<noteq> CHR ''.'' \<and> c \<noteq> CHR ''+'' \<and> c \<notin> blank_bytes"
  by (auto simp: identifier_char_def ascii_alphanumeric_def ascii_alphabetic_def ascii_upper_def
      ascii_lower_def ascii_digit_def code_def dest!: blank_bytes_code)

lemma digit_identifier: "ascii_digit c \<Longrightarrow> identifier_char c \<and> c \<noteq> CHR ''-''"
  by (auto simp: identifier_char_def ascii_alphanumeric_def ascii_digit_def code_def)

lemma id_text_chars: "good_id i \<Longrightarrow> id_text i \<noteq> [] \<and> list_all identifier_char (id_text i)"
  by (cases i) (auto simp: list_all_iff dest!: dec_ascii_digits digit_identifier)

lemma prerelease_id_text: "good_id i \<Longrightarrow> prerelease_id (id_text i) = i"
  by (cases i) (simp_all add: prerelease_id_def parse_dec)

lemma validate_identifiers_iff:
  "validate_identifiers ids what input = Inr u \<longleftrightarrow> (\<forall>i \<in> set ids. i \<noteq> [] \<and> list_all identifier_char i)"
  by (induction ids) (simp_all add: invalid_version_def)

lemma parse_core_text: "\<forall>n \<in> set ns. n < 2 ^ 64 \<Longrightarrow> parse_core (map dec ns) input = Inr ns"
  by (induction ns) (simp_all add: parse_dec)

lemma parse_core_bound: "parse_core segs input = Inr ns \<Longrightarrow> length ns = length segs \<and> (\<forall>n \<in> set ns. n < 2 ^ 64)"
  by (induction segs arbitrary: ns)
    (auto simp: invalid_version_def and_then_Inr dest: parse_uint_bound [of 18446744073709551616, simplified] split: option.splits)

lemma prerelease_id_good: "i \<noteq> [] \<Longrightarrow> list_all identifier_char i \<Longrightarrow> good_id (prerelease_id i)"
  by (auto simp: prerelease_id_def dest: parse_uint_bound [of 18446744073709551616, simplified] split: option.split)

lemma version_text_chars: "good_version v \<Longrightarrow> c \<in> set (version_text v) \<Longrightarrow> identifier_char c \<or> c = CHR ''.''"
proof -
  assume v: "good_version v" and c: "c \<in> set (version_text v)"
  have ids: "\<forall>c \<in> set (join ''.'' (map id_text ids)). identifier_char c \<or> c = CHR ''.''" if "av_pre v = Some ids" for ids
    using v that set_join [of "''.''" "map id_text ids"] id_text_chars
    by (fastforce simp: good_version_def list_all_iff)
  have "\<forall>c \<in> set (join ''.'' (map dec (av_core v))). identifier_char c \<or> c = CHR ''.''"
    using set_join [of "''.''" "map dec (av_core v)"] by (fastforce dest: dec_ascii_digits digit_identifier)
  moreover have "identifier_char (CHR ''-'')" by (simp add: identifier_char_def)
  ultimately show ?thesis using c ids by (cases "av_pre v") (auto simp: version_text_def)
qed

lemma core_text_no_dash: "CHR ''-'' \<notin> set (join ''.'' (map dec ns))"
  using set_join [of "''.''" "map dec ns"] by (fastforce dest: dec_ascii_digits digit_identifier)

lemma split_core_text: "ns \<noteq> [] \<Longrightarrow> split_on (CHR ''.'') (join ''.'' (map dec ns)) = map dec ns"
  by (rule split_on_join) (auto dest!: dec_ascii_digits digit_identifier identifier_chars)

lemma split_id_text: "ids \<noteq> [] \<Longrightarrow> list_all good_id ids \<Longrightarrow>
    split_on (CHR ''.'') (join ''.'' (map id_text ids)) = map id_text ids"
proof (rule split_on_join)
  assume "list_all good_id ids"
  then have "\<forall>i \<in> set ids. \<forall>c \<in> set (id_text i). identifier_char c"
    using id_text_chars unfolding list_all_iff by blast
  then show "\<forall>w \<in> set (map id_text ids). CHR ''.'' \<notin> set w" using identifier_chars by auto
qed simp

lemma parse_text:
  assumes "good_version v"
  shows "version_parse (version_text v) = Inr v"
proof -
  let ?s = "version_text v" and ?core = "join ''.'' (map dec (av_core v))"
  have "CHR ''.'' \<notin> blank_bytes" by (auto dest!: blank_bytes_code simp: code_def)
  then have "set ?s \<inter> blank_bytes = {}" using version_text_chars [OF assms] identifier_chars by blast
  moreover have "CHR ''+'' \<notin> set ?s" using version_text_chars [OF assms] identifier_chars by force
  ultimately have "set ?s \<inter> blank_bytes = {}" "CHR ''+'' \<notin> set ?s" .
  then have clean: "trim ?s = ?s" "split_once (CHR ''+'') ?s = None"
    by (simp_all add: trim_plain split_once_None)
  have core: "av_core v \<noteq> []" "\<forall>n \<in> set (av_core v). n < 2 ^ 64"
    using assms by (simp_all add: good_version_def)
  then have "?core \<noteq> []" by (cases "av_core v") (auto simp: join_eq_Nil)
  then have nonempty: "?s \<noteq> []" by (simp add: version_text_def)
  show ?thesis
  proof (cases "av_pre v")
    case None
    then have s: "?s = ?core" by (simp add: version_text_def)
    have dash: "split_once (CHR ''-'') ?s = None" by (simp add: s split_once_None core_text_no_dash)
    have "parse_core (split_on (CHR ''.'') ?s) ?s = Inr (av_core v)"
      using core by (simp add: s split_core_text parse_core_text)
    then show ?thesis
      using None by (simp add: version_parse_def clean nonempty dash Let_def)
  next
    case (Some ids)
    then have ids: "ids \<noteq> []" "list_all good_id ids" using assms by (simp_all add: good_version_def)
    have s: "?s = ?core @ CHR ''-'' # join ''.'' (map id_text ids)" using Some by (simp add: version_text_def)
    have dash: "split_once (CHR ''-'') ?s = Some (?core, join ''.'' (map id_text ids))"
      unfolding s by (rule split_once_sep [OF core_text_no_dash])
    have "validate_identifier_list (join ''.'' (map id_text ids)) ''pre-release'' ?s = Inr ()"
      using ids id_text_chars
      by (auto simp: validate_identifier_list_def split_id_text validate_identifiers_iff list_all_iff)
    moreover have "map prerelease_id (map id_text ids) = ids"
      using ids(2) by (induction ids) (simp_all add: prerelease_id_text)
    moreover have "parse_core (split_on (CHR ''.'') ?core) ?s = Inr (av_core v)"
      using core by (simp add: split_core_text parse_core_text)
    ultimately show ?thesis
      using ids Some by (simp add: version_parse_def clean nonempty dash Let_def split_id_text)
  qed
qed

lemma prerelease_ids_good:
  "validate_identifiers ids what input = Inr u \<Longrightarrow> list_all good_id (map prerelease_id ids)"
  using prerelease_id_good by (auto simp: validate_identifiers_iff list_all_iff)

lemma parsed_good: "version_parse input = Inr v \<Longrightarrow> good_version v"
  by (auto simp: version_parse_def Let_def invalid_version_def and_then_Inr good_version_def
      validate_identifier_list_def dest!: parse_core_bound prerelease_ids_good split: if_splits prod.splits option.splits)

section \<open>Properties\<close>

text \<open>Versions are compared by a total preorder. The comparison is the linear order of a
  normal form (the core without trailing zeros, then pre-releases before final releases, then
  the identifiers, numbers before texts); so it is reflexive, swapping the arguments swaps the
  result, and it is transitive; and a pre-release is older than the final release of its core.\<close>

theorem version_comparison_is_an_order:
  "version_cmp v w = compare (version_key v) (version_key w)
   \<and> version_cmp v v = Equal
   \<and> (version_cmp v w = Less \<longleftrightarrow> version_cmp w v = Greater)
   \<and> \<not> (version_cmp v w \<noteq> Greater \<and> version_cmp w u \<noteq> Greater \<and> version_cmp v u = Greater)
   \<and> version_cmp \<lparr>av_core = core, av_pre = Some ids\<rparr> \<lparr>av_core = core, av_pre = None\<rparr> = Less"
proof (intro conjI)
  show "version_cmp v w = compare (version_key v) (version_key w)" by (rule version_cmp_key)
  show "version_cmp v v = Equal" by (rule version_order.cmp_refl)
  show "version_cmp v w = Less \<longleftrightarrow> version_cmp w v = Greater" by (rule version_order.cmp_swap)
  show "\<not> (version_cmp v w \<noteq> Greater \<and> version_cmp w u \<noteq> Greater \<and> version_cmp v u = Greater)"
    using version_order.cmp_trans [of v w u] by blast
  show "version_cmp \<lparr>av_core = core, av_pre = Some ids\<rparr> \<lparr>av_core = core, av_pre = None\<rparr> = Less"
    by (simp add: version_cmp_key version_key_def)
qed


text \<open>Parsing and writing versions are inverse. Every version the parser accepts has a
  nonempty core of 64-bit numbers and well-formed identifiers, and every such version is what
  the parser makes of its text.\<close>

theorem version_round_trip:
  "(version_parse input = Inr v \<longrightarrow> good_version v)
   \<and> (good_version w \<longrightarrow> version_parse (version_text w) = Inr w)"
  using parsed_good parse_text by blast

lemma version_round_trip_witness:
  "version_parse ''1.2'' = Inr \<lparr>av_core = [1, 2], av_pre = None\<rparr>"
proof -
  have "version_text \<lparr>av_core = [1, 2], av_pre = None\<rparr> = ''1.2''" by code_simp
  then show ?thesis
    using version_round_trip [of "[]" undefined "\<lparr>av_core = [1, 2], av_pre = None\<rparr>"]
    by (simp add: good_version_def del: One_nat_def)
qed

text \<open>Versions that compare as equal need not be equal. The derived equality of the code
  distinguishes \<open>1.2\<close> from \<open>1.2.0\<close>, which its comparison and its documentation call equal.\<close>

theorem equal_order_unequal_versions:
  "\<exists>v w. version_parse ''1.2'' = Inr v \<and> version_parse ''1.2.0'' = Inr w
    \<and> version_cmp v w = Equal \<and> v \<noteq> w"
proof (intro exI conjI)
  have texts: "version_text \<lparr>av_core = [1, 2], av_pre = None\<rparr> = ''1.2''"
      "version_text \<lparr>av_core = [1, 2, 0], av_pre = None\<rparr> = ''1.2.0''" by code_simp+
  show "version_parse ''1.2'' = Inr \<lparr>av_core = [1, 2], av_pre = None\<rparr>"
    using parse_text [of "\<lparr>av_core = [1, 2], av_pre = None\<rparr>"] by (simp add: texts good_version_def del: One_nat_def)
  show "version_parse ''1.2.0'' = Inr \<lparr>av_core = [1, 2, 0], av_pre = None\<rparr>"
    using parse_text [of "\<lparr>av_core = [1, 2, 0], av_pre = None\<rparr>"] by (simp add: texts good_version_def del: One_nat_def)
  show "version_cmp \<lparr>av_core = [1, 2], av_pre = None\<rparr> \<lparr>av_core = [1, 2, 0], av_pre = None\<rparr> = Equal"
    by (simp add: version_cmp_key version_key_def)
qed simp

end
