(* ===== verification/Update.thy ===== *)
theory Update
  imports Version Path_Inputs
begin

text \<open>
  The update manager (\<open>crates/update_manager\<close>): the manifest of an update and its validation, its
  verification (schema, signature, file contents), the policy that decides whether it applies,
  the check for a newer release, and the placeholder of the install flow.

  Parameters: the JSON reader and writer (\<open>serde_json\<close>), the signature verifier (the trait
  \<open>SignatureVerifier\<close>), SHA-256, the timestamp parser (\<open>chrono\<close>, a time is a number of
  nanoseconds), and the reply to the HTTPS request.
\<close>

section \<open>Manifests\<close>

datatype UpdateChannel = Stable | Preview | Internal | Offline

datatype TargetPlatform = WindowsX86_64 | WindowsAarch64

record ManifestFile =
  mf_path :: string
  mf_sha256 :: string
  mf_size_bytes :: u64

record UpdateManifest =
  um_manifest_version :: u32
  um_app_version :: string
  um_channel :: UpdateChannel
  um_platform :: TargetPlatform
  um_issued_at :: string
  um_files :: "ManifestFile list"
  um_signature :: string

definition MANIFEST_FORBIDDEN_PATH_CHARS :: "char list" where
  "MANIFEST_FORBIDDEN_PATH_CHARS = [CHR ''<'', CHR ''>'', CHR 0x22, CHR ''|'', CHR ''?'', CHR ''*'']"

definition MANIFEST_RESERVED_DEVICE_NAMES :: "string list" where
  "MANIFEST_RESERVED_DEVICE_NAMES =
     [''CON'', ''PRN'', ''AUX'', ''NUL'', ''COM0'', ''COM1'', ''COM2'', ''COM3'', ''COM4'', ''COM5'', ''COM6'',
      ''COM7'', ''COM8'', ''COM9'', ''LPT0'', ''LPT1'', ''LPT2'', ''LPT3'', ''LPT4'', ''LPT5'', ''LPT6'', ''LPT7'',
      ''LPT8'', ''LPT9'']"

definition check_manifest_segment :: "string \<Rightarrow> string \<Rightarrow> CoreError + unit" where
  "check_manifest_segment segment full_path =
     (if segment = [] then invalid (''file path '' @ squote @ full_path @ squote
       @ '' contains an empty segment (consecutive separators)'')
      else if segment = ''.'' \<or> segment = ''..'' then
        invalid (''file path '' @ squote @ full_path @ squote @ '' contains a '' @ squote @ segment @ squote
       @ '' segment '' @ em_dash @ '' traversal not allowed'')
      else case first_control segment of
          Some c \<Rightarrow> invalid (''file path '' @ squote @ full_path @ squote @ '' segment '' @ squote @ segment @ squote
       @ '' contains a control character (U+'' @ hex4 c @ '')'')
        | None \<Rightarrow>
      (case first_char_with (\<lambda>c. c \<in> set MANIFEST_FORBIDDEN_PATH_CHARS) segment of
          Some bad \<Rightarrow> invalid (''file path '' @ squote @ full_path @ squote @ '' segment '' @ squote @ segment @ squote
       @ '' contains a forbidden character '' @ squote @ bad @ squote)
        | None \<Rightarrow>
      (if CHR '':'' \<in> set segment then
         invalid (''file path '' @ squote @ full_path @ squote @ '' segment '' @ squote @ segment @ squote
       @ '' must not contain '' @ squote @ '':'' @ squote)
       else (let stem = hd (split_on (CHR ''.'') segment)
             in if list_ex (\<lambda>r. eq_ignore_ascii_case r stem) MANIFEST_RESERVED_DEVICE_NAMES then
                  invalid (''file path '' @ squote @ full_path @ squote @ '' segment '' @ squote @ segment @ squote
       @ '' uses reserved Windows device name '' @ squote @ stem @ squote)
                else Inr ()))))"

fun split_at :: "(char \<Rightarrow> bool) \<Rightarrow> string \<Rightarrow> string list" where
  \<comment> \<open>\<open>str::split\<close> at a set of ASCII characters.\<close>
  "split_at p [] = [[]]"
| "split_at p (x # xs) =
     (if p x then [] # split_at p xs
      else (case split_at p xs of [] \<Rightarrow> [[x]] | w # ws \<Rightarrow> (x # w) # ws))"

definition separator :: "char \<Rightarrow> bool" where
  "separator c \<longleftrightarrow> c = CHR 0x5C \<or> c = CHR ''/''"

fun check_manifest_segments :: "string list \<Rightarrow> string \<Rightarrow> CoreError + unit" where
  "check_manifest_segments [] full_path = Inr ()"
| "check_manifest_segments (segment # segments) full_path =
     and_then (check_manifest_segment segment full_path) (\<lambda>_. check_manifest_segments segments full_path)"

definition validate_manifest_relative_path :: "string \<Rightarrow> CoreError + unit" where
  "validate_manifest_relative_path path =
     (if path = [] then invalid (''file.path must not be empty'')
      else if contains_null path then invalid (''file path '' @ squote @ path @ squote @ '' must not contain null bytes'')
      else if starts_with path long_prefix \<or> starts_with path ''//?/'' then
        invalid (''file path '' @ squote @ path @ squote
       @ '' must be relative (Windows long-path prefix not allowed)'')
      else if starts_with path unc_prefix \<or> starts_with path ''//'' then
        invalid (''file path '' @ squote @ path @ squote @ '' must be relative (UNC prefix not allowed)'')
      else if starts_with path bslash \<or> starts_with path ''/'' then
        invalid (''file path '' @ squote @ path @ squote
       @ '' must be relative (leading separator not allowed)'')
      else check_manifest_segments (split_at separator path) path)"

definition ascii_hexdigit :: "char \<Rightarrow> bool" where
  "ascii_hexdigit c \<longleftrightarrow> ascii_digit c \<or> (97 \<le> code (lower c) \<and> code (lower c) \<le> 102)"

definition validate_file :: "ManifestFile \<Rightarrow> CoreError + unit" where
  \<comment> \<open>The body of the loop over the files.\<close>
  "validate_file f =
     and_then (validate_manifest_relative_path (mf_path f)) (\<lambda>_.
       if length (mf_sha256 f) \<noteq> 64 \<or> \<not> list_all ascii_hexdigit (mf_sha256 f) then
         invalid (''file '' @ squote @ mf_path f @ squote @ '' has invalid sha256 (must be 64 hex chars)'')
       else if mf_size_bytes f = 0 then invalid (''file '' @ squote @ mf_path f @ squote @ '' size_bytes must be > 0'')
       else Inr ())"

fun validate_files :: "ManifestFile list \<Rightarrow> CoreError + unit" where
  "validate_files [] = Inr ()"
| "validate_files (f # fs) = and_then (validate_file f) (\<lambda>_. validate_files fs)"

definition validate_schema :: "UpdateManifest \<Rightarrow> CoreError + unit" where
  "validate_schema m =
     (if um_manifest_version m = 0 then invalid (''manifest_version must be >= 1'')
      else if trim (um_app_version m) = [] then invalid (''app_version must not be empty'')
      else and_then (map_err (\<lambda>e. Validation (''app_version is not a valid version: '' @ error_text e))
          (version_parse (um_app_version m))) (\<lambda>_.
        if trim (um_issued_at m) = [] then invalid (''issued_at must not be empty'')
        else if trim (um_signature m) = [] then invalid (''signature must not be empty '' @ em_dash @ '' unsigned manifests are rejected'')
        else if um_files m = [] then invalid (''files must contain at least one entry'')
        else validate_files (um_files m)))"

definition from_json :: "(string \<Rightarrow> string + UpdateManifest) \<Rightarrow> string \<Rightarrow> CoreError + UpdateManifest" where
  "from_json decode input =
     and_then (map_err (\<lambda>e. Validation (''Invalid manifest JSON: '' @ e)) (decode input)) (\<lambda>parsed.
       and_then (validate_schema parsed) (\<lambda>_. Inr parsed))"

definition signable_bytes :: "(UpdateManifest \<Rightarrow> string + string) \<Rightarrow> UpdateManifest \<Rightarrow> CoreError + string" where
  "signable_bytes encode m =
     map_err (\<lambda>e. Validation (''Cannot canonicalize manifest: '' @ e)) (encode (m\<lparr>um_signature := []\<rparr>))"

section \<open>Verification\<close>

definition reject_all :: "string \<Rightarrow> string \<Rightarrow> CoreError + unit" where
  \<comment> \<open>\<open>RejectAllVerifier::verify\<close>.\<close>
  "reject_all body signature_b64 = invalid (''no signature verifier configured '' @ em_dash @ '' refusing to trust update manifest'')"

definition verify_file_bytes :: "(string \<Rightarrow> string) \<Rightarrow> ManifestFile \<Rightarrow> string \<Rightarrow> CoreError + unit" where
  "verify_file_bytes sha256_hex entry content =
     (if length content \<noteq> unat (mf_size_bytes entry) then
        invalid (''file '' @ squote @ mf_path entry @ squote @ '': size mismatch (expected ''
       @ dec (unat (mf_size_bytes entry)) @ '', got '' @ dec (length content) @ '')'')
      else (let actual = sha256_hex content
            in if actual \<noteq> to_ascii_lowercase (mf_sha256 entry) then
                 invalid (''file '' @ squote @ mf_path entry @ squote @ '': sha256 mismatch (expected ''
       @ mf_sha256 entry @ '', got '' @ actual @ '')'')
               else Inr ()))"

fun verify_files :: "(string \<Rightarrow> string) \<Rightarrow> (string \<times> string) list \<Rightarrow> ManifestFile list \<Rightarrow> CoreError + unit" where
  "verify_files sha256_hex file_contents [] = Inr ()"
| "verify_files sha256_hex file_contents (entry # entries) =
     (case find (\<lambda>pc. fst pc = mf_path entry) file_contents of
        None \<Rightarrow> invalid (''file '' @ squote @ mf_path entry @ squote
       @ '' listed in manifest but not provided to verifier'')
      | Some (_, content) \<Rightarrow>
          and_then (verify_file_bytes sha256_hex entry content) (\<lambda>_. verify_files sha256_hex file_contents entries))"

definition verify_manifest_integrity ::
  "(UpdateManifest \<Rightarrow> string + string) \<Rightarrow> (string \<Rightarrow> string) \<Rightarrow> UpdateManifest \<Rightarrow>
     (string \<Rightarrow> string \<Rightarrow> CoreError + unit) \<Rightarrow> (string \<times> string) list \<Rightarrow> CoreError + unit" where
  "verify_manifest_integrity encode sha256_hex m verify file_contents =
     and_then (validate_schema m) (\<lambda>_.
     and_then (signable_bytes encode m) (\<lambda>body.
     and_then (verify body (um_signature m)) (\<lambda>_.
     verify_files sha256_hex file_contents (um_files m))))"

section \<open>The policy\<close>

record UpdatePolicyContext =
  up_current_version :: string
  up_current_platform :: TargetPlatform
  up_allowed_channel :: UpdateChannel
  up_allow_downgrade :: bool
  up_now_utc :: int
  up_max_age :: int
  up_max_future_skew :: int

definition num_seconds :: "int \<Rightarrow> int" where
  \<comment> \<open>\<open>Duration::num_seconds\<close> cuts towards zero.\<close>
  "num_seconds d = (if d < 0 then - ((- d) div 1000000000) else d div 1000000000)"

definition int_text :: "int \<Rightarrow> string" where
  "int_text i = (if i < 0 then ''-'' @ dec (nat (- i)) else dec (nat i))"

definition platform_debug :: "TargetPlatform \<Rightarrow> string" where
  "platform_debug p = (case p of WindowsX86_64 \<Rightarrow> ''WindowsX86_64'' | WindowsAarch64 \<Rightarrow> ''WindowsAarch64'')"

definition channel_debug :: "UpdateChannel \<Rightarrow> string" where
  "channel_debug c =
     (case c of Stable \<Rightarrow> ''Stable'' | Preview \<Rightarrow> ''Preview'' | Internal \<Rightarrow> ''Internal'' | Offline \<Rightarrow> ''Offline'')"

definition compare_dotted_versions :: "string \<Rightarrow> string \<Rightarrow> CoreError + Ordering" where
  "compare_dotted_versions a b =
     and_then (version_parse a) (\<lambda>a_v. and_then (version_parse b) (\<lambda>b_v. Inr (version_cmp a_v b_v)))"

definition verify_update_policy ::
  "(string \<Rightarrow> string + int) \<Rightarrow> UpdateManifest \<Rightarrow> UpdatePolicyContext \<Rightarrow> CoreError + unit" where
  "verify_update_policy parse_time m policy =
     (if um_platform m \<noteq> up_current_platform policy then
        invalid (''manifest platform '' @ platform_debug (um_platform m)
       @ '' does not match current platform '' @ platform_debug (up_current_platform policy))
      else if um_channel m \<noteq> up_allowed_channel policy then
        invalid (''manifest channel '' @ channel_debug (um_channel m) @ '' does not match allowed channel ''
       @ channel_debug (up_allowed_channel policy))
      else and_then (compare_dotted_versions (um_app_version m) (up_current_version policy)) (\<lambda>ordering.
        if \<not> up_allow_downgrade policy \<and> ordering \<noteq> Greater then
          invalid (''manifest app_version '' @ squote @ um_app_version m @ squote
       @ '' is not newer than current '' @ squote @ up_current_version policy @ squote
       @ '' (downgrade not allowed)'')
        else and_then (map_err (\<lambda>e. Validation (''manifest issued_at '' @ squote @ um_issued_at m @ squote
       @ '' is not a valid ISO-8601 UTC timestamp: '' @ e))
            (parse_time (um_issued_at m))) (\<lambda>issued_at.
          if issued_at > up_now_utc policy + up_max_future_skew policy then
            invalid (''manifest issued_at '' @ squote @ um_issued_at m @ squote
       @ '' is further than the allowed clock-skew tolerance (''
       @ int_text (num_seconds (up_max_future_skew policy)) @ ''s) in the future'')
          else if up_now_utc policy - issued_at > up_max_age policy then
            invalid (''manifest issued_at '' @ squote @ um_issued_at m @ squote @ '' is older than max_age (''
       @ int_text (num_seconds (up_max_age policy)) @ ''s) '' @ em_dash
       @ '' refusing as potentially stale or replayed'')
          else Inr ())))"

section \<open>The check for a newer release\<close>

definition MAX_RESPONSE_BYTES :: nat where
  "MAX_RESPONSE_BYTES = 256 * 1024"

record UpdateCheckResult =
  uc_current_version :: string
  uc_latest_version :: string
  uc_update_available :: bool
  uc_release_url :: "string option"

record LatestRelease =
  lr_tag_name :: string
  lr_html_url :: "string option"

definition parse_latest_release ::
  "(string \<Rightarrow> string + LatestRelease) \<Rightarrow> string \<Rightarrow> CoreError + string \<times> string option" where
  "parse_latest_release decode body =
     and_then (map_err (\<lambda>e. Validation (''update source did not return valid release JSON: '' @ e)) (decode body)) (\<lambda>release.
       let tag = trim (lr_tag_name release)
       in if tag = [] then invalid (''update source returned an empty tag_name'')
          else Inr (tag, lr_html_url release))"

definition normalize_tag :: "string \<Rightarrow> string" where
  "normalize_tag tag = (case tag of c # rest \<Rightarrow> if c = CHR ''v'' \<or> c = CHR ''V'' then rest else tag | [] \<Rightarrow> tag)"

definition evaluate_release_tag :: "string \<Rightarrow> string \<Rightarrow> string option \<Rightarrow> CoreError + UpdateCheckResult" where
  "evaluate_release_tag current_version tag release_url =
     (let latest_str = normalize_tag tag
      in and_then (map_err (\<lambda>e. Validation (''installed version '' @ squote @ current_version @ squote @ '' is not a valid version: ''
       @ error_text e))
           (version_parse current_version)) (\<lambda>current.
         and_then (map_err (\<lambda>e. Validation (''published tag '' @ squote @ tag @ squote @ '' is not a valid version: '' @ error_text e))
           (version_parse latest_str)) (\<lambda>latest.
         Inr \<lparr>uc_current_version = current_version, uc_latest_version = latest_str,
           uc_update_available = (version_cmp latest current = Greater), uc_release_url = release_url\<rparr>)))"

datatype HttpReply =
    HttpStatus nat | Transport string | Response "nat \<Rightarrow> string + string"
  \<comment> \<open>The answer to the request: an error status, a transport error, or a body, given as the result
    of reading at most so many bytes of it as text.\<close>

definition check_release_source ::
  "(string \<Rightarrow> string + LatestRelease) \<Rightarrow> (string \<Rightarrow> HttpReply) \<Rightarrow> string \<Rightarrow> string \<Rightarrow> CoreError + UpdateCheckResult" where
  "check_release_source decode get validated_source_url current_version =
     (case get validated_source_url of
        HttpStatus code' \<Rightarrow> invalid (''update source answered with HTTP '' @ dec code' @ '' '' @ em_dash
       @ '' check the source URL (a repository without published releases answers ''
       @ ''404)'')
      | Transport other' \<Rightarrow> invalid (''could not reach the update source: '' @ other')
      | Response read \<Rightarrow>
          and_then (map_err (\<lambda>e. Validation (''could not read the update-source response: '' @ e)) (read MAX_RESPONSE_BYTES)) (\<lambda>body.
          and_then (parse_latest_release decode body) (\<lambda>(tag, release_url).
          evaluate_release_tag current_version tag release_url)))"

section \<open>The install flow\<close>

definition check_for_updates :: "UpdateChannel \<Rightarrow> CoreError + string option" where
  "check_for_updates channel = invalid (''UpdateManager.check_for_updates: not yet implemented '' @ em_dash
       @ '' requires signed update feed, signature verification, and channel ''
       @ ''configuration. For the read-only version check use crate::checker.'')"

definition verify_package :: "UpdateChannel \<Rightarrow> string \<Rightarrow> CoreError + unit" where
  "verify_package channel path = invalid (''UpdateManager.verify_package: not yet implemented '' @ em_dash
       @ '' requires code-signing certificate and SHA-256 checksum validation'')"

section \<open>What a manifest path may be\<close>

definition manifest_path_spec :: "string \<Rightarrow> bool" where
  \<comment> \<open>A relative path without traversal whose segments are good for a local path too.\<close>
  "manifest_path_spec p \<longleftrightarrow> p \<noteq> [] \<and> \<not> separator (hd p)
     \<and> (\<forall>s \<in> set (split_at separator p). good_segment s \<and> s \<noteq> ''.'' \<and> s \<noteq> ''..'')"

lemma check_manifest_segment_ok:
  "check_manifest_segment s full = Inr () \<longleftrightarrow> good_segment s \<and> s \<noteq> ''.'' \<and> s \<noteq> ''..''"
  unfolding check_manifest_segment_def good_segment_def Let_def list_ex_iff invalid_def
    MANIFEST_FORBIDDEN_PATH_CHARS_def FORBIDDEN_PATH_CHARS_def [symmetric]
    MANIFEST_RESERVED_DEVICE_NAMES_def RESERVED_DEVICE_NAMES_def [symmetric]
  by (auto simp del: split_paired_Ex)

lemma check_manifest_segments_ok:
  "check_manifest_segments ss full = Inr () \<longleftrightarrow>
     (\<forall>s \<in> set ss. good_segment s \<and> s \<noteq> ''.'' \<and> s \<noteq> ''..'')"
  by (induction ss) (auto simp: and_then_Inr check_manifest_segment_ok)

lemma split_at_chars: "c \<in> set p \<Longrightarrow> sep c \<or> (\<exists>s \<in> set (split_at sep p). c \<in> set s)"
proof (induction p)
  case (Cons x xs)
  then show ?case by (cases "split_at sep xs") auto
qed simp

lemma control_null: "CHR 0x00 \<in> set s \<Longrightarrow> control_in s"
  by (induction s) (auto simp: Let_def)

lemma leading_separator:
  "p \<noteq> [] \<Longrightarrow> separator (hd p) \<longleftrightarrow> starts_with p bslash \<or> starts_with p ''/''"
  "starts_with p long_prefix \<Longrightarrow> starts_with p bslash" "starts_with p ''//?/'' \<Longrightarrow> starts_with p ''/''"
  "starts_with p unc_prefix \<Longrightarrow> starts_with p bslash" "starts_with p ''//'' \<Longrightarrow> starts_with p ''/''"
  by (cases p; auto simp: separator_def starts_with_iff bslash_def long_prefix_def unc_prefix_def)+

lemma manifest_path_ok: "validate_manifest_relative_path p = Inr () \<longleftrightarrow> manifest_path_spec p"
proof (cases "p = [] \<or> contains_null p")
  case True
  have "\<not> manifest_path_spec p" if "contains_null p"
    using that split_at_chars [of "CHR 0x00" p separator] control_null
    by (auto simp: manifest_path_spec_def contains_null_def separator_def good_segment_def)
  then show ?thesis using True by (auto simp: validate_manifest_relative_path_def manifest_path_spec_def invalid_def)
next
  case False
  then show ?thesis
    using leading_separator [of p]
    by (auto simp: validate_manifest_relative_path_def manifest_path_spec_def invalid_def check_manifest_segments_ok)
qed

section \<open>What is accepted\<close>

definition file_entry_spec :: "ManifestFile \<Rightarrow> bool" where
  "file_entry_spec f \<longleftrightarrow> manifest_path_spec (mf_path f) \<and> length (mf_sha256 f) = 64
     \<and> list_all ascii_hexdigit (mf_sha256 f) \<and> mf_size_bytes f \<noteq> 0"

definition manifest_spec :: "UpdateManifest \<Rightarrow> bool" where
  "manifest_spec m \<longleftrightarrow> um_manifest_version m \<noteq> 0 \<and> (\<exists>v. version_parse (um_app_version m) = Inr v)
     \<and> trim (um_issued_at m) \<noteq> [] \<and> trim (um_signature m) \<noteq> [] \<and> um_files m \<noteq> []
     \<and> list_all file_entry_spec (um_files m)"

definition file_content_spec :: "(string \<Rightarrow> string) \<Rightarrow> (string \<times> string) list \<Rightarrow> ManifestFile \<Rightarrow> bool" where
  \<comment> \<open>The content given for the entry has its size and its hash.\<close>
  "file_content_spec sha256_hex file_contents f \<longleftrightarrow>
     (\<exists>content. find (\<lambda>pc. fst pc = mf_path f) file_contents = Some (mf_path f, content)
       \<and> length content = unat (mf_size_bytes f) \<and> sha256_hex content = to_ascii_lowercase (mf_sha256 f))"

lemma validate_files_ok: "validate_files fs = Inr () \<longleftrightarrow> list_all file_entry_spec fs"
proof -
  have "validate_file f = Inr () \<longleftrightarrow> file_entry_spec f" for f
    by (auto simp: validate_file_def file_entry_spec_def manifest_path_ok [symmetric] and_then_Inr invalid_def)
  then show ?thesis by (induction fs) (auto simp: and_then_Inr)
qed

lemma blank_version: "trim s = [] \<Longrightarrow> version_parse s \<noteq> Inr v"
  by (simp add: version_parse_def invalid_version_def)

lemma validate_schema_ok: "validate_schema m = Inr () \<longleftrightarrow> manifest_spec m"
  using blank_version [of "um_app_version m"]
  by (auto simp: validate_schema_def manifest_spec_def invalid_def and_then_Inr validate_files_ok)

lemma find_key: "find (\<lambda>pc. fst pc = k) xs = Some pc \<Longrightarrow> fst pc = k"
  by (auto simp: find_Some_iff)

lemma verify_files_ok:
  "verify_files sha fc fs = Inr () \<longleftrightarrow> list_all (file_content_spec sha fc) fs"
proof (induction fs)
  case (Cons f fs)
  show ?case
  proof (cases "find (\<lambda>pc. fst pc = mf_path f) fc")
    case None
    then show ?thesis by (simp add: invalid_def file_content_spec_def)
  next
    case (Some pc)
    moreover obtain content where "pc = (mf_path f, content)"
      using find_key [OF Some] by (cases pc) auto
    ultimately show ?thesis
      using Cons by (auto simp: file_content_spec_def verify_file_bytes_def invalid_def and_then_Inr Let_def)
  qed
qed simp

lemma integrity_ok:
  "verify_manifest_integrity encode sha m verify fc = Inr () \<longleftrightarrow>
     manifest_spec m \<and> (\<exists>body. encode (m\<lparr>um_signature := []\<rparr>) = Inr body \<and> verify body (um_signature m) = Inr ())
     \<and> list_all (file_content_spec sha fc) (um_files m)"
  by (auto simp: verify_manifest_integrity_def and_then_Inr validate_schema_ok signable_bytes_def verify_files_ok)

text \<open>The trait of a signature backend: it accepts only what was signed.\<close>

locale signature_verifier =
  fixes verify :: "string \<Rightarrow> string \<Rightarrow> CoreError + unit" and signed :: "string \<Rightarrow> string \<Rightarrow> bool"
  assumes verify_sound: "verify body sig = Inr () \<Longrightarrow> signed body sig"
begin

lemma integrity_signed:
  assumes "verify_manifest_integrity encode sha m verify fc = Inr ()"
  shows "\<exists>body. encode (m\<lparr>um_signature := []\<rparr>) = Inr body \<and> signed body (um_signature m)"
  using assms verify_sound unfolding integrity_ok by blast

end

text \<open>The only backend of the program accepts nothing.\<close>

interpretation unconfigured: signature_verifier reject_all "\<lambda>body sig. False"
  by unfold_locales (simp add: reject_all_def invalid_def)

lemma policy_ok:
  "verify_update_policy parse_time m policy = Inr () \<longleftrightarrow>
     um_platform m = up_current_platform policy \<and> um_channel m = up_allowed_channel policy
     \<and> (\<exists>new cur. version_parse (um_app_version m) = Inr new \<and> version_parse (up_current_version policy) = Inr cur
       \<and> (up_allow_downgrade policy \<or> version_key cur < version_key new))
     \<and> (\<exists>t. parse_time (um_issued_at m) = Inr t \<and> t \<le> up_now_utc policy + up_max_future_skew policy
       \<and> up_now_utc policy - t \<le> up_max_age policy)"
  by (cases "version_parse (um_app_version m)"; cases "version_parse (up_current_version policy)";
      cases "parse_time (um_issued_at m)")
    (auto simp: verify_update_policy_def invalid_def compare_dotted_versions_def version_cmp_key)

section \<open>Properties\<close>

text \<open>C36: only what was signed, is complete and applies is accepted. The integrity check and the
  policy check both pass exactly when the manifest is well formed (every file path relative,
  free of traversal, device names, drives and streams), the backend accepts its signature, every
  listed file is given with its size and hash, the platform and channel are the caller's, the
  version is newer unless downgrades are allowed, and the time of issue is within the window.\<close>

theorem accepted_update:
  "verify_manifest_integrity encode sha m verify fc = Inr () \<and> verify_update_policy parse_time m policy = Inr () \<longleftrightarrow>
     manifest_spec m
     \<and> (\<exists>body. encode (m\<lparr>um_signature := []\<rparr>) = Inr body \<and> verify body (um_signature m) = Inr ())
     \<and> list_all (file_content_spec sha fc) (um_files m)
     \<and> um_platform m = up_current_platform policy \<and> um_channel m = up_allowed_channel policy
     \<and> (\<exists>new cur. version_parse (um_app_version m) = Inr new \<and> version_parse (up_current_version policy) = Inr cur
       \<and> (up_allow_downgrade policy \<or> version_key cur < version_key new))
     \<and> (\<exists>t. parse_time (um_issued_at m) = Inr t \<and> t \<le> up_now_utc policy + up_max_future_skew policy
       \<and> up_now_utc policy - t \<le> up_max_age policy)"
  unfolding integrity_ok policy_ok by blast

text \<open>Without a configured backend no update is trusted. With the verifier the program ships,
  no manifest passes the integrity check, whatever its content and files, and the install flow
  always answers with an error.\<close>

theorem unconfigured_updates_rejected:
  "verify_manifest_integrity encode sha m reject_all fc \<noteq> Inr ()
   \<and> check_for_updates channel \<noteq> Inr r \<and> verify_package channel path \<noteq> Inr ()"
  using unconfigured.integrity_signed by (auto simp: check_for_updates_def verify_package_def invalid_def)

text \<open>An update is announced exactly when the published version is newer. The check answers
  with a result exactly when both versions parse, and announces an update exactly when the
  published one is above the installed one in the order of versions; an unreadable version is
  an error, never a silent "no update".\<close>

theorem announced_update_is_newer:
  "evaluate_release_tag current tag url = Inr r \<longleftrightarrow>
     (\<exists>cur new. version_parse current = Inr cur \<and> version_parse (normalize_tag tag) = Inr new
       \<and> r = \<lparr>uc_current_version = current, uc_latest_version = normalize_tag tag,
          uc_update_available = (version_key cur < version_key new), uc_release_url = url\<rparr>)"
  by (auto simp: evaluate_release_tag_def and_then_Inr version_cmp_key Let_def)

end
