(* ===== verification/Sid_Codec.thy ===== *)
theory Sid_Codec
  imports Fs_Objects
begin

text \<open>
  The binary form of a SID (\<open>crates/ad_resolver/src/sid_util.rs\<close>): what is read from and written into
  LDAP attributes and filters. The two directions are inverse on the byte strings Windows produces.
\<close>

section \<open>Numbers as bytes\<close>

fun le_bytes :: "nat \<Rightarrow> nat \<Rightarrow> u8 list" where
  \<comment> \<open>\<open>to_le_bytes\<close> of a number of so many bytes.\<close>
  "le_bytes 0 n = []"
| "le_bytes (Suc k) n = of_nat (n mod 256) # le_bytes k (n div 256)"

lemma length_le_bytes [simp]: "length (le_bytes k n) = k"
  by (induction k arbitrary: n) simp_all

lemma le_bytes_read: "n < 256 ^ k \<Longrightarrow> from_le_bytes (le_bytes k n) = n"
proof (induction k arbitrary: n)
  case (Suc k)
  have "n div 256 < 256 ^ k" using Suc.prems by (simp add: less_mult_imp_div_less)
  then show ?case using Suc.IH by (simp add: unat_of_nat take_bit_eq_mod)
qed simp

lemma from_le_bytes_less: "from_le_bytes bs < 256 ^ length bs"
proof (induction bs)
  case (Cons b bs)
  have "unat b < 256" using unsigned_less [of b] by simp
  then show ?case using Cons by simp
qed simp

lemma le_bytes_written: "length bs = k \<Longrightarrow> le_bytes k (from_le_bytes bs) = bs"
proof (induction bs arbitrary: k)
  case (Cons b bs)
  have "unat b < 256" using unsigned_less [of b] by simp
  then show ?case using Cons by auto
qed simp

section \<open>From the text to the bytes\<close>

definition sid_error :: "string \<Rightarrow> string \<Rightarrow> CoreError" where
  "sid_error what sid = SidResolution (what @ sid)"

definition authority_bytes :: "nat \<Rightarrow> u8 list" where
  \<comment> \<open>The six bytes of the identifier authority, the highest first; what is above 48 bits is lost.\<close>
  "authority_bytes authority = map (\<lambda>k. of_nat (authority div 2 ^ k mod 256)) [40, 32, 24, 16, 8, 0]"

definition sid_str_to_bytes :: "string \<Rightarrow> CoreError + u8 list" where
  "sid_str_to_bytes sid =
     (let parts = split_on (CHR ''-'') (trim sid)
      in if length parts < 3 \<or> hd parts \<noteq> ''S'' then Inl (sid_error ''Invalid SID format: '' sid)
         else case parse_uint 256 (parts ! 1) of None \<Rightarrow> Inl (sid_error ''Invalid revision in SID: '' sid)
         | Some revision \<Rightarrow>
             (case parse_uint (2 ^ 64) (parts ! 2) of None \<Rightarrow> Inl (sid_error ''Invalid identifier authority: '' sid)
              | Some authority \<Rightarrow>
                  (case those (map (parse_uint (2 ^ 32)) (drop 3 parts)) of
                     None \<Rightarrow> Inl (sid_error ''Invalid sub-authority in SID: '' sid)
                   | Some sub_authorities \<Rightarrow>
                       Inr ([of_nat revision, of_nat (length sub_authorities)] @ authority_bytes authority
                            @ concat (map (le_bytes 4) sub_authorities)))))"

definition bytes_to_ldap_escape :: "u8 list \<Rightarrow> string" where
  "bytes_to_ldap_escape bytes = concat (map (\<lambda>b. bslash @ hex_lower 2 (unat b)) bytes)"

definition sid_str_to_ldap_filter :: "string \<Rightarrow> CoreError + string" where
  "sid_str_to_ldap_filter sid =
     (case sid_str_to_bytes sid of Inl e \<Rightarrow> Inl e | Inr bytes \<Rightarrow> Inr (bytes_to_ldap_escape bytes))"

section \<open>From the bytes to the text\<close>

definition sub_authority :: "u8 list \<Rightarrow> nat \<Rightarrow> nat" where
  \<comment> \<open>The four bytes at offset \<open>8 + i * 4\<close>.\<close>
  "sub_authority bytes i = from_le_bytes (take 4 (drop (8 + i * 4) bytes))"

definition bytes_to_sid_str :: "u8 list \<Rightarrow> CoreError + string" where
  "bytes_to_sid_str bytes =
     (if length bytes < 8 then Inl (SidResolution ''SID byte sequence too short'')
      else
        (let revision = unat (bytes ! 0);
             count = unat (bytes ! 1);
             expected_len = 8 + count * 4
         in if length bytes < expected_len then
              Inl (SidResolution (''SID data incomplete: expected '' @ dec expected_len @ '' bytes, got '' @ dec (length bytes)))
            else
              (let authority = foldl (\<lambda>a b. a * 256 + unat b) 0 (take 6 (drop 2 bytes))
               in Inr (''S-'' @ dec revision @ ''-'' @ dec authority
                    @ concat (map (\<lambda>i. CHR ''-'' # dec (sub_authority bytes i)) [0..<count])))))"

section \<open>The two directions are inverse\<close>

lemma from_le_bytes_snoc: "from_le_bytes (bs @ [b]) = from_le_bytes bs + 256 ^ length bs * unat b"
  by (induction bs) (simp_all add: algebra_simps)

lemma big_endian_read: "foldl (\<lambda>a b. a * 256 + unat b) acc bs = acc * 256 ^ length bs + from_le_bytes (rev bs)"
  by (induction bs arbitrary: acc) (simp_all add: from_le_bytes_snoc algebra_simps)

lemma authority_bytes_le: "authority_bytes a = rev (le_bytes 6 a)"
proof -
  have "le_bytes (Suc (Suc (Suc (Suc (Suc (Suc 0)))))) a =
      map (\<lambda>k. of_nat (a div 2 ^ k mod 256)) [0, 8, 16, 24, 32, 40]"
    by (simp add: div_mult2_eq [symmetric])
  moreover have "(6 :: nat) = Suc (Suc (Suc (Suc (Suc (Suc 0)))))" by simp
  ultimately show ?thesis unfolding authority_bytes_def by (simp only: list.map rev.simps append.simps)
qed

lemma authority_written: "length bs = 6 \<Longrightarrow> authority_bytes (foldl (\<lambda>a b. a * 256 + unat b) 0 bs) = bs"
  using le_bytes_written [of "rev bs" 6] by (simp add: big_endian_read authority_bytes_le)

lemma concat_chunks: "length rest = 4 * n \<Longrightarrow> concat (map (\<lambda>i. take 4 (drop (i * 4) rest)) [0..<n]) = rest"
proof (induction n arbitrary: rest)
  case (Suc n)
  have "concat (map (\<lambda>i. take 4 (drop (i * 4) (drop 4 rest))) [0..<n]) = drop 4 rest"
    using Suc.prems by (intro Suc.IH) simp
  then have "concat (map (\<lambda>i. take 4 (drop (Suc i * 4) rest)) [0..<n]) = drop 4 rest" by (simp add: add.commute)
  then show ?case by (simp add: upt_conv_Cons map_Suc_upt [symmetric] comp_def del: upt_Suc)
qed simp

definition sid_text :: "nat \<Rightarrow> nat \<Rightarrow> nat list \<Rightarrow> string" where
  "sid_text revision authority subs = join ''-'' (''S'' # dec revision # dec authority # map dec subs)"

lemma join_dashes: "join ''-'' (w # map f xs) = w @ concat (map (\<lambda>x. CHR ''-'' # f x) xs)"
  by (induction xs arbitrary: w) (simp_all)

lemma dec_no_dash: "CHR ''-'' \<notin> set (dec n)"
  using dec_ascii_digits [of "CHR ''-''" n] by (auto simp: ascii_digit_def code_def)

lemma dec_not_blank: "set (dec n) \<inter> blank_bytes = {}"
proof -
  have "c \<notin> blank_bytes" if "c \<in> set (dec n)" for c
    using blank_bytes_code [of c] dec_ascii_digits [OF that] by (auto simp: ascii_digit_def)
  then show ?thesis by blast
qed

lemma those_map_Some: "\<forall>x \<in> set xs. f x = Some (g x) \<Longrightarrow> those (map f xs) = Some (map g xs)"
  by (induction xs) simp_all

lemma parsed_text:
  assumes "r < 256" "a < 2 ^ 64" "\<forall>x \<in> set subs. x < 2 ^ 32"
  shows "sid_str_to_bytes (sid_text r a subs) =
    Inr ([of_nat r, of_nat (length subs)] @ authority_bytes a @ concat (map (le_bytes 4) subs))"
proof -
  let ?words = "''S'' # dec r # dec a # map dec subs"
  have "set (sid_text r a subs) \<inter> blank_bytes = {}"
    using set_join [of "''-''" ?words] dec_not_blank blank_bytes_code [of "CHR ''-''"] blank_bytes_code [of "CHR ''S''"]
    unfolding sid_text_def by (fastforce simp: code_def)
  then have "trim (sid_text r a subs) = sid_text r a subs" by (rule trim_plain)
  moreover have "split_on (CHR ''-'') (sid_text r a subs) = ?words"
    unfolding sid_text_def by (rule split_on_join) (auto simp: dec_no_dash)
  moreover have "those (map (parse_uint (2 ^ 32)) (map dec subs)) = Some subs"
    using assms(3) those_map_Some [of subs "\<lambda>x. parse_uint (2 ^ 32) (dec x)" "\<lambda>x. x"] by (simp add: comp_def parse_dec)
  ultimately show ?thesis
    using assms(1,2) by (simp add: sid_str_to_bytes_def parse_dec numeral_3_eq_3)
qed

text \<open>C31: The binary form of a SID and its text determine each other. Whenever a byte string that is
  exactly as long as its count of sub-authorities says is converted to a text, converting the text
  back gives these bytes -- so two different SIDs of the directory never look the same, and a filter
  for the text asks for exactly these bytes.\<close>
theorem binary_sid_round_trip:
  assumes "bytes_to_sid_str bytes = Inr s" and "length bytes = 8 + unat (bytes ! 1) * 4"
  shows "sid_str_to_bytes s = Inr bytes \<and> sid_str_to_ldap_filter s = Inr (bytes_to_ldap_escape bytes)"
proof -
  let ?n = "unat (bytes ! 1)" and ?auth = "take 6 (drop 2 bytes)"
  let ?a = "foldl (\<lambda>a b. a * 256 + unat b) 0 ?auth" and ?subs = "map (sub_authority bytes) [0..<unat (bytes ! 1)]"
  have s: "s = sid_text (unat (bytes ! 0)) ?a ?subs"
    using assms by (auto simp: bytes_to_sid_str_def Let_def sid_text_def join_dashes comp_def)
  have "unat (bytes ! 0) < 256" using unsigned_less [of "bytes ! 0"] by simp
  moreover have "?a < 2 ^ 64"
    using from_le_bytes_less [of "rev ?auth"] assms(2) by (simp add: big_endian_read)
  moreover have "x < 2 ^ 32" if "x \<in> set ?subs" for x
  proof -
    from that obtain i where i: "x = from_le_bytes (take 4 (drop (8 + i * 4) bytes))" "i < ?n"
      by (auto simp: sub_authority_def)
    then have "length (take 4 (drop (8 + i * 4) bytes)) = 4" using assms(2) by simp
    then show ?thesis using from_le_bytes_less [of "take 4 (drop (8 + i * 4) bytes)"] i(1) by simp
  qed
  ultimately have "sid_str_to_bytes s = Inr ([of_nat (unat (bytes ! 0)), of_nat (length ?subs)] @ authority_bytes ?a
      @ concat (map (le_bytes 4) ?subs))"
    unfolding s by (intro parsed_text) auto
  moreover have "authority_bytes ?a = ?auth" using assms(2) by (intro authority_written) simp
  moreover have "concat (map (le_bytes 4) ?subs) = drop 8 bytes"
  proof -
    have "le_bytes 4 (sub_authority bytes i) = take 4 (drop (i * 4) (drop 8 bytes))" if "i < ?n" for i
      using that assms(2) by (simp add: sub_authority_def le_bytes_written add.commute)
    then have "map (\<lambda>i. le_bytes 4 (sub_authority bytes i)) [0..<?n] = map (\<lambda>i. take 4 (drop (i * 4) (drop 8 bytes))) [0..<?n]"
      by (intro map_cong refl) (simp only: set_upt atLeastLessThan_iff)
    then have "concat (map (le_bytes 4) ?subs) = concat (map (\<lambda>i. take 4 (drop (i * 4) (drop 8 bytes))) [0..<?n])"
      by (simp only: map_map comp_def)
    also have "\<dots> = drop 8 bytes" using assms(2) by (intro concat_chunks) simp
    finally show ?thesis .
  qed
  moreover have "bytes = [bytes ! 0, bytes ! 1] @ ?auth @ drop 8 bytes"
  proof -
    have "bytes = take 2 bytes @ take 6 (drop 2 bytes) @ drop 6 (drop 2 bytes)" by (simp only: append_take_drop_id)
    moreover have "take 2 bytes = [bytes ! 0, bytes ! 1]"
      using assms(2) by (cases bytes; cases "tl bytes") (auto simp: numeral_2_eq_2)
    moreover have "drop 6 (drop 2 bytes) = drop 8 bytes" by simp
    ultimately show ?thesis by simp
  qed
  ultimately have "sid_str_to_bytes s = Inr bytes" by simp
  then show ?thesis by (simp add: sid_str_to_ldap_filter_def)
qed

lemma binary_sid_round_trip_witness:
  "\<exists>s. bytes_to_sid_str [1, 1, 0, 0, 0, 0, 0, 5, 18, 0, 0, 0] = Inr s
     \<and> sid_str_to_bytes s = Inr [1, 1, 0, 0, 0, 0, 0, 5, 18, 0, 0, 0]
     \<and> sid_str_to_ldap_filter s = Inr (bytes_to_ldap_escape [1, 1, 0, 0, 0, 0, 0, 5, 18, 0, 0, 0])"
proof -
  let ?bytes = "[1, 1, 0, 0, 0, 0, 0, 5, 18, 0, 0, 0] :: u8 list"
  obtain s where "bytes_to_sid_str ?bytes = Inr s" by (simp add: bytes_to_sid_str_def)
  then show ?thesis using binary_sid_round_trip [of ?bytes s] by simp
qed

text \<open>An identifier authority above 48 bits is cut without an error: the text of a SID that does
  not exist is looked up as another SID.\<close>
lemma oversized_authority_is_cut:
  "sid_str_to_bytes (sid_text 1 281474976710661 [18]) = sid_str_to_bytes (sid_text 1 5 [18])"
  by (simp add: parsed_text authority_bytes_def)

end
