(* ===== verification/Forest_Trust.thy ===== *)
theory Forest_Trust
  imports Sid_Codec
begin

unbundle bit_operations_syntax

text \<open>
  The forest trust information of a trust object (\<open>crates/ad_resolver/src/forest_trust_info.rs\<close>): the
  reader over the bytes, the records, and the domains they list.
\<close>

section \<open>Domains\<close>

record ForestTrustDomain =
  ft_dns_name :: string
  ft_netbios_name :: string
  ft_sid :: Sid
  ft_flags :: u32

definition SID_DISABLED_ADMIN :: u32 where "SID_DISABLED_ADMIN = 0x1"
definition SID_DISABLED_CONFLICT :: u32 where "SID_DISABLED_CONFLICT = 0x2"

definition sid_enabled :: "ForestTrustDomain \<Rightarrow> bool" where
  "sid_enabled d \<longleftrightarrow> ft_flags d AND (SID_DISABLED_ADMIN OR SID_DISABLED_CONFLICT) = 0"

definition forest_domain_label :: "ForestTrustDomain \<Rightarrow> string" where
  "forest_domain_label d =
     ft_dns_name d @ '' ('' @ ft_netbios_name d @ '')  '' @ ft_sid d
     @ (if sid_enabled d then [] else ''  '' @ em_dash @ '' SID disabled'')
     @ (if ft_flags d = 0 then [] else ''  [flags 0x'' @ hex (ft_flags d) @ '']'')"

section \<open>The reader\<close>

fun utf8_valid :: "nat list \<Rightarrow> bool" where
  \<comment> \<open>\<open>std::str::from_utf8\<close>: well-formed sequences, no overlong form, no surrogate.\<close>
  "utf8_valid [] = True"
| "utf8_valid (a # rest) =
     (let tail = (\<lambda>b. 0x80 \<le> b \<and> b < 0xC0)
      in if a < 0x80 then utf8_valid rest
         else if 0xC2 \<le> a \<and> a < 0xE0 then
           (case rest of b # r \<Rightarrow> tail b \<and> utf8_valid r | _ \<Rightarrow> False)
         else if 0xE0 \<le> a \<and> a < 0xF0 then
           (case rest of b # c # r \<Rightarrow> tail b \<and> tail c \<and> (a = 0xE0 \<longrightarrow> 0xA0 \<le> b) \<and> (a = 0xED \<longrightarrow> b < 0xA0) \<and> utf8_valid r
            | _ \<Rightarrow> False)
         else if 0xF0 \<le> a \<and> a < 0xF5 then
           (case rest of b # c # d # r \<Rightarrow>
              tail b \<and> tail c \<and> tail d \<and> (a = 0xF0 \<longrightarrow> 0x90 \<le> b) \<and> (a = 0xF4 \<longrightarrow> b < 0x90) \<and> utf8_valid r
            | _ \<Rightarrow> False)
         else False)"

definition text_of_bytes :: "u8 list \<Rightarrow> string" where
  "text_of_bytes bs = map (\<lambda>b. char_of (unat b)) bs"

definition bytes_of_text :: "string \<Rightarrow> u8 list" where
  "bytes_of_text s = map (\<lambda>c. of_nat (of_char c)) s"

definition MAX_RECORDS :: nat where "MAX_RECORDS = 10000"
definition MAX_NAME_LEN :: nat where "MAX_NAME_LEN = 255"
definition MAX_SID_LEN :: nat where "MAX_SID_LEN = 68"

definition en_dash :: string where
  "en_dash = [CHR 0xE2, CHR 0x80, CHR 0x93]"

type_synonym 'a parsed = "string + 'a \<times> nat"

definition take_bytes :: "u8 list \<Rightarrow> nat \<Rightarrow> string \<Rightarrow> nat \<Rightarrow> u8 list parsed" where
  \<comment> \<open>\<open>Reader::take\<close>; the position is passed and returned.\<close>
  "take_bytes data n what pos =
     (if pos + n \<le> length data then Inr (take n (drop pos data), pos + n)
      else Inl (''truncated at byte '' @ dec pos @ '' ('' @ what @ '')''))"

definition read_u32 :: "u8 list \<Rightarrow> string \<Rightarrow> nat \<Rightarrow> nat parsed" where
  "read_u32 data what pos = and_then (take_bytes data 4 what pos) (\<lambda>(b, pos). Inr (from_le_bytes b, pos))"

definition read_u8 :: "u8 list \<Rightarrow> string \<Rightarrow> nat \<Rightarrow> nat parsed" where
  "read_u8 data what pos = and_then (take_bytes data 1 what pos) (\<lambda>(b, pos). Inr (unat (hd b), pos))"

definition read_name :: "u8 list \<Rightarrow> string \<Rightarrow> nat \<Rightarrow> string parsed" where
  "read_name data what pos =
     and_then (read_u32 data what pos) (\<lambda>(len, pos).
       if len = 0 \<or> len > MAX_NAME_LEN then
         Inl (what @ '': length '' @ dec len @ '' outside 1'' @ en_dash @ dec MAX_NAME_LEN)
       else and_then (take_bytes data len what pos) (\<lambda>(b, pos).
         if \<not> utf8_valid (map unat b) then Inl (what @ '': not valid UTF-8'')
         else if control_in (text_of_bytes b) then Inl (what @ '': contains control characters'')
         else Inr (text_of_bytes b, pos)))"

section \<open>The records\<close>

definition domain_record :: "u8 list \<Rightarrow> nat \<Rightarrow> nat \<Rightarrow> nat \<Rightarrow> ForestTrustDomain parsed" where
  \<comment> \<open>The data of a record of type 2.\<close>
  "domain_record data i flags pos =
     and_then (read_u32 data ''SID length'' pos) (\<lambda>(sid_len, pos).
       if sid_len < 8 \<or> MAX_SID_LEN < sid_len then
         Inl (''record '' @ dec i @ '': SID length '' @ dec sid_len @ '' outside 8'' @ en_dash @ dec MAX_SID_LEN)
       else and_then (take_bytes data sid_len ''SID'' pos) (\<lambda>(sid_bytes, pos).
         if 8 + unat (sid_bytes ! 1) * 4 \<noteq> length sid_bytes then
           Inl (''record '' @ dec i @ '': SID length '' @ dec sid_len
       @ '' does not match its sub-authority count'')
         else case bytes_to_sid_str sid_bytes of
             Inl e \<Rightarrow> Inl (''record '' @ dec i @ '': '' @ error_text e)
           | Inr sid \<Rightarrow>
               and_then (read_name data ''DNS name'' pos) (\<lambda>(dns_name, pos).
               and_then (read_name data ''NetBIOS name'' pos) (\<lambda>(netbios_name, pos).
                 Inr (\<lparr>ft_dns_name = dns_name, ft_netbios_name = netbios_name, ft_sid = sid,
                        ft_flags = of_nat flags\<rparr>, pos)))))"

definition unknown_record :: "u8 list \<Rightarrow> nat \<Rightarrow> nat \<Rightarrow> nat \<Rightarrow> nat \<Rightarrow> nat \<Rightarrow> u8 list parsed" where
  \<comment> \<open>A record of another type; \<open>start\<close> is where the record starts after its length.\<close>
  "unknown_record data i record_type record_len start pos =
     (if record_len = 0 then Inl (''record '' @ dec i @ '': unknown record type '' @ dec record_type
       @ '' without a record length'')
      else if record_len < pos - start then Inl (''record '' @ dec i @ '': record length '' @ dec record_len @ '' shorter than its header'')
      else take_bytes data (record_len - (pos - start)) ''unknown record'' pos)"

definition record_data :: "u8 list \<Rightarrow> nat \<Rightarrow> nat \<Rightarrow> nat \<Rightarrow> nat \<Rightarrow> nat \<Rightarrow> nat \<Rightarrow> ForestTrustDomain list parsed" where
  \<comment> \<open>The \<open>match\<close> on the record type: the domain it adds, if any.\<close>
  "record_data data i record_type record_len flags start pos =
     (if record_type = 0 \<or> record_type = 1 then
        and_then (read_name data ''top-level name'' pos) (\<lambda>(_, pos). Inr ([], pos))
      else if record_type = 2 then
        and_then (domain_record data i flags pos) (\<lambda>(d, pos). Inr ([d], pos))
      else and_then (unknown_record data i record_type record_len start pos) (\<lambda>(_, pos). Inr ([], pos)))"

definition trust_record :: "u8 list \<Rightarrow> nat \<Rightarrow> nat \<Rightarrow> ForestTrustDomain list parsed" where
  \<comment> \<open>One turn of the loop.\<close>
  "trust_record data i pos =
     and_then (read_u32 data ''record length'' pos) (\<lambda>(record_len, start).
     and_then (read_u32 data ''flags'' start) (\<lambda>(flags, pos).
     and_then (take_bytes data 8 ''timestamp'' pos) (\<lambda>(_, pos).
     and_then (read_u8 data ''record type'' pos) (\<lambda>(record_type, pos).
     and_then (record_data data i record_type record_len flags start pos) (\<lambda>(ds, pos).
       if record_len \<noteq> 0 \<and> record_len \<noteq> pos - start then
         Inl (''record '' @ dec i @ '': record length '' @ dec record_len @ '' but '' @ dec (pos - start)
       @ '' bytes of record data'')
       else Inr (ds, pos))))))"

fun trust_records :: "u8 list \<Rightarrow> nat \<Rightarrow> nat \<Rightarrow> ForestTrustDomain list \<Rightarrow> nat \<Rightarrow> ForestTrustDomain list parsed" where
  "trust_records data i 0 domains pos = Inr (domains, pos)"
| "trust_records data i (Suc n) domains pos =
     and_then (trust_record data i pos) (\<lambda>(ds, pos). trust_records data (i + 1) n (domains @ ds) pos)"

definition parse_forest_trust_info :: "u8 list \<Rightarrow> string + ForestTrustDomain list" where
  "parse_forest_trust_info data =
     and_then (read_u32 data ''version'' 0) (\<lambda>(version, pos).
       if version \<noteq> 1 then Inl (''unsupported version '' @ dec version)
       else and_then (read_u32 data ''record count'' pos) (\<lambda>(record_count, pos).
         if record_count > MAX_RECORDS then
           Inl (''record count '' @ dec record_count @ '' above '' @ dec MAX_RECORDS)
         else and_then (trust_records data 0 record_count [] pos) (\<lambda>(domains, pos).
           if pos \<noteq> length data then
             Inl (dec (length data - pos) @ '' trailing byte(s) after '' @ dec record_count @ '' record(s)'')
           else Inr domains)))"

section \<open>The format\<close>

text \<open>The attribute as MS-ADTS describes it, with the record length of zero Windows writes: a value of the
  attribute is the encoding of a list of records.\<close>

datatype RecordBody = TopLevelName bool string | DomainInfo "u8 list" string string | OtherRecord u8 "u8 list"

record TrustRecord =
  tr_flags :: nat
  tr_timestamp :: "u8 list"
  tr_sized :: bool
  tr_body :: RecordBody

definition enc_name :: "string \<Rightarrow> u8 list" where
  "enc_name s = le_bytes 4 (length s) @ bytes_of_text s"

primrec body_type :: "RecordBody \<Rightarrow> u8" where
  "body_type (TopLevelName excluded _) = (if excluded then 1 else 0)"
| "body_type (DomainInfo _ _ _) = 2"
| "body_type (OtherRecord t _) = t"

primrec enc_body :: "RecordBody \<Rightarrow> u8 list" where
  "enc_body (TopLevelName _ s) = enc_name s"
| "enc_body (DomainInfo sid dns netbios) = le_bytes 4 (length sid) @ sid @ enc_name dns @ enc_name netbios"
| "enc_body (OtherRecord _ payload) = payload"

definition enc_after_length :: "TrustRecord \<Rightarrow> u8 list" where
  "enc_after_length r = le_bytes 4 (tr_flags r) @ tr_timestamp r @ [body_type (tr_body r)] @ enc_body (tr_body r)"

definition enc_record :: "TrustRecord \<Rightarrow> u8 list" where
  "enc_record r = le_bytes 4 (if tr_sized r then length (enc_after_length r) else 0) @ enc_after_length r"

definition enc_info :: "TrustRecord list \<Rightarrow> u8 list" where
  "enc_info rs = le_bytes 4 1 @ le_bytes 4 (length rs) @ concat (map enc_record rs)"

definition good_text :: "string \<Rightarrow> bool" where
  "good_text s \<longleftrightarrow> s \<noteq> [] \<and> length s \<le> MAX_NAME_LEN \<and> utf8_valid (map of_char s) \<and> \<not> control_in s"

primrec good_body :: "RecordBody \<Rightarrow> bool" where
  "good_body (TopLevelName _ s) = good_text s"
| "good_body (DomainInfo sid dns netbios) =
     (8 \<le> length sid \<and> length sid \<le> MAX_SID_LEN \<and> length sid = 8 + unat (sid ! 1) * 4 \<and> good_text dns \<and> good_text netbios)"
| "good_body (OtherRecord t _) = (t \<notin> {0, 1, 2})"

definition good_record :: "TrustRecord \<Rightarrow> bool" where
  "good_record r \<longleftrightarrow> tr_flags r < 2 ^ 32 \<and> length (tr_timestamp r) = 8 \<and> good_body (tr_body r)
     \<and> length (enc_after_length r) < 2 ^ 32 \<and> (\<forall>t payload. tr_body r = OtherRecord t payload \<longrightarrow> tr_sized r)"

definition sid_of_bytes :: "u8 list \<Rightarrow> string" where
  "sid_of_bytes bytes = (case bytes_to_sid_str bytes of Inl _ \<Rightarrow> [] | Inr s \<Rightarrow> s)"

definition record_domains :: "TrustRecord \<Rightarrow> ForestTrustDomain list" where
  "record_domains r =
     (case tr_body r of
        DomainInfo sid dns netbios \<Rightarrow>
          [\<lparr>ft_dns_name = dns, ft_netbios_name = netbios, ft_sid = sid_of_bytes sid, ft_flags = of_nat (tr_flags r)\<rparr>]
      | _ \<Rightarrow> [])"

section \<open>The parser accepts exactly the format\<close>

definition slice :: "'a list \<Rightarrow> nat \<Rightarrow> nat \<Rightarrow> 'a list \<Rightarrow> bool" where
  "slice data p q xs \<longleftrightarrow> p \<le> q \<and> q \<le> length data \<and> take (q - p) (drop p data) = xs"

lemma slice_length: "slice data p q xs \<Longrightarrow> q = p + length xs \<and> q \<le> length data"
  by (auto simp: slice_def)

lemma slice_append:
  "slice data p q (xs @ ys) \<longleftrightarrow> slice data p (p + length xs) xs \<and> slice data (p + length xs) q ys"
proof
  assume s: "slice data p q (xs @ ys)"
  then have q: "q = p + length xs + length ys" "q \<le> length data" using slice_length [OF s] by auto
  have "drop p data = (xs @ ys) @ drop q data"
    using s q by (metis append_take_drop_id diff_add_inverse2 drop_drop le_add_diff_inverse2 slice_def)
  then have "take (length xs) (drop p data) = xs" "drop (length xs) (drop p data) = ys @ drop q data" by simp_all
  then show "slice data p (p + length xs) xs \<and> slice data (p + length xs) q ys"
    using q by (simp add: slice_def add.commute)
next
  assume s: "slice data p (p + length xs) xs \<and> slice data (p + length xs) q ys"
  then have q: "q = p + length xs + length ys" "q \<le> length data" using slice_length by fastforce+
  have "take (length xs) (drop p data) = xs" "take (length ys) (drop (p + length xs) data) = ys"
    using s q by (auto simp: slice_def)
  then have "take (length xs + length ys) (drop p data) = xs @ ys"
    using take_add [of "length xs" "length ys" "drop p data"] by (simp add: add.commute)
  then show "slice data p q (xs @ ys)" using q by (simp add: slice_def)
qed

lemma take_bytes_iff:
  "take_bytes data n what pos = Inr (xs, pos') \<longleftrightarrow> length xs = n \<and> slice data pos pos' xs"
  by (auto simp: take_bytes_def slice_def)

lemma unat_byte [simp]: "unat (b :: u8) mod 256 = unat b"
proof -
  have "unat b < 256" using unsigned_less [of b] by simp
  then show ?thesis by simp
qed

lemma and_then_pair:
  "and_then r (\<lambda>(x, p). f x p) = Inr y \<longleftrightarrow> (\<exists>x p. r = Inr (x, p) \<and> f x p = Inr y)"
  by (cases r) auto

lemma unless_error: "(if c then Inl e else r) = Inr y \<longleftrightarrow> \<not> c \<and> r = Inr y"
  by simp

lemma bytes_text [simp]: "text_of_bytes (bytes_of_text s) = s" "bytes_of_text (text_of_bytes b) = b"
  by (simp_all add: text_of_bytes_def bytes_of_text_def comp_def unat_of_nat take_bit_eq_mod of_char_of map_idI)

lemma text_of_bytes_facts [simp]:
  "length (text_of_bytes b) = length b" "map of_char (text_of_bytes b) = map unat b" "text_of_bytes b = [] \<longleftrightarrow> b = []"
  by (simp_all add: text_of_bytes_def comp_def of_char_of take_bit_eq_mod)

lemma map_unat_bytes: "map unat (bytes_of_text s) = map of_char s" "length (bytes_of_text s) = length s"
  by (simp_all add: bytes_of_text_def unat_of_nat take_bit_eq_mod comp_def)

lemma le_bytes_iff: "length bs = k \<Longrightarrow> from_le_bytes bs = n \<longleftrightarrow> n < 256 ^ k \<and> bs = le_bytes k n"
  using le_bytes_read le_bytes_written from_le_bytes_less by metis

lemma read_u32_iff:
  "read_u32 data what pos = Inr (n, pos') \<longleftrightarrow> n < 2 ^ 32 \<and> slice data pos pos' (le_bytes 4 n)"
proof -
  have "read_u32 data what pos = Inr (n, pos')
      \<longleftrightarrow> (\<exists>b. length b = 4 \<and> slice data pos pos' b \<and> from_le_bytes b = n)"
    by (auto simp: read_u32_def and_then_Inr take_bytes_iff)
  also have "\<dots> \<longleftrightarrow> n < 256 ^ 4 \<and> slice data pos pos' (le_bytes 4 n)"
    using le_bytes_iff [of _ 4 n] by (metis length_le_bytes)
  finally show ?thesis by simp
qed

lemma read_u8_iff: "read_u8 data what pos = Inr (n, pos') \<longleftrightarrow> (\<exists>b. n = unat b \<and> slice data pos pos' [b])"
  by (auto simp: read_u8_def and_then_Inr take_bytes_iff length_Suc_conv)

lemma read_name_iff:
  "read_name data what pos = Inr (s, pos') \<longleftrightarrow> good_text s \<and> slice data pos pos' (enc_name s)"
proof
  assume "read_name data what pos = Inr (s, pos')"
  from this [unfolded read_name_def and_then_pair unless_error read_u32_iff take_bytes_iff sum.inject prod.inject]
  show "good_text s \<and> slice data pos pos' (enc_name s)"
  proof (elim exE conjE)
    fix len p b q
    assume l: "slice data pos p (le_bytes 4 len)" "\<not> (len = 0 \<or> MAX_NAME_LEN < len)" "length b = len" "slice data p q b"
      "\<not> \<not> utf8_valid (map unat b)" "\<not> control_in (text_of_bytes b)" "text_of_bytes b = s" "q = pos'"
    have "p = pos + 4" using slice_length [OF l(1)] by simp
    then show ?thesis using l by (auto simp: good_text_def enc_name_def slice_append)
  qed
next
  assume s: "good_text s \<and> slice data pos pos' (enc_name s)"
  then have "slice data pos (pos + 4) (le_bytes 4 (length s))" "slice data (pos + 4) pos' (bytes_of_text s)"
    by (simp_all add: enc_name_def slice_append)
  then show "read_name data what pos = Inr (s, pos')"
    using s map_unat_bytes [of s]
    unfolding read_name_def and_then_pair unless_error read_u32_iff take_bytes_iff
    by (intro exI [of _ "length s"] exI [of _ "pos + 4"] exI [of _ "bytes_of_text s"] exI [of _ pos'])
      (auto simp: good_text_def MAX_NAME_LEN_def)
qed

lemma sid_case:
  "(case bytes_to_sid_str b of Inl e \<Rightarrow> Inl (g e) | Inr sid \<Rightarrow> f sid) = Inr y
     \<longleftrightarrow> (\<exists>sid. bytes_to_sid_str b = Inr sid \<and> f sid = Inr y)"
  by (cases "bytes_to_sid_str b") auto

lemma exact_sid_parsed: "8 + unat (b ! 1) * 4 = length b \<Longrightarrow> bytes_to_sid_str b = Inr (sid_of_bytes b)"
  by (simp add: sid_of_bytes_def bytes_to_sid_str_def Let_def)

definition domain_of :: "nat \<Rightarrow> u8 list \<Rightarrow> string \<Rightarrow> string \<Rightarrow> ForestTrustDomain" where
  "domain_of flags sid dns netbios =
     \<lparr>ft_dns_name = dns, ft_netbios_name = netbios, ft_sid = sid_of_bytes sid, ft_flags = of_nat flags\<rparr>"

lemma domain_record_iff:
  "domain_record data i flags pos = Inr (d, pos') \<longleftrightarrow>
     (\<exists>sid dns netbios. good_body (DomainInfo sid dns netbios) \<and> slice data pos pos' (enc_body (DomainInfo sid dns netbios))
        \<and> d = domain_of flags sid dns netbios)"
proof
  assume "domain_record data i flags pos = Inr (d, pos')"
  from this [unfolded domain_record_def and_then_pair unless_error sid_case read_u32_iff take_bytes_iff read_name_iff
      sum.inject prod.inject]
  show "\<exists>sid dns netbios. good_body (DomainInfo sid dns netbios) \<and> slice data pos pos' (enc_body (DomainInfo sid dns netbios))
        \<and> d = domain_of flags sid dns netbios"
  proof (elim exE conjE)
    fix len p sid q shown dns p1 netbios p2
    assume l: "slice data pos p (le_bytes 4 len)" "\<not> (len < 8 \<or> MAX_SID_LEN < len)" "length sid = len" "slice data p q sid"
      "\<not> 8 + unat (sid ! 1) * 4 \<noteq> length sid" "bytes_to_sid_str sid = Inr shown" "good_text dns" "slice data q p1 (enc_name dns)"
      "good_text netbios" "slice data p1 p2 (enc_name netbios)" "p2 = pos'"
      and d: "\<lparr>ft_dns_name = dns, ft_netbios_name = netbios, ft_sid = shown, ft_flags = of_nat flags\<rparr> = d"
    have shown: "shown = sid_of_bytes sid" using l(6) by (simp add: sid_of_bytes_def)
    have ends: "p = pos + 4" "q = p + length sid" "p1 = q + length (enc_name dns)"
      using slice_length [OF l(1)] slice_length [OF l(4)] slice_length [OF l(8)] by simp_all
    have "slice data pos pos' (enc_body (DomainInfo sid dns netbios))"
      using l ends by (simp add: slice_append)
    moreover have "good_body (DomainInfo sid dns netbios)" using l by auto
    moreover have "d = domain_of flags sid dns netbios" using d shown by (simp add: domain_of_def)
    ultimately show ?thesis by blast
  qed
next
  assume "\<exists>sid dns netbios. good_body (DomainInfo sid dns netbios) \<and> slice data pos pos' (enc_body (DomainInfo sid dns netbios))
        \<and> d = domain_of flags sid dns netbios"
  then obtain sid dns netbios where g: "good_body (DomainInfo sid dns netbios)"
    and "slice data pos pos' (enc_body (DomainInfo sid dns netbios))" and d: "d = domain_of flags sid dns netbios" by blast
  then have s: "slice data pos (pos + 4) (le_bytes 4 (length sid))" "slice data (pos + 4) (pos + 4 + length sid) sid"
    "slice data (pos + 4 + length sid) (pos + 4 + length sid + length (enc_name dns)) (enc_name dns)"
    "slice data (pos + 4 + length sid + length (enc_name dns)) pos' (enc_name netbios)"
    by (simp_all add: slice_append)
  have sid: "bytes_to_sid_str sid = Inr (sid_of_bytes sid)" using g by (intro exact_sid_parsed) simp
  have "length sid < 2 ^ 32" using g by (simp add: MAX_SID_LEN_def)
  then have "read_u32 data what pos = Inr (length sid, pos + 4)" for what using s(1) by (simp add: read_u32_iff)
  moreover have "take_bytes data (length sid) what (pos + 4) = Inr (sid, pos + 4 + length sid)" for what
    using s(2) by (simp add: take_bytes_iff)
  moreover have "read_name data what (pos + 4 + length sid) = Inr (dns, pos + 4 + length sid + length (enc_name dns))" for what
    using s(3) g by (simp add: read_name_iff)
  moreover have "read_name data what (pos + 4 + length sid + length (enc_name dns)) = Inr (netbios, pos')" for what
    using s(4) g by (simp add: read_name_iff)
  ultimately show "domain_record data i flags pos = Inr (d, pos')"
    using g sid d by (simp add: domain_record_def domain_of_def)
qed

lemma unknown_record_iff:
  "unknown_record data i t len start pos = Inr (xs, pos') \<longleftrightarrow>
     len \<noteq> 0 \<and> pos - start \<le> len \<and> length xs = len - (pos - start) \<and> slice data pos pos' xs"
  by (auto simp: unknown_record_def take_bytes_iff)

definition body_record :: "nat \<Rightarrow> RecordBody \<Rightarrow> ForestTrustDomain list" where
  "body_record flags b = (case b of DomainInfo sid dns netbios \<Rightarrow> [domain_of flags sid dns netbios] | _ \<Rightarrow> [])"

lemma record_domains_body: "record_domains r = body_record (tr_flags r) (tr_body r)"
  by (simp add: record_domains_def body_record_def domain_of_def split: RecordBody.split)

lemma ex_body:
  "(\<exists>b. P b) \<longleftrightarrow> (\<exists>e s. P (TopLevelName e s)) \<or> (\<exists>sid dns netbios. P (DomainInfo sid dns netbios)) \<or> (\<exists>t xs. P (OtherRecord t xs))"
  by (metis RecordBody.exhaust)

lemma other_body:
  "t \<notin> {0, 1, 2} \<Longrightarrow> (\<exists>b. good_body b \<and> body_type b = t \<and> Q b) \<longleftrightarrow> (\<exists>xs. Q (OtherRecord t xs))"
  by (subst ex_body) auto

lemma name_body:
  assumes "t = 0 \<or> t = 1"
  shows "(\<exists>b. good_body b \<and> body_type b = t \<and> Q b) \<longleftrightarrow> (\<exists>s. good_text s \<and> Q (TopLevelName (t = 1) s))"
  using assms by (subst ex_body) (auto split: if_splits)

lemma domain_body:
  "(\<exists>b. good_body b \<and> body_type b = 2 \<and> Q b) \<longleftrightarrow>
     (\<exists>sid dns netbios. good_body (DomainInfo sid dns netbios) \<and> Q (DomainInfo sid dns netbios))"
  by (subst ex_body) (auto split: if_splits)

lemma record_data_iff:
  "record_data data i (unat t) len flags start pos = Inr (ds, pos') \<longleftrightarrow>
     (\<exists>b. good_body b \<and> body_type b = t \<and> slice data pos pos' (enc_body b) \<and> ds = body_record flags b
        \<and> (t \<notin> {0, 1, 2} \<longrightarrow> len \<noteq> 0 \<and> pos - start \<le> len \<and> length (enc_body b) = len - (pos - start)))"
proof -
  have word: "unat t = 0 \<longleftrightarrow> t = 0" "unat t = 1 \<longleftrightarrow> t = 1" "unat t = 2 \<longleftrightarrow> t = 2"
    by (simp_all add: word_unat_eq_iff)
  consider "t = 0" | "t = 1" | "t = 2" | "t \<notin> {0, 1, 2}" by blast
  then show ?thesis
  proof cases
    case 1
    have "record_data data i (unat t) len flags start pos = Inr (ds, pos') \<longleftrightarrow>
        (\<exists>s. good_text s \<and> slice data pos pos' (enc_name s) \<and> ds = [])"
      using 1 by (auto simp: record_data_def and_then_pair read_name_iff)
    with 1 show ?thesis by (simp add: name_body body_record_def del: good_body.simps)
  next
    case 2
    have "record_data data i (unat t) len flags start pos = Inr (ds, pos') \<longleftrightarrow>
        (\<exists>s. good_text s \<and> slice data pos pos' (enc_name s) \<and> ds = [])"
      using 2 by (auto simp: record_data_def and_then_pair read_name_iff)
    with 2 show ?thesis by (simp add: name_body body_record_def del: good_body.simps)
  next
    case 3
    have "record_data data i (unat t) len flags start pos = Inr (ds, pos') \<longleftrightarrow>
        (\<exists>d. domain_record data i flags pos = Inr (d, pos') \<and> ds = [d])"
      using 3 word by (auto simp: record_data_def and_then_pair)
    with 3 show ?thesis
      by (simp add: domain_body body_record_def domain_record_iff del: good_body.simps enc_body.simps) blast
  next
    case 4
    have "record_data data i (unat t) len flags start pos = Inr (ds, pos') \<longleftrightarrow>
        (\<exists>xs. unknown_record data i (unat t) len start pos = Inr (xs, pos') \<and> ds = [])"
      using 4 word by (auto simp: record_data_def and_then_pair)
    with 4 show ?thesis by (auto simp: other_body body_record_def unknown_record_iff)
  qed
qed


lemma length_enc_name [simp]: "length (enc_name s) = 4 + length s"
  by (simp add: enc_name_def map_unat_bytes)

lemma length_enc_after:
  "length (enc_after_length r) = 5 + length (tr_timestamp r) + length (enc_body (tr_body r))"
  by (simp add: enc_after_length_def)

lemma known_record_short:
  assumes "good_body b" "body_type b \<in> {0, 1, 2}"
  shows "length (enc_body b) < 1000"
  using assms by (cases b) (auto simp: good_text_def MAX_NAME_LEN_def MAX_SID_LEN_def split: if_splits)

lemma other_record_type: "good_body b \<Longrightarrow> (\<exists>t xs. b = OtherRecord t xs) \<longleftrightarrow> body_type b \<notin> {0, 1, 2}"
  by (cases b) auto

lemma slice_record:
  assumes "length ts = 8"
  shows "slice data pos pos' (le_bytes 4 len @ le_bytes 4 flags @ ts @ [t] @ body) \<longleftrightarrow>
     slice data pos (pos + 4) (le_bytes 4 len) \<and> slice data (pos + 4) (pos + 8) (le_bytes 4 flags)
     \<and> slice data (pos + 8) (pos + 16) ts \<and> slice data (pos + 16) (pos + 17) [t] \<and> slice data (pos + 17) pos' body"
proof -
  have p: "pos + 4 + 4 = pos + 8" "pos + 8 + 8 = pos + 16" "pos + 16 + length [t] = pos + 17" by simp_all
  show ?thesis by (simp only: slice_append length_le_bytes assms p)
qed

lemma trust_record_steps:
  "trust_record data i pos = Inr (ds, pos') \<longleftrightarrow>
     (\<exists>len flags ts t b. len < 2 ^ 32 \<and> flags < 2 ^ 32 \<and> length ts = 8 \<and> good_body b \<and> body_type b = t
        \<and> slice data pos pos' (le_bytes 4 len @ le_bytes 4 flags @ ts @ [t] @ enc_body b) \<and> ds = body_record flags b
        \<and> (t \<notin> {0, 1, 2} \<longrightarrow> len \<noteq> 0) \<and> len \<in> {0, 13 + length (enc_body b)})"
proof
  assume "trust_record data i pos = Inr (ds, pos')"
  from this [unfolded trust_record_def and_then_pair unless_error read_u32_iff read_u8_iff take_bytes_iff sum.inject prod.inject]
  show "\<exists>len flags ts t b. len < 2 ^ 32 \<and> flags < 2 ^ 32 \<and> length ts = 8 \<and> good_body b \<and> body_type b = t
        \<and> slice data pos pos' (le_bytes 4 len @ le_bytes 4 flags @ ts @ [t] @ enc_body b) \<and> ds = body_record flags b
        \<and> (t \<notin> {0, 1, 2} \<longrightarrow> len \<noteq> 0) \<and> len \<in> {0, 13 + length (enc_body b)}"
  proof (elim exE conjE)
    fix len start flags p1 ts p2 rt p3 ds' p4 t
    assume l: "len < 2 ^ 32" "slice data pos start (le_bytes 4 len)" "flags < 2 ^ 32" "slice data start p1 (le_bytes 4 flags)"
      "length ts = 8" "slice data p1 p2 ts" "slice data p2 p3 [t]" "rt = unat t"
      "record_data data i rt len flags start p3 = Inr (ds', p4)" "\<not> (len \<noteq> 0 \<and> len \<noteq> p4 - start)" "ds' = ds" "p4 = pos'"
    obtain b where b: "good_body b" "body_type b = t" "slice data p3 p4 (enc_body b)" "ds = body_record flags b"
      "t \<notin> {0, 1, 2} \<longrightarrow> len \<noteq> 0"
      using l(8,9,11) by (auto simp: record_data_iff)
    have ends: "start = pos + 4" "p1 = pos + 8" "p2 = pos + 16" "p3 = pos + 17" "p4 = pos + 17 + length (enc_body b)"
      using slice_length [OF l(2)] slice_length [OF l(4)] slice_length [OF l(6)] slice_length [OF l(7)] slice_length [OF b(3)] l(5)
      by simp_all
    have "slice data pos pos' (le_bytes 4 len @ le_bytes 4 flags @ ts @ [t] @ enc_body b)"
      using l b(3) ends by (simp only: slice_record [OF l(5)])
    moreover have "len \<in> {0, 13 + length (enc_body b)}" using l(10) ends by auto
    ultimately show ?thesis using l(1,3,5) b by blast
  qed
next
  assume "\<exists>len flags ts t b. len < 2 ^ 32 \<and> flags < 2 ^ 32 \<and> length ts = 8 \<and> good_body b \<and> body_type b = t
        \<and> slice data pos pos' (le_bytes 4 len @ le_bytes 4 flags @ ts @ [t] @ enc_body b) \<and> ds = body_record flags b
        \<and> (t \<notin> {0, 1, 2} \<longrightarrow> len \<noteq> 0) \<and> len \<in> {0, 13 + length (enc_body b)}"
  then obtain len flags ts t b where l: "len < 2 ^ 32" "flags < 2 ^ 32" "length ts = 8" "good_body b" "body_type b = t"
    and s: "slice data pos pos' (le_bytes 4 len @ le_bytes 4 flags @ ts @ [t] @ enc_body b)"
    and d: "ds = body_record flags b" "t \<notin> {0, 1, 2} \<longrightarrow> len \<noteq> 0" "len \<in> {0, 13 + length (enc_body b)}"
    by blast
  from s have s: "slice data pos (pos + 4) (le_bytes 4 len)" "slice data (pos + 4) (pos + 8) (le_bytes 4 flags)"
    "slice data (pos + 8) (pos + 16) ts" "slice data (pos + 16) (pos + 17) [t]" "slice data (pos + 17) pos' (enc_body b)"
    by (simp_all only: slice_record [OF l(3)])
  have "read_u32 data what pos = Inr (len, pos + 4)" "read_u32 data what (pos + 4) = Inr (flags, pos + 8)"
    "take_bytes data 8 what (pos + 8) = Inr (ts, pos + 16)" "read_u8 data what (pos + 16) = Inr (unat t, pos + 17)" for what
    using l s by (simp_all add: read_u32_iff take_bytes_iff read_u8_iff exI [of _ t])
  moreover have "record_data data i (unat t) len flags (pos + 4) (pos + 17) = Inr (ds, pos')"
    unfolding record_data_iff using l s d by (intro exI [of _ b]) auto
  moreover have "pos' = pos + 17 + length (enc_body b)" using slice_length [OF s(5)] by simp
  ultimately show "trust_record data i pos = Inr (ds, pos')"
    using d by (auto simp: trust_record_def)
qed

lemma trust_record_iff:
  "trust_record data i pos = Inr (ds, pos') \<longleftrightarrow>
     (\<exists>r. good_record r \<and> slice data pos pos' (enc_record r) \<and> ds = record_domains r)"
proof
  assume "trust_record data i pos = Inr (ds, pos')"
  then obtain len flags ts t b where l: "len < 2 ^ 32" "flags < 2 ^ 32" "length ts = 8" "good_body b" "body_type b = t"
    and s: "slice data pos pos' (le_bytes 4 len @ le_bytes 4 flags @ ts @ [t] @ enc_body b)"
    and d: "ds = body_record flags b" "t \<notin> {0, 1, 2} \<longrightarrow> len \<noteq> 0" "len \<in> {0, 13 + length (enc_body b)}"
    unfolding trust_record_steps by blast
  define r where "r = \<lparr>tr_flags = flags, tr_timestamp = ts, tr_sized = (len \<noteq> 0), tr_body = b\<rparr>"
  have "length (enc_body b) < 2 ^ 32 - 13"
    using known_record_short [OF l(4)] l(1,5) d(2,3) by fastforce
  then have "good_record r"
    using l d(2) other_record_type [OF l(4)] by (auto simp: r_def good_record_def length_enc_after)
  moreover have "enc_record r = le_bytes 4 len @ le_bytes 4 flags @ ts @ [t] @ enc_body b"
    using l d(3) by (auto simp: r_def enc_record_def length_enc_after enc_after_length_def)
  moreover have "ds = record_domains r" using d(1) by (simp add: record_domains_body r_def)
  ultimately show "\<exists>r. good_record r \<and> slice data pos pos' (enc_record r) \<and> ds = record_domains r" using s by auto
next
  assume "\<exists>r. good_record r \<and> slice data pos pos' (enc_record r) \<and> ds = record_domains r"
  then obtain r where r: "good_record r" "slice data pos pos' (enc_record r)" "ds = record_domains r" by blast
  have "body_type (tr_body r) \<notin> {0, 1, 2} \<longrightarrow> tr_sized r"
    using r(1) other_record_type [of "tr_body r"] by (auto simp: good_record_def)
  then show "trust_record data i pos = Inr (ds, pos')"
    unfolding trust_record_steps using r
    by (intro exI [of _ "if tr_sized r then length (enc_after_length r) else 0"] exI [of _ "tr_flags r"]
        exI [of _ "tr_timestamp r"] exI [of _ "body_type (tr_body r)"] exI [of _ "tr_body r"])
      (auto simp: good_record_def enc_record_def enc_after_length_def record_domains_body)
qed

lemma ex_Suc_length: "(\<exists>xs. length xs = Suc n \<and> P xs) \<longleftrightarrow> (\<exists>x xs. length xs = n \<and> P (x # xs))"
  by (auto simp: length_Suc_conv)

lemma slice_concat_Cons: "slice data p q (concat (map f (x # xs))) \<longleftrightarrow>
     slice data p (p + length (f x)) (f x) \<and> slice data (p + length (f x)) q (concat (map f xs))"
  by (simp add: slice_append)

lemma trust_records_iff:
  "trust_records data i n domains pos = Inr (ds, pos') \<and> pos \<le> length data \<longleftrightarrow>
     (\<exists>rs. list_all good_record rs \<and> length rs = n \<and> slice data pos pos' (concat (map enc_record rs))
        \<and> ds = domains @ concat (map record_domains rs))"
proof (induction n arbitrary: i domains pos)
  case 0
  then show ?case by (auto simp: slice_def)
next
  case (Suc n)
  have "trust_records data i (Suc n) domains pos = Inr (ds, pos') \<and> pos \<le> length data \<longleftrightarrow>
      (\<exists>d p. trust_record data i pos = Inr (d, p) \<and> trust_records data (i + 1) n (domains @ d) p = Inr (ds, pos') \<and> p \<le> length data)"
    by (auto simp: and_then_pair trust_record_iff dest: slice_length)
  also have "\<dots> \<longleftrightarrow> (\<exists>r rs p. good_record r \<and> slice data pos p (enc_record r) \<and> list_all good_record rs \<and> length rs = n
      \<and> slice data p pos' (concat (map enc_record rs)) \<and> ds = (domains @ record_domains r) @ concat (map record_domains rs))"
    unfolding Suc.IH trust_record_iff by blast
  also have "\<dots> \<longleftrightarrow> (\<exists>r rs. good_record r \<and> list_all good_record rs \<and> length rs = n
      \<and> slice data pos pos' (concat (map enc_record (r # rs))) \<and> ds = domains @ concat (map record_domains (r # rs)))"
    unfolding slice_concat_Cons by (auto dest: slice_length)
  also have "\<dots> \<longleftrightarrow> (\<exists>rs. list_all good_record rs \<and> length rs = Suc n \<and> slice data pos pos' (concat (map enc_record rs))
      \<and> ds = domains @ concat (map record_domains rs))"
    using ex_Suc_length [of n "\<lambda>rs. list_all good_record rs \<and> slice data pos pos' (concat (map enc_record rs))
      \<and> ds = domains @ concat (map record_domains rs)"]
    by (simp add: conj_ac)
  finally show ?case .
qed


text \<open>C30: The forest trust information is read exactly: the parser answers a list of domains for
  precisely the values that encode at most 10000 records, with names and SIDs in their bounds, and
  the answer is the list of the domains of these records, in their order. Every other value is an
  error.\<close>

theorem forest_information_read_exactly:
  "parse_forest_trust_info data = Inr ds \<longleftrightarrow>
     (\<exists>rs. list_all good_record rs \<and> length rs \<le> MAX_RECORDS \<and> data = enc_info rs \<and> ds = concat (map record_domains rs))"
proof -
  have "parse_forest_trust_info data = Inr ds \<longleftrightarrow>
      (\<exists>v p n q q'. v < 2 ^ 32 \<and> slice data 0 p (le_bytes 4 v) \<and> v = 1 \<and> n < 2 ^ 32 \<and> slice data p q (le_bytes 4 n)
         \<and> n \<le> MAX_RECORDS \<and> trust_records data 0 n [] q = Inr (ds, q') \<and> q' = length data)"
    unfolding parse_forest_trust_info_def and_then_pair unless_error read_u32_iff sum.inject not_not not_less
    by (intro iffI; elim exE conjE; intro exI conjI; assumption?; simp?)
  also have "\<dots> \<longleftrightarrow> (\<exists>n. n \<le> MAX_RECORDS \<and> slice data 0 4 (le_bytes 4 1) \<and> slice data 4 8 (le_bytes 4 n)
         \<and> trust_records data 0 n [] 8 = Inr (ds, length data) \<and> 8 \<le> length data)"
    (is "?L \<longleftrightarrow> ?R")
  proof
    assume ?L
    then obtain p n q where n: "n \<le> MAX_RECORDS" "slice data 0 p (le_bytes 4 1)" "slice data p q (le_bytes 4 n)"
      "trust_records data 0 n [] q = Inr (ds, length data)" by blast
    have "p = 4" "q = 8" "8 \<le> length data" using slice_length [OF n(2)] slice_length [OF n(3)] by auto
    then show ?R using n by blast
  next
    assume ?R
    then obtain n where n: "n \<le> MAX_RECORDS" "slice data 0 4 (le_bytes 4 1)" "slice data 4 8 (le_bytes 4 n)"
      "trust_records data 0 n [] 8 = Inr (ds, length data)" by blast
    moreover have "n < 2 ^ 32" using n(1) by (simp add: MAX_RECORDS_def)
    ultimately show ?L
      by (intro exI [of _ 1] exI [of _ 4] exI [of _ n] exI [of _ 8] exI [of _ "length data"]) simp
  qed
  also have "\<dots> \<longleftrightarrow> (\<exists>n rs. n \<le> MAX_RECORDS \<and> slice data 0 4 (le_bytes 4 1) \<and> slice data 4 8 (le_bytes 4 n)
      \<and> list_all good_record rs \<and> length rs = n \<and> slice data 8 (length data) (concat (map enc_record rs))
      \<and> ds = concat (map record_domains rs))"
    unfolding trust_records_iff by simp
  also have "\<dots> \<longleftrightarrow> (\<exists>rs. list_all good_record rs \<and> length rs \<le> MAX_RECORDS \<and> slice data 0 (length data) (enc_info rs)
      \<and> ds = concat (map record_domains rs))"
    by (auto simp: enc_info_def slice_append)
  finally show ?thesis by (simp add: slice_def)
qed

end
