(* ===== verification/Directory.thy ===== *)
theory Directory
  imports Forest_Trust Membership
begin

unbundle bit_operations_syntax

text \<open>
  Entries of the directory (\<open>crates/ad_resolver/src/ldap_client.rs\<close>, \<open>resolver.rs\<close>): the values of an
  attribute, the identity an entry describes, its primary group, the members of a group, and the
  SIDs and distinguished names these rest on.
\<close>

section \<open>Case\<close>

definition upper :: "char \<Rightarrow> char" where
  "upper c = (if ascii_lower c then char_of (code c - 32) else c)"

definition to_ascii_uppercase :: "string \<Rightarrow> string" where
  "to_ascii_uppercase s = map upper s"

lemma upper_eq_iff: "upper c = upper d \<longleftrightarrow> lower c = lower d"
proof -
  have range: "code c < 256" "code d < 256" by (simp_all add: code_def)
  have inj: "x = y \<longleftrightarrow> code x = code y" for x y by (simp add: code_def)
  have l: "code (lower x) = (if 65 \<le> code x \<and> code x \<le> 90 then code x + 32 else code x)" for x
    by (simp add: code_lower ascii_upper_def)
  have u: "code (upper x) = (if 97 \<le> code x \<and> code x \<le> 122 then code x - 32 else code x)" if "code x < 256" for x
    using that by (auto simp: upper_def ascii_lower_def code_def take_bit_eq_mod intro!: mod_less)
  show ?thesis unfolding inj [of "upper c"] inj [of "lower c"] u [OF range(1)] u [OF range(2)] l
    by (auto split: if_splits)
qed

lemma uppercase_eq_iff [simp]: "to_ascii_uppercase s = to_ascii_uppercase t \<longleftrightarrow> eq_ignore_ascii_case s t"
  by (auto simp: to_ascii_uppercase_def eq_ignore_ascii_case_def to_ascii_lowercase_def list_eq_iff_nth_eq upper_eq_iff)

lemma eq_ignore_refl [simp]: "eq_ignore_ascii_case s s"
  by (simp add: eq_ignore_ascii_case_def)

section \<open>Entries\<close>

record RawEntry =
  re_dn :: string
  re_attrs :: "string \<Rightarrow> string list option"
  re_bin_attrs :: "string \<Rightarrow> u8 list list option"

definition first_of :: "'a list option \<Rightarrow> 'a option" where
  \<comment> \<open>\<open>get(..).and_then(first)\<close>.\<close>
  "first_of vs = (case vs of Some (v # _) \<Rightarrow> Some v | _ \<Rightarrow> None)"

definition values_of :: "'a list option \<Rightarrow> 'a list" where
  "values_of vs = (case vs of Some l \<Rightarrow> l | None \<Rightarrow> [])"

definition first_attr :: "RawEntry \<Rightarrow> string \<Rightarrow> string option" where
  "first_attr e attr = first_of (re_attrs e attr)"

definition first_bin_attr :: "RawEntry \<Rightarrow> string \<Rightarrow> u8 list option" where
  "first_bin_attr e attr =
     (case first_of (re_bin_attrs e attr) of Some v \<Rightarrow> Some v
      | None \<Rightarrow> map_option bytes_of_text (first_of (re_attrs e attr)))"

definition all_attr :: "RawEntry \<Rightarrow> string \<Rightarrow> string list" where
  "all_attr e attr = values_of (re_attrs e attr)"

definition value_count :: "RawEntry \<Rightarrow> string \<Rightarrow> nat" where
  "value_count e attr = length (values_of (re_attrs e attr)) + length (values_of (re_bin_attrs e attr))"

definition all_values :: "RawEntry \<Rightarrow> string \<Rightarrow> u8 list list" where
  "all_values e attr = map bytes_of_text (values_of (re_attrs e attr)) @ values_of (re_bin_attrs e attr)"

lemma length_all_values [simp]: "length (all_values e attr) = value_count e attr"
  by (simp add: all_values_def value_count_def)

section \<open>SIDs and distinguished names\<close>

definition u32_text :: "string \<Rightarrow> bool" where
  \<comment> \<open>\<open>parse::<u32>().is_ok()\<close>.\<close>
  "u32_text p \<longleftrightarrow> parse_uint (2 ^ 32) p \<noteq> None"

definition domain_sid_parts :: "string list \<Rightarrow> bool" where
  "domain_sid_parts parts \<longleftrightarrow>
     eq_ignore_ascii_case (parts ! 0) ''S'' \<and> take 3 (drop 1 parts) = [''1'', ''5'', ''21'']
     \<and> list_all (\<lambda>p. p \<noteq> [] \<and> u32_text p) (drop 4 parts)"

definition account_domain_of :: "Sid \<Rightarrow> string option" where
  "account_domain_of sid =
     (let parts = split_on (CHR ''-'') sid
      in if length parts \<noteq> 8 \<or> \<not> domain_sid_parts parts then None else Some (join ''-'' (take 7 parts)))"

definition is_domain_sid :: "string \<Rightarrow> bool" where
  "is_domain_sid s = (let parts = split_on (CHR ''-'') s in length parts = 7 \<and> domain_sid_parts parts)"

definition domain_root_dn :: "string \<Rightarrow> string option" where
  "domain_root_dn base_dn =
     (let dcs = filter (\<lambda>rdn. eq_ignore_ascii_case (take 3 rdn) ''DC='') (map trim (split_on (CHR '','') base_dn))
      in if dcs = [] then None else Some (join '','' dcs))"

fun replace_pair :: "char \<Rightarrow> char \<Rightarrow> string \<Rightarrow> string \<Rightarrow> string" where
  \<comment> \<open>\<open>str::replace\<close> with a pattern of two different characters.\<close>
  "replace_pair a b r (x # y # s) =
     (if x = a \<and> y = b then r @ replace_pair a b r s else x # replace_pair a b r (y # s))"
| "replace_pair a b r s = s"

definition norm_dn :: "string \<Rightarrow> string list" where
  "norm_dn dn = map (\<lambda>rdn. to_ascii_lowercase
     (replace_pair (CHR ''='') (CHR '' '') ''='' (replace_pair (CHR '' '') (CHR ''='') ''='' (trim rdn))))
     (split_on (CHR '','') dn)"

definition dn_eq :: "string \<Rightarrow> string \<Rightarrow> bool" where
  "dn_eq a b \<longleftrightarrow> norm_dn a = norm_dn b"

definition dn_to_domain :: "string \<Rightarrow> string option" where
  "dn_to_domain dn =
     (let dc_parts = filter_map (\<lambda>p. strip_prefix ''DC='' (trim p)) (split_on (CHR '','') dn)
      in if dc_parts = [] then None else Some (join ''.'' dc_parts))"

definition rid_from_sid :: "Sid \<Rightarrow> nat option" where
  "rid_from_sid sid = parse_uint (2 ^ 32) (last (split_on (CHR ''-'') sid))"

definition sid_domain_prefix :: "Sid \<Rightarrow> string option" where
  "sid_domain_prefix sid = map_option fst (rsplit_once (CHR ''-'') sid)"

section \<open>The identity of an entry\<close>

definition UAC_ACCOUNT_DISABLE :: u32 where "UAC_ACCOUNT_DISABLE = 0x2"

definition classify_identity :: "string list \<Rightarrow> IdentityKind" where
  "classify_identity classes =
     (if ''computer'' \<in> set classes then Computer
      else if ''group'' \<in> set classes then Group
      else if ''user'' \<in> set classes then User
      else if ''foreignSecurityPrincipal'' \<in> set classes then ForeignSecurityPrincipal
      else IdentityKind.Unknown)"

definition parse_sid_history :: "RawEntry \<Rightarrow> nat \<times> Sid list" where
  "parse_sid_history e =
     (value_count e ''sIDHistory'', filter_map (\<lambda>b. ok (bytes_to_sid_str b)) (all_values e ''sIDHistory''))"

definition extract_sid_from_entry :: "RawEntry \<Rightarrow> Sid option" where
  "extract_sid_from_entry e = Option.bind (first_bin_attr e ''objectSid'') (\<lambda>b. ok (bytes_to_sid_str b))"

definition parse_identity_from_entry :: "RawEntry \<Rightarrow> Sid \<Rightarrow> Identity" where
  "parse_identity_from_entry e sid =
     (let sid_history = parse_sid_history e in
      \<lparr>id_sid = sid,
       id_name = (case first_attr e ''sAMAccountName'' of Some n \<Rightarrow> Some n | None \<Rightarrow> first_attr e ''cn''),
       id_domain = dn_to_domain (re_dn e),
       id_kind = classify_identity (all_attr e ''objectClass''),
       id_disabled = (case Option.bind (first_attr e ''userAccountControl'') (parse_uint (2 ^ 32)) of
           Some uac \<Rightarrow> (of_nat uac :: u32) AND UAC_ACCOUNT_DISABLE \<noteq> 0 | None \<Rightarrow> False),
       id_user_principal_name =
         (case first_attr e ''userPrincipalName'' of Some s \<Rightarrow> if s = [] then None else Some s | None \<Rightarrow> None),
       id_sid_history_count = fst sid_history,
       id_sid_history = snd sid_history\<rparr>)"

section \<open>The primary group\<close>

datatype PrimaryGroupLookup = Found Sid RawEntry | Missing string | NotApplicable

definition resolve_primary_group ::
    "(string \<Rightarrow> string \<Rightarrow> CoreError + RawEntry option) \<Rightarrow> RawEntry \<Rightarrow> string \<Rightarrow> PrimaryGroupLookup" where
  \<comment> \<open>\<open>search_by_sid\<close> is the search of the LDAP client over a connection: base and SID to the entry found.\<close>
  "resolve_primary_group search_by_sid e base_dn =
     (let kind = classify_identity (all_attr e ''objectClass'') in
      case first_attr e ''primaryGroupID'' of
        None \<Rightarrow>
          (if kind = User \<or> kind = Computer
           then Missing (''the primaryGroupID of '' @ re_dn e @ '' is not readable '' @ em_dash
       @ '' its primary group is not in the evaluated token'')
           else NotApplicable)
      | Some raw_id \<Rightarrow>
          (case parse_uint (2 ^ 32) (trim raw_id) of
             None \<Rightarrow> Missing (''the primaryGroupID '' @ squote @ raw_id @ squote @ '' of '' @ re_dn e
       @ '' is not a number '' @ em_dash
       @ '' its primary group is not in the evaluated token'')
           | Some rid \<Rightarrow>
               (case Option.bind (extract_sid_from_entry e) account_domain_of of
                  None \<Rightarrow> Missing (''the domain of '' @ re_dn e @ '' could not be derived from its objectSid '' @ em_dash
       @ '' its primary group is not in the evaluated token'')
                | Some domain_sid \<Rightarrow>
                    (let primary = domain_sid @ ''-'' @ dec rid in
                     case search_by_sid base_dn primary of
                       Inr (Some found) \<Rightarrow> Found primary found
                     | Inr None \<Rightarrow> Missing (''the primary group '' @ primary @ '' was not found under the configured LDAP base ''
       @ squote @ base_dn @ squote @ '' '' @ em_dash @ '' it is not in the evaluated token'')
                     | Inl err \<Rightarrow> Missing (''the primary group '' @ primary @ '' could not be read ('' @ error_text err @ '') ''
       @ em_dash @ '' it is not in the evaluated token'')))))"

section \<open>The members of a group\<close>

record GroupMemberEnumeration =
  ge_members :: "MemberNode list"
  ge_incomplete :: "string option"
  ge_universal_on_domain_bind :: bool

definition parse_i64 :: "string \<Rightarrow> int option" where
  "parse_i64 s =
     (case s of
        c # t \<Rightarrow>
          if c = CHR ''-'' then (if t = [] then None else map_option (\<lambda>n. - int n) (parse_digits (2 ^ 63 + 1) 0 t))
          else map_option int (parse_uint (2 ^ 63) s)
      | [] \<Rightarrow> None)"

definition is_universal_group_entry :: "RawEntry \<Rightarrow> bool" where
  "is_universal_group_entry e =
     (case Option.bind (first_attr e ''groupType'') parse_i64 of Some gt \<Rightarrow> gt AND 8 \<noteq> 0 | None \<Rightarrow> False)"

definition node_before :: "(string \<Rightarrow> string) \<Rightarrow> MemberNode \<Rightarrow> string \<times> string" where
  \<comment> \<open>The key the members are sorted by: the name in lower case, then the SID.\<close>
  "node_before to_lowercase m =
     (to_lowercase (case id_name (mn_identity m) of Some n \<Rightarrow> n | None \<Rightarrow> []), id_sid (mn_identity m))"

definition into_report :: "(string \<Rightarrow> string) \<Rightarrow> GroupMemberEnumeration \<Rightarrow> Identity \<Rightarrow> GroupMembersReport" where
  \<comment> \<open>\<open>to_lowercase\<close> is the Unicode mapping of the standard library.\<close>
  "into_report to_lowercase en grp =
     (let members = sort_key (node_before to_lowercase) (ge_members en);
          via_primary = length (filter (\<lambda>m. mn_via m = MemberVia.PrimaryGroup) members)
      in \<lparr>gr_group = grp, gr_members = members,
          gr_diagnostics =
            (if via_primary > 0 then [MembersViaPrimaryGroupIncluded via_primary] else [])
            @ (case ge_incomplete en of Some reason \<Rightarrow> [GroupMemberEnumerationIncomplete reason] | None \<Rightarrow> [])
            @ (if ge_universal_on_domain_bind en then [UniversalGroupCrossDomainMembersNotVisible] else [])\<rparr>)"

definition filter_same_domain :: "RawEntry list \<Rightarrow> Sid \<Rightarrow> RawEntry list" where
  "filter_same_domain entries group_sid =
     (case sid_domain_prefix group_sid of
        None \<Rightarrow> entries
      | Some group_domain \<Rightarrow>
          filter (\<lambda>e. (case Option.bind (extract_sid_from_entry e) sid_domain_prefix of
              Some p \<Rightarrow> p = group_domain | None \<Rightarrow> False)) entries)"

fun push_member_entries ::
    "RawEntry list \<Rightarrow> MemberVia \<Rightarrow> MemberNode list \<Rightarrow> string set \<Rightarrow> MemberNode list \<times> string set" where
  "push_member_entries [] via out seen = (out, seen)"
| "push_member_entries (e # rest) via out seen =
     (case extract_sid_from_entry e of
        None \<Rightarrow> push_member_entries rest via out seen
      | Some sid \<Rightarrow>
          (if sid \<in> seen then push_member_entries rest via out seen
           else push_member_entries rest via
                  (out @ [MemberNode (parse_identity_from_entry e sid) via []]) (insert sid seen)))"

end
