(* ===== verification/Ldap_Config.thy ===== *)
theory Ldap_Config
  imports Texts
begin

text \<open>
  The parameters of a connection to a directory (\<open>crates/ad_resolver/src/config.rs\<close>), its
  constructors, its URL, and the text a log shows of it.
\<close>

datatype TlsMode = Ldaps | Insecure | GssapiSign

record LdapConfig =
  cfg_server :: string
  cfg_port :: nat
  cfg_base_dn :: string
  cfg_bind_dn :: string
  cfg_bind_password :: string
  cfg_timeout_secs :: nat
  cfg_tls_mode :: TlsMode
  cfg_global_catalog :: bool

definition new_config :: "string \<Rightarrow> string \<Rightarrow> string \<Rightarrow> string \<Rightarrow> LdapConfig" where
  "new_config server base_dn bind_dn bind_password =
     \<lparr>cfg_server = server, cfg_port = 636, cfg_base_dn = base_dn, cfg_bind_dn = bind_dn,
      cfg_bind_password = bind_password, cfg_timeout_secs = 10, cfg_tls_mode = Ldaps,
      cfg_global_catalog = False\<rparr>"

definition new_insecure :: "string \<Rightarrow> string \<Rightarrow> string \<Rightarrow> string \<Rightarrow> LdapConfig" where
  "new_insecure server base_dn bind_dn bind_password =
     \<lparr>cfg_server = server, cfg_port = 389, cfg_base_dn = base_dn, cfg_bind_dn = bind_dn,
      cfg_bind_password = bind_password, cfg_timeout_secs = 10, cfg_tls_mode = Insecure,
      cfg_global_catalog = False\<rparr>"

definition new_global_catalog :: "string \<Rightarrow> string \<Rightarrow> string \<Rightarrow> string \<Rightarrow> LdapConfig" where
  "new_global_catalog server base_dn bind_dn bind_password =
     \<lparr>cfg_server = server, cfg_port = 3269, cfg_base_dn = base_dn, cfg_bind_dn = bind_dn,
      cfg_bind_password = bind_password, cfg_timeout_secs = 10, cfg_tls_mode = Ldaps,
      cfg_global_catalog = True\<rparr>"

definition new_global_catalog_insecure :: "string \<Rightarrow> string \<Rightarrow> string \<Rightarrow> string \<Rightarrow> LdapConfig" where
  "new_global_catalog_insecure server base_dn bind_dn bind_password =
     \<lparr>cfg_server = server, cfg_port = 3268, cfg_base_dn = base_dn, cfg_bind_dn = bind_dn,
      cfg_bind_password = bind_password, cfg_timeout_secs = 10, cfg_tls_mode = Insecure,
      cfg_global_catalog = True\<rparr>"

definition new_signed :: "string \<Rightarrow> string \<Rightarrow> LdapConfig" where
  "new_signed server base_dn =
     \<lparr>cfg_server = server, cfg_port = 389, cfg_base_dn = base_dn, cfg_bind_dn = [],
      cfg_bind_password = [], cfg_timeout_secs = 10, cfg_tls_mode = GssapiSign,
      cfg_global_catalog = False\<rparr>"

definition ldap_url :: "LdapConfig \<Rightarrow> string" where
  "ldap_url c =
     (case cfg_tls_mode c of
        Ldaps \<Rightarrow> ''ldaps://'' @ cfg_server c @ '':'' @ dec (cfg_port c)
      | Insecure \<Rightarrow> ''ldap://'' @ cfg_server c @ '':'' @ dec (cfg_port c)
      | GssapiSign \<Rightarrow> ''ldap://'' @ cfg_server c @ '':'' @ dec (cfg_port c))"

fun tls_debug :: "TlsMode \<Rightarrow> string" where
  "tls_debug Ldaps = ''Ldaps''"
| "tls_debug Insecure = ''Insecure''"
| "tls_debug GssapiSign = ''GssapiSign''"

definition config_debug :: "(string \<Rightarrow> string) \<Rightarrow> LdapConfig \<Rightarrow> string" where
  \<comment> \<open>\<open>shown\<close> is the Debug form of a text.\<close>
  "config_debug shown c =
     (let pw_placeholder = (if cfg_bind_password c = [] then ''<empty>'' else ''***'')
      in ''LdapConfig { server: '' @ shown (cfg_server c) @ '', port: '' @ dec (cfg_port c)
         @ '', base_dn: '' @ shown (cfg_base_dn c) @ '', bind_dn: '' @ shown (cfg_bind_dn c)
         @ '', bind_password: '' @ shown pw_placeholder @ '', timeout_secs: '' @ dec (cfg_timeout_secs c)
         @ '', tls_mode: '' @ tls_debug (cfg_tls_mode c)
         @ '', global_catalog: '' @ (if cfg_global_catalog c then ''true'' else ''false'') @ '' }'')"

lemma password_is_masked:
  "(p = []) = (q = []) \<Longrightarrow>
     config_debug shown (c\<lparr>cfg_bind_password := p\<rparr>) = config_debug shown (c\<lparr>cfg_bind_password := q\<rparr>)"
  by (simp add: config_debug_def Let_def)

lemma clear_transport_is_signed_or_chosen:
  "take 8 (ldap_url c) = ''ldaps://'' \<longleftrightarrow> cfg_tls_mode c = Ldaps"
  by (cases "cfg_tls_mode c") (simp_all add: ldap_url_def)

end
