(* ===== verification/Trusts.thy ===== *)
theory Trusts
  imports Directory Ldap_Config
begin

unbundle bit_operations_syntax

text \<open>
  The trusts of the configured domain (\<open>crates/core/src/model.rs\<close>, \<open>ad_resolver/src/trusts.rs\<close>,
  \<open>principal.rs\<close>, \<open>resolver.rs\<close>): what a trust object says, and what it tells about a SID the
  directory holds no object for.
\<close>

section \<open>Trust objects\<close>

datatype TrustDirection = Disabled | Inbound | Outbound | Bidirectional | Unknown u32

definition from_code :: "u32 \<Rightarrow> TrustDirection" where
  "from_code c =
     (if c = 0 then TrustDirection.Disabled else if c = 1 then Inbound else if c = 2 then Outbound
      else if c = 3 then Bidirectional else TrustDirection.Unknown c)"

definition direction_label :: "TrustDirection \<Rightarrow> string" where
  "direction_label d =
     (case d of TrustDirection.Disabled \<Rightarrow> ''disabled'' | Inbound \<Rightarrow> ''inbound'' | Outbound \<Rightarrow> ''outbound''
      | Bidirectional \<Rightarrow> ''bidirectional'' | TrustDirection.Unknown c \<Rightarrow> ''unknown ('' @ dec (unat c) @ '')'')"

record TrustAttributes =
  ta_raw :: u32

definition NON_TRANSITIVE :: u32 where "NON_TRANSITIVE = 0x1"
definition UPLEVEL_ONLY :: u32 where "UPLEVEL_ONLY = 0x2"
definition QUARANTINED_DOMAIN :: u32 where "QUARANTINED_DOMAIN = 0x4"
definition FOREST_TRANSITIVE :: u32 where "FOREST_TRANSITIVE = 0x8"
definition CROSS_ORGANIZATION :: u32 where "CROSS_ORGANIZATION = 0x10"
definition WITHIN_FOREST :: u32 where "WITHIN_FOREST = 0x20"
definition TREAT_AS_EXTERNAL :: u32 where "TREAT_AS_EXTERNAL = 0x40"
definition USES_RC4_ENCRYPTION :: u32 where "USES_RC4_ENCRYPTION = 0x80"
definition CROSS_ORGANIZATION_NO_TGT_DELEGATION :: u32 where "CROSS_ORGANIZATION_NO_TGT_DELEGATION = 0x200"
definition PIM_TRUST :: u32 where "PIM_TRUST = 0x400"

lemmas trust_flags = NON_TRANSITIVE_def UPLEVEL_ONLY_def QUARANTINED_DOMAIN_def FOREST_TRANSITIVE_def
  CROSS_ORGANIZATION_def WITHIN_FOREST_def TREAT_AS_EXTERNAL_def USES_RC4_ENCRYPTION_def
  CROSS_ORGANIZATION_NO_TGT_DELEGATION_def PIM_TRUST_def

definition from_bits :: "u32 \<Rightarrow> TrustAttributes" where
  "from_bits raw = \<lparr>ta_raw = raw\<rparr>"

definition ta_has :: "TrustAttributes \<Rightarrow> u32 \<Rightarrow> bool" where
  "ta_has a bits \<longleftrightarrow> ta_raw a AND bits \<noteq> 0"

definition sid_filtering_enabled :: "TrustAttributes \<Rightarrow> bool" where
  "sid_filtering_enabled a = ta_has a QUARANTINED_DOMAIN"

definition selective_authentication :: "TrustAttributes \<Rightarrow> bool" where
  "selective_authentication a = ta_has a CROSS_ORGANIZATION"

definition forest_transitive :: "TrustAttributes \<Rightarrow> bool" where
  "forest_transitive a = ta_has a FOREST_TRANSITIVE"

definition within_forest :: "TrustAttributes \<Rightarrow> bool" where
  "within_forest a = ta_has a WITHIN_FOREST"

definition trust_labels :: "TrustAttributes \<Rightarrow> string list" where
  "trust_labels a =
     (if ta_has a NON_TRANSITIVE then [''non-transitive''] else [])
     @ (if ta_has a UPLEVEL_ONLY then [''uplevel-only''] else [])
     @ (if ta_has a QUARANTINED_DOMAIN then [''SID-filtering (quarantined)''] else [])
     @ (if ta_has a FOREST_TRANSITIVE then [''forest-transitive''] else [])
     @ (if ta_has a CROSS_ORGANIZATION then [''selective-authentication''] else [])
     @ (if ta_has a WITHIN_FOREST then [''within-forest''] else [])
     @ (if ta_has a TREAT_AS_EXTERNAL then [''treat-as-external''] else [])
     @ (if ta_has a USES_RC4_ENCRYPTION then [''uses-RC4''] else [])
     @ (if ta_has a CROSS_ORGANIZATION_NO_TGT_DELEGATION then [''no-TGT-delegation''] else [])
     @ (if ta_has a PIM_TRUST then [''PIM-trust''] else [])"

record DomainTrust =
  dt_partner :: string
  dt_flat_name :: "string option"
  dt_direction :: TrustDirection
  dt_attributes :: TrustAttributes
  dt_sid :: "Sid option"
  dt_forest_domains :: "ForestTrustDomain list"
  dt_forest_info_error :: "string option"

definition u32_attr :: "RawEntry \<Rightarrow> string \<Rightarrow> u32 option" where
  \<comment> \<open>\<open>first_attr(..).and_then(|s| s.trim().parse::<u32>().ok())\<close>.\<close>
  "u32_attr e attr = map_option of_nat (Option.bind (first_attr e attr) (\<lambda>s. parse_uint (2 ^ 32) (trim s)))"

definition forest_information :: "RawEntry \<Rightarrow> TrustAttributes \<Rightarrow> ForestTrustDomain list \<times> string option" where
  "forest_information e attributes =
     (if forest_transitive attributes then
        (case first_bin_attr e ''msDS-TrustForestTrustInfo'' of
           Some b \<Rightarrow>
             (case parse_forest_trust_info b of
                Inr d \<Rightarrow> (d, None)
              | Inl err \<Rightarrow> ([], Some (''msDS-TrustForestTrustInfo could not be parsed: '' @ err)))
         | None \<Rightarrow> ([], Some (''msDS-TrustForestTrustInfo was not returned (missing, or not readable for ''
       @ ''the bind account)'')))
      else ([], None))"

definition parse_trust :: "RawEntry \<Rightarrow> DomainTrust option" where
  "parse_trust e =
     Option.bind (first_attr e ''trustPartner'') (\<lambda>raw.
       let partner = trim raw in
       if partner = [] then None
       else
         let attributes = (case u32_attr e ''trustAttributes'' of Some bits \<Rightarrow> from_bits bits | None \<Rightarrow> from_bits 0);
             forest = forest_information e attributes
         in Some
           \<lparr>dt_partner = partner,
            dt_flat_name = (case map_option trim (first_attr e ''flatName'') of
                Some s \<Rightarrow> if s = [] then None else Some s | None \<Rightarrow> None),
            dt_direction = (case u32_attr e ''trustDirection'' of
                Some c \<Rightarrow> from_code c | None \<Rightarrow> TrustDirection.Unknown 0xFFFFFFFF),
            dt_attributes = attributes,
            dt_sid = Option.bind (first_bin_attr e ''securityIdentifier'') (\<lambda>b. ok (bytes_to_sid_str b)),
            dt_forest_domains = fst forest,
            dt_forest_info_error = snd forest\<rparr>)"

section \<open>The trusted forest\<close>

record TrustedForest =
  tf_trust_partner :: string
  tf_domain_sids :: "string list"
  tf_info_error :: "string option"

definition forest_of :: "DomainTrust \<Rightarrow> TrustedForest option" where
  "forest_of t =
     (if forest_transitive (dt_attributes t)
      then Some \<lparr>tf_trust_partner = dt_partner t,
                 tf_domain_sids = map ft_sid (filter sid_enabled (dt_forest_domains t)),
                 tf_info_error = dt_forest_info_error t\<rparr>
      else None)"

definition forest_contains :: "TrustedForest \<Rightarrow> string \<Rightarrow> bool" where
  "forest_contains f domain_sid \<longleftrightarrow> list_ex (\<lambda>d. eq_ignore_ascii_case d domain_sid) (tf_domain_sids f)"

definition forest_suffix :: "string \<Rightarrow> TrustedForest option \<Rightarrow> string" where
  "forest_suffix partner forest =
     (case forest of
        Some f \<Rightarrow>
          (if \<not> eq_ignore_ascii_case (tf_trust_partner f) partner
           then '' (a domain of the trusted forest '' @ tf_trust_partner f @ '', through the forest trust)'' else [])
      | None \<Rightarrow> [])"

section \<open>Where an unresolved SID belongs\<close>

datatype SidDomainRelation =
    ConfiguredDomainWholeBase
  | ConfiguredDomainPartialBase string
  | TrustedDomain string string TrustAttributes "TrustedForest option" \<comment> \<open>partner, domain SID\<close>
  | ForestDomainSidDisabled string string string u32 \<comment> \<open>domain, domain SID, forest, flags\<close>
  | TrustedByForestDomain string string string \<comment> \<open>partner, domain SID, holder\<close>
  | OtherDomain string
  | Unknown string

definition unresolvable_reason :: "SidDomainRelation \<Rightarrow> Sid \<Rightarrow> string option" where
  "unresolvable_reason rel sid =
     (case rel of
        ConfiguredDomainWholeBase \<Rightarrow> None
      | ConfiguredDomainPartialBase base_dn \<Rightarrow>
          Some (''SID '' @ sid
       @ '' belongs to the configured domain but has no object under the configured ''
       @ ''LDAP base '' @ squote @ base_dn @ squote
       @ '', which does not cover the whole domain '' @ em_dash
       @ '' whether the account exists elsewhere in the domain is unknown'')
      | TrustedDomain partner _ _ forest \<Rightarrow>
          Some (''SID '' @ sid @ '' belongs to the trusted domain '' @ partner
       @ forest_suffix partner forest @ ''; its group memberships in '' @ partner
       @ '' are unknown '' @ em_dash
       @ '' they can be resolved with a connection to a domain controller of '' @ partner
       @ '' (CLI --trust-server, ADR 0078)'')
      | ForestDomainSidDisabled its_domain domain_sid forest flags \<Rightarrow>
          Some (''SID '' @ sid @ '' belongs to '' @ its_domain @ '' ('' @ domain_sid
       @ ''), a domain of the trusted forest '' @ forest
       @ '', whose SID the forest trust information marks as disabled (flags 0x''
       @ hex flags @ '') '' @ em_dash
       @ '' whether Windows still accepts SIDs of that domain is not modelled, so ''
       @ ''the account and its memberships are unknown'')
      | TrustedByForestDomain partner domain_sid holder \<Rightarrow>
          Some (''SID '' @ sid @ '' belongs to '' @ partner @ '' ('' @ domain_sid @ ''), which the domain ''
       @ holder
       @ '' of this forest trusts (a trust that is not forest-wide); with a Global ''
       @ ''Catalog bind it is not known whether the resource'' @ squote
       @ ''s domain trusts it too '' @ em_dash
       @ '' the account and its memberships are unknown'')
      | OtherDomain domain_sid \<Rightarrow>
          Some (''SID '' @ sid @ '' belongs to domain '' @ domain_sid
       @ '', which is neither the configured domain nor one of its trusts '' @ em_dash
       @ '' the account and its memberships are unknown'')
      | SidDomainRelation.Unknown reason \<Rightarrow>
          Some (''SID '' @ sid @ '' has no object under the configured LDAP base, the local LSA cannot ''
       @ ''resolve it, and how its domain relates to the configured domain could not ''
       @ ''be determined ('' @ reason @ '') '' @ em_dash
       @ '' whether the account exists is unknown''))"

record HeldTrust =
  ht_trust :: DomainTrust
  ht_holder :: string

definition held_trusts :: "RawEntry list \<Rightarrow> HeldTrust list" where
  "held_trusts entries = filter_map (\<lambda>e.
     map_option (\<lambda>t. \<lparr>ht_trust = t, ht_holder = (case domain_root_dn (re_dn e) of Some d \<Rightarrow> d | None \<Rightarrow> [])\<rparr>)
       (parse_trust e)) entries"

datatype TrustView = DomainView "bool option" | ForestView

definition names_domain :: "string \<Rightarrow> DomainTrust \<Rightarrow> bool" where
  \<comment> \<open>The trust object whose \<open>securityIdentifier\<close> is the SID's domain.\<close>
  "names_domain sid_domain t \<longleftrightarrow> (case dt_sid t of Some s \<Rightarrow> eq_ignore_ascii_case s sid_domain | None \<Rightarrow> False)"

definition direct_relation :: "string \<Rightarrow> TrustView \<Rightarrow> HeldTrust \<Rightarrow> SidDomainRelation" where
  "direct_relation sid_domain view h =
     (let t = ht_trust h in
      if view = ForestView \<and> \<not> forest_transitive (dt_attributes t)
      then TrustedByForestDomain (dt_partner t) sid_domain (ht_holder h)
      else TrustedDomain (dt_partner t) sid_domain (dt_attributes t) (forest_of t))"

definition listed_domain :: "string \<Rightarrow> DomainTrust \<Rightarrow> ForestTrustDomain option" where
  "listed_domain sid_domain t = find (\<lambda>d. eq_ignore_ascii_case (ft_sid d) sid_domain) (dt_forest_domains t)"

definition listed_relation :: "string \<Rightarrow> DomainTrust \<Rightarrow> ForestTrustDomain \<Rightarrow> SidDomainRelation" where
  "listed_relation sid_domain t d =
     (if \<not> sid_enabled d then ForestDomainSidDisabled (ft_dns_name d) sid_domain (dt_partner t) (ft_flags d)
      else TrustedDomain (ft_dns_name d) sid_domain (dt_attributes t) (forest_of t))"

fun through_forests :: "string \<Rightarrow> DomainTrust list \<Rightarrow> SidDomainRelation option" where
  \<comment> \<open>The loop over the forest trusts.\<close>
  "through_forests sid_domain [] = None"
| "through_forests sid_domain (t # rest) =
     (case listed_domain sid_domain t of
        None \<Rightarrow> through_forests sid_domain rest
      | Some d \<Rightarrow> Some (listed_relation sid_domain t d))"

definition not_seen_from :: "string \<Rightarrow> TrustView \<Rightarrow> SidDomainRelation" where
  "not_seen_from sid_domain view =
     (case view of
        DomainView (Some False) \<Rightarrow>
          SidDomainRelation.Unknown (''domain '' @ sid_domain @ '' is not one of the configured domain'' @ squote
       @ ''s trust objects, but the configured domain is not the root of its forest ''
       @ em_dash
       @ '' a trust held by another domain of the forest (such as a forest trust of ''
       @ ''the forest root) may cover it and is not read through a domain bind (a ''
       @ ''Global Catalog bind reads it)'')
      | DomainView None \<Rightarrow>
          SidDomainRelation.Unknown (''domain '' @ sid_domain @ '' is not one of the configured domain'' @ squote
       @ ''s trust objects; the configured domain belongs to a forest with several ''
       @ ''domains, and whether it is the forest root (which holds the forest ''
       @ ''trusts) could not be read'')
      | _ \<Rightarrow> OtherDomain sid_domain)"

definition classify_against_trusts :: "string \<Rightarrow> HeldTrust list \<Rightarrow> TrustView \<Rightarrow> SidDomainRelation" where
  "classify_against_trusts sid_domain trusts view =
     (case find (\<lambda>h. names_domain sid_domain (ht_trust h)) trusts of
        Some h \<Rightarrow> direct_relation sid_domain view h
      | None \<Rightarrow>
          (let forests = filter (\<lambda>t. forest_transitive (dt_attributes t)) (map ht_trust trusts) in
           case through_forests sid_domain forests of
             Some rel \<Rightarrow> rel
           | None \<Rightarrow>
               (let not_known = filter_map (\<lambda>t. map_option (\<lambda>e. dt_partner t @ '': '' @ e) (dt_forest_info_error t)) forests in
                if not_known \<noteq> [] then
                  SidDomainRelation.Unknown (''domain '' @ sid_domain
       @ '' is neither the configured domain nor one of its trust objects, and the ''
       @ ''domains of '' @ dec (length not_known) @ '' trusted forest(s) are not known (''
       @ join ''; '' not_known @ '') '' @ em_dash @ '' it may be a domain of such a forest'')
                else not_seen_from sid_domain view)))"


section \<open>Reading the directory's context\<close>

record TrustSearches =
  \<comment> \<open>The searches of the LDAP client over one connection.\<close>
  search_forest_domain_sids :: "string \<Rightarrow> CoreError + string list"
  search_domain_trusts :: "string \<Rightarrow> CoreError + RawEntry list"
  search_domain_sid :: "string \<Rightarrow> CoreError + string option"
  search_root_domain_nc :: "CoreError + string option"

definition forest_root_known :: "TrustSearches \<Rightarrow> HeldTrust list \<Rightarrow> string \<Rightarrow> bool option" where
  "forest_root_known ldap trusts root =
     (if list_ex (\<lambda>h. within_forest (dt_attributes (ht_trust h))) trusts then
        (case search_root_domain_nc ldap of Inr (Some nc) \<Rightarrow> Some (dn_eq nc root) | _ \<Rightarrow> None)
      else Some True)"

definition classify_with :: "LdapConfig \<Rightarrow> TrustSearches \<Rightarrow> string \<Rightarrow> CoreError + SidDomainRelation" where
  "classify_with cfg ldap sid_domain =
     (if cfg_global_catalog cfg then
        and_then (search_forest_domain_sids ldap (cfg_base_dn cfg)) (\<lambda>forest.
          if list_ex (\<lambda>d. eq_ignore_ascii_case d sid_domain) (filter is_domain_sid forest)
          then Inr ConfiguredDomainWholeBase
          else and_then (search_domain_trusts ldap (cfg_base_dn cfg)) (\<lambda>entries.
            Inr (classify_against_trusts sid_domain (held_trusts entries) ForestView)))
      else
        (case domain_root_dn (cfg_base_dn cfg) of
           None \<Rightarrow> Inr (SidDomainRelation.Unknown (''the configured base '' @ squote @ cfg_base_dn cfg @ squote
       @ '' names no domain (no DC= components)''))
         | Some root \<Rightarrow>
             and_then (search_domain_sid ldap root) (\<lambda>found.
               case (case found of Some d \<Rightarrow> if is_domain_sid d then Some d else None | None \<Rightarrow> None) of
                 None \<Rightarrow> Inr (SidDomainRelation.Unknown (''the domain SID of '' @ squote @ root @ squote @ '' could not be read''))
               | Some domain_sid \<Rightarrow>
                   (if eq_ignore_ascii_case domain_sid sid_domain then
                      Inr (if dn_eq (cfg_base_dn cfg) root then ConfiguredDomainWholeBase
                           else ConfiguredDomainPartialBase (cfg_base_dn cfg))
                    else and_then (search_domain_trusts ldap root) (\<lambda>entries.
                      Inr (classify_against_trusts sid_domain (held_trusts entries)
                             (DomainView (forest_root_known ldap (held_trusts entries) root))))))))"

definition classify_unresolved_sid :: "LdapConfig \<Rightarrow> CoreError + TrustSearches \<Rightarrow> Sid \<Rightarrow> SidDomainRelation" where
  \<comment> \<open>\<open>connect\<close> is the connection, or why it could not be opened in time.\<close>
  "classify_unresolved_sid cfg connect sid =
     (case account_domain_of sid of
        None \<Rightarrow> SidDomainRelation.Unknown (sid @ '' is not a domain account SID'')
      | Some sid_domain \<Rightarrow>
          (case and_then connect (\<lambda>ldap. classify_with cfg ldap sid_domain) of
             Inr rel \<Rightarrow> rel
           | Inl e \<Rightarrow> SidDomainRelation.Unknown (''the directory context could not be read: '' @ error_text e)))"

section \<open>What a classification rests on\<close>

lemma direct_relation_kinds [simp]:
  "direct_relation d view h \<noteq> OtherDomain d'" "direct_relation d view h \<noteq> ConfiguredDomainWholeBase"
  by (simp_all add: direct_relation_def Let_def)

lemma listed_relation_kinds [simp]:
  "listed_relation d t f \<noteq> OtherDomain d'" "listed_relation d t f \<noteq> ConfiguredDomainWholeBase"
  by (simp_all add: listed_relation_def)

lemma through_forests_None:
  "through_forests d ts = None \<longleftrightarrow> (\<forall>t \<in> set ts. listed_domain d t = None)"
  by (induction ts) (auto split: option.splits)

lemma through_forests_Some:
  "through_forests d ts = Some rel \<Longrightarrow> \<exists>t f. t \<in> set ts \<and> listed_domain d t = Some f \<and> rel = listed_relation d t f"
  by (induction ts) (auto split: option.splits)

lemma through_forests_kinds [simp]:
  "through_forests d ts \<noteq> Some (OtherDomain d')" "through_forests d ts \<noteq> Some ConfiguredDomainWholeBase"
  by (auto dest!: through_forests_Some simp: listed_relation_kinds [symmetric])

lemma not_seen_from_other: "not_seen_from d view = OtherDomain d' \<longleftrightarrow> d' = d \<and> view \<in> {ForestView, DomainView (Some True)}"
  by (auto simp: not_seen_from_def split: TrustView.splits option.splits bool.splits)

lemma not_seen_from_whole [simp]: "not_seen_from d view \<noteq> ConfiguredDomainWholeBase"
  by (auto simp: not_seen_from_def split: TrustView.splits option.splits bool.splits)

lemma filter_map_Nil: "filter_map f xs = [] \<longleftrightarrow> (\<forall>x \<in> set xs. f x = None)"
  by (induction xs) (auto split: option.splits)

lemma classify_never_whole [simp]: "classify_against_trusts d trusts view \<noteq> ConfiguredDomainWholeBase"
  by (auto simp: classify_against_trusts_def Let_def dest: through_forests_Some split: option.splits)

definition of_trust :: "string \<Rightarrow> DomainTrust \<Rightarrow> bool" where
  \<comment> \<open>The domain is the partner of the trust or a domain the forest trust lists.\<close>
  "of_trust d t \<longleftrightarrow> names_domain d t
     \<or> forest_transitive (dt_attributes t) \<and> (\<exists>f \<in> set (dt_forest_domains t). eq_ignore_ascii_case (ft_sid f) d)"

definition forest_known :: "DomainTrust \<Rightarrow> bool" where
  "forest_known t \<longleftrightarrow> \<not> (forest_transitive (dt_attributes t) \<and> dt_forest_info_error t \<noteq> None)"

lemma listed_domain_None: "listed_domain d t = None \<longleftrightarrow> \<not> (\<exists>f \<in> set (dt_forest_domains t). eq_ignore_ascii_case (ft_sid f) d)"
  by (auto simp: listed_domain_def find_None_iff)

text \<open>C11: A domain is called foreign only on complete evidence: the classification answers that the
  SID belongs to another domain exactly when no trust object names its domain, no forest trust lists
  it, the domains of every trusted forest are known, and the bind sees every trust that could cover
  it (the forest, or the root of the forest).\<close>

theorem foreign_only_on_complete_evidence:
  "classify_against_trusts d trusts view = OtherDomain d' \<longleftrightarrow>
     d' = d \<and> view \<in> {ForestView, DomainView (Some True)}
     \<and> \<not> list_ex (\<lambda>h. of_trust d (ht_trust h)) trusts \<and> list_all (\<lambda>h. forest_known (ht_trust h)) trusts"
proof -
  let ?forests = "filter (\<lambda>t. forest_transitive (dt_attributes t)) (map ht_trust trusts)"
  have "classify_against_trusts d trusts view = OtherDomain d' \<longleftrightarrow>
      find (\<lambda>h. names_domain d (ht_trust h)) trusts = None \<and> through_forests d ?forests = None
      \<and> (\<forall>t \<in> set ?forests. dt_forest_info_error t = None) \<and> not_seen_from d view = OtherDomain d'"
    using through_forests_kinds(1) [of d ?forests d']
    by (cases "find (\<lambda>h. names_domain d (ht_trust h)) trusts"; cases "through_forests d ?forests")
      (simp_all del: through_forests_kinds add: classify_against_trusts_def Let_def filter_map_Nil del: set_filter set_map)
  moreover have "(find (\<lambda>h. names_domain d (ht_trust h)) trusts = None \<and> through_forests d ?forests = None)
      \<longleftrightarrow> \<not> list_ex (\<lambda>h. of_trust d (ht_trust h)) trusts"
    unfolding find_None_iff through_forests_None listed_domain_None of_trust_def list_ex_iff by auto
  moreover have "(\<forall>t \<in> set ?forests. dt_forest_info_error t = None) \<longleftrightarrow> list_all (\<lambda>h. forest_known (ht_trust h)) trusts"
    unfolding forest_known_def list_all_iff by auto
  ultimately show ?thesis unfolding not_seen_from_other by argo
qed

definition domain_confirmed :: "LdapConfig \<Rightarrow> TrustSearches \<Rightarrow> string \<Rightarrow> bool" where
  \<comment> \<open>The directory itself says that the configured base covers the whole domain.\<close>
  "domain_confirmed cfg ldap d \<longleftrightarrow>
     (if cfg_global_catalog cfg
      then \<exists>forest f. search_forest_domain_sids ldap (cfg_base_dn cfg) = Inr forest \<and> f \<in> set forest
             \<and> is_domain_sid f \<and> eq_ignore_ascii_case f d
      else \<exists>root f. domain_root_dn (cfg_base_dn cfg) = Some root \<and> search_domain_sid ldap root = Inr (Some f)
             \<and> is_domain_sid f \<and> eq_ignore_ascii_case f d \<and> dn_eq (cfg_base_dn cfg) root)"

lemma gone_iff:
  "classify_unresolved_sid cfg connect sid = ConfiguredDomainWholeBase \<longleftrightarrow>
     (\<exists>d ldap. account_domain_of sid = Some d \<and> connect = Inr ldap \<and> domain_confirmed cfg ldap d)"
proof -
  have whole: "classify_with cfg ldap d = Inr ConfiguredDomainWholeBase \<longleftrightarrow> domain_confirmed cfg ldap d" for ldap d
  proof (cases "cfg_global_catalog cfg")
    case True
    then show ?thesis
      by (cases "search_forest_domain_sids ldap (cfg_base_dn cfg)")
        (auto simp: classify_with_def domain_confirmed_def and_then_Inr list_ex_iff)
  next
    case False
    then show ?thesis
      by (auto simp: classify_with_def domain_confirmed_def and_then_Inr split: option.splits if_splits)
  qed
  show ?thesis
    unfolding whole [symmetric]
    by (cases "account_domain_of sid"; cases connect)
      (auto simp: classify_unresolved_sid_def split: sum.splits)
qed

text \<open>An account is called gone only with proof: the one answer that makes a SID without an object
  an orphan is given exactly for a domain account SID whose domain the directory confirmed to be
  covered whole by the configured base. A connection, a search or a domain SID that cannot be read
  never gives it.\<close>

theorem gone_only_with_proof:
  "classify_unresolved_sid cfg connect sid = ConfiguredDomainWholeBase \<longleftrightarrow>
     (\<exists>d ldap. account_domain_of sid = Some d \<and> connect = Inr ldap \<and> domain_confirmed cfg ldap d)"
  by (rule gone_iff)

section \<open>What the classification does not ask\<close>

definition with_direction :: "(DomainTrust \<Rightarrow> TrustDirection) \<Rightarrow> HeldTrust \<Rightarrow> HeldTrust" where
  "with_direction dir h = h\<lparr>ht_trust := (ht_trust h)\<lparr>dt_direction := dir (ht_trust h)\<rparr>\<rparr>"

lemma names_domain_direction [simp]: "names_domain d (t\<lparr>dt_direction := x\<rparr>) = names_domain d t"
  by (simp add: names_domain_def)

lemma forest_of_direction [simp]: "forest_of (t\<lparr>dt_direction := x\<rparr>) = forest_of t"
  by (simp add: forest_of_def)

lemma through_forests_direction:
  "through_forests d (map (\<lambda>t. t\<lparr>dt_direction := dir t\<rparr>) ts) = through_forests d ts"
  by (induction ts) (auto simp: listed_domain_def listed_relation_def split: option.splits)

lemma direction_not_asked: "classify_against_trusts d (map (with_direction dir) trusts) view = classify_against_trusts d trusts view"
proof -
  have f: "find (\<lambda>h. names_domain d (ht_trust h)) (map (with_direction dir) trusts) =
      map_option (with_direction dir) (find (\<lambda>h. names_domain d (ht_trust h)) trusts)"
    by (induction trusts) (auto simp: with_direction_def)
  have r: "direct_relation d view (with_direction dir h) = direct_relation d view h" for h
    by (simp add: direct_relation_def with_direction_def Let_def)
  let ?forests = "filter (\<lambda>t. forest_transitive (dt_attributes t))"
  have m: "?forests (map ht_trust (map (with_direction dir) trusts)) =
      map (\<lambda>t. t\<lparr>dt_direction := dir t\<rparr>) (?forests (map ht_trust trusts))"
    by (induction trusts) (auto simp: with_direction_def)
  have n: "filter_map (\<lambda>t. map_option (\<lambda>e. dt_partner t @ '': '' @ e) (dt_forest_info_error t))
      (map (\<lambda>t. t\<lparr>dt_direction := dir t\<rparr>) ts) =
      filter_map (\<lambda>t. map_option (\<lambda>e. dt_partner t @ '': '' @ e) (dt_forest_info_error t)) ts" for ts
    by (induction ts) (auto split: option.splits)
  show ?thesis
    unfolding classify_against_trusts_def Let_def f m n through_forests_direction
    by (cases "find (\<lambda>h. names_domain d (ht_trust h)) trusts") (simp_all add: r Let_def)
qed

lemma partner_domain_never_disabled:
  "names_domain d (ht_trust h) \<Longrightarrow> classify_against_trusts d (h # trusts) view = direct_relation d view h"
  by (simp add: classify_against_trusts_def)

end
