(* ===== verification/Principal.thy ===== *)
theory Principal
  imports Trusts Engine
begin

unbundle bit_operations_syntax

text \<open>
  The resolution of a principal (\<open>crates/ad_resolver/src/principal.rs\<close>): the input forms, the
  pipeline over the directory, the local security authority and the connection to a trusted domain,
  and what a resolution hands to the engine and to the membership view.
\<close>

section \<open>Inputs and outcomes\<close>

datatype PrincipalInput =
    Auto string
  | DomainQualified string
  | Upn string
  | SamAccount string
  | SidInput Sid
  | DisplayName string

definition classify_input :: "PrincipalInput \<Rightarrow> CoreError + PrincipalInput" where
  "classify_input p =
     (case p of
        Auto raw \<Rightarrow>
          (let trimmed = trim raw in
           if trimmed = [] then Inl (Validation (''Empty identity input '' @ em_dash @ '' provide DOMAIN'' @ bslash
       @ ''user, user@domain.tld, sAMAccountName or SID''))
           else if starts_with trimmed ''S-1-'' then and_then (sid_try_new trimmed) (\<lambda>sid. Inr (SidInput sid))
           else if CHR 0x5C \<in> set trimmed then Inr (DomainQualified trimmed)
           else if CHR ''@'' \<in> set trimmed then Inr (Upn trimmed)
           else Inr (SamAccount trimmed))
      | other \<Rightarrow> Inr other)"

datatype IdentityScopeStatus =
    InsideConfiguredLdapBase
  | OutsideConfiguredLdapBase
  | OrphanedSid
  | Unresolvable string
  | LookupFailed string
  | ResolvedInTrustedDomain string

datatype GroupResolutionStatus = LdapRecursive | SamFlat | LocalAccount | Failed string | NotAttempted

datatype DisabledStatus = Known bool | Unknown

definition as_bool_conservative :: "DisabledStatus \<Rightarrow> bool" where
  "as_bool_conservative s = (s = Known True)"

record GroupMembershipResolution =
  gmr_memberships :: "GroupMembership list"
  gmr_gaps :: "string list"
  gmr_excluded_groups :: "string list"
  gmr_token_set_gaps :: "string list"

record PrincipalResolution =
  pr_sid :: Sid
  pr_identity :: Identity
  pr_memberships :: "GroupMembership list"
  pr_scope_status :: IdentityScopeStatus
  pr_group_resolution_status :: GroupResolutionStatus
  pr_disabled_status :: DisabledStatus
  pr_diagnostics :: "PermissionDiagnostic list"
  pr_resolved_via_fsp :: bool
  pr_resolved_via_global_catalog :: bool
  pr_group_resolution_gaps :: "string list"
  pr_excluded_groups :: "string list"
  pr_trusted_domain :: "TrustedDomainProvenance option"

section \<open>What a resolution hands on\<close>

definition engine_flags :: "PrincipalResolution \<Rightarrow> ResolutionProvenance" where
  "engine_flags r =
     \<lparr>rp_group_resolution_via_sam_fallback = (pr_group_resolution_status r = SamFlat),
      rp_identity_not_in_configured_ldap_base = (pr_scope_status r = OutsideConfiguredLdapBase),
      rp_identity_disabled_status_unknown =
        (pr_disabled_status r = DisabledStatus.Unknown \<and> pr_scope_status r \<noteq> OrphanedSid),
      rp_identity_lookup_failure_reason = (case pr_scope_status r of LookupFailed reason \<Rightarrow> Some reason | _ \<Rightarrow> None),
      rp_group_resolution_failure_reason =
        (case pr_group_resolution_status r of
           Failed reason \<Rightarrow> Some reason
         | NotAttempted \<Rightarrow>
             (if pr_scope_status r = OutsideConfiguredLdapBase
              then Some (''group resolution skipped: identity is outside the configured LDAP base'') else None)
         | _ \<Rightarrow> None),
      rp_identity_resolved_via_fsp = pr_resolved_via_fsp r,
      rp_group_resolution_via_global_catalog = pr_resolved_via_global_catalog r,
      rp_identity_unresolvable_reason = (case pr_scope_status r of Unresolvable reason \<Rightarrow> Some reason | _ \<Rightarrow> None),
      rp_group_resolution_gaps = pr_group_resolution_gaps r,
      rp_excluded_non_security_groups = pr_excluded_groups r,
      rp_trusted_domain = pr_trusted_domain r\<rparr>"

definition membership_diagnostics :: "PrincipalResolution \<Rightarrow> PermissionDiagnostic list" where
  "membership_diagnostics r =
     (let flags = engine_flags r in
      (if rp_identity_disabled_status_unknown flags then [IdentityDisabledStatusUnknown]
       else push_if (id_disabled (pr_identity r)) IdentityDisabled)
      @ push_if (rp_identity_not_in_configured_ldap_base flags) IdentityNotInConfiguredLdapBase
      @ push_if (rp_group_resolution_via_sam_fallback flags) DomainGroupRecursionIncomplete
      @ on_some IdentityLookupFailed (rp_identity_lookup_failure_reason flags)
      @ on_some GroupResolutionFailed (rp_group_resolution_failure_reason flags)
      @ map GroupResolutionIncomplete (rp_group_resolution_gaps flags)
      @ push_if (rp_excluded_non_security_groups flags \<noteq> [])
          (NonSecurityGroupsExcluded (rp_excluded_non_security_groups flags))
      @ on_some IdentityNotResolvable (rp_identity_unresolvable_reason flags)
      @ push_if (id_kind (pr_identity r) = Orphaned) IdentityOrphaned
      @ push_if (rp_identity_resolved_via_fsp flags) IdentityResolvedViaForeignSecurityPrincipal
      @ push_if (rp_group_resolution_via_global_catalog flags) GroupResolutionViaGlobalCatalog
      @ sid_history_diagnostics (pr_identity r)
      @ group_sid_history_diagnostics (pr_memberships r)
      @ push_if (rp_identity_resolved_via_fsp flags \<or> rp_identity_not_in_configured_ldap_base flags)
          TrustBoundaryEffectsNotModeled
      @ (case rp_trusted_domain flags of
           Some t \<Rightarrow> [TrustedDomainAccountResolved (td_domain t) (td_home_only_groups t) (td_sid_filtered t)]
             @ push_if (td_selective_authentication t) TrustBoundaryEffectsNotModeled
         | None \<Rightarrow> []))"

definition into_membership_report :: "PrincipalResolution \<Rightarrow> bool \<Rightarrow> MembershipReport" where
  "into_membership_report r ad_connected =
     \<lparr>mr_identity = pr_identity r, mr_ad_connected = ad_connected,
      mr_memberships = best_membership_per_group (pr_memberships r),
      mr_diagnostics = membership_diagnostics r\<rparr>"

definition disabled_from_ldap :: "Identity \<Rightarrow> DisabledStatus" where
  "disabled_from_ldap i = Known (id_disabled i)"

definition push_diagnostics :: "IdentityScopeStatus \<Rightarrow> DisabledStatus \<Rightarrow> bool \<Rightarrow> PermissionDiagnostic list" where
  "push_diagnostics scope disabled_status identity_disabled =
     push_if (scope = OutsideConfiguredLdapBase) IdentityNotInConfiguredLdapBase
     @ (if disabled_status = DisabledStatus.Unknown then [IdentityDisabledStatusUnknown]
        else push_if identity_disabled IdentityDisabled)"

section \<open>The backends\<close>

record TrustContext =
  tc_partner :: string
  tc_domain_sid :: string
  tc_attributes :: TrustAttributes
  tc_forest :: "TrustedForest option"

record IdentityBackend =
  ib_identity_by_sid :: "Sid \<Rightarrow> CoreError + Identity option"
  ib_identity_by_upn :: "string \<Rightarrow> CoreError + (Sid \<times> Identity) option"
  ib_identities_by_sam :: "string \<Rightarrow> CoreError + (Sid \<times> Identity) list"
  ib_memberships :: "Sid \<Rightarrow> CoreError + GroupMembershipResolution"
  ib_forest_wide :: bool
  ib_classify_unresolved :: "Sid \<Rightarrow> SidDomainRelation"

record TrustedDomainBackend =
  tb_served_domain_sid :: "string + string"
  tb_resolve_account :: "Sid \<Rightarrow> TrustContext \<Rightarrow> CoreError + PrincipalResolution"

record LsaAccountInfo =
  la_name :: string
  la_domain :: string
  la_kind :: IdentityKind

record LsaBackend =
  lsa_sid_for_name :: "string \<Rightarrow> CoreError + Sid"
  lsa_account_for_sid :: "Sid \<Rightarrow> CoreError + LsaAccountInfo"

record PrincipalResolver =
  identity_backend :: IdentityBackend
  lsa_backend :: "LsaBackend option"
  trusted_backend :: "TrustedDomainBackend option"

definition bare_identity :: "Sid \<Rightarrow> IdentityKind \<Rightarrow> Identity" where
  "bare_identity sid kind =
     \<lparr>id_sid = sid, id_name = None, id_domain = None, id_kind = kind, id_disabled = False,
      id_user_principal_name = None, id_sid_history_count = 0, id_sid_history = []\<rparr>"

definition backend_identity :: "(Sid \<Rightarrow> CoreError + Identity) \<Rightarrow> Sid \<Rightarrow> CoreError + Identity option" where
  \<comment> \<open>\<open>LdapIdentityBackend::lookup_identity_by_sid\<close> over \<open>resolve_identity\<close>.\<close>
  "backend_identity resolve_identity sid =
     and_then (resolve_identity sid) (\<lambda>i. Inr (if id_kind i = Orphaned then None else Some i))"

section \<open>The pipeline\<close>

definition resolve_groups ::
    "PrincipalResolver \<Rightarrow> Sid \<Rightarrow> GroupMembership list \<times> GroupResolutionStatus \<times> string list \<times> string list" where
  "resolve_groups p sid =
     (case ib_memberships (identity_backend p) sid of
        Inr r \<Rightarrow> (gmr_memberships r, LdapRecursive, gmr_gaps r, gmr_excluded_groups r)
      | Inl e \<Rightarrow> ([], Failed (error_text e), [], []))"

definition found_resolution :: "PrincipalResolver \<Rightarrow> Sid \<Rightarrow> Identity \<Rightarrow> PrincipalResolution" where
  \<comment> \<open>The arm for an LDAP hit, the same in the three lookups.\<close>
  "found_resolution p sid identity =
     (let (memberships, group_status, group_gaps, excluded_groups) = resolve_groups p sid;
          disabled_status = disabled_from_ldap identity
      in \<lparr>pr_sid = sid, pr_identity = identity, pr_memberships = memberships,
          pr_scope_status = InsideConfiguredLdapBase, pr_group_resolution_status = group_status,
          pr_disabled_status = disabled_status,
          pr_diagnostics = push_diagnostics InsideConfiguredLdapBase disabled_status (id_disabled identity),
          pr_resolved_via_fsp = False, pr_resolved_via_global_catalog = ib_forest_wide (identity_backend p),
          pr_group_resolution_gaps = group_gaps, pr_excluded_groups = excluded_groups,
          pr_trusted_domain = None\<rparr>)"

definition empty_resolution ::
    "Sid \<Rightarrow> Identity \<Rightarrow> IdentityScopeStatus \<Rightarrow> PermissionDiagnostic list \<Rightarrow> PrincipalResolution" where
  "empty_resolution sid identity scope diagnostics =
     \<lparr>pr_sid = sid, pr_identity = identity, pr_memberships = [], pr_scope_status = scope,
      pr_group_resolution_status = NotAttempted, pr_disabled_status = DisabledStatus.Unknown,
      pr_diagnostics = diagnostics, pr_resolved_via_fsp = False, pr_resolved_via_global_catalog = False,
      pr_group_resolution_gaps = [], pr_excluded_groups = [], pr_trusted_domain = None\<rparr>"

definition orphaned_resolution :: "Sid \<Rightarrow> PrincipalResolution" where
  "orphaned_resolution sid = empty_resolution sid (bare_identity sid Orphaned) OrphanedSid []"

definition unresolvable_resolution :: "Sid \<Rightarrow> string \<Rightarrow> PrincipalResolution" where
  "unresolvable_resolution sid reason =
     empty_resolution sid (bare_identity sid IdentityKind.Unknown) (Unresolvable reason) [IdentityDisabledStatusUnknown]"

definition failed_lookup_resolution :: "Sid \<Rightarrow> string \<Rightarrow> PrincipalResolution" where
  "failed_lookup_resolution sid reason =
     empty_resolution sid (bare_identity sid IdentityKind.Unknown) (LookupFailed reason) []"

definition resolve_in_trusted_domain :: "PrincipalResolver \<Rightarrow> Sid \<Rightarrow> SidDomainRelation \<Rightarrow> PrincipalResolution option" where
  "resolve_in_trusted_domain p sid relation =
     (case (relation, trusted_backend p) of
        (TrustedDomain partner domain_sid attributes forest, Some backend) \<Rightarrow>
          (case tb_served_domain_sid backend of
             Inl e \<Rightarrow> Some (unresolvable_resolution sid
               (''SID '' @ sid @ '' belongs to the trusted domain '' @ partner
       @ forest_suffix partner forest
       @ ''; the domain SID of the configured trusted-domain connection could not be ''
       @ ''read ('' @ e @ ''), so it is not known to serve '' @ partner))
           | Inr served \<Rightarrow>
               (if \<not> eq_ignore_ascii_case served domain_sid then Some (unresolvable_resolution sid
                 (''SID '' @ sid @ '' belongs to the trusted domain '' @ partner
       @ forest_suffix partner forest @ '' ('' @ domain_sid
       @ ''), but the configured trusted-domain connection serves another domain (''
       @ served @ '')''))
                else
                  (case tb_resolve_account backend sid
                      \<lparr>tc_partner = partner, tc_domain_sid = domain_sid, tc_attributes = attributes, tc_forest = forest\<rparr> of
                     Inr resolution \<Rightarrow> Some resolution
                   | Inl e \<Rightarrow> Some (unresolvable_resolution sid
                       (''SID '' @ sid @ '' belongs to the trusted domain '' @ partner
       @ ''; resolving it on the configured domain controller of '' @ partner
       @ '' failed: '' @ error_text e)))))
      | _ \<Rightarrow> None)"

definition resolve_with_serving_connection :: "PrincipalResolver \<Rightarrow> Sid \<Rightarrow> PrincipalResolution option" where
  "resolve_with_serving_connection p sid =
     Option.bind (trusted_backend p) (\<lambda>backend.
       let relation = ib_classify_unresolved (identity_backend p) sid in
       case relation of
         TrustedDomain _ domain_sid _ _ \<Rightarrow>
           (case tb_served_domain_sid backend of
              Inl _ \<Rightarrow> None
            | Inr served \<Rightarrow>
                (if \<not> eq_ignore_ascii_case served domain_sid then None
                 else resolve_in_trusted_domain p sid relation))
       | _ \<Rightarrow> None)"

definition classify_unresolved :: "PrincipalResolver \<Rightarrow> Sid \<Rightarrow> PrincipalResolution" where
  "classify_unresolved p sid =
     (let relation = ib_classify_unresolved (identity_backend p) sid in
      case resolve_in_trusted_domain p sid relation of
        Some resolution \<Rightarrow> resolution
      | None \<Rightarrow>
          (case unresolvable_reason relation sid of
             None \<Rightarrow> orphaned_resolution sid
           | Some reason \<Rightarrow> unresolvable_resolution sid reason))"

definition text_or :: "string option \<Rightarrow> string \<Rightarrow> string option" where
  "text_or other s = (if s = [] then other else Some s)"

definition fall_back_to_lsa :: "PrincipalResolver \<Rightarrow> Sid \<Rightarrow> PrincipalResolution" where
  "fall_back_to_lsa p sid =
     (case lsa_backend p of
        None \<Rightarrow> classify_unresolved p sid
      | Some lsa \<Rightarrow>
          (case lsa_account_for_sid lsa sid of
             Inl _ \<Rightarrow> classify_unresolved p sid
           | Inr account \<Rightarrow>
               (case resolve_with_serving_connection p sid of
                  Some resolution \<Rightarrow> resolution
                | None \<Rightarrow>
                    empty_resolution sid
                      ((bare_identity sid (la_kind account))\<lparr>id_name := text_or None (la_name account),
                         id_domain := text_or None (la_domain account)\<rparr>)
                      OutsideConfiguredLdapBase
                      (push_diagnostics OutsideConfiguredLdapBase DisabledStatus.Unknown False))))"

definition fsp_identity_of :: "PrincipalResolver \<Rightarrow> Sid \<Rightarrow> Identity \<Rightarrow> Identity" where
  "fsp_identity_of p sid fsp_identity =
     (case lsa_backend p of
        None \<Rightarrow> fsp_identity
      | Some lsa \<Rightarrow>
          (case lsa_account_for_sid lsa sid of
             Inl _ \<Rightarrow> fsp_identity
           | Inr account \<Rightarrow>
               \<lparr>id_sid = sid, id_name = text_or (id_name fsp_identity) (la_name account),
                id_domain = text_or (id_domain fsp_identity) (la_domain account), id_kind = la_kind account,
                id_disabled = False, id_user_principal_name = None,
                id_sid_history_count = id_sid_history_count fsp_identity, id_sid_history = id_sid_history fsp_identity\<rparr>))"

definition resolve_fsp_hit :: "PrincipalResolver \<Rightarrow> Sid \<Rightarrow> Identity \<Rightarrow> PrincipalResolution" where
  "resolve_fsp_hit p sid fsp_identity =
     (let (memberships, group_status, group_gaps, excluded_groups) = resolve_groups p sid
      in \<lparr>pr_sid = sid, pr_identity = fsp_identity_of p sid fsp_identity, pr_memberships = memberships,
          pr_scope_status = InsideConfiguredLdapBase, pr_group_resolution_status = group_status,
          pr_disabled_status = DisabledStatus.Unknown,
          pr_diagnostics = push_diagnostics InsideConfiguredLdapBase DisabledStatus.Unknown False
            @ [IdentityResolvedViaForeignSecurityPrincipal],
          pr_resolved_via_fsp = True, pr_resolved_via_global_catalog = ib_forest_wide (identity_backend p),
          pr_group_resolution_gaps = group_gaps, pr_excluded_groups = excluded_groups,
          pr_trusted_domain = None\<rparr>)"

definition resolve_by_sid :: "PrincipalResolver \<Rightarrow> Sid \<Rightarrow> PrincipalResolution" where
  \<comment> \<open>Always \<open>Ok\<close> in the code.\<close>
  "resolve_by_sid p sid =
     (case ib_identity_by_sid (identity_backend p) sid of
        Inr (Some identity) \<Rightarrow>
          (if id_kind identity = ForeignSecurityPrincipal then
             (case resolve_with_serving_connection p sid of
                Some resolution \<Rightarrow> resolution
              | None \<Rightarrow> resolve_fsp_hit p sid identity)
           else found_resolution p sid identity)
      | Inr None \<Rightarrow> fall_back_to_lsa p sid
      | Inl e \<Rightarrow> failed_lookup_resolution sid (error_text e))"

definition resolve_by_sam :: "PrincipalResolver \<Rightarrow> string \<Rightarrow> CoreError + PrincipalResolution" where
  "resolve_by_sam p sam =
     and_then (ib_identities_by_sam (identity_backend p) sam) (\<lambda>entries.
       case entries of
         [] \<Rightarrow> Inl (Validation (''sAMAccountName '' @ squote @ sam @ squote @ '' not found under the configured LDAP base.''))
       | [(sid, identity)] \<Rightarrow> Inr (found_resolution p sid identity)
       | _ \<Rightarrow> Inl (Validation (''Ambiguous sAMAccountName '' @ squote @ sam @ squote @ '' '' @ em_dash @ '' ''
       @ dec (length entries) @ '' matches found. Use '' @ squote @ ''DOMAIN'' @ bslash
       @ ''user'' @ squote @ '' or '' @ squote @ ''user@domain.tld'' @ squote
       @ '' to disambiguate.'')))"

definition resolve_by_upn :: "PrincipalResolver \<Rightarrow> string \<Rightarrow> CoreError + PrincipalResolution" where
  "resolve_by_upn p upn =
     and_then (ib_identity_by_upn (identity_backend p) upn) (\<lambda>hit.
       case hit of
         Some (sid, identity) \<Rightarrow> Inr (found_resolution p sid identity)
       | None \<Rightarrow>
           (if ib_forest_wide (identity_backend p)
            then Inl (Validation (''UPN '' @ squote @ upn @ squote @ '' not found in the Global Catalog '' @ em_dash
       @ '' the search was forest-wide. Check the spelling or use DOMAIN'' @ bslash
       @ ''user / direct SID.''))
            else Inl (Validation (''UPN '' @ squote @ upn @ squote
       @ '' not found under the configured LDAP base. For forest-wide UPN resolution ''
       @ ''bind against a Global Catalog (--global-catalog, port 3269/3268) or use ''
       @ ''DOMAIN'' @ bslash @ ''user / direct SID.''))))"

definition resolve_by_lsa_name :: "PrincipalResolver \<Rightarrow> string \<Rightarrow> CoreError + PrincipalResolution" where
  "resolve_by_lsa_name p s =
     (case lsa_backend p of
        None \<Rightarrow> Inl (Validation (''Name-based identity input requires Windows LSA '' @ em_dash
       @ '' not available on this platform''))
      | Some lsa \<Rightarrow> and_then (lsa_sid_for_name lsa s) (\<lambda>sid. Inr (resolve_by_sid p sid)))"

definition resolve :: "PrincipalResolver \<Rightarrow> PrincipalInput \<Rightarrow> CoreError + PrincipalResolution" where
  "resolve p input =
     and_then (classify_input input) (\<lambda>classified.
       case classified of
         Auto _ \<Rightarrow> Inl (Validation (''internal: PrincipalInput::Auto reached resolve() after classify()''))
       | DomainQualified s \<Rightarrow> resolve_by_lsa_name p s
       | DisplayName s \<Rightarrow> resolve_by_lsa_name p s
       | Upn upn \<Rightarrow> resolve_by_upn p upn
       | SamAccount sam \<Rightarrow> resolve_by_sam p sam
       | SidInput sid \<Rightarrow> Inr (resolve_by_sid p sid))"

end
