(* ===== verification/Trusted_Accounts.thy ===== *)
theory Trusted_Accounts
  imports Principal
begin

unbundle bit_operations_syntax

text \<open>
  Accounts of a trusted domain (\<open>crates/ad_resolver/src/trusted.rs\<close>): which of their groups cross the
  trust, the filtering of SIDs, the chains through the resource domain, and the connection that
  resolves such an account.
\<close>

section \<open>Groups that cross the trust\<close>

definition display :: "Sid \<Rightarrow> string option \<Rightarrow> string" where
  "display sid label_name = (case label_name of Some n \<Rightarrow> if n = [] then sid else n @ '' ('' @ sid @ '')'' | None \<Rightarrow> sid)"

record CrossTrustSelection =
  cts_kept :: "GroupMembership list"
  cts_home_only :: "string list"
  cts_without_chain :: "Sid list"

fun select_loop :: "string set \<Rightarrow> GroupMembership list \<Rightarrow> string set \<Rightarrow> string set \<Rightarrow> GroupMembership list \<Rightarrow> string list \<Rightarrow>
    GroupMembership list \<times> string list \<times> string set" where
  \<comment> \<open>The loop over the memberships; the sets are \<open>seen_home\<close> and \<open>seen_kept\<close>.\<close>
  "select_loop crossing [] seen_home seen_kept kept home_only = (kept, home_only, seen_kept)"
| "select_loop crossing (m # ms) seen_home seen_kept kept home_only =
     (let key = to_ascii_uppercase (gm_group_sid m) in
      if key \<in> crossing then select_loop crossing ms seen_home (insert key seen_kept) (kept @ [m]) home_only
      else if key \<in> seen_home then select_loop crossing ms seen_home seen_kept kept home_only
      else select_loop crossing ms (insert key seen_home) seen_kept kept
             (home_only @ [display (gm_group_sid m) (gm_group_name m)]))"

definition select_cross_domain_memberships :: "GroupMembership list \<Rightarrow> string list \<Rightarrow> CrossTrustSelection" where
  "select_cross_domain_memberships memberships global_and_universal =
     (let crossing = set (map to_ascii_uppercase global_and_universal);
          (kept, home_only, seen_kept) = select_loop crossing memberships {} {} [] []
      in \<lparr>cts_kept = kept, cts_home_only = home_only,
          cts_without_chain = filter (\<lambda>s. to_ascii_uppercase s \<notin> seen_kept) global_and_universal\<rparr>)"

section \<open>The filtering of SIDs\<close>

record SidFilterOutcome =
  sfo_filtered :: "string list"
  sfo_not_modelled :: "string list"

definition of_domain :: "Sid \<Rightarrow> string \<Rightarrow> bool" where
  "of_domain sid domain_sid \<longleftrightarrow> (case account_domain_of sid of Some d \<Rightarrow> eq_ignore_ascii_case d domain_sid | None \<Rightarrow> False)"

definition passes :: "string \<Rightarrow> TrustedForest option \<Rightarrow> Sid \<Rightarrow> bool" where
  \<comment> \<open>The two early returns of \<open>drop_it\<close>.\<close>
  "passes trusted_domain_sid forest sid \<longleftrightarrow> of_domain sid trusted_domain_sid
     \<or> (case (forest, account_domain_of sid) of (Some f, Some d) \<Rightarrow> forest_contains f d | _ \<Rightarrow> False)"

definition drop_it ::
    "bool \<Rightarrow> string \<Rightarrow> TrustedForest option \<Rightarrow> Sid \<Rightarrow> string option \<Rightarrow> SidFilterOutcome \<Rightarrow> bool \<times> SidFilterOutcome" where
  "drop_it quarantined trusted_domain_sid forest sid label_name out =
     (if passes trusted_domain_sid forest sid then (False, out)
      else (True, if quarantined then out\<lparr>sfo_filtered := sfo_filtered out @ [display sid label_name]\<rparr>
                  else out\<lparr>sfo_not_modelled := sfo_not_modelled out @ [display sid label_name]\<rparr>))"

fun retain :: "('a \<Rightarrow> 's \<Rightarrow> bool \<times> 's) \<Rightarrow> 'a list \<Rightarrow> 's \<Rightarrow> 'a list \<times> 's" where
  \<comment> \<open>\<open>Vec::retain\<close> with a closure that drops and writes to a captured value.\<close>
  "retain dropping [] out = ([], out)"
| "retain dropping (x # xs) out =
     (let (dropped, out) = dropping x out; (rest, out) = retain dropping xs out
      in (if dropped then rest else x # rest, out))"

fun filter_histories :: "(Sid \<Rightarrow> string option \<Rightarrow> SidFilterOutcome \<Rightarrow> bool \<times> SidFilterOutcome) \<Rightarrow>
    GroupMembership list \<Rightarrow> SidFilterOutcome \<Rightarrow> GroupMembership list \<times> SidFilterOutcome" where
  "filter_histories dropping [] out = ([], out)"
| "filter_histories dropping (m # ms) out =
     (let name_of = ''sIDHistory of '' @ (case gm_group_name m of Some n \<Rightarrow> n | None \<Rightarrow> gm_group_sid m);
          (kept, out) = retain (\<lambda>h. dropping h (Some name_of)) (gm_group_sid_history m) out;
          removed = length (gm_group_sid_history m) - length kept;
          (rest, out) = filter_histories dropping ms out
      in (m\<lparr>gm_group_sid_history := kept, gm_group_sid_history_count := gm_group_sid_history_count m - removed\<rparr> # rest, out))"

definition apply_sid_filtering ::
    "Identity \<Rightarrow> GroupMembership list \<Rightarrow> string \<Rightarrow> TrustAttributes \<Rightarrow> TrustedForest option \<Rightarrow>
     Identity \<times> GroupMembership list \<times> SidFilterOutcome" where
  "apply_sid_filtering identity memberships trusted_domain_sid attributes forest =
     (let quarantined = sid_filtering_enabled attributes \<and> \<not> forest_transitive attributes;
          forest = (if forest_transitive attributes then forest else None);
          dropping = drop_it quarantined trusted_domain_sid forest;
          out = \<lparr>sfo_filtered = [], sfo_not_modelled = []\<rparr>;
          (history, out) = retain (\<lambda>h. dropping h (Some ''sIDHistory of the account'')) (id_sid_history identity) out;
          removed = length (id_sid_history identity) - length history;
          identity = identity\<lparr>id_sid_history := history, id_sid_history_count := id_sid_history_count identity - removed\<rparr>;
          (memberships, out) = retain (\<lambda>m. dropping (gm_group_sid m) (gm_group_name m)) memberships out;
          (memberships, out) = filter_histories dropping memberships out
      in (identity, memberships, out))"

definition not_modelled_gap :: "string \<Rightarrow> TrustContext \<Rightarrow> string" where
  "not_modelled_gap label_name trust =
     (case (if forest_transitive (tc_attributes trust) then tc_forest trust else None) of
        Some f \<Rightarrow>
          (case tf_info_error f of
             None \<Rightarrow> label_name @ '' belongs to no domain of the trusted forest '' @ tf_trust_partner f
       @ '' whose SID its forest trust information lists as enabled; whether the ''
       @ ''trust'' @ squote
       @ ''s SID filtering lets it through is not modelled, so it was left out''
           | Some e \<Rightarrow> label_name @ '' belongs to another domain than '' @ tc_partner trust
       @ ''; the domains of the trusted forest '' @ tf_trust_partner f
       @ '' are not known ('' @ e @ ''), so whether the trust'' @ squote
       @ ''s SID filtering lets it through is not known '' @ em_dash @ '' it was left out'')
      | None \<Rightarrow> label_name @ '' belongs to neither '' @ tc_partner trust
       @ '' nor the configured domain; whether the trust'' @ squote
       @ ''s SID filtering lets it through is not modelled, so it was left out'')"

section \<open>Chains through the resource domain\<close>

definition resized :: "nat \<Rightarrow> 'a option list \<Rightarrow> 'a option list" where
  \<comment> \<open>\<open>Vec::resize(n, None)\<close>.\<close>
  "resized n xs = take n xs @ replicate (n - length xs) None"

definition chain_through :: "Sid \<Rightarrow> GroupMembership option \<Rightarrow> GroupMembership \<Rightarrow> GroupMembership" where
  "chain_through account home_path resource =
     (case home_path of
        None \<Rightarrow> resource\<lparr>gm_member_sid := account\<rparr>
      | Some home \<Rightarrow>
          resource\<lparr>gm_member_sid := account, gm_direct := False,
            gm_path :=
              (case (gm_path home, gm_path resource) of
                 (Some h, Some r) \<Rightarrow>
                   Some \<lparr>mp_nodes = mp_nodes h @ drop 1 (mp_nodes r),
                         mp_names = resized (length (mp_nodes h)) (mp_names h)
                           @ drop 1 (resized (length (mp_nodes r)) (mp_names r)),
                         mp_source = DomainGroup, mp_complete = (mp_complete h \<and> mp_complete r),
                         mp_also_via = mp_also_via r\<rparr>
               | _ \<Rightarrow> None)\<rparr>)"

section \<open>The connection\<close>

record Directory =
  dir_domain_sid :: "CoreError + string option"
  dir_resolve_identity :: "Sid \<Rightarrow> CoreError + Identity"
  dir_memberships :: "Sid \<Rightarrow> CoreError + GroupMembershipResolution"
  dir_token_groups :: "Sid \<Rightarrow> CoreError + string list option" \<comment> \<open>\<open>tokenGroupsGlobalAndUniversal\<close>\<close>
  dir_has_object :: "Sid \<Rightarrow> CoreError + bool"

definition served_domain_sid ::
    "Directory \<Rightarrow> (string + string) option \<Rightarrow> (string + string) \<times> (string + string) option" where
  \<comment> \<open>The cached answer is passed and returned.\<close>
  "served_domain_sid trusted cached =
     (case cached of
        Some v \<Rightarrow> (v, cached)
      | None \<Rightarrow>
          (let v = (case dir_domain_sid trusted of
                      Inr (Some sid) \<Rightarrow> Inr sid
                    | Inr None \<Rightarrow> Inl (''the directory returned no domain SID for the configured base'')
                    | Inl e \<Rightarrow> Inl (error_text e))
           in (v, Some v)))"

definition unchained :: "Directory \<Rightarrow> Sid \<Rightarrow> Sid \<Rightarrow> GroupMembership" where
  "unchained trusted sid group_sid =
     \<lparr>gm_member_sid = sid, gm_group_sid = group_sid, gm_direct = False,
      gm_group_name = Option.bind (ok (dir_resolve_identity trusted group_sid)) id_name,
      gm_path = None, gm_group_sid_history_count = 0, gm_group_sid_history = []\<rparr>"

fun crossing_groups :: "GroupMembership list \<Rightarrow> string set \<Rightarrow> (Sid \<times> GroupMembership option) list" where
  "crossing_groups [] seen = []"
| "crossing_groups (m # ms) seen =
     (let key = to_ascii_uppercase (gm_group_sid m) in
      if key \<in> seen then crossing_groups ms seen
      else (gm_group_sid m, Some m) # crossing_groups ms (insert key seen))"

fun resource_loop :: "Directory \<Rightarrow> Sid \<Rightarrow> (Sid \<times> GroupMembership option) list \<Rightarrow>
    string list \<times> string list \<times> GroupMembership list \<Rightarrow> CoreError + string list \<times> string list \<times> GroupMembership list" where
  \<comment> \<open>The loop over the Foreign Security Principals: gaps, excluded groups and memberships found.\<close>
  "resource_loop resource sid [] found = Inr found"
| "resource_loop resource sid ((via, home_path) # rest) (gaps, excluded, resource_memberships) =
     and_then (dir_has_object resource via) (\<lambda>present.
       if \<not> present then resource_loop resource sid rest (gaps, excluded, resource_memberships)
       else and_then (dir_memberships resource via) (\<lambda>r.
         resource_loop resource sid rest
           (gaps @ gmr_gaps r, excluded @ gmr_excluded_groups r,
            resource_memberships @ map (chain_through sid home_path) (gmr_memberships r))))"

definition organization_group :: "Sid \<Rightarrow> Identity \<Rightarrow> TrustContext \<Rightarrow> GroupMembership" where
  \<comment> \<open>\<open>This Organization\<close> or \<open>Other Organization\<close>.\<close>
  "organization_group sid identity trust =
     (let (org, org_name) =
            (if selective_authentication (tc_attributes trust)
             then (''S-1-5-1000'', ''NT AUTHORITY'' @ bslash @ ''Other Organization'')
             else (''S-1-5-15'', ''NT AUTHORITY'' @ bslash @ ''This Organization''))
      in \<lparr>gm_member_sid = sid, gm_group_sid = org, gm_direct = True, gm_group_name = Some org_name,
          gm_path = Some \<lparr>mp_nodes = [sid, org], mp_names = [id_name identity, Some org_name],
            mp_source = TrustedDomainLogon, mp_complete = True, mp_also_via = []\<rparr>,
          gm_group_sid_history_count = 0, gm_group_sid_history = []\<rparr>)"

definition account_token ::
    "Directory \<Rightarrow> Directory \<Rightarrow> Sid \<Rightarrow> TrustContext \<Rightarrow> Identity \<Rightarrow> GroupMembershipResolution \<Rightarrow> string list \<Rightarrow>
     CoreError + PrincipalResolution" where
  \<comment> \<open>From the groups of the home domain to the resolution.\<close>
  "account_token trusted resource sid trust identity home global_and_universal =
     (let gaps = filter (\<lambda>g. g \<notin> set (gmr_token_set_gaps home)) (gmr_gaps home);
          selection = select_cross_domain_memberships (gmr_memberships home) global_and_universal;
          memberships = cts_kept selection @ map (unchained trusted sid) (cts_without_chain selection);
          (identity, memberships, filtered) = apply_sid_filtering identity memberships (tc_domain_sid trust)
            (tc_attributes trust) (tc_forest trust);
          gaps = gaps @ map (\<lambda>s. not_modelled_gap s trust) (sfo_not_modelled filtered);
          crossing = (sid, None) # crossing_groups memberships {}
      in and_then (resource_loop resource sid crossing (gaps, gmr_excluded_groups home, [])) (\<lambda>(gaps, excluded, resource_memberships).
        Inr \<lparr>pr_sid = sid, pr_identity = identity,
             pr_memberships = memberships @ resource_memberships @ [organization_group sid identity trust],
             pr_scope_status = ResolvedInTrustedDomain (tc_partner trust),
             pr_group_resolution_status = LdapRecursive, pr_disabled_status = disabled_from_ldap identity,
             pr_diagnostics = push_diagnostics (ResolvedInTrustedDomain (tc_partner trust))
               (disabled_from_ldap identity) (id_disabled identity),
             pr_resolved_via_fsp = False, pr_resolved_via_global_catalog = False,
             pr_group_resolution_gaps = gaps, pr_excluded_groups = excluded,
             pr_trusted_domain = Some
               \<lparr>td_domain = tc_partner trust, td_home_only_groups = cts_home_only selection,
                td_sid_filtered = sfo_filtered filtered,
                td_selective_authentication = selective_authentication (tc_attributes trust)\<rparr>\<rparr>))"

definition resolve_account :: "Directory \<Rightarrow> Directory \<Rightarrow> Sid \<Rightarrow> TrustContext \<Rightarrow> CoreError + PrincipalResolution" where
  "resolve_account trusted resource sid trust =
     and_then (dir_resolve_identity trusted sid) (\<lambda>identity.
       if id_kind identity = Orphaned then
         Inl (Validation (''no account with SID '' @ sid @ '' exists in '' @ tc_partner trust))
       else
         let identity = (if id_domain identity = None then identity\<lparr>id_domain := Some (tc_partner trust)\<rparr> else identity)
         in and_then (dir_memberships trusted sid) (\<lambda>home.
            and_then (dir_token_groups trusted sid) (\<lambda>tokens.
              case tokens of
                None \<Rightarrow> Inl (LdapQuery (''the domain controller of '' @ tc_partner trust
       @ '' did not return tokenGroupsGlobalAndUniversal for '' @ sid @ '' '' @ em_dash
       @ '' which of its groups cross the trust is unknown''))
              | Some global_and_universal \<Rightarrow>
                  account_token trusted resource sid trust identity home global_and_universal)))"

definition ldap_trusted_backend :: "Directory \<Rightarrow> Directory \<Rightarrow> TrustedDomainBackend" where
  "ldap_trusted_backend trusted resource =
     \<lparr>tb_served_domain_sid = fst (served_domain_sid trusted None),
      tb_resolve_account = resolve_account trusted resource\<rparr>"

section \<open>The filtering keeps exactly the SIDs that pass\<close>

definition add_dropped :: "bool \<Rightarrow> string list \<Rightarrow> SidFilterOutcome \<Rightarrow> SidFilterOutcome" where
  "add_dropped quarantined texts out =
     (if quarantined then out\<lparr>sfo_filtered := sfo_filtered out @ texts\<rparr>
      else out\<lparr>sfo_not_modelled := sfo_not_modelled out @ texts\<rparr>)"

lemma add_dropped_simps [simp]:
  "add_dropped q [] out = out" "add_dropped q b (add_dropped q a out) = add_dropped q (a @ b) out"
  by (simp_all add: add_dropped_def)

lemma drop_it_add: "drop_it q d f sid label_name out = (\<not> passes d f sid, add_dropped q (if passes d f sid then [] else [display sid label_name]) out)"
  by (simp add: drop_it_def add_dropped_def)

lemma retain_drop_it:
  "retain (\<lambda>x. drop_it q d f (key x) (name_of x)) xs out =
     (filter (\<lambda>x. passes d f (key x)) xs,
      add_dropped q (map (\<lambda>x. display (key x) (name_of x)) (filter (\<lambda>x. \<not> passes d f (key x)) xs)) out)"
  by (induction xs arbitrary: out) (simp_all add: drop_it_add Let_def)

definition history_label :: "GroupMembership \<Rightarrow> string" where
  "history_label m = ''sIDHistory of '' @ (case gm_group_name m of Some n \<Rightarrow> n | None \<Rightarrow> gm_group_sid m)"

definition kept_history :: "(Sid \<Rightarrow> bool) \<Rightarrow> GroupMembership \<Rightarrow> GroupMembership" where
  "kept_history pass m = m\<lparr>gm_group_sid_history := filter pass (gm_group_sid_history m),
     gm_group_sid_history_count := gm_group_sid_history_count m - length (filter (\<lambda>h. \<not> pass h) (gm_group_sid_history m))\<rparr>"

definition dropped_history :: "(Sid \<Rightarrow> bool) \<Rightarrow> GroupMembership \<Rightarrow> string list" where
  "dropped_history pass m = map (\<lambda>h. display h (Some (history_label m))) (filter (\<lambda>h. \<not> pass h) (gm_group_sid_history m))"

lemma length_dropped: "length xs - length (filter P xs) = length (filter (\<lambda>x. \<not> P x) xs)"
  using sum_length_filter_compl [of P xs] by simp

lemma filter_histories_drop_it:
  "filter_histories (drop_it q d f) ms out =
     (map (kept_history (passes d f)) ms, add_dropped q (concat (map (dropped_history (passes d f)) ms)) out)"
  by (induction ms arbitrary: out)
    (simp_all add: Let_def retain_drop_it length_dropped kept_history_def dropped_history_def history_label_def)


definition crosses_trust :: "string \<Rightarrow> TrustAttributes \<Rightarrow> TrustedForest option \<Rightarrow> Sid \<Rightarrow> bool" where
  \<comment> \<open>What SID filtering lets through (ADR 0084): a SID of the trusted domain itself, and
    over a forest trust a SID of a domain the forest trust information lists as enabled.\<close>
  "crosses_trust d a forest sid \<longleftrightarrow>
     (\<exists>its_domain. account_domain_of sid = Some its_domain \<and>
        (to_ascii_lowercase its_domain = to_ascii_lowercase d
         \<or> (forest_transitive a \<and> (\<exists>f. forest = Some f \<and>
              to_ascii_lowercase its_domain \<in> to_ascii_lowercase ` set (tf_domain_sids f)))))"

lemma passes_iff: "passes d (if forest_transitive a then forest else None) = crosses_trust d a forest"
proof
  fix sid
  have "to_ascii_lowercase x \<in> to_ascii_lowercase ` A \<longleftrightarrow> (\<exists>y \<in> A. to_ascii_lowercase y = to_ascii_lowercase x)" for x A
    by (auto simp: image_iff) metis+
  then show "passes d (if forest_transitive a then forest else None) sid = crosses_trust d a forest sid"
    by (auto simp: passes_def crosses_trust_def of_domain_def forest_contains_def list_ex_iff
        eq_ignore_ascii_case_def split: option.splits)
qed

lemma filtering_eq:
  "apply_sid_filtering identity memberships d a forest =
     (let pass = crosses_trust d a forest;
          kept = filter (\<lambda>m. pass (gm_group_sid m)) memberships;
          history_dropped = filter (\<lambda>h. \<not> pass h) (id_sid_history identity);
          named = map (\<lambda>h. display h (Some ''sIDHistory of the account'')) history_dropped
            @ map (\<lambda>m. display (gm_group_sid m) (gm_group_name m)) (filter (\<lambda>m. \<not> pass (gm_group_sid m)) memberships)
            @ concat (map (dropped_history pass) kept)
      in (identity\<lparr>id_sid_history := filter pass (id_sid_history identity),
            id_sid_history_count := id_sid_history_count identity - length history_dropped\<rparr>,
          map (kept_history pass) kept,
          if sid_filtering_enabled a \<and> \<not> forest_transitive a
          then \<lparr>sfo_filtered = named, sfo_not_modelled = []\<rparr> else \<lparr>sfo_filtered = [], sfo_not_modelled = named\<rparr>))"
  by (simp only: apply_sid_filtering_def Let_def retain_drop_it [where key = "\<lambda>h. h"] retain_drop_it
        filter_histories_drop_it passes_iff case_prod_conv add_dropped_simps length_dropped append_assoc)
  (simp add: add_dropped_def)

text \<open>C12: The filtering of a trust is exact and drops nothing in silence: of the historical SIDs of the
  account, of its groups and of their historical SIDs exactly those stay that cross the trust, that is,
  that belong to the trusted domain or, on a forest trust, to a domain the trust information of the
  forest lists as enabled, domain SIDs compared without case; every other one is named, in order, as
  removed by the quarantine (SID filtering without a forest trust) or else as not modelled, and leaves
  the counts as well.\<close>

theorem sid_filtering_exact:
  "apply_sid_filtering identity memberships d a forest =
     (let pass = crosses_trust d a forest;
          kept = filter (\<lambda>m. pass (gm_group_sid m)) memberships;
          history_dropped = filter (\<lambda>h. \<not> pass h) (id_sid_history identity);
          named = map (\<lambda>h. display h (Some ''sIDHistory of the account'')) history_dropped
            @ map (\<lambda>m. display (gm_group_sid m) (gm_group_name m)) (filter (\<lambda>m. \<not> pass (gm_group_sid m)) memberships)
            @ concat (map (dropped_history pass) kept)
      in (identity\<lparr>id_sid_history := filter pass (id_sid_history identity),
            id_sid_history_count := id_sid_history_count identity - length history_dropped\<rparr>,
          map (kept_history pass) kept,
          if sid_filtering_enabled a \<and> \<not> forest_transitive a
          then \<lparr>sfo_filtered = named, sfo_not_modelled = []\<rparr> else \<lparr>sfo_filtered = [], sfo_not_modelled = named\<rparr>))"
  by (rule filtering_eq)

end
