(* ===== verification/Principal_Results.thy ===== *)
theory Principal_Results
  imports Trusted_Accounts Analysis
begin

text \<open>
  What a resolved principal promises: when it is called gone, that groups that were not read are
  marked, and that the membership view shows the markers of the engine.
\<close>

section \<open>What a resolution across a trust has read\<close>

definition left_out_named :: "TrustContext \<Rightarrow> PrincipalResolution \<Rightarrow> string \<Rightarrow> bool" where
  \<comment> \<open>The text is listed as removed by the SID filtering, or a gap says why it was left out.\<close>
  "left_out_named t r text \<longleftrightarrow>
     (\<exists>td. pr_trusted_domain r = Some td \<and> text \<in> set (td_sid_filtered td))
     \<or> not_modelled_gap text t \<in> set (pr_group_resolution_gaps r)"

definition resource_read :: "Directory \<Rightarrow> PrincipalResolution \<Rightarrow> Sid \<Rightarrow> bool" where
  \<comment> \<open>The resource domain has no object for the SID, or its groups there were read and are shown.\<close>
  "resource_read resource r via \<longleftrightarrow> dir_has_object resource via = Inr False
     \<or> (\<exists>there. dir_has_object resource via = Inr True \<and> dir_memberships resource via = Inr there
          \<and> gm_group_sid ` set (gmr_memberships there) \<subseteq> gm_group_sid ` set (pr_memberships r)
          \<and> set (gmr_gaps there) \<subseteq> set (pr_group_resolution_gaps r))"

definition token_group_shown :: "Directory \<Rightarrow> TrustContext \<Rightarrow> PrincipalResolution \<Rightarrow> Sid \<Rightarrow> bool" where
  \<comment> \<open>A group of the home token is a membership and its groups in the resource domain were read, or it
    is named as left out.\<close>
  "token_group_shown resource t r g \<longleftrightarrow>
     (\<exists>m \<in> set (pr_memberships r). to_ascii_uppercase (gm_group_sid m) = to_ascii_uppercase g)
       \<and> (\<exists>via. to_ascii_uppercase via = to_ascii_uppercase g \<and> resource_read resource r via)
     \<or> (\<exists>s label_name. to_ascii_uppercase s = to_ascii_uppercase g \<and> left_out_named t r (display s label_name))"

definition read_across :: "Directory \<Rightarrow> Directory \<Rightarrow> Sid \<Rightarrow> TrustContext \<Rightarrow> PrincipalResolution \<Rightarrow> bool" where
  \<comment> \<open>The home domain answered with the memberships and the token groups; the gaps of the memberships that
    the token groups do not close are kept, and every token group is accounted for.\<close>
  "read_across trusted resource sid t r \<longleftrightarrow>
     (\<exists>home tokens. dir_memberships trusted sid = Inr home \<and> dir_token_groups trusted sid = Inr (Some tokens)
        \<and> set (gmr_gaps home) - set (gmr_token_set_gaps home) \<subseteq> set (pr_group_resolution_gaps r)
        \<and> list_all (token_group_shown resource t r) tokens)
     \<and> resource_read resource r sid"

lemma select_loop_seen:
  assumes "select_loop crossing ms sh sk kept home_only = (k, h, s)"
    and "\<forall>x \<in> sk. \<exists>m \<in> set kept. to_ascii_uppercase (gm_group_sid m) = x"
  shows "\<forall>x \<in> s. \<exists>m \<in> set k. to_ascii_uppercase (gm_group_sid m) = x"
  using assms
  by (induction crossing ms sh sk kept home_only rule: select_loop.induct)
    (auto simp: Let_def split: if_splits)

lemma token_group_selected:
  assumes "g \<in> set tokens"
  shows "(\<exists>m \<in> set (cts_kept (select_cross_domain_memberships ms tokens)). to_ascii_uppercase (gm_group_sid m) = to_ascii_uppercase g)
    \<or> g \<in> set (cts_without_chain (select_cross_domain_memberships ms tokens))"
proof -
  obtain k h s where l: "select_loop (set (map to_ascii_uppercase tokens)) ms {} {} [] [] = (k, h, s)"
    by (cases "select_loop (set (map to_ascii_uppercase tokens)) ms {} {} [] []")
  then have "\<forall>x \<in> s. \<exists>m \<in> set k. to_ascii_uppercase (gm_group_sid m) = x"
    by (rule select_loop_seen) simp
  then show ?thesis
    using assms by (auto simp: select_cross_domain_memberships_def Let_def l simp del: set_map)
qed

lemma crossing_covers:
  "m \<in> set ms \<Longrightarrow> to_ascii_uppercase (gm_group_sid m) \<notin> seen \<Longrightarrow>
     \<exists>via path. (via, path) \<in> set (crossing_groups ms seen)
       \<and> to_ascii_uppercase via = to_ascii_uppercase (gm_group_sid m)"
proof (induction ms arbitrary: seen)
  case (Cons a ms)
  show ?case
  proof (cases "to_ascii_uppercase (gm_group_sid a) = to_ascii_uppercase (gm_group_sid m)")
    case True
    then have "(gm_group_sid a, Some a) \<in> set (crossing_groups (a # ms) seen)"
      using Cons.prems(2) unfolding crossing_groups.simps Let_def True by simp
    with True show ?thesis by blast
  next
    case False
    then have "m \<in> set ms" using Cons.prems(1) by auto
    define seen' where "seen' = (if to_ascii_uppercase (gm_group_sid a) \<in> seen then seen
        else insert (to_ascii_uppercase (gm_group_sid a)) seen)"
    have "to_ascii_uppercase (gm_group_sid m) \<notin> seen'"
      unfolding seen'_def using False Cons.prems(2) by (metis insert_iff)
    then obtain via path where via: "(via, path) \<in> set (crossing_groups ms seen')"
        "to_ascii_uppercase via = to_ascii_uppercase (gm_group_sid m)"
      using Cons.IH [OF \<open>m \<in> set ms\<close>] by blast
    have "set (crossing_groups ms seen') \<subseteq> set (crossing_groups (a # ms) seen)"
      by (auto simp: seen'_def Let_def)
    with via show ?thesis by blast
  qed
qed simp

lemma resource_loop_reads:
  assumes "resource_loop resource sid vias (gaps, excluded, found) = Inr (gaps', excluded', found')"
  shows "set gaps \<subseteq> set gaps' \<and> gm_group_sid ` set found \<subseteq> gm_group_sid ` set found'
    \<and> (\<forall>(via, path) \<in> set vias. dir_has_object resource via = Inr False
       \<or> (\<exists>there. dir_has_object resource via = Inr True \<and> dir_memberships resource via = Inr there
            \<and> gm_group_sid ` set (gmr_memberships there) \<subseteq> gm_group_sid ` set found'
            \<and> set (gmr_gaps there) \<subseteq> set gaps'))"
  using assms
proof (induction vias arbitrary: gaps excluded found)
  case (Cons v vias)
  obtain via path where v: "v = (via, path)" by (cases v)
  obtain present where present: "dir_has_object resource via = Inr present"
    using Cons.prems by (auto simp: v and_then_Inr)
  show ?case
  proof (cases present)
    case False
    then show ?thesis using Cons.IH [of gaps excluded found] Cons.prems present by (auto simp: v)
  next
    case True
    then obtain there where there: "dir_memberships resource via = Inr there"
      using Cons.prems present by (auto simp: v and_then_Inr)
    have same: "gm_group_sid (chain_through sid path m) = gm_group_sid m" for m
      by (simp add: chain_through_def split: option.split)
    then have "gm_group_sid ` set (map (chain_through sid path) ms) = gm_group_sid ` set ms" for ms
      by (simp add: image_image)
    then show ?thesis
      using Cons.IH [of "gaps @ gmr_gaps there" "excluded @ gmr_excluded_groups there"
          "found @ map (chain_through sid path) (gmr_memberships there)"] Cons.prems present there True
      by (auto simp: v image_Un simp del: set_map)
  qed
qed simp

lemma filtered_group:
  assumes f: "apply_sid_filtering identity ms d a forest = (identity', ms', out)" and m: "m \<in> set ms"
  shows "(\<exists>m' \<in> set ms'. gm_group_sid m' = gm_group_sid m)
    \<or> display (gm_group_sid m) (gm_group_name m) \<in> set (sfo_filtered out) \<union> set (sfo_not_modelled out)"
proof (cases "crosses_trust d a forest (gm_group_sid m)")
  case True
  then have "kept_history (crosses_trust d a forest) m \<in> set ms'"
    using f m by (auto simp: filtering_eq Let_def)
  moreover have "gm_group_sid (kept_history (crosses_trust d a forest) m) = gm_group_sid m"
    by (simp add: kept_history_def)
  ultimately show ?thesis by blast
next
  case False
  then have "display (gm_group_sid m) (gm_group_name m) \<in>
      set (map (\<lambda>m. display (gm_group_sid m) (gm_group_name m)) (filter (\<lambda>m. \<not> crosses_trust d a forest (gm_group_sid m)) ms))"
    using m by auto
  then show ?thesis
    using f unfolding filtering_eq Let_def by (auto split: if_splits)
qed

lemma filtered_identity:
  "apply_sid_filtering identity ms d a forest = (identity', ms', out) \<Longrightarrow> id_kind identity' = id_kind identity"
  by (auto simp: filtering_eq Let_def)

lemma account_token_reads:
  assumes token: "account_token trusted resource sid t i home tokens = Inr r"
    and home: "dir_memberships trusted sid = Inr home" "dir_token_groups trusted sid = Inr (Some tokens)"
  shows "read_across trusted resource sid t r" "id_kind (pr_identity r) = id_kind i"
    "pr_disabled_status r \<noteq> DisabledStatus.Unknown"
    "pr_scope_status r = ResolvedInTrustedDomain (tc_partner t)"
proof -
  define selection where "selection = select_cross_domain_memberships (gmr_memberships home) tokens"
  define candidates where "candidates = cts_kept selection @ map (unchained trusted sid) (cts_without_chain selection)"
  obtain i' ms out where f: "apply_sid_filtering i candidates (tc_domain_sid t) (tc_attributes t) (tc_forest t) = (i', ms, out)"
    by (cases "apply_sid_filtering i candidates (tc_domain_sid t) (tc_attributes t) (tc_forest t)")
  define open_gaps where "open_gaps = filter (\<lambda>g. g \<notin> set (gmr_token_set_gaps home)) (gmr_gaps home)
      @ map (\<lambda>s. not_modelled_gap s t) (sfo_not_modelled out)"
  let ?loop = "resource_loop resource sid ((sid, None) # crossing_groups ms {}) (open_gaps, gmr_excluded_groups home, [])"
  note token = token [unfolded account_token_def Let_def, folded selection_def, folded candidates_def,
      unfolded f prod.case, folded open_gaps_def]
  obtain gaps excluded found where loop: "?loop = Inr (gaps, excluded, found)"
    using token by (cases ?loop) (auto simp del: resource_loop.simps)
  have r: "pr_memberships r = ms @ found @ [organization_group sid i' t]" "pr_group_resolution_gaps r = gaps"
      "pr_identity r = i'" "pr_scope_status r = ResolvedInTrustedDomain (tc_partner t)"
      "pr_disabled_status r = disabled_from_ldap i'" "\<exists>td. pr_trusted_domain r = Some td \<and> td_sid_filtered td = sfo_filtered out"
    using token [unfolded loop] by auto
  show "id_kind (pr_identity r) = id_kind i" using filtered_identity [OF f] r(3) by simp
  show "pr_disabled_status r \<noteq> DisabledStatus.Unknown" by (simp add: r(5) disabled_from_ldap_def)
  show "pr_scope_status r = ResolvedInTrustedDomain (tc_partner t)" by (rule r(4))
  note reads = resource_loop_reads [OF loop]
  have resource: "resource_read resource r via" if "(via, path) \<in> set ((sid, None) # crossing_groups ms {})" for via path
  proof -
    have "dir_has_object resource via = Inr False
        \<or> (\<exists>there. dir_has_object resource via = Inr True \<and> dir_memberships resource via = Inr there
             \<and> gm_group_sid ` set (gmr_memberships there) \<subseteq> gm_group_sid ` set found
             \<and> set (gmr_gaps there) \<subseteq> set gaps)"
      using bspec [OF reads [THEN conjunct2, THEN conjunct2] that] unfolding prod.case .
    then consider "dir_has_object resource via = Inr False"
      | there where "dir_has_object resource via = Inr True" "dir_memberships resource via = Inr there"
        "gm_group_sid ` set (gmr_memberships there) \<subseteq> gm_group_sid ` set found" "set (gmr_gaps there) \<subseteq> set gaps"
      by (elim disjE exE conjE)
    then show ?thesis
    proof cases
      case 2
      then have "gm_group_sid ` set (gmr_memberships there) \<subseteq> gm_group_sid ` set (pr_memberships r)"
        unfolding r(1) set_append image_Un by blast
      with 2 show ?thesis unfolding resource_read_def r(2) by blast
    qed (simp add: resource_read_def)
  qed
  have shown: "token_group_shown resource t r g" if "g \<in> set tokens" for g
  proof -
    have "\<exists>m \<in> set candidates. to_ascii_uppercase (gm_group_sid m) = to_ascii_uppercase g"
      using token_group_selected [OF that, of "gmr_memberships home"] unfolding selection_def [symmetric]
    proof
      assume "\<exists>m \<in> set (cts_kept selection). to_ascii_uppercase (gm_group_sid m) = to_ascii_uppercase g"
      then show ?thesis unfolding candidates_def set_append by blast
    next
      assume "g \<in> set (cts_without_chain selection)"
      then have "unchained trusted sid g \<in> set candidates" unfolding candidates_def by simp
      moreover have "gm_group_sid (unchained trusted sid g) = g" by (simp add: unchained_def)
      ultimately show ?thesis by metis
    qed
    then obtain m where m: "m \<in> set candidates" "to_ascii_uppercase (gm_group_sid m) = to_ascii_uppercase g" by blast
    from filtered_group [OF f m(1)] show ?thesis
    proof
      assume "\<exists>m' \<in> set ms. gm_group_sid m' = gm_group_sid m"
      then obtain m' where m': "m' \<in> set ms" "gm_group_sid m' = gm_group_sid m" by blast
      obtain via path where "(via, path) \<in> set (crossing_groups ms {})"
          "to_ascii_uppercase via = to_ascii_uppercase (gm_group_sid m')"
        using crossing_covers [OF m'(1), of "{}"] by blast
      then have "to_ascii_uppercase via = to_ascii_uppercase g" "resource_read resource r via"
        using m' m(2) resource [of via path] by (metis, simp)
      moreover have "m' \<in> set (pr_memberships r)" "to_ascii_uppercase (gm_group_sid m') = to_ascii_uppercase g"
        using m' m(2) by (simp_all add: r(1))
      ultimately show ?thesis unfolding token_group_shown_def by blast
    next
      assume "display (gm_group_sid m) (gm_group_name m) \<in> set (sfo_filtered out) \<union> set (sfo_not_modelled out)"
      then have "left_out_named t r (display (gm_group_sid m) (gm_group_name m))"
        using r(2,6) reads by (auto simp: left_out_named_def open_gaps_def)
      with m(2) show ?thesis unfolding token_group_shown_def by blast
    qed
  qed
  have "set (gmr_gaps home) - set (gmr_token_set_gaps home) \<subseteq> set (pr_group_resolution_gaps r)"
    using reads by (auto simp: r(2) open_gaps_def)
  then show "read_across trusted resource sid t r"
    using home shown resource [of sid None] unfolding read_across_def list_all_iff by simp
qed

section \<open>The contract of a connection to a trusted domain\<close>

definition answered :: "(Sid \<Rightarrow> TrustContext \<Rightarrow> PrincipalResolution \<Rightarrow> bool) \<Rightarrow> Sid \<Rightarrow> PrincipalResolution \<Rightarrow> bool" where
  \<comment> \<open>What a connection answers: an account it read, or that the SID is not resolvable.\<close>
  "answered reads sid r \<longleftrightarrow>
     (\<exists>t. reads sid t r \<and> id_kind (pr_identity r) \<noteq> Orphaned \<and> pr_disabled_status r \<noteq> DisabledStatus.Unknown
        \<and> pr_scope_status r = ResolvedInTrustedDomain (tc_partner t))
     \<or> (\<exists>reason. r = unresolvable_resolution sid reason)"

locale trusted_connection =
  fixes backend :: TrustedDomainBackend and reads :: "Sid \<Rightarrow> TrustContext \<Rightarrow> PrincipalResolution \<Rightarrow> bool"
  assumes resolved_there: "tb_resolve_account backend sid t = Inr r \<Longrightarrow>
      reads sid t r \<and> id_kind (pr_identity r) \<noteq> Orphaned \<and> pr_disabled_status r \<noteq> DisabledStatus.Unknown
      \<and> pr_scope_status r = ResolvedInTrustedDomain (tc_partner t)"
begin

lemma trusted_outcome:
  assumes "trusted_backend p = Some backend" "resolve_in_trusted_domain p sid rel = Some r"
  shows "answered reads sid r"
proof -
  have "(\<exists>t. tb_resolve_account backend sid t = Inr r) \<or> (\<exists>reason. r = unresolvable_resolution sid reason)"
    using assms by (auto simp: resolve_in_trusted_domain_def split: SidDomainRelation.splits sum.splits if_splits)
  then show ?thesis unfolding answered_def using resolved_there by blast
qed

lemma serving_outcome:
  assumes "trusted_backend p = Some backend" "resolve_with_serving_connection p sid = Some r"
  shows "answered reads sid r"
  using assms trusted_outcome [OF assms(1)]
  by (auto simp: resolve_with_serving_connection_def Let_def split: SidDomainRelation.splits sum.splits if_splits)

end

lemma trusted_backend_resolves:
  assumes "resolve_account trusted resource sid t = Inr r"
  shows "read_across trusted resource sid t r \<and> id_kind (pr_identity r) \<noteq> Orphaned
    \<and> pr_disabled_status r \<noteq> DisabledStatus.Unknown \<and> pr_scope_status r = ResolvedInTrustedDomain (tc_partner t)"
proof -
  obtain i home tokens where a: "dir_memberships trusted sid = Inr home" "dir_token_groups trusted sid = Inr (Some tokens)"
      "account_token trusted resource sid t i home tokens = Inr r" "id_kind i \<noteq> Orphaned"
    using assms by (auto simp: resolve_account_def Let_def and_then_Inr split: option.splits if_splits)
  show ?thesis using account_token_reads [OF a(3,1,2)] a(4) by simp
qed

interpretation ldap: trusted_connection "ldap_trusted_backend trusted resource" "read_across trusted resource"
  for trusted resource
  by unfold_locales (use trusted_backend_resolves in \<open>simp add: ldap_trusted_backend_def\<close>)

section \<open>When an account is called gone\<close>

definition ldap_pipeline :: "IdentityBackend \<Rightarrow> LsaBackend option \<Rightarrow> (Directory \<times> Directory) option \<Rightarrow> PrincipalResolver" where
  \<comment> \<open>The resolver the frontends build, with or without a connection to a trusted domain.\<close>
  "ldap_pipeline ib lsa trust =
     \<lparr>identity_backend = ib, lsa_backend = lsa,
      trusted_backend = map_option (\<lambda>(trusted, resource). ldap_trusted_backend trusted resource) trust\<rparr>"

lemma pipeline_parts [simp]:
  "identity_backend (ldap_pipeline ib lsa trust) = ib" "lsa_backend (ldap_pipeline ib lsa trust) = lsa"
  by (simp_all add: ldap_pipeline_def)

definition connection_reads ::
    "(Directory \<times> Directory) option \<Rightarrow> Sid \<Rightarrow> TrustContext \<Rightarrow> PrincipalResolution \<Rightarrow> bool" where
  "connection_reads trust sid t r = (case trust of Some (trusted, resource) \<Rightarrow> read_across trusted resource sid t r | None \<Rightarrow> False)"

lemma pipeline_trusted:
  assumes "resolve_in_trusted_domain (ldap_pipeline ib lsa trust) sid rel = Some r"
  shows "answered (connection_reads trust) sid r"
proof (cases trust)
  case None
  then show ?thesis using assms
    by (simp add: ldap_pipeline_def resolve_in_trusted_domain_def split: SidDomainRelation.splits)
next
  case (Some c)
  obtain trusted resource where c: "c = (trusted, resource)" by (cases c)
  have "connection_reads trust = read_across trusted resource"
    by (intro ext) (simp add: connection_reads_def Some c)
  then show ?thesis
    using ldap.trusted_outcome [OF _ assms, of trusted resource] by (simp add: ldap_pipeline_def Some c)
qed

lemma pipeline_serving:
  assumes "resolve_with_serving_connection (ldap_pipeline ib lsa trust) sid = Some r"
  shows "answered (connection_reads trust) sid r"
proof (cases trust)
  case None
  then show ?thesis using assms by (simp add: ldap_pipeline_def resolve_with_serving_connection_def)
next
  case (Some c)
  obtain trusted resource where c: "c = (trusted, resource)" by (cases c)
  have "connection_reads trust = read_across trusted resource"
    by (intro ext) (simp add: connection_reads_def Some c)
  then show ?thesis
    using ldap.serving_outcome [OF _ assms, of trusted resource] by (simp add: ldap_pipeline_def Some c)
qed

definition served_by_connection :: "IdentityBackend \<Rightarrow> (Directory \<times> Directory) option \<Rightarrow> Sid \<Rightarrow> bool" where
  \<comment> \<open>The SID belongs to a trusted domain, and the connection serves that very domain.\<close>
  "served_by_connection ib trust sid \<longleftrightarrow>
     (\<exists>trusted resource partner domain_sid attributes forest served.
        trust = Some (trusted, resource)
        \<and> ib_classify_unresolved ib sid = TrustedDomain partner domain_sid attributes forest
        \<and> dir_domain_sid trusted = Inr (Some served) \<and> eq_ignore_ascii_case served domain_sid)"

lemma not_served:
  "resolve_with_serving_connection (ldap_pipeline ib lsa trust) sid = None \<longleftrightarrow> \<not> served_by_connection ib trust sid"
proof (cases trust)
  case None
  then show ?thesis
    by (simp add: ldap_pipeline_def resolve_with_serving_connection_def served_by_connection_def)
next
  case (Some c)
  obtain trusted resource where c: "c = (trusted, resource)" by (cases c)
  show ?thesis
    by (cases "dir_domain_sid trusted"; cases "projr (dir_domain_sid trusted)")
      (auto simp: ldap_pipeline_def resolve_with_serving_connection_def resolve_in_trusted_domain_def Let_def
        served_by_connection_def Some c ldap_trusted_backend_def served_domain_sid_def
        split: SidDomainRelation.splits sum.splits)
qed

lemma scopes [simp]:
  "pr_scope_status (orphaned_resolution sid) = OrphanedSid"
  "pr_scope_status (unresolvable_resolution sid reason) = Unresolvable reason"
  "pr_scope_status (failed_lookup_resolution sid reason) = LookupFailed reason"
  "pr_scope_status (empty_resolution sid i scope ds) = scope"
  "pr_scope_status (found_resolution p sid i) = InsideConfiguredLdapBase"
  "pr_scope_status (resolve_fsp_hit p sid i) = InsideConfiguredLdapBase"
  by (simp_all add: orphaned_resolution_def unresolvable_resolution_def failed_lookup_resolution_def
      empty_resolution_def found_resolution_def resolve_fsp_hit_def Let_def split: prod.splits)

lemma whole_base_reason: "unresolvable_reason rel sid = None \<longleftrightarrow> rel = ConfiguredDomainWholeBase"
  by (simp add: unresolvable_reason_def split: SidDomainRelation.splits)

lemma whole_base_facts [simp]:
  "unresolvable_reason ConfiguredDomainWholeBase sid = None"
  "resolve_in_trusted_domain p sid ConfiguredDomainWholeBase = None"
  by (simp_all add: resolve_in_trusted_domain_def unresolvable_reason_def)

lemma classify_orphaned:
  "pr_scope_status (classify_unresolved (ldap_pipeline ib lsa trust) sid) = OrphanedSid \<longleftrightarrow>
     ib_classify_unresolved ib sid = ConfiguredDomainWholeBase"
proof (cases "resolve_in_trusted_domain (ldap_pipeline ib lsa trust) sid (ib_classify_unresolved ib sid)")
  case None
  then show ?thesis
    by (auto simp: classify_unresolved_def Let_def whole_base_reason split: option.splits)
next
  case (Some r)
  then have "pr_scope_status r \<noteq> OrphanedSid" using pipeline_trusted [OF Some] by (auto simp: answered_def)
  moreover have "ib_classify_unresolved ib sid \<noteq> ConfiguredDomainWholeBase" using Some by auto
  ultimately show ?thesis using Some by (simp add: classify_unresolved_def Let_def)
qed

definition lsa_names :: "LsaBackend option \<Rightarrow> Sid \<Rightarrow> bool" where
  "lsa_names lsa sid \<longleftrightarrow> (case lsa of Some l \<Rightarrow> is_ok (lsa_account_for_sid l sid) | None \<Rightarrow> False)"

lemma orphaned_iff:
  "pr_scope_status (resolve_by_sid (ldap_pipeline ib lsa trust) sid) = OrphanedSid \<longleftrightarrow>
     ib_identity_by_sid ib sid = Inr None \<and> \<not> lsa_names lsa sid \<and> ib_classify_unresolved ib sid = ConfiguredDomainWholeBase"
proof -
  let ?p = "ldap_pipeline ib lsa trust"
  have serving: "pr_scope_status r \<noteq> OrphanedSid" if "resolve_with_serving_connection ?p sid = Some r" for r
    using pipeline_serving [OF that] by (auto simp: answered_def)
  have lsa: "pr_scope_status (fall_back_to_lsa ?p sid) = OrphanedSid \<longleftrightarrow>
      \<not> lsa_names lsa sid \<and> ib_classify_unresolved ib sid = ConfiguredDomainWholeBase"
    using serving by (auto simp: fall_back_to_lsa_def lsa_names_def classify_orphaned split: option.splits sum.splits)
  show ?thesis
    using serving by (auto simp: resolve_by_sid_def lsa split: sum.splits option.splits)
qed

definition ldap_identity_backend ::
    "LdapConfig \<Rightarrow> CoreError + TrustSearches \<Rightarrow> Directory \<Rightarrow> (string \<Rightarrow> CoreError + (Sid \<times> Identity) option) \<Rightarrow>
     (string \<Rightarrow> CoreError + (Sid \<times> Identity) list) \<Rightarrow> IdentityBackend" where
  "ldap_identity_backend cfg connect d by_upn by_sam =
     \<lparr>ib_identity_by_sid = backend_identity (dir_resolve_identity d), ib_identity_by_upn = by_upn,
      ib_identities_by_sam = by_sam, ib_memberships = dir_memberships d,
      ib_forest_wide = cfg_global_catalog cfg, ib_classify_unresolved = classify_unresolved_sid cfg connect\<rparr>"

definition proven_gone ::
    "LdapConfig \<Rightarrow> CoreError + TrustSearches \<Rightarrow> Directory \<Rightarrow> LsaBackend option \<Rightarrow> Sid \<Rightarrow> bool" where
  \<comment> \<open>The directory has no object, Windows does not name the SID, and the directory confirms that the
    configured base covers the whole domain of the SID.\<close>
  "proven_gone cfg connect d lsa sid \<longleftrightarrow>
     (\<exists>i. dir_resolve_identity d sid = Inr i \<and> id_kind i = Orphaned) \<and> \<not> lsa_names lsa sid
     \<and> (\<exists>its_domain ldap. account_domain_of sid = Some its_domain \<and> connect = Inr ldap
          \<and> domain_confirmed cfg ldap its_domain)"

definition called_deleted :: "Directory \<Rightarrow> LsaBackend option \<Rightarrow> Sid \<Rightarrow> bool" where
  \<comment> \<open>Windows itself calls the SID a deleted account (\<open>SidTypeDeletedAccount\<close>), and the directory has at
    most a Foreign Security Principal for it.\<close>
  "called_deleted d lsa sid \<longleftrightarrow>
     (\<exists>i. dir_resolve_identity d sid = Inr i \<and> (id_kind i = Orphaned \<or> id_kind i = ForeignSecurityPrincipal))
     \<and> (\<exists>l account. lsa = Some l \<and> lsa_account_for_sid l sid = Inr account \<and> la_kind account = Orphaned)"

lemma bare_kinds [simp]: "id_kind (bare_identity sid kind) = kind"
  by (simp add: bare_identity_def)

lemma resolution_kinds [simp]:
  "id_kind (pr_identity (orphaned_resolution sid)) = Orphaned"
  "id_kind (pr_identity (unresolvable_resolution sid reason)) = IdentityKind.Unknown"
  "id_kind (pr_identity (failed_lookup_resolution sid reason)) = IdentityKind.Unknown"
  "pr_identity (empty_resolution sid i scope ds) = i"
  "pr_identity (found_resolution p sid i) = i"
  "pr_identity (resolve_fsp_hit p sid i) = fsp_identity_of p sid i"
  by (simp_all add: orphaned_resolution_def unresolvable_resolution_def failed_lookup_resolution_def
      empty_resolution_def found_resolution_def resolve_fsp_hit_def Let_def split: prod.splits)

lemma answered_kind: "answered reads sid r \<Longrightarrow> id_kind (pr_identity r) \<noteq> Orphaned"
  by (auto simp: answered_def)

lemma classify_kind:
  "id_kind (pr_identity (classify_unresolved (ldap_pipeline ib lsa trust) sid)) = Orphaned \<longleftrightarrow>
     ib_classify_unresolved ib sid = ConfiguredDomainWholeBase"
proof (cases "resolve_in_trusted_domain (ldap_pipeline ib lsa trust) sid (ib_classify_unresolved ib sid)")
  case None
  then show ?thesis
    by (auto simp: classify_unresolved_def Let_def whole_base_reason split: option.splits)
next
  case (Some r)
  then have "ib_classify_unresolved ib sid \<noteq> ConfiguredDomainWholeBase" by auto
  then show ?thesis
    using Some answered_kind [OF pipeline_trusted [OF Some]] by (simp add: classify_unresolved_def Let_def)
qed

lemma orphaned_kind_iff:
  assumes "ib_identity_by_sid ib sid = backend_identity (dir_resolve_identity d) sid"
  shows "id_kind (pr_identity (resolve_by_sid (ldap_pipeline ib lsa trust) sid)) = Orphaned \<longleftrightarrow>
     (ib_identity_by_sid ib sid = Inr None \<and> \<not> lsa_names lsa sid \<and> ib_classify_unresolved ib sid = ConfiguredDomainWholeBase)
     \<or> (called_deleted d lsa sid \<and> \<not> served_by_connection ib trust sid)"
proof -
  let ?p = "ldap_pipeline ib lsa trust"
  let ?deleted = "\<exists>l account. lsa = Some l \<and> lsa_account_for_sid l sid = Inr account \<and> la_kind account = Orphaned"
  have serving: "id_kind (pr_identity r) \<noteq> Orphaned" "served_by_connection ib trust sid"
    if "resolve_with_serving_connection ?p sid = Some r" for r
    using answered_kind [OF pipeline_serving [OF that]] not_served [of ib lsa trust sid] that by auto
  have fallback: "id_kind (pr_identity (fall_back_to_lsa ?p sid)) = Orphaned \<longleftrightarrow>
      \<not> lsa_names lsa sid \<and> ib_classify_unresolved ib sid = ConfiguredDomainWholeBase
      \<or> ?deleted \<and> \<not> served_by_connection ib trust sid"
  proof (cases "lsa_names lsa sid")
    case True
    then obtain l account where l: "lsa = Some l" "lsa_account_for_sid l sid = Inr account"
      by (auto simp: lsa_names_def is_ok_iff split: option.splits)
    then show ?thesis
      using True serving not_served [of ib lsa trust sid]
      by (cases "resolve_with_serving_connection ?p sid") (simp_all add: fall_back_to_lsa_def)
  next
    case False
    then have "fall_back_to_lsa ?p sid = classify_unresolved ?p sid" "\<not> ?deleted"
      by (auto simp: fall_back_to_lsa_def lsa_names_def split: option.splits sum.splits)
    then show ?thesis using False unfolding \<open>fall_back_to_lsa ?p sid = classify_unresolved ?p sid\<close> classify_kind by blast
  qed
  have hit: "id_kind (fsp_identity_of ?p sid i) = Orphaned \<longleftrightarrow> ?deleted" if "id_kind i = ForeignSecurityPrincipal" for i
    using that by (auto simp: fsp_identity_of_def split: option.splits sum.splits)
  have found: "id_kind i \<noteq> Orphaned" if "ib_identity_by_sid ib sid = Inr (Some i)" for i
    using that assms by (auto simp: backend_identity_def and_then_Inr split: if_splits)
  show ?thesis
  proof (cases "dir_resolve_identity d sid")
    case (Inl e)
    then show ?thesis using assms by (simp add: resolve_by_sid_def backend_identity_def called_deleted_def)
  next
    case (Inr i)
    then have there: "ib_identity_by_sid ib sid = Inr (if id_kind i = Orphaned then None else Some i)"
      using assms by (simp add: backend_identity_def)
    show ?thesis
      using serving not_served [of ib lsa trust sid] hit [of i]
      by (cases "resolve_with_serving_connection ?p sid")
        (auto simp: resolve_by_sid_def there fallback called_deleted_def Inr)
  qed
qed

text \<open>C5: When an account is reported as orphaned. The kind of the resolved identity is Orphaned exactly
  in two cases. Either it is proven gone: the directory holds no object for its SID, the local security
  authority does not name it, and the directory confirms that the configured base covers the whole
  domain the SID belongs to. Or Windows itself calls the SID a deleted account while the directory has
  no object or only a Foreign Security Principal for it, and no connection serves the trusted domain
  of the SID. The status that suppresses the marker of an unknown account state is given in the first
  case alone. An error on the way, an object that was found, and any answer of a connection to a
  trusted domain give another kind and another status.\<close>

theorem orphaned_only_with_proof:
  "let ib = ldap_identity_backend cfg connect d by_upn by_sam;
       r = resolve_by_sid (ldap_pipeline ib lsa trust) sid
   in (id_kind (pr_identity r) = Orphaned \<longleftrightarrow>
         proven_gone cfg connect d lsa sid \<or> (called_deleted d lsa sid \<and> \<not> served_by_connection ib trust sid))
      \<and> (pr_scope_status r = OrphanedSid \<longleftrightarrow> proven_gone cfg connect d lsa sid)"
proof -
  let ?ib = "ldap_identity_backend cfg connect d by_upn by_sam"
  have gone: "ib_identity_by_sid ?ib sid = Inr None \<and> \<not> lsa_names lsa sid
      \<and> ib_classify_unresolved ?ib sid = ConfiguredDomainWholeBase \<longleftrightarrow> proven_gone cfg connect d lsa sid"
    by (auto simp: proven_gone_def ldap_identity_backend_def gone_iff backend_identity_def and_then_Inr split: if_splits)
  have "ib_identity_by_sid ?ib sid = backend_identity (dir_resolve_identity d) sid"
    by (simp add: ldap_identity_backend_def)
  note kind = orphaned_kind_iff [OF this, of lsa trust]
  show ?thesis unfolding Let_def kind orphaned_iff gone by blast
qed

section \<open>Groups that were not read are marked\<close>

lemma list_ex_marker: "d \<in> set ds \<Longrightarrow> is_incompleteness_trigger d \<Longrightarrow> list_ex is_incompleteness_trigger ds"
  by (auto simp: list_ex_iff)

definition read_at_home :: "IdentityBackend \<Rightarrow> Sid \<Rightarrow> PrincipalResolution \<Rightarrow> bool" where
  \<comment> \<open>The directory answered with the memberships of the SID, and the resolution hands on that answer.\<close>
  "read_at_home ib sid r \<longleftrightarrow>
     (\<exists>answer. ib_memberships ib sid = Inr answer \<and> pr_memberships r = gmr_memberships answer
        \<and> pr_group_resolution_gaps r = gmr_gaps answer \<and> pr_excluded_groups r = gmr_excluded_groups answer)"

definition accounted :: "IdentityBackend \<Rightarrow> (Directory \<times> Directory) option \<Rightarrow> Sid \<Rightarrow> PrincipalResolution \<Rightarrow> bool" where
  \<comment> \<open>The groups were read, at home or across the trust, or there is no account, or a marker makes
    the result incomplete.\<close>
  "accounted ib trust sid r \<longleftrightarrow> read_at_home ib sid r \<or> (\<exists>t. connection_reads trust sid t r)
     \<or> (ib_identity_by_sid ib sid = Inr None \<and> ib_classify_unresolved ib sid = ConfiguredDomainWholeBase)
     \<or> list_ex is_incompleteness_trigger (membership_diagnostics r)"

lemma triggers [simp]:
  "is_incompleteness_trigger (GroupResolutionFailed e)" "is_incompleteness_trigger (IdentityNotResolvable e)"
  "is_incompleteness_trigger (IdentityLookupFailed e)" "is_incompleteness_trigger IdentityNotInConfiguredLdapBase"
  by (simp_all add: is_incompleteness_trigger_def)

lemma accounted_unresolvable [simp]:
  "accounted ib trust sid (unresolvable_resolution sid reason)" "accounted ib trust sid (failed_lookup_resolution sid reason)"
  "accounted ib trust sid (empty_resolution sid i OutsideConfiguredLdapBase ds)"
  by (auto simp: accounted_def unresolvable_resolution_def failed_lookup_resolution_def
      empty_resolution_def membership_diagnostics_def engine_flags_def Let_def push_if_def on_some_def)

lemma accounted_groups:
  assumes "\<And>e. ib_memberships (identity_backend p) sid = Inl e \<Longrightarrow> pr_group_resolution_status r = Failed (error_text e)"
    and "\<And>answer. ib_memberships (identity_backend p) sid = Inr answer \<Longrightarrow> pr_memberships r = gmr_memberships answer
        \<and> pr_group_resolution_gaps r = gmr_gaps answer \<and> pr_excluded_groups r = gmr_excluded_groups answer"
  shows "accounted (identity_backend p) trust sid r"
proof (cases "ib_memberships (identity_backend p) sid")
  case (Inl e)
  then have "GroupResolutionFailed (error_text e) \<in> set (membership_diagnostics r)"
    using assms(1) by (simp add: membership_diagnostics_def engine_flags_def on_some_def Let_def)
  then have "list_ex is_incompleteness_trigger (membership_diagnostics r)"
    by (rule list_ex_marker) simp
  then show ?thesis by (simp add: accounted_def)
next
  case (Inr answer)
  then show ?thesis using assms(2) by (simp add: accounted_def read_at_home_def)
qed

lemma accounted_found [simp]:
  "accounted (identity_backend p) trust sid (found_resolution p sid i)"
  "accounted (identity_backend p) trust sid (resolve_fsp_hit p sid i)"
  by (rule accounted_groups; simp add: resolve_groups_def found_resolution_def resolve_fsp_hit_def Let_def)+

lemma accounted_trusted: "answered (connection_reads trust) sid r \<Longrightarrow> accounted ib trust sid r"
  by (auto simp: answered_def) (auto simp: accounted_def)

text \<open>C6: Groups that could not be read never make a result look complete. Whatever the directory, the
  local security authority and the connection to a trusted domain answer for a SID, one of these holds:
  the directory answered with its groups and the resolution hands on exactly that answer; or the
  trusted domain answered with its groups and its token groups, every one of these is a membership whose
  groups in the resource domain were read, or named as left out, and the gaps are kept; or
  the account is proven gone; or a marker says that the result is not complete.\<close>

theorem unread_groups_are_marked:
  "accounted ib trust sid (resolve_by_sid (ldap_pipeline ib lsa trust) sid)"
proof -
  let ?p = "ldap_pipeline ib lsa trust"
  have serving: "accounted ib trust sid r" if "resolve_with_serving_connection ?p sid = Some r" for r
    using accounted_trusted [OF pipeline_serving [OF that]] .
  have found: "accounted ib trust sid (found_resolution ?p sid i)" "accounted ib trust sid (resolve_fsp_hit ?p sid i)" for i
    using accounted_found [of ?p trust sid i] by simp_all
  have classified: "accounted ib trust sid (classify_unresolved ?p sid)" if "ib_identity_by_sid ib sid = Inr None"
    using that
    by (auto dest: accounted_trusted [OF pipeline_trusted] simp: classify_unresolved_def Let_def whole_base_reason
        split: option.splits) (simp add: accounted_def)
  have "accounted ib trust sid (fall_back_to_lsa ?p sid)" if "ib_identity_by_sid ib sid = Inr None"
    using serving classified [OF that] by (auto simp: fall_back_to_lsa_def split: option.splits sum.splits)
  then show ?thesis
    using serving found by (auto simp: resolve_by_sid_def split: sum.splits option.splits)
qed

section \<open>The membership view\<close>

definition path_level :: "PermissionDiagnostic \<Rightarrow> bool" where
  \<comment> \<open>Markers about an object, its share or the logon, not about the identity and its groups.\<close>
  "path_level d \<longleftrightarrow>
     (case d of NonCanonicalDaclOrder _ \<Rightarrow> True | InheritedDenyAfterInheritedAllow _ \<Rightarrow> True
      | UnsupportedShareAces _ \<Rightarrow> True | UnsupportedNtfsAces _ \<Rightarrow> True | LogonDependentTrustees _ _ _ \<Rightarrow> True
      | UacFilteredGroups _ \<Rightarrow> True | RemoteUacPolicy _ _ \<Rightarrow> True | GuestOrAnonymousToken _ \<Rightarrow> True
      | OwnerRightsAceApplied \<Rightarrow> True | DfsTargetEvaluated _ _ _ _ _ \<Rightarrow> True | LinkObject _ _ \<Rightarrow> True
      | DirectoryIdentityUnknown _ \<Rightarrow> True | _ \<Rightarrow> False)"

lemma order_markers: "d \<in> set (collect_diagnostics dacl) \<Longrightarrow> path_level d"
  unfolding collect_diagnostics_def
  by (cases "dacl_order_finding dacl"; cases "the (dacl_order_finding dacl)") (auto simp: path_level_def)

lemma path_markers: "d \<in> set (dacl_markers inp) \<union> set (uac_markers inp) \<Longrightarrow> path_level d"
  by (auto simp: dacl_markers_def uac_markers_def push_if_def on_some_def Let_def dest: order_markers
      split: if_splits option.splits RemoteUacFiltering.splits) (simp_all add: path_level_def)

lemma history_markers:
  "d \<in> set (sid_history_diagnostics i) \<Longrightarrow> \<not> path_level d"
  "d \<in> set (group_sid_history_diagnostics ms) \<Longrightarrow> \<not> path_level d"
  by (auto simp: sid_history_diagnostics_def group_sid_history_diagnostics_def Let_def path_level_def
      split: if_splits prod.splits)

definition selective_trust :: "PrincipalResolution \<Rightarrow> bool" where
  \<comment> \<open>The account comes over a trust with selective authentication.\<close>
  "selective_trust r = (case pr_trusted_domain r of Some td \<Rightarrow> td_selective_authentication td | None \<Rightarrow> False)"

definition state_unknown :: "PrincipalResolution \<Rightarrow> bool" where
  "state_unknown r \<longleftrightarrow> pr_disabled_status r = DisabledStatus.Unknown \<and> pr_scope_status r \<noteq> OrphanedSid"

text \<open>C34: The membership view and the evaluation of a path say the same about an identity. For an
  input that carries the resolution, the view shows exactly the markers of the engine that are not
  about the object, the share or the logon, with two exceptions: the engine also reports an account as
  disabled whose state it reports as unknown, and only the view keeps the caveat of a
  selective-authentication trust once the right to authenticate was checked for the target.\<close>

theorem membership_view_shows_engine_markers:
  assumes "in_identity inp = pr_identity r" "in_group_memberships inp = pr_memberships r"
    and "in_resolution inp = engine_flags r"
  shows "d \<in> set (membership_diagnostics r) \<longleftrightarrow>
    (d \<in> set (evaluation_markers inp) \<and> \<not> path_level d \<and> \<not> is_logon_marker d
       \<and> \<not> (d = IdentityDisabled \<and> state_unknown r))
    \<or> (d = TrustBoundaryEffectsNotModeled \<and> selective_trust r \<and> in_selective_authentication inp \<noteq> None)"
proof -
  let ?f = "engine_flags r"
  let ?crossing = "case rp_trusted_domain ?f of
           Some t \<Rightarrow> [TrustedDomainAccountResolved (td_domain t) (td_home_only_groups t) (td_sid_filtered t)]
         | None \<Rightarrow> []"
  let ?state = "(if rp_identity_disabled_status_unknown ?f then [IdentityDisabledStatusUnknown]
        else push_if (id_disabled (pr_identity r)) IdentityDisabled)"
  have unknown: "rp_identity_disabled_status_unknown ?f = state_unknown r" by (simp add: engine_flags_def state_unknown_def)
  have trust: "rp_trusted_domain ?f = pr_trusted_domain r" by (simp add: engine_flags_def)
  have view: "\<not> path_level d \<and> \<not> is_logon_marker d \<and> \<not> (d = IdentityDisabled \<and> state_unknown r)"
    if "d \<in> set (membership_diagnostics r)"
    using that history_markers unfolding membership_diagnostics_def Let_def set_append Un_iff unknown
    by (elim disjE) (auto simp: push_if_def on_some_def path_level_def is_logon_marker_def
      sid_history_diagnostics_def group_sid_history_diagnostics_def Let_def
      split: if_splits option.splits prod.splits)
  have kept: "d \<in> set (membership_diagnostics r) \<longleftrightarrow> d \<in> set (evaluation_markers inp)
      \<or> (d = TrustBoundaryEffectsNotModeled \<and> selective_trust r \<and> in_selective_authentication inp \<noteq> None)"
    if plain: "\<not> path_level d" "\<not> is_logon_marker d" "\<not> (d = IdentityDisabled \<and> state_unknown r)"
  proof -
    have a: "d \<notin> set (dacl_markers inp)" "d \<notin> set (uac_markers inp)" using path_markers plain by blast+
    have guest: "d \<in> set (guest_markers inp) \<longleftrightarrow> d \<in> set (push_if (rp_excluded_non_security_groups ?f \<noteq> [])
        (NonSecurityGroupsExcluded (rp_excluded_non_security_groups ?f)))"
      using plain by (auto simp: guest_markers_def Let_def push_if_def assms path_level_def split: if_splits)
    have state: "d \<in> set (push_if (rp_identity_disabled_status_unknown ?f) IdentityDisabledStatusUnknown)
        \<or> d \<in> set (push_if (id_disabled (pr_identity r)) IdentityDisabled) \<longleftrightarrow> d \<in> set ?state"
      using plain(3) by (auto simp: push_if_def unknown)
    have caveat: "d \<in> set (case rp_trusted_domain ?f of
           Some t \<Rightarrow> [TrustedDomainAccountResolved (td_domain t) (td_home_only_groups t) (td_sid_filtered t)]
             @ push_if (td_selective_authentication t) TrustBoundaryEffectsNotModeled
         | None \<Rightarrow> []) \<longleftrightarrow> d \<in> set ?crossing \<or> (d = TrustBoundaryEffectsNotModeled \<and> selective_trust r)"
      by (auto simp: selective_trust_def trust push_if_def split: option.split)
    have place: "d \<in> set (place_markers inp) \<longleftrightarrow> d \<in> set ?crossing
        \<or> (d = TrustBoundaryEffectsNotModeled \<and> selective_trust r \<and> in_selective_authentication inp = None)"
      using plain by (auto simp: place_markers_def on_some_def push_if_def dfs_marker_def assms path_level_def
          selective_trust_def trust split: option.splits)
    have owner: "d \<notin> set (push_if (owner_rights_ace_present inp) OwnerRightsAceApplied)"
      using plain by (auto simp: push_if_def path_level_def)
    have logon: "d \<notin> set (on_some logon_marker (in_selective_authentication inp))"
      using plain(2) by (auto simp: on_some_def logon_marker_def is_logon_marker_def
          split: option.splits SelectiveAuthenticationCheck.splits)
    show ?thesis
      unfolding evaluation_markers_def resolution_markers_def identity_markers_def membership_diagnostics_def Let_def
        set_append Un_iff state [symmetric] guest caveat place assms
      using a owner logon by blast
  qed
  have "\<not> path_level TrustBoundaryEffectsNotModeled" "\<not> is_logon_marker TrustBoundaryEffectsNotModeled"
    by (simp_all add: path_level_def is_logon_marker_def)
  with view kept show ?thesis by blast
qed

definition sample_view_input :: PermissionEvaluationInput where
  "sample_view_input = sample_analysis\<lparr>in_identity := bare_identity ''S-1-5-21-1-2-3-500'' Orphaned,
     in_group_memberships := [], in_resolution := engine_flags (orphaned_resolution ''S-1-5-21-1-2-3-500''),
     in_selective_authentication := Some (Denied ''SRV'')\<rparr>"

theorem membership_view_shows_engine_markers_witness:
  "IdentityOrphaned \<in> set (membership_diagnostics (orphaned_resolution ''S-1-5-21-1-2-3-500'')) \<longleftrightarrow>
     IdentityOrphaned \<in> set (evaluation_markers sample_view_input)"
proof -
  have "in_identity sample_view_input = pr_identity (orphaned_resolution ''S-1-5-21-1-2-3-500'')"
      "in_group_memberships sample_view_input = pr_memberships (orphaned_resolution ''S-1-5-21-1-2-3-500'')"
      "in_resolution sample_view_input = engine_flags (orphaned_resolution ''S-1-5-21-1-2-3-500'')"
    by (simp_all add: sample_view_input_def orphaned_resolution_def empty_resolution_def bare_identity_def)
  from membership_view_shows_engine_markers [OF this, of IdentityOrphaned] show ?thesis
    by (simp add: path_level_def is_logon_marker_def)
qed

end
