(* ===== verification/Group_Routes.thy ===== *)
theory Group_Routes
  imports Directory
begin

unbundle bit_operations_syntax

text \<open>
  The routes through nested groups (\<open>RouteTable\<close> in \<open>crates/ad_resolver/src/resolver.rs\<close>): the hop
  distances from an account over the groups it is in, the predecessor chosen for each group, and the
  chain shown for it. The chain is a shortest one, and it exists for every group that is reached.
\<close>

section \<open>Ordered maps\<close>

text \<open>A \<open>BTreeMap\<close> is the list of its entries, in the order of the keys.\<close>

fun bt_insert :: "string \<Rightarrow> 'a \<Rightarrow> (string \<times> 'a) list \<Rightarrow> (string \<times> 'a) list" where
  "bt_insert k v [] = [(k, v)]"
| "bt_insert k v ((k', v') # m) =
     (if k < k' then (k, v) # (k', v') # m
      else if k = k' then (k, v) # m else (k', v') # bt_insert k v m)"

definition bt_keys :: "(string \<times> 'a) list \<Rightarrow> string list" where
  "bt_keys m = map fst m"

definition bt_has :: "(string \<times> 'a) list \<Rightarrow> string \<Rightarrow> bool" where
  "bt_has m k \<longleftrightarrow> k \<in> set (bt_keys m)"

lemma map_of_bt_insert: "map_of (bt_insert k v m) = (map_of m)(k \<mapsto> v)"
  by (induction k v m rule: bt_insert.induct) auto

lemma keys_bt_insert: "set (bt_keys (bt_insert k v m)) = insert k (set (bt_keys m))"
  by (induction k v m rule: bt_insert.induct) (auto simp: bt_keys_def)

lemma sorted_bt_insert:
  "sorted_wrt (<) (bt_keys m) \<Longrightarrow> sorted_wrt (<) (bt_keys (bt_insert k v m))"
proof (induction k v m rule: bt_insert.induct)
  case (2 k v k' v' m)
  have "set (bt_keys (bt_insert k v m)) = insert k (set (bt_keys m))" by (rule keys_bt_insert)
  then show ?case using 2 by (auto simp: bt_keys_def)
qed (simp add: bt_keys_def)

lemma bt_has_iff: "bt_has m k \<longleftrightarrow> map_of m k \<noteq> None"
  by (auto simp: bt_has_def bt_keys_def map_of_eq_None_iff)

definition bt_set :: "string list \<Rightarrow> string list" where
  \<comment> \<open>A \<open>BTreeSet\<close> collected from a sequence.\<close>
  "bt_set xs = remdups (sort xs)"

lemma bt_set_facts [simp]: "set (bt_set xs) = set xs" "sorted_wrt (<) (bt_set xs)"
  by (simp_all add: bt_set_def strict_sorted_iff)

section \<open>The groups of an account\<close>

record ClosureGroup =
  cg_entry :: RawEntry
  cg_sid :: Sid
  cg_name :: "string option"
  cg_parents :: "string list"
  cg_security :: "bool option"

type_synonym closure = "(string \<times> ClosureGroup) list"

definition entry_display_name :: "RawEntry \<Rightarrow> string option" where
  "entry_display_name e = (case first_attr e ''sAMAccountName'' of Some n \<Rightarrow> Some n | None \<Rightarrow> first_attr e ''cn'')"

definition sorted_member_of :: "RawEntry \<Rightarrow> string list" where
  "sorted_member_of e = bt_set (map to_ascii_lowercase (all_attr e ''memberOf''))"

definition group_is_security :: "RawEntry \<Rightarrow> bool option" where
  "group_is_security e =
     map_option (\<lambda>gt. gt AND 0x80000000 \<noteq> 0) (Option.bind (first_attr e ''groupType'') (\<lambda>v. parse_i64 (trim v)))"

section \<open>The route table\<close>

record RouteTable =
  rt_dist :: "(string \<times> nat) list"
  rt_pred :: "string \<Rightarrow> string option option"
  rt_children :: "string \<Rightarrow> string list"

definition parents_of :: "closure \<Rightarrow> string \<Rightarrow> string list" where
  "parents_of closure dn = (case map_of closure dn of Some g \<Rightarrow> cg_parents g | None \<Rightarrow> [])"

definition children_of :: "closure \<Rightarrow> string \<Rightarrow> string list" where
  \<comment> \<open>The reverse edges, sorted and without duplicates.\<close>
  "children_of closure target =
     (if bt_has closure target
      then bt_set (concat (map (\<lambda>(dn, g). map (\<lambda>_. dn) (filter (\<lambda>p. p = target) (cg_parents g))) closure))
      else [])"

fun seed_loop :: "closure \<Rightarrow> string list \<Rightarrow> (string \<times> nat) list \<Rightarrow> string list \<Rightarrow> (string \<times> nat) list \<times> string list" where
  "seed_loop closure [] dist queue = (dist, queue)"
| "seed_loop closure (s # seeds) dist queue =
     (if bt_has closure s \<and> map_of dist s = None
      then seed_loop closure seeds ((s, 1) # dist) (queue @ [s]) else seed_loop closure seeds dist queue)"

fun visit :: "closure \<Rightarrow> nat \<Rightarrow> string list \<Rightarrow> (string \<times> nat) list \<Rightarrow> string list \<Rightarrow> (string \<times> nat) list \<times> string list" where
  \<comment> \<open>The loop over the parents of a group at distance \<open>d\<close>.\<close>
  "visit closure d [] dist queue = (dist, queue)"
| "visit closure d (p # ps) dist queue =
     (if bt_has closure p \<and> map_of dist p = None
      then visit closure d ps ((p, d + 1) # dist) (queue @ [p]) else visit closure d ps dist queue)"

definition unseen :: "closure \<Rightarrow> (string \<times> nat) list \<Rightarrow> string set" where
  "unseen closure dist = {k \<in> set (bt_keys closure). map_of dist k = None}"

lemma finite_unseen [simp]: "finite (unseen closure dist)"
  by (simp add: unseen_def)

lemma unseen_Cons:
  assumes "bt_has closure p" "map_of dist p = None"
  shows "card (unseen closure dist) = Suc (card (unseen closure ((p, d) # dist)))"
proof -
  have "unseen closure dist = insert p (unseen closure ((p, d) # dist))" "p \<notin> unseen closure ((p, d) # dist)"
    using assms by (auto simp: unseen_def bt_has_def)
  then show ?thesis by simp
qed

lemma visit_measure:
  "visit closure d ps dist queue = (dist', queue') \<Longrightarrow>
     card (unseen closure dist') + length queue' = card (unseen closure dist) + length queue
     \<and> card (unseen closure dist') \<le> card (unseen closure dist)"
proof (induction ps arbitrary: dist queue)
  case (Cons p ps)
  show ?case
  proof (cases "bt_has closure p \<and> map_of dist p = None")
    case True
    then have "visit closure d ps ((p, d + 1) # dist) (queue @ [p]) = (dist', queue')" using Cons.prems by simp
    from Cons.IH [OF this] show ?thesis using True by (simp add: unseen_Cons [of closure p dist "d + 1"])
  next
    case False
    then show ?thesis using Cons by auto
  qed
qed simp

function bfs :: "closure \<Rightarrow> (string \<times> nat) list \<Rightarrow> string list \<Rightarrow> (string \<times> nat) list" where
  \<comment> \<open>The search: the queue is emptied from the front.\<close>
  "bfs closure dist [] = dist"
| "bfs closure dist (node # queue) =
     (case map_of dist node of
        None \<Rightarrow> bfs closure dist queue
      | Some d \<Rightarrow>
          (case map_of closure node of
             None \<Rightarrow> bfs closure dist queue
           | Some g \<Rightarrow>
               (case visit closure d (cg_parents g) dist queue of (dist', queue') \<Rightarrow> bfs closure dist' queue')))"
  by pat_completeness auto

termination
proof (relation "measure (\<lambda>(closure, dist, queue). card (unseen closure dist) + (card (unseen closure dist) + length queue))", goal_cases)
  case (4 closure dist node queue d g dist' queue')
  then show ?case
    using visit_measure [of closure d "cg_parents g" dist queue dist' queue'] by (auto split: prod.splits)
qed auto

definition choose_pred :: "closure \<Rightarrow> (string \<times> nat) list \<Rightarrow> string \<Rightarrow> string option option" where
  "choose_pred closure dist dn =
     (case map_of dist dn of
        None \<Rightarrow> None
      | Some d \<Rightarrow>
          (if d = 1 then Some None
           else Some (find (\<lambda>kid. map_of dist kid = Some (d - 1)) (children_of closure dn))))"

definition build_routes :: "closure \<Rightarrow> string list \<Rightarrow> RouteTable" where
  "build_routes closure seeds =
     (let (dist, queue) = seed_loop closure seeds [] [];
          dist = bfs closure dist queue
      in \<lparr>rt_dist = dist, rt_pred = choose_pred closure dist, rt_children = children_of closure\<rparr>)"

function chain_loop :: "RouteTable \<Rightarrow> string list \<Rightarrow> string \<Rightarrow> string list option" where
  "chain_loop t chain current =
     (case rt_pred t current of
        None \<Rightarrow> None
      | Some None \<Rightarrow> Some (rev chain)
      | Some (Some prev) \<Rightarrow>
          (if length chain > length (rt_dist t) then None else chain_loop t (chain @ [prev]) prev))"
  by pat_completeness auto

termination
  by (relation "measure (\<lambda>(t, chain, current). Suc (length (rt_dist t)) - length chain)") auto

declare chain_loop.simps [simp del]

definition chain_to :: "RouteTable \<Rightarrow> string \<Rightarrow> string list option" where
  "chain_to t target = chain_loop t [target] target"

definition other_entries :: "RouteTable \<Rightarrow> string \<Rightarrow> string option \<Rightarrow> string list" where
  "other_entries t target skip = filter (\<lambda>kid. Some kid \<noteq> skip) (rt_children t target)"


section \<open>Routes\<close>

definition edge :: "closure \<Rightarrow> string \<Rightarrow> string \<Rightarrow> bool" where
  \<comment> \<open>The first group is a direct member of the second.\<close>
  "edge closure u v \<longleftrightarrow> bt_has closure u \<and> bt_has closure v \<and> v \<in> set (parents_of closure u)"

fun steps :: "closure \<Rightarrow> string list \<Rightarrow> bool" where
  "steps closure [] = False"
| "steps closure [u] = bt_has closure u"
| "steps closure (u # v # path) = (edge closure u v \<and> steps closure (v # path))"

definition route :: "closure \<Rightarrow> string list \<Rightarrow> string list \<Rightarrow> string \<Rightarrow> bool" where
  \<comment> \<open>A chain of memberships from a first group of the account to the target.\<close>
  "route closure seeds path target \<longleftrightarrow> steps closure path \<and> hd path \<in> set seeds \<and> last path = target"

inductive reach :: "closure \<Rightarrow> string list \<Rightarrow> nat \<Rightarrow> string \<Rightarrow> bool" for closure seeds where
  first: "s \<in> set seeds \<Longrightarrow> bt_has closure s \<Longrightarrow> reach closure seeds 1 s"
| step: "reach closure seeds n u \<Longrightarrow> edge closure u v \<Longrightarrow> reach closure seeds (Suc n) v"

inductive_cases reach_SucE: "reach closure seeds (Suc n) v"

lemma steps_snoc: "steps closure path \<Longrightarrow> edge closure (last path) v \<Longrightarrow> steps closure (path @ [v])"
  by (induction closure path rule: steps.induct) (auto simp: edge_def)

lemma reach_route: "reach closure seeds n v \<Longrightarrow> \<exists>path. route closure seeds path v \<and> length path = n"
proof (induction rule: reach.induct)
  case (first s)
  then show ?case by (intro exI [of _ "[s]"]) (simp add: route_def)
next
  case (step n u v)
  then obtain path where p: "route closure seeds path u" "length path = n" by blast
  then have "path \<noteq> []" by (auto simp: route_def)
  then have "route closure seeds (path @ [v]) v" using p step.hyps(2) by (simp add: route_def steps_snoc)
  then show ?case using p by (intro exI [of _ "path @ [v]"]) simp
qed

lemma steps_reach: "steps closure path \<Longrightarrow> reach closure seeds n (hd path) \<Longrightarrow> reach closure seeds (n + (length path - 1)) (last path)"
proof (induction closure path arbitrary: n rule: steps.induct)
  case (3 closure u v path)
  have "reach closure seeds (Suc n) v" using 3 by (auto intro: reach.step)
  with 3 show ?case by fastforce
qed auto

lemma steps_has: "steps closure path \<Longrightarrow> bt_has closure (hd path)"
  by (induction closure path rule: steps.induct) (auto simp: edge_def)

lemma route_reach: "route closure seeds path v \<Longrightarrow> reach closure seeds (length path) v"
proof -
  assume r: "route closure seeds path v"
  then have "path \<noteq> []" by (auto simp: route_def)
  moreover have "reach closure seeds 1 (hd path)" by (rule reach.first) (use r in \<open>auto simp: route_def intro: steps_has\<close>)
  ultimately show ?thesis using r steps_reach [of closure path seeds 1] by (simp add: route_def)
qed

lemma reach_has: "reach closure seeds n v \<Longrightarrow> bt_has closure v"
  by (induction rule: reach.induct) (auto simp: edge_def)

section \<open>The search finds the distances\<close>

lemma visit_new:
  "visit closure d ps dist queue = (dist', queue') \<Longrightarrow>
     \<exists>new. queue' = queue @ new \<and> (\<forall>x. map_of dist' x = (if x \<in> set new then Some (d + 1) else map_of dist x))
       \<and> (\<forall>x \<in> set new. map_of dist x = None \<and> bt_has closure x \<and> x \<in> set ps)
       \<and> (\<forall>p \<in> set ps. bt_has closure p \<longrightarrow> map_of dist' p \<noteq> None)"
proof (induction ps arbitrary: dist queue)
  case (Cons p ps)
  show ?case
  proof (cases "bt_has closure p \<and> map_of dist p = None")
    case True
    then have "visit closure d ps ((p, d + 1) # dist) (queue @ [p]) = (dist', queue')" using Cons.prems by simp
    from Cons.IH [OF this] obtain new where
      n: "queue' = (queue @ [p]) @ new"
        "\<forall>x. map_of dist' x = (if x \<in> set new then Some (d + 1) else map_of ((p, d + 1) # dist) x)"
        "\<forall>x \<in> set new. map_of ((p, d + 1) # dist) x = None \<and> bt_has closure x \<and> x \<in> set ps"
        "\<forall>p \<in> set ps. bt_has closure p \<longrightarrow> map_of dist' p \<noteq> None" by blast
    then show ?thesis using True by (intro exI [of _ "p # new"]) (auto split: if_splits)
  next
    case False
    then have "visit closure d ps dist queue = (dist', queue')" using Cons.prems by auto
    from Cons.IH [OF this] obtain new where n: "queue' = queue @ new"
      "\<forall>x. map_of dist' x = (if x \<in> set new then Some (d + 1) else map_of dist x)"
      "\<forall>x \<in> set new. map_of dist x = None \<and> bt_has closure x \<and> x \<in> set ps"
      "\<forall>p \<in> set ps. bt_has closure p \<longrightarrow> map_of dist' p \<noteq> None" by blast
    then show ?thesis using False by (intro exI [of _ new]) auto
  qed
qed simp

definition distance :: "(string \<times> nat) list \<Rightarrow> string \<Rightarrow> nat" where
  "distance dist v = the (map_of dist v)"

definition settled :: "closure \<Rightarrow> (string \<times> nat) list \<Rightarrow> string list \<Rightarrow> bool" where
  \<comment> \<open>The parents of a group that left the queue are at most one hop further.\<close>
  "settled closure dist queue \<longleftrightarrow> (\<forall>v d w. map_of dist v = Some d \<longrightarrow> v \<notin> set queue \<longrightarrow> edge closure v w \<longrightarrow>
     (\<exists>d'. map_of dist w = Some d' \<and> d' \<le> d + 1))"

definition bfs_inv :: "closure \<Rightarrow> string list \<Rightarrow> (string \<times> nat) list \<Rightarrow> string list \<Rightarrow> bool" where
  "bfs_inv closure seeds dist queue \<longleftrightarrow>
     (\<forall>v d. map_of dist v = Some d \<longrightarrow> reach closure seeds d v)
     \<and> (\<forall>s \<in> set seeds. bt_has closure s \<longrightarrow> map_of dist s = Some 1)
     \<and> (\<forall>v \<in> set queue. map_of dist v \<noteq> None) \<and> sorted (map (distance dist) queue)
     \<and> (\<forall>q rest v d. queue = q # rest \<longrightarrow> map_of dist v = Some d \<longrightarrow> d \<le> distance dist q + 1)
     \<and> settled closure dist queue"

lemma bfs_inv_edge:
  assumes "bfs_inv closure seeds dist queue" "map_of dist v = Some d" "v \<notin> set queue" "edge closure v w"
  shows "\<exists>d'. map_of dist w = Some d' \<and> d' \<le> d + 1"
proof -
  have "settled closure dist queue" using assms(1) by (simp add: bfs_inv_def)
  then show ?thesis using assms(2-4) unfolding settled_def by blast
qed

lemma bfs_step:
  assumes i: "bfs_inv closure seeds dist (node # queue)" and g: "map_of closure node = Some g"
    and d: "map_of dist node = Some d" and v: "visit closure d (cg_parents g) dist queue = (dist', queue')"
  shows "bfs_inv closure seeds dist' queue'"
proof -
  obtain new where n: "queue' = queue @ new"
    "\<And>x. map_of dist' x = (if x \<in> set new then Some (d + 1) else map_of dist x)"
    "\<And>x. x \<in> set new \<Longrightarrow> map_of dist x = None \<and> bt_has closure x \<and> x \<in> set (cg_parents g)"
    "\<And>p. p \<in> set (cg_parents g) \<Longrightarrow> bt_has closure p \<Longrightarrow> map_of dist' p \<noteq> None"
    using visit_new [OF v] by blast
  have node: "reach closure seeds d node" using i d by (auto simp: bfs_inv_def)
  have e: "edge closure node x" if "x \<in> set new" for x
    using n(3) [OF that] g by (auto simp: edge_def parents_of_def bt_has_iff)
  have below: "d' \<le> d + 1" if "map_of dist x = Some d'" for x d'
    using i that d by (auto simp: bfs_inv_def distance_def)
  have above: "d \<le> distance dist x" if "x \<in> set queue" for x
    using i that d by (auto simp: bfs_inv_def distance_def)
  have old: "distance dist' x = distance dist x" if "x \<in> set queue" for x
    using i that n(2,3) [of x] by (auto simp: bfs_inv_def distance_def)
  have fresh: "distance dist' x = d + 1" if "x \<in> set new" for x using n(2) that by (simp add: distance_def)
  have "\<forall>v d. map_of dist' v = Some d \<longrightarrow> reach closure seeds d v"
  proof (intro allI impI)
    fix x k assume "map_of dist' x = Some k"
    then show "reach closure seeds k x"
      using i n(2) [of x] reach.step [OF node e, of x] by (auto simp: bfs_inv_def split: if_splits)
  qed
  moreover have "\<forall>s \<in> set seeds. bt_has closure s \<longrightarrow> map_of dist' s = Some 1"
    using i n(2,3) by (fastforce simp: bfs_inv_def)
  moreover have "\<forall>x \<in> set queue'. map_of dist' x \<noteq> None"
    using i n(1,2) by (auto simp: bfs_inv_def)
  moreover have "sorted (map (distance dist') queue')"
  proof -
    have same: "map (distance dist') queue = map (distance dist) queue" using old by simp
    have "distance dist' x \<le> d + 1" if "x \<in> set queue" for x
    proof -
      obtain k where k: "map_of dist x = Some k" using i \<open>x \<in> set queue\<close> by (auto simp: bfs_inv_def)
      then show ?thesis using old [OF \<open>x \<in> set queue\<close>] below [OF k] by (simp add: distance_def)
    qed
    moreover have "sorted (map (distance dist') queue)" unfolding same using i by (simp add: bfs_inv_def)
    moreover have "map (distance dist') new = replicate (length new) (d + 1)" using fresh by (auto intro: map_replicate_const [THEN trans] simp: map_replicate_const [symmetric])
    ultimately show ?thesis unfolding n(1) by (simp add: sorted_append)
  qed
  moreover have "\<forall>q rest x k. queue' = q # rest \<longrightarrow> map_of dist' x = Some k \<longrightarrow> k \<le> distance dist' q + 1"
  proof (intro allI impI)
    fix q rest x k assume q: "queue' = q # rest" and k: "map_of dist' x = Some k"
    have "q \<in> set queue \<or> q \<in> set new" using q n(1) by (metis Un_iff list.set_intros(1) set_append)
    then have "d \<le> distance dist' q" using above old fresh by fastforce
    moreover have "k \<le> d + 1" using k n(2) below by (auto split: if_splits)
    ultimately show "k \<le> distance dist' q + 1" by simp
  qed
  moreover have "settled closure dist' queue'"
    unfolding settled_def
  proof (intro allI impI)
    fix x k w assume x: "map_of dist' x = Some k" "x \<notin> set queue'" "edge closure x w"
    then have k: "map_of dist x = Some k" "x \<notin> set queue" using n(1,2) by (auto split: if_splits)
    show "\<exists>k'. map_of dist' w = Some k' \<and> k' \<le> k + 1"
    proof (cases "x = node")
      case True
      then have "w \<in> set (cg_parents g)" "bt_has closure w" using x(3) g by (auto simp: edge_def parents_of_def)
      then obtain k' where "map_of dist' w = Some k'" using n(4) by blast
      moreover have "k' \<le> d + 1" using calculation n(2) below by (auto split: if_splits)
      ultimately show ?thesis using True k d by auto
    next
      case False
      then have "x \<notin> set (node # queue)" using k(2) by simp
      then obtain k' where "map_of dist w = Some k'" "k' \<le> k + 1"
        using bfs_inv_edge [OF i k(1) _ x(3)] by blast
      moreover have "w \<notin> set new" using calculation(1) n(3) [of w] by auto
      ultimately show ?thesis using n(2) by auto
    qed
  qed
  ultimately show ?thesis unfolding bfs_inv_def by blast
qed

lemma bfs_inv_result: "bfs_inv closure seeds dist queue \<Longrightarrow> bfs_inv closure seeds (bfs closure dist queue) []"
proof (induction closure dist queue rule: bfs.induct)
  case (2 closure dist node queue)
  obtain d where d: "map_of dist node = Some d" using 2(4) by (auto simp: bfs_inv_def)
  have "bt_has closure node" using 2(4) d by (auto simp: bfs_inv_def intro: reach_has)
  then obtain g where g: "map_of closure node = Some g" by (auto simp: bt_has_iff)
  obtain dist' queue' where v: "visit closure d (cg_parents g) dist queue = (dist', queue')" by (cases "visit closure d (cg_parents g) dist queue")
  show ?case using 2(3) [OF d g v [symmetric]] bfs_step [OF 2(4) g d v] d g v by simp
qed simp


lemma seed_loop_new:
  "seed_loop closure seeds dist queue = (dist', queue') \<Longrightarrow>
     \<exists>new. queue' = queue @ new \<and> (\<forall>x. map_of dist' x = (if x \<in> set new then Some 1 else map_of dist x))
       \<and> (\<forall>x \<in> set new. bt_has closure x \<and> x \<in> set seeds)
       \<and> (\<forall>p \<in> set seeds. bt_has closure p \<longrightarrow> map_of dist' p \<noteq> None)"
proof (induction seeds arbitrary: dist queue)
  case (Cons p ps)
  show ?case
  proof (cases "bt_has closure p \<and> map_of dist p = None")
    case True
    then have "seed_loop closure ps ((p, 1) # dist) (queue @ [p]) = (dist', queue')" using Cons.prems by simp
    from Cons.IH [OF this] obtain new where
      n: "queue' = (queue @ [p]) @ new"
        "\<forall>x. map_of dist' x = (if x \<in> set new then Some 1 else map_of ((p, 1) # dist) x)"
        "\<forall>x \<in> set new. bt_has closure x \<and> x \<in> set ps"
        "\<forall>p \<in> set ps. bt_has closure p \<longrightarrow> map_of dist' p \<noteq> None" by blast
    then show ?thesis using True by (intro exI [of _ "p # new"]) (auto split: if_splits)
  next
    case False
    then have "seed_loop closure ps dist queue = (dist', queue')" using Cons.prems by auto
    from Cons.IH [OF this] obtain new where n: "queue' = queue @ new"
      "\<forall>x. map_of dist' x = (if x \<in> set new then Some 1 else map_of dist x)"
      "\<forall>x \<in> set new. bt_has closure x \<and> x \<in> set ps"
      "\<forall>p \<in> set ps. bt_has closure p \<longrightarrow> map_of dist' p \<noteq> None" by blast
    then show ?thesis using False by (intro exI [of _ new]) auto
  qed
qed simp

lemma bfs_inv_seeds:
  assumes "seed_loop closure seeds [] [] = (dist, queue)"
  shows "bfs_inv closure seeds dist queue"
proof -
  obtain new where n: "queue = new" "\<And>x. map_of dist x = (if x \<in> set new then Some 1 else None)"
    "\<And>x. x \<in> set new \<Longrightarrow> bt_has closure x \<and> x \<in> set seeds"
    "\<And>p. p \<in> set seeds \<Longrightarrow> bt_has closure p \<Longrightarrow> map_of dist p \<noteq> None"
    using seed_loop_new [OF assms] unfolding map_of.simps append_Nil by blast
  have "map (distance dist) queue = replicate (length queue) 1"
    using n(1,2) by (auto simp: distance_def intro!: map_replicate_const [THEN trans] simp: map_replicate_const [symmetric])
  then have "sorted (map (distance dist) queue)" by simp
  moreover have "reach closure seeds d v" if "map_of dist v = Some d" for v d
    using that n(2,3) [of v] reach.first [of v seeds closure] by (auto split: if_splits)
  moreover have "map_of dist s = Some 1" if "s \<in> set seeds" "bt_has closure s" for s
    using n(2) n(4) [OF that] by (auto split: if_splits)
  ultimately show ?thesis
    using n(1,2) by (auto simp: bfs_inv_def settled_def distance_def split: if_splits)
qed

definition distances :: "closure \<Rightarrow> string list \<Rightarrow> (string \<times> nat) list" where
  "distances closure seeds = rt_dist (build_routes closure seeds)"

lemma distances_inv: "bfs_inv closure seeds (distances closure seeds) []"
  by (auto simp: distances_def build_routes_def Let_def split: prod.splits intro: bfs_inv_result bfs_inv_seeds)

lemma distance_reached: "map_of (distances closure seeds) v = Some d \<Longrightarrow> reach closure seeds d v"
  using distances_inv [of closure seeds] by (simp add: bfs_inv_def)

lemma distance_least: "reach closure seeds n v \<Longrightarrow> \<exists>d. map_of (distances closure seeds) v = Some d \<and> d \<le> n"
proof (induction rule: reach.induct)
  case (first s)
  then show ?case using distances_inv [of closure seeds] by (simp add: bfs_inv_def)
next
  case (step n u v)
  then obtain d where "map_of (distances closure seeds) u = Some d" "d \<le> n" by blast
  moreover from this obtain d' where "map_of (distances closure seeds) v = Some d'" "d' \<le> d + 1"
    using bfs_inv_edge [OF distances_inv _ _ step.hyps(2)] by auto
  ultimately show ?case by auto
qed

lemma children_edge: "u \<in> set (children_of closure v) \<longleftrightarrow> (\<exists>g. (u, g) \<in> set closure \<and> v \<in> set (cg_parents g)) \<and> bt_has closure v"
  by (auto simp: children_of_def)

lemma edge_child: "edge closure u v \<Longrightarrow> u \<in> set (children_of closure v)"
  by (auto simp: edge_def children_edge parents_of_def bt_has_iff dest: map_of_SomeD split: option.splits)

definition ordered :: "closure \<Rightarrow> bool" where
  "ordered closure \<longleftrightarrow> sorted_wrt (<) (bt_keys closure)"

lemma child_edge: "ordered closure \<Longrightarrow> u \<in> set (children_of closure v) \<Longrightarrow> edge closure u v"
proof -
  assume o: "ordered closure" and "u \<in> set (children_of closure v)"
  then obtain g where g: "(u, g) \<in> set closure" "v \<in> set (cg_parents g)" "bt_has closure v" by (auto simp: children_edge)
  have "distinct (map fst closure)" using o by (auto simp: ordered_def bt_keys_def strict_sorted_iff)
  then have "map_of closure u = Some g" using g(1) by simp
  then show ?thesis using g by (auto simp: edge_def parents_of_def bt_has_iff)
qed

lemma reach_pos: "reach closure seeds n v \<Longrightarrow> 0 < n"
  by (induction rule: reach.induct) auto

lemma pred_exists:
  assumes "map_of (distances closure seeds) v = Some d" "d \<noteq> 1"
  shows "\<exists>u. find (\<lambda>kid. map_of (distances closure seeds) kid = Some (d - 1)) (children_of closure v) = Some u"
proof -
  have r: "reach closure seeds d v" by (rule distance_reached [OF assms(1)])
  then obtain n where "d = Suc n" using reach_pos gr0_conv_Suc by blast
  then obtain u where u: "reach closure seeds n u" "edge closure u v" "n \<noteq> 0"
    using r assms(2) reach_pos by (auto elim!: reach_SucE)
  obtain k where k: "map_of (distances closure seeds) u = Some k" "k \<le> n" using distance_least [OF u(1)] by blast
  obtain k' where "map_of (distances closure seeds) v = Some k'" "k' \<le> Suc k"
    using distance_least [OF reach.step [OF distance_reached [OF k(1)] u(2)]] by blast
  then have "map_of (distances closure seeds) u = Some (d - 1)" using k assms(1) \<open>d = Suc n\<close> by simp
  then have "find (\<lambda>kid. map_of (distances closure seeds) kid = Some (d - 1)) (children_of closure v) \<noteq> None"
    using edge_child [OF u(2)] by (auto simp: find_None_iff)
  then show ?thesis by blast
qed

lemma levels_filled: "reach closure seeds n v \<Longrightarrow> map_of (distances closure seeds) v = Some n \<Longrightarrow> {1..n} \<subseteq> snd ` set (distances closure seeds)"
proof (induction n arbitrary: v)
  case (Suc n)
  have here: "Suc n \<in> snd ` set (distances closure seeds)" using Suc.prems(2) by (force dest: map_of_SomeD)
  show ?case
  proof (cases "n = 0")
    case False
    then obtain u where "find (\<lambda>kid. map_of (distances closure seeds) kid = Some n) (children_of closure v) = Some u"
      using pred_exists [OF Suc.prems(2)] by auto
    then have "map_of (distances closure seeds) u = Some n" by (auto simp: find_Some_iff)
    then have "{1..n} \<subseteq> snd ` set (distances closure seeds)" using Suc.IH distance_reached by blast
    then show ?thesis using here by (auto simp: atLeastAtMostSuc_conv)
  qed (use here in auto)
qed simp

lemma distance_count: "map_of (distances closure seeds) v = Some n \<Longrightarrow> n \<le> length (distances closure seeds)"
proof -
  assume "map_of (distances closure seeds) v = Some n"
  then have "{1..n} \<subseteq> snd ` set (distances closure seeds)" using levels_filled distance_reached by blast
  then have "card {1..n} \<le> card (snd ` set (distances closure seeds))" by (intro card_mono) auto
  also have "\<dots> \<le> length (distances closure seeds)" by (meson card_image_le card_length finite_set le_trans)
  finally show ?thesis by simp
qed


section \<open>The chain of a group\<close>

lemma first_reached: "reach closure seeds 1 v \<Longrightarrow> v \<in> set seeds"
  by (cases rule: reach.cases) (auto dest: reach_pos)

lemma table_parts:
  "rt_dist (build_routes closure seeds) = distances closure seeds"
  "rt_pred (build_routes closure seeds) = choose_pred closure (distances closure seeds)"
  "rt_children (build_routes closure seeds) = children_of closure"
  by (simp_all add: distances_def build_routes_def Let_def split: prod.splits)

lemma chain_loop_from:
  assumes "ordered closure" "map_of (distances closure seeds) v = Some d"
    and "length chain + d \<le> Suc (length (distances closure seeds))"
  shows "\<exists>path. chain_loop (build_routes closure seeds) chain v = Some (path @ rev chain)
      \<and> route closure seeds (path @ [v]) v \<and> Suc (length path) = d"
  using assms(2,3)
proof (induction d arbitrary: v chain)
  case 0
  then show ?case using distance_reached reach_pos by blast
next
  case (Suc n)
  show ?case
  proof (cases "n = 0")
    case True
    then have "rt_pred (build_routes closure seeds) v = Some None"
      using Suc.prems(1) by (simp add: table_parts choose_pred_def)
    moreover have "route closure seeds [v] v"
      using distance_reached [OF Suc.prems(1)] True first_reached reach_has by (auto simp: route_def)
    ultimately show ?thesis using True by (intro exI [of _ "[]"]) (simp add: chain_loop.simps)
  next
    case False
    then obtain u where u: "find (\<lambda>kid. map_of (distances closure seeds) kid = Some n) (children_of closure v) = Some u"
      using pred_exists [OF Suc.prems(1)] by auto
    then have p: "rt_pred (build_routes closure seeds) v = Some (Some u)"
      using Suc.prems(1) False by (simp add: table_parts choose_pred_def)
    have du: "map_of (distances closure seeds) u = Some n" "u \<in> set (children_of closure v)"
      using u by (auto simp: find_Some_iff)
    have "length (chain @ [u]) + n \<le> Suc (length (distances closure seeds))" using Suc.prems(2) by simp
    from Suc.IH [OF du(1) this] obtain path where path:
      "chain_loop (build_routes closure seeds) (chain @ [u]) u = Some (path @ rev (chain @ [u]))"
      "route closure seeds (path @ [u]) u" "Suc (length path) = n" by blast
    have "edge closure u v" by (rule child_edge [OF assms(1) du(2)])
    then have "route closure seeds ((path @ [u]) @ [v]) v"
      using path(2) steps_snoc [of closure "path @ [u]" v] by (auto simp: route_def hd_append)
    moreover have "chain_loop (build_routes closure seeds) chain v = Some ((path @ [u]) @ rev chain)"
      using p path(1) Suc.prems(2) False by (subst chain_loop.simps) (simp add: table_parts)
    ultimately show ?thesis using path(3) by (intro exI [of _ "path @ [u]"]) simp
  qed
qed

lemma chain_to_reached:
  assumes "ordered closure" "map_of (distances closure seeds) v = Some d"
  shows "\<exists>chain. chain_to (build_routes closure seeds) v = Some chain \<and> route closure seeds chain v \<and> length chain = d"
  using chain_loop_from [OF assms, of "[v]"] distance_count [OF assms(2)] by (auto simp: chain_to_def)

lemma chain_to_unreached:
  "map_of (distances closure seeds) v = None \<Longrightarrow> chain_to (build_routes closure seeds) v = None"
  by (simp add: chain_to_def chain_loop.simps [of _ "[v]"] table_parts choose_pred_def)

text \<open>C10: The chain shown for a group is a shortest one: for every group that some chain of direct
  memberships reaches, the route table gives such a chain from a first group of the account to it, and
  no chain to it is shorter; for every other group it gives none.\<close>

theorem chain_is_shortest:
  assumes "ordered closure"
  shows "case chain_to (build_routes closure seeds) v of
      None \<Rightarrow> \<not> (\<exists>path. route closure seeds path v)
    | Some chain \<Rightarrow> route closure seeds chain v \<and> (\<forall>path. route closure seeds path v \<longrightarrow> length chain \<le> length path)"
proof (cases "map_of (distances closure seeds) v")
  case None
  then show ?thesis
    using chain_to_unreached [OF None] distance_least route_reach by (fastforce split: option.splits)
next
  case (Some d)
  then obtain chain where "chain_to (build_routes closure seeds) v = Some chain" "route closure seeds chain v" "length chain = d"
    using chain_to_reached [OF assms] by blast
  then show ?thesis using Some distance_least [OF route_reach] by fastforce
qed

definition sample_group :: "string \<Rightarrow> string list \<Rightarrow> string \<times> ClosureGroup" where
  "sample_group dn parents = (dn, \<lparr>cg_entry = \<lparr>re_dn = dn, re_attrs = \<lambda>_. None, re_bin_attrs = \<lambda>_. None\<rparr>,
     cg_sid = ''S-1-5-'' @ dn, cg_name = None, cg_parents = parents, cg_security = Some True\<rparr>)"

definition sample_closure :: closure where
  \<comment> \<open>A diamond over \<open>a\<close> with a longer way round, and a group nothing leads to.\<close>
  "sample_closure = [sample_group ''a'' [''b'', ''c''], sample_group ''b'' [''d''], sample_group ''c'' [''d'', ''e''],
     sample_group ''d'' [''e''], sample_group ''e'' [], sample_group ''f'' [''a'']]"

theorem chain_is_shortest_witness:
  "case chain_to (build_routes sample_closure [''a'']) ''e'' of
      None \<Rightarrow> \<not> (\<exists>path. route sample_closure [''a''] path ''e'')
    | Some chain \<Rightarrow> route sample_closure [''a''] chain ''e''
        \<and> (\<forall>path. route sample_closure [''a''] path ''e'' \<longrightarrow> length chain \<le> length path)"
  by (rule chain_is_shortest) (simp add: ordered_def sample_closure_def sample_group_def bt_keys_def)

lemma sample_chain: "chain_to (build_routes sample_closure [''a'']) ''e'' = Some [''a'', ''c'', ''e'']"
  by code_simp

end
