(* ===== verification/Group_Assembly.thy ===== *)
theory Group_Assembly
  imports Group_Routes Principal
begin

unbundle bit_operations_syntax

text \<open>
  The group memberships of an account (\<open>crates/ad_resolver/src/resolver.rs\<close>): which of the groups the
  directory returns are in the token, which are left out and why, the chain shown for each, what is
  missing, and the comparison with the list of the domain controller.
\<close>

section \<open>The groups the directory returned\<close>

fun closure_loop :: "Sid \<Rightarrow> (RawEntry \<times> bool) list \<Rightarrow> closure \<Rightarrow> string list \<Rightarrow> closure \<times> string list" where
  \<comment> \<open>The flag tells the entry of the primary group. The second result are the groups without a SID.\<close>
  "closure_loop sid [] closure without_sid = (closure, without_sid)"
| "closure_loop sid ((e, is_primary) # rest) closure without_sid =
     (let dn = to_ascii_lowercase (re_dn e) in
      if bt_has closure dn then closure_loop sid rest closure without_sid
      else
        (case extract_sid_from_entry e of
           None \<Rightarrow> closure_loop sid rest closure (without_sid @ [re_dn e])
         | Some group_sid \<Rightarrow>
             (if group_sid = sid then closure_loop sid rest closure without_sid
              else closure_loop sid rest
                (bt_insert dn \<lparr>cg_entry = e, cg_sid = group_sid, cg_name = entry_display_name e,
                   cg_parents = sorted_member_of e,
                   cg_security = (if is_primary then Some True else group_is_security e)\<rparr> closure) without_sid)))"

definition returned_entries :: "RawEntry list \<Rightarrow> RawEntry list \<Rightarrow> RawEntry option \<Rightarrow> (RawEntry \<times> bool) list" where
  "returned_entries transitive_groups pg_parents primary_entry =
     map (\<lambda>e. (e, False)) (transitive_groups @ pg_parents)
     @ (case primary_entry of Some e \<Rightarrow> [(e, True)] | None \<Rightarrow> [])"

definition seeds_of :: "RawEntry \<Rightarrow> RawEntry option \<Rightarrow> string list" where
  \<comment> \<open>The direct groups and the primary group.\<close>
  "seeds_of account primary_entry =
     bt_set (sorted_member_of account
       @ (case primary_entry of Some e \<Rightarrow> [to_ascii_lowercase (re_dn e)] | None \<Rightarrow> []))"

definition candidates_of :: "closure \<Rightarrow> closure" where
  "candidates_of closure = filter (\<lambda>(dn, g). cg_security g \<noteq> Some False) closure"

definition only_through_distribution :: "closure \<Rightarrow> string list \<Rightarrow> string \<Rightarrow> bool" where
  \<comment> \<open>Reached over all groups, but not over those that are no distribution groups.\<close>
  "only_through_distribution closure seeds dn \<longleftrightarrow>
     map_of (rt_dist (build_routes (candidates_of closure) seeds)) dn = None
     \<and> map_of (rt_dist (build_routes closure seeds)) dn \<noteq> None"

definition group_label :: "ClosureGroup \<Rightarrow> string" where
  "group_label g = (case cg_name g of
       Some n \<Rightarrow> n @ '' ('' @ re_dn (cg_entry g) @ '')'' | None \<Rightarrow> re_dn (cg_entry g))"

definition exclusion :: "closure \<Rightarrow> string list \<Rightarrow> string \<times> ClosureGroup \<Rightarrow> string option" where
  "exclusion closure seeds x =
     (if cg_security (snd x) = Some False then Some (group_label (snd x) @ '' '' @ em_dash @ '' distribution group'')
      else if only_through_distribution closure seeds (fst x)
        then Some (group_label (snd x) @ '' '' @ em_dash @ '' reached only through a distribution group'')
      else None)"

definition excluded_groups :: "closure \<Rightarrow> string list \<Rightarrow> string list" where
  "excluded_groups closure seeds = filter_map (exclusion closure seeds) closure"

definition is_excluded :: "closure \<Rightarrow> string list \<Rightarrow> string \<times> ClosureGroup \<Rightarrow> bool" where
  "is_excluded closure seeds x \<longleftrightarrow> cg_security (snd x) = Some False \<or> only_through_distribution closure seeds (fst x)"

definition unknown_type :: "closure \<Rightarrow> string list \<Rightarrow> string list" where
  "unknown_type closure seeds = bt_set (filter_map (\<lambda>(dn, g).
     if \<not> is_excluded closure seeds (dn, g) \<and> cg_security g = None then Some (re_dn (cg_entry g)) else None) closure)"

definition counted_groups :: "closure \<Rightarrow> string list \<Rightarrow> closure" where
  \<comment> \<open>The second \<open>closure\<close> of the code: the candidates without the excluded ones.\<close>
  "counted_groups closure seeds = filter (\<lambda>x. \<not> is_excluded closure seeds x) (candidates_of closure)"

section \<open>What is missing\<close>

definition summarize_dns :: "string list \<Rightarrow> string" where
  "summarize_dns dns =
     join ''; '' (take 3 dns) @ (if length dns > 3 then '' (+'' @ dec (length dns - 3) @ '' more)'' else [])"

definition spelling :: "RawEntry \<Rightarrow> closure \<Rightarrow> string \<Rightarrow> string" where
  \<comment> \<open>\<open>original_dn\<close>; the last spelling collected wins.\<close>
  "spelling account counted dn =
     (case map_of (rev (map (\<lambda>d. (to_ascii_lowercase d, d))
         (concat (map (\<lambda>e. all_attr e ''memberOf'') (account # map (cg_entry \<circ> snd) counted))))) dn of
        Some d \<Rightarrow> d | None \<Rightarrow> dn)"

definition outside_groups :: "RawEntry \<Rightarrow> closure \<Rightarrow> string list \<Rightarrow> closure \<Rightarrow> string list \<Rightarrow> string list" where
  "outside_groups account closure seeds counted without_sid =
     bt_set (map (spelling account counted) (filter (\<lambda>dn.
       \<not> bt_has counted dn \<and> dn \<notin> set (map fst (filter (is_excluded closure seeds) closure))
       \<and> dn \<noteq> to_ascii_lowercase (re_dn account) \<and> \<not> list_ex (\<lambda>w. eq_ignore_ascii_case w dn) without_sid)
       (sorted_member_of account @ concat (map (cg_parents \<circ> snd) counted))))"

definition type_gap :: "string list \<Rightarrow> string" where
  "type_gap dns = ''the groupType of '' @ dec (length dns)
       @ '' group(s) is not readable, so whether they are security groups (and in ''
       @ ''the token) is unknown; they were counted: '' @ summarize_dns dns"

definition sid_gap :: "string list \<Rightarrow> string" where
  "sid_gap dns = dec (length dns)
       @ '' group(s) of the transitive result have no readable objectSid and are not ''
       @ ''in the evaluated token: '' @ summarize_dns dns"

definition outside_gap :: "string list \<Rightarrow> string" where
  "outside_gap dns = ''the account is (directly or through its groups) a member of '' @ dec (length dns)
       @ '' group(s) outside the resolved set '' @ em_dash
       @ '' typically outside the configured LDAP base or in another domain '' @ em_dash
       @ '' which are not in the evaluated token: '' @ summarize_dns dns"

section \<open>The memberships\<close>

definition hops_of :: "closure \<Rightarrow> string list \<Rightarrow> MembershipHop list" where
  "hops_of counted dns =
     map (\<lambda>g. \<lparr>mh_sid = cg_sid g, mh_name = cg_name g\<rparr>) (filter_map (map_of counted) dns)"

definition primary_membership ::
    "Sid \<Rightarrow> RawEntry \<Rightarrow> Sid \<Rightarrow> RawEntry option \<Rightarrow> closure \<Rightarrow> RouteTable \<Rightarrow> GroupMembership" where
  "primary_membership sid account pg_sid primary_entry counted routes =
     (let pg_name = Option.bind primary_entry entry_display_name;
          history = (case primary_entry of Some e \<Rightarrow> parse_sid_history e | None \<Rightarrow> (0, []))
      in \<lparr>gm_member_sid = sid, gm_group_sid = pg_sid, gm_direct = True, gm_group_name = pg_name,
          gm_path = Some
            \<lparr>mp_nodes = [sid, pg_sid], mp_names = [entry_display_name account, pg_name],
             mp_source = MembershipPathSource.PrimaryGroup, mp_complete = True,
             mp_also_via = (case primary_entry of
                 Some e \<Rightarrow> hops_of counted (other_entries routes (to_ascii_lowercase (re_dn e)) None)
               | None \<Rightarrow> [])\<rparr>,
          gm_group_sid_history_count = fst history, gm_group_sid_history = snd history\<rparr>)"

definition group_path :: "Sid \<Rightarrow> RawEntry \<Rightarrow> closure \<Rightarrow> RouteTable \<Rightarrow> string \<Rightarrow> ClosureGroup \<Rightarrow> MembershipPath" where
  "group_path sid account counted routes dn g =
     (case chain_to routes dn of
        Some chain \<Rightarrow>
          (let hops = filter_map (map_of counted) chain;
               last_hop = (if 2 \<le> length chain then Some (chain ! (length chain - 2)) else None)
           in \<lparr>mp_nodes = sid # map cg_sid hops, mp_names = entry_display_name account # map cg_name hops,
               mp_source = DomainGroup, mp_complete = True,
               mp_also_via = hops_of counted (other_entries routes dn last_hop)\<rparr>)
      | None \<Rightarrow>
          \<lparr>mp_nodes = [sid, cg_sid g], mp_names = [entry_display_name account, cg_name g],
           mp_source = LdapMatchingRule, mp_complete = False,
           mp_also_via = hops_of counted (other_entries routes dn None)\<rparr>)"

definition group_membership :: "Sid \<Rightarrow> RawEntry \<Rightarrow> closure \<Rightarrow> RouteTable \<Rightarrow> string \<times> ClosureGroup \<Rightarrow> GroupMembership" where
  "group_membership sid account counted routes x =
     (let (dn, g) = x; history = parse_sid_history (cg_entry g)
      in \<lparr>gm_member_sid = sid, gm_group_sid = cg_sid g, gm_direct = (dn \<in> set (sorted_member_of account)),
          gm_group_name = cg_name g, gm_path = Some (group_path sid account counted routes dn g),
          gm_group_sid_history_count = fst history, gm_group_sid_history = snd history\<rparr>)"

definition order_key :: "(string \<Rightarrow> string) \<Rightarrow> RouteTable \<Rightarrow> string \<times> ClosureGroup \<Rightarrow> (nat \<times> nat) \<times> string \<times> string" where
  \<comment> \<open>Distance, name in lower case, name in the directory; a group that is not reached comes last.\<close>
  "order_key to_lowercase routes x =
     (case map_of (rt_dist routes) (fst x) of Some d \<Rightarrow> (0, d) | None \<Rightarrow> (1, 0),
      to_lowercase (case cg_name (snd x) of Some n \<Rightarrow> n | None \<Rightarrow> []), fst x)"

record AssembledMemberships =
  am_memberships :: "GroupMembership list"
  am_gaps :: "string list"
  am_excluded :: "string list"
  am_token_set_gaps :: "string list"

definition assemble_memberships ::
    "(string \<Rightarrow> string) \<Rightarrow> Sid \<Rightarrow> RawEntry \<Rightarrow> (Sid \<times> RawEntry option) option \<Rightarrow> RawEntry list \<Rightarrow> RawEntry list \<Rightarrow> AssembledMemberships" where
  "assemble_memberships to_lowercase sid account primary transitive_groups pg_parents =
     (let primary_entry = Option.bind primary snd;
          (closure, without) = closure_loop sid (returned_entries transitive_groups pg_parents primary_entry) [] [];
          without_sid = bt_set without;
          seeds = seeds_of account primary_entry;
          not_typed = unknown_type closure seeds;
          counted = counted_groups closure seeds;
          outside = outside_groups account closure seeds counted without_sid;
          routes = build_routes counted seeds;
          rest = sort_key (order_key to_lowercase routes)
            (filter (\<lambda>(dn, g). Some (cg_sid g) \<noteq> map_option fst primary) counted)
      in \<lparr>am_memberships =
            (case primary of
               Some (pg_sid, entry) \<Rightarrow>
                 if pg_sid \<noteq> sid then [primary_membership sid account pg_sid entry counted routes] else []
             | None \<Rightarrow> [])
            @ map (group_membership sid account counted routes) rest,
          am_gaps = push_if (not_typed \<noteq> []) (type_gap not_typed) @ push_if (without_sid \<noteq> []) (sid_gap without_sid)
            @ push_if (outside \<noteq> []) (outside_gap outside),
          am_excluded = excluded_groups closure seeds,
          am_token_set_gaps = push_if (outside \<noteq> []) (outside_gap outside)\<rparr>)"

section \<open>The comparison with the domain controller\<close>

definition all_sids :: "GroupMembership list \<Rightarrow> string list" where
  "all_sids memberships =
     concat (map (\<lambda>m. map to_ascii_uppercase (gm_group_sid m # gm_group_sid_history m)) memberships)"

definition token_groups_gaps :: "GroupMembership list \<Rightarrow> string list \<Rightarrow> string list" where
  "token_groups_gaps memberships token_groups =
     (let counted = bt_set (all_sids memberships);
          primary_counted = bt_set (map (\<lambda>m. to_ascii_uppercase (gm_group_sid m)) memberships);
          token = bt_set (map to_ascii_uppercase token_groups);
          extra = filter (\<lambda>s. s \<notin> set token) primary_counted;
          missing = filter (\<lambda>s. s \<notin> set counted) token
      in push_if (extra \<noteq> []) (dec (length extra) @ '' group(s) were resolved but are not in the account'' @ squote
       @ ''s tokenGroups on the domain controller '' @ em_dash
       @ '' the computed rights may be too high: '' @ summarize_dns extra)
         @ push_if (missing \<noteq> []) (''the account'' @ squote @ ''s tokenGroups on the domain controller contain ''
       @ dec (length missing) @ '' group SID(s) the group resolution did not find ''
       @ em_dash @ '' the computed rights may be too low: '' @ summarize_dns missing))"

definition MAX_TOKEN_GROUP_SIDS :: nat where "MAX_TOKEN_GROUP_SIDS = 1015"

definition token_size_gap :: "GroupMembership list \<Rightarrow> string option" where
  "token_size_gap memberships =
     (let sids = bt_set (all_sids memberships) in
      if length sids > MAX_TOKEN_GROUP_SIDS then Some (''the account is in '' @ dec (length sids)
       @ '' security group SID(s) (SID history included) '' @ em_dash @ '' more than the ''
       @ dec MAX_TOKEN_GROUP_SIDS
       @ '' that fit into a Windows logon token; a logon of this account fails ('' @ dquote
       @ ''too many security IDs'' @ dquote
       @ ''), so its real access cannot be derived from the group set'')
      else None)"

section \<open>The resolution of an account's groups\<close>

record GroupSearches =
  \<comment> \<open>The searches of the LDAP client over one connection; the base is the configured one.\<close>
  gs_by_sid :: "string \<Rightarrow> string \<Rightarrow> CoreError + RawEntry option"
  gs_transitive_groups :: "string \<Rightarrow> CoreError + RawEntry list"
  gs_complete_member_of :: "RawEntry \<Rightarrow> CoreError + RawEntry"
  gs_token_groups :: "string \<Rightarrow> CoreError + string list option"

fun complete_all :: "(RawEntry \<Rightarrow> CoreError + RawEntry) \<Rightarrow> RawEntry list \<Rightarrow> CoreError + RawEntry list" where
  "complete_all f [] = Inr []"
| "complete_all f (e # es) = and_then (f e) (\<lambda>e. and_then (complete_all f es) (\<lambda>es. Inr (e # es)))"

definition primary_part ::
    "GroupSearches \<Rightarrow> PrimaryGroupLookup \<Rightarrow> CoreError + (Sid \<times> RawEntry) option \<times> RawEntry list \<times> string list" where
  "primary_part ldap lookup =
     (case lookup of
        Found pg_sid e \<Rightarrow> and_then (gs_transitive_groups ldap (re_dn e)) (\<lambda>parents. Inr (Some (pg_sid, e), parents, []))
      | NotApplicable \<Rightarrow> Inr (None, [], [])
      | Missing reason \<Rightarrow> Inr (None, [], [reason]))"

definition read_token_groups :: "LdapConfig \<Rightarrow> GroupSearches \<Rightarrow> string \<Rightarrow> string list option \<times> string list" where
  \<comment> \<open>The list of the domain controller and the gap when it cannot be read.\<close>
  "read_token_groups cfg ldap dn =
     (if cfg_global_catalog cfg then (None, [])
      else case gs_token_groups ldap dn of
          Inr t \<Rightarrow> (t, [])
        | Inl e \<Rightarrow> (None, [''the account'' @ squote @ ''s tokenGroups could not be read for the cross-check (''
       @ error_text e @ '')'']))"

definition compared :: "AssembledMemberships \<Rightarrow> string list \<Rightarrow> string list option \<Rightarrow> GroupMembershipResolution" where
  \<comment> \<open>The end of \<open>resolve_memberships_inner\<close>: the size and the comparison.\<close>
  "compared assembled gaps token_groups =
     (let diff = (case token_groups of Some token \<Rightarrow> token_groups_gaps (am_memberships assembled) token | None \<Rightarrow> [])
      in \<lparr>gmr_memberships = am_memberships assembled,
          gmr_gaps = gaps @ am_gaps assembled @ on_some id (token_size_gap (am_memberships assembled)) @ diff,
          gmr_excluded_groups = am_excluded assembled,
          gmr_token_set_gaps = am_token_set_gaps assembled @ diff\<rparr>)"

definition resolve_memberships ::
    "(string \<Rightarrow> string) \<Rightarrow> LdapConfig \<Rightarrow> CoreError + GroupSearches \<Rightarrow> Sid \<Rightarrow> CoreError + GroupMembershipResolution" where
  "resolve_memberships to_lowercase cfg connect sid =
     and_then connect (\<lambda>ldap.
     and_then (gs_by_sid ldap (cfg_base_dn cfg) sid) (\<lambda>found.
       case found of
         None \<Rightarrow> Inr \<lparr>gmr_memberships = [],
           gmr_gaps = [''the account object of '' @ sid @ '' was not found by the group search under '' @ squote
       @ cfg_base_dn cfg @ squote @ '' '' @ em_dash
       @ '' no group membership could be resolved''],
           gmr_excluded_groups = [], gmr_token_set_gaps = []\<rparr>
       | Some e \<Rightarrow>
           (let lookup = resolve_primary_group (gs_by_sid ldap) e (cfg_base_dn cfg) in
            and_then (gs_transitive_groups ldap (re_dn e)) (\<lambda>transitive_groups.
            and_then (primary_part ldap lookup) (\<lambda>(primary, pg_parents, gaps).
            and_then (gs_complete_member_of ldap e) (\<lambda>e.
            and_then (complete_all (gs_complete_member_of ldap) transitive_groups) (\<lambda>transitive_groups.
            and_then (complete_all (gs_complete_member_of ldap) pg_parents) (\<lambda>pg_parents.
            and_then (case primary of
                None \<Rightarrow> Inr None
              | Some (pg_sid, pg_entry) \<Rightarrow>
                  and_then (gs_complete_member_of ldap pg_entry) (\<lambda>pg_entry. Inr (Some (pg_sid, Some pg_entry))))
              (\<lambda>primary.
                let (token_groups, token_gaps) = read_token_groups cfg ldap (re_dn e)
                in Inr (compared (assemble_memberships to_lowercase sid e primary transitive_groups pg_parents)
                     (gaps @ token_gaps) token_groups))))))))))"

end
