(* ===== verification/Group_Results.thy ===== *)
theory Group_Results
  imports Group_Assembly
begin

text \<open>
  What the assembly of group memberships promises: every group the directory returned is in the token,
  named as left out or reported as missing; distribution groups give nothing; and the result does not
  depend on the order of the server's answers.
\<close>

section \<open>The groups as a map\<close>

definition group_of :: "Sid \<Rightarrow> RawEntry \<times> bool \<Rightarrow> ClosureGroup option" where
  "group_of sid x =
     (case extract_sid_from_entry (fst x) of
        None \<Rightarrow> None
      | Some s \<Rightarrow>
          if s = sid then None
          else Some \<lparr>cg_entry = fst x, cg_sid = s, cg_name = entry_display_name (fst x),
                     cg_parents = sorted_member_of (fst x),
                     cg_security = (if snd x then Some True else group_is_security (fst x))\<rparr>)"

definition key_of :: "RawEntry \<times> bool \<Rightarrow> string" where
  "key_of x = to_ascii_lowercase (re_dn (fst x))"

definition first_group :: "Sid \<Rightarrow> (RawEntry \<times> bool) list \<Rightarrow> string \<Rightarrow> ClosureGroup option" where
  \<comment> \<open>The first entry of that name that is a group with a SID.\<close>
  "first_group sid xs dn =
     (case filter_map (group_of sid) (filter (\<lambda>x. key_of x = dn) xs) of [] \<Rightarrow> None | g # _ \<Rightarrow> Some g)"

lemma closure_loop_map:
  "map_of (fst (closure_loop sid xs closure w)) dn =
     (case map_of closure dn of Some g \<Rightarrow> Some g | None \<Rightarrow> first_group sid xs dn)"
proof (induction xs arbitrary: closure w)
  case Nil
  then show ?case by (simp add: first_group_def split: option.split)
next
  case (Cons x xs)
  obtain e p where x: "x = (e, p)" by (cases x)
  show ?case
    using Cons
    by (auto simp: x Let_def bt_has_iff map_of_bt_insert first_group_def group_of_def key_of_def
        split: option.splits list.splits if_splits)
qed

lemma closure_loop_ordered: "ordered closure \<Longrightarrow> ordered (fst (closure_loop sid xs closure w))"
proof (induction xs arbitrary: closure w)
  case (Cons x xs)
  then show ?case
    by (cases x) (auto simp: Let_def ordered_def sorted_bt_insert split: option.splits)
qed simp

lemma distinct_returned: "distinct (map fst m) \<Longrightarrow> map (\<lambda>k. (k, the (map_of m k))) (map fst m) = m"
  unfolding map_map by (rule map_idI) auto

lemma ordered_unique:
  assumes "ordered a" "ordered b" "map_of a = map_of b"
  shows "a = b"
proof -
  have d: "distinct (map fst a)" "distinct (map fst b)"
    using assms(1,2) by (simp_all add: ordered_def bt_keys_def strict_sorted_iff)
  have "set (map fst a) = set (map fst b)" using assms(3) by (metis dom_map_of_conv_image_fst set_map)
  then have "map fst a = map fst b"
    using assms(1,2) by (simp add: ordered_def bt_keys_def strict_sorted_equal)
  then show ?thesis using distinct_returned [OF d(1)] distinct_returned [OF d(2)] assms(3) by metis
qed


section \<open>The order of the answers does not matter\<close>

definition one_object_per_name :: "(RawEntry \<times> bool) list \<Rightarrow> bool" where
  \<comment> \<open>The directory returns the same object whenever it returns one of that name.\<close>
  "one_object_per_name xs \<longleftrightarrow> (\<forall>x \<in> set xs. \<forall>y \<in> set xs. key_of x = key_of y \<longrightarrow> x = y)"

lemma first_group_some:
  "first_group sid xs dn = Some g \<Longrightarrow> \<exists>x \<in> set xs. key_of x = dn \<and> group_of sid x = Some g"
proof -
  assume "first_group sid xs dn = Some g"
  then have "g \<in> set (filter_map (group_of sid) (filter (\<lambda>x. key_of x = dn) xs))"
    by (auto simp: first_group_def split: list.splits)
  moreover have "g \<in> set (filter_map f zs) \<Longrightarrow> \<exists>x \<in> set zs. f x = Some g" for f zs
    by (induction zs) (auto split: option.splits)
  ultimately show ?thesis by fastforce
qed

lemma first_group_none:
  assumes "first_group sid xs dn = None" "x \<in> set xs" "key_of x = dn"
  shows "group_of sid x = None"
proof -
  have "filter_map (group_of sid) (filter (\<lambda>x. key_of x = dn) xs) = []"
    using assms(1) by (auto simp: first_group_def split: list.splits)
  moreover have "x \<in> set (filter (\<lambda>x. key_of x = dn) xs)" using assms(2,3) by simp
  ultimately show ?thesis unfolding filter_map_Nil by blast
qed

lemma first_group_any:
  assumes "one_object_per_name xs"
  shows "first_group sid xs dn = Some g \<longleftrightarrow> (\<exists>x \<in> set xs. key_of x = dn \<and> group_of sid x = Some g)"
proof
  assume "\<exists>x \<in> set xs. key_of x = dn \<and> group_of sid x = Some g"
  then obtain x where x: "x \<in> set xs" "key_of x = dn" "group_of sid x = Some g" by blast
  then obtain g' where g': "first_group sid xs dn = Some g'" using first_group_none by fastforce
  then obtain y where y: "y \<in> set xs" "key_of y = dn" "group_of sid y = Some g'" using first_group_some by blast
  have "y = x" using assms x(1,2) y(1,2) by (auto simp: one_object_per_name_def)
  then show "first_group sid xs dn = Some g" using g' x(3) y(3) by simp
qed (rule first_group_some)

lemma first_group_set:
  assumes "one_object_per_name xs" "set xs = set ys"
  shows "first_group sid xs = first_group sid ys"
proof
  fix dn
  have "one_object_per_name ys" using assms by (simp add: one_object_per_name_def)
  then have "first_group sid xs dn = Some g \<longleftrightarrow> first_group sid ys dn = Some g" for g
    using assms by (simp add: first_group_any)
  then show "first_group sid xs dn = first_group sid ys dn" by (metis option.exhaust)
qed

lemma closure_loop_append:
  "closure_loop sid (xs @ ys) m w = (case closure_loop sid xs m w of (m, w) \<Rightarrow> closure_loop sid ys m w)"
  by (induction sid xs m w rule: closure_loop.induct) (auto simp: Let_def split: option.splits)

definition without_of :: "(RawEntry \<times> bool) list \<Rightarrow> string set" where
  "without_of xs = {re_dn (fst x) | x. x \<in> set xs \<and> extract_sid_from_entry (fst x) = None}"

lemma without_loop:
  assumes "one_object_per_name (zs @ xs)" "\<forall>dn. bt_has m dn \<longrightarrow> (\<exists>z \<in> set zs. key_of z = dn \<and> extract_sid_from_entry (fst z) \<noteq> None)"
  shows "set (snd (closure_loop sid xs m w)) = set w \<union> without_of xs"
  using assms
proof (induction xs arbitrary: m w zs)
  case Nil
  then show ?case by (simp add: without_of_def)
next
  case (Cons x xs)
  have o: "one_object_per_name ((zs @ [x]) @ xs)" using Cons.prems(1) by (simp add: one_object_per_name_def)
  obtain e p where x: "x = (e, p)" by (cases x)
  have known: "extract_sid_from_entry e \<noteq> None" if h: "bt_has m (to_ascii_lowercase (re_dn e))"
  proof -
    obtain z where z: "z \<in> set zs" "key_of z = key_of x" "extract_sid_from_entry (fst z) \<noteq> None"
      using Cons.prems(2) h by (auto simp: x key_of_def)
    then have "z = x" using Cons.prems(1) by (auto simp: one_object_per_name_def)
    then show ?thesis using z(3) x by simp
  qed
  have w: "without_of (x # xs) = (if extract_sid_from_entry e = None then {re_dn e} else {}) \<union> without_of xs"
    by (auto simp: without_of_def x)
  have old: "\<forall>dn. bt_has m dn \<longrightarrow> (\<exists>z \<in> set (zs @ [x]). key_of z = dn \<and> extract_sid_from_entry (fst z) \<noteq> None)"
    using Cons.prems(2) by auto
  show ?case
  proof (cases "extract_sid_from_entry e")
    case None
    then show ?thesis using Cons.IH [OF o old] known unfolding w by (auto simp: x Let_def)
  next
    case (Some s)
    have new: "\<forall>dn. bt_has (bt_insert (to_ascii_lowercase (re_dn e)) g m) dn \<longrightarrow>
        (\<exists>z \<in> set (zs @ [x]). key_of z = dn \<and> extract_sid_from_entry (fst z) \<noteq> None)" for g
      using old Some by (auto simp: bt_has_def keys_bt_insert x key_of_def)
    show ?thesis using Some Cons.IH [OF o old] Cons.IH [OF o new] unfolding w by (auto simp: x Let_def)
  qed
qed


lemma bt_set_cong: "set xs = set ys \<Longrightarrow> bt_set xs = bt_set ys"
  by (rule strict_sorted_equal) simp_all

definition closure_of :: "Sid \<Rightarrow> (Sid \<times> RawEntry option) option \<Rightarrow> RawEntry list \<Rightarrow> RawEntry list \<Rightarrow> closure" where
  "closure_of sid primary tg pp = fst (closure_loop sid (returned_entries tg pp (Option.bind primary snd)) [] [])"

definition without_sid_of :: "Sid \<Rightarrow> (Sid \<times> RawEntry option) option \<Rightarrow> RawEntry list \<Rightarrow> RawEntry list \<Rightarrow> string list" where
  "without_sid_of sid primary tg pp = bt_set (snd (closure_loop sid (returned_entries tg pp (Option.bind primary snd)) [] []))"

lemma assembly_rests_on:
  assumes "closure_of sid primary tg pp = closure_of sid primary tg' pp'"
    and "without_sid_of sid primary tg pp = without_sid_of sid primary tg' pp'"
  shows "assemble_memberships lc sid account primary tg pp = assemble_memberships lc sid account primary tg' pp'"
  unfolding assemble_memberships_def Let_def case_prod_beta assms [unfolded closure_of_def without_sid_of_def]
  by (rule refl)

text \<open>C9: The memberships do not depend on the order in which the server answers: two answers to the
  searches that hold the same objects give the same memberships, chains, gaps and excluded groups,
  provided an object is returned the same whenever it is returned.\<close>

theorem answer_order_irrelevant:
  assumes "set (tg @ pp) = set (tg' @ pp')" and "one_object_per_name (map (\<lambda>e. (e, False)) (tg @ pp))"
  shows "assemble_memberships to_lowercase sid account primary tg pp = assemble_memberships to_lowercase sid account primary tg' pp'"
proof (rule assembly_rests_on)
  let ?xs = "map (\<lambda>e. (e, False)) (tg @ pp)" and ?ys = "map (\<lambda>e. (e, False)) (tg' @ pp')"
  let ?prim = "case Option.bind primary snd of Some e \<Rightarrow> [(e, True)] | None \<Rightarrow> []"
  have s: "set ?xs = set ?ys" using assms(1) by (simp only: set_map)
  then have o: "one_object_per_name ?ys" using assms(2) by (simp only: one_object_per_name_def)
  have loop: "ordered (fst (closure_loop sid zs [] []))" for zs
    by (rule closure_loop_ordered) (simp add: ordered_def bt_keys_def)
  have same: "fst (closure_loop sid ?xs [] []) = fst (closure_loop sid ?ys [] [])"
  proof (rule ordered_unique [OF loop loop])
    show "map_of (fst (closure_loop sid ?xs [] [])) = map_of (fst (closure_loop sid ?ys [] []))"
      using first_group_set [OF assms(2) s, of sid] by (simp add: fun_eq_iff closure_loop_map)
  qed
  have "set (snd (closure_loop sid zs [] [])) = without_of zs" if "one_object_per_name zs" for zs
    using without_loop [of "[]" zs "[]" sid "[]"] that by (simp add: bt_has_def bt_keys_def)
  then have without: "set (snd (closure_loop sid ?xs [] [])) = set (snd (closure_loop sid ?ys [] []))"
    using assms(2) o s by (simp only: without_of_def)
  have split: "closure_loop sid (returned_entries a b (Option.bind primary snd)) [] [] =
      closure_loop sid ?prim (fst (closure_loop sid (map (\<lambda>e. (e, False)) (a @ b)) [] []))
        (snd (closure_loop sid (map (\<lambda>e. (e, False)) (a @ b)) [] []))" for a b
    unfolding returned_entries_def closure_loop_append by (simp add: split_beta)
  show "closure_of sid primary tg pp = closure_of sid primary tg' pp'"
    unfolding closure_of_def split same
    by (cases "Option.bind primary snd") (auto simp: Let_def split: option.splits)
  show "without_sid_of sid primary tg pp = without_sid_of sid primary tg' pp'"
    unfolding without_sid_of_def split same
    by (rule bt_set_cong, cases "Option.bind primary snd") (use without in \<open>auto simp: Let_def split: option.splits\<close>)
qed

definition sample_answer :: "string \<Rightarrow> RawEntry" where
  "sample_answer dn = \<lparr>re_dn = dn, re_attrs = \<lambda>_. None, re_bin_attrs = \<lambda>_. None\<rparr>"

theorem answer_order_irrelevant_witness:
  "assemble_memberships (\<lambda>s. s) ''S-1-5-21-1-2-3-500'' (sample_answer ''u'') None [sample_answer ''a'', sample_answer ''b''] [] =
   assemble_memberships (\<lambda>s. s) ''S-1-5-21-1-2-3-500'' (sample_answer ''u'') None [sample_answer ''b''] [sample_answer ''a'']"
  by (rule answer_order_irrelevant)
    (auto simp: one_object_per_name_def key_of_def sample_answer_def to_ascii_lowercase_def lower_def ascii_upper_def code_def)

section \<open>Every returned group is accounted for\<close>

definition accounted_for :: "Sid \<Rightarrow> AssembledMemberships \<Rightarrow> RawEntry \<times> bool \<Rightarrow> bool" where
  \<comment> \<open>A group is in the token, named as excluded, or its missing SID is a gap.\<close>
  "accounted_for sid r y \<longleftrightarrow>
     (case extract_sid_from_entry (fst y) of
        None \<Rightarrow> \<exists>dns. re_dn (fst y) \<in> set dns \<and> sid_gap dns \<in> set (am_gaps r)
      | Some s \<Rightarrow> s = sid \<or> s \<in> gm_group_sid ` set (am_memberships r)
          \<or> list_ex (\<lambda>t. starts_with t (case entry_display_name (fst y) of
               Some n \<Rightarrow> n @ '' ('' @ re_dn (fst y) @ '')'' | None \<Rightarrow> re_dn (fst y))) (am_excluded r))"

lemma closure_of_map:
  "map_of (closure_of sid primary tg pp) = first_group sid (returned_entries tg pp (Option.bind primary snd))"
  by (simp add: closure_of_def fun_eq_iff closure_loop_map)

lemma closure_of_ordered: "ordered (closure_of sid primary tg pp)"
  unfolding closure_of_def by (rule closure_loop_ordered) (simp add: ordered_def bt_keys_def)

lemma loop_keeps_without: "r \<in> set w \<Longrightarrow> r \<in> set (snd (closure_loop sid xs m w))"
proof (induction xs arbitrary: m w)
  case (Cons x xs)
  then show ?case by (cases x) (auto simp: Let_def split: option.splits)
qed simp

lemma loop_without:
  "x \<in> set xs \<Longrightarrow> extract_sid_from_entry (fst x) = None \<Longrightarrow>
     re_dn (fst x) \<in> set (snd (closure_loop sid xs m w)) \<or> bt_has (fst (closure_loop sid xs m w)) (key_of x)"
proof (induction xs arbitrary: m w)
  case (Cons y xs)
  have keep: "bt_has m dn \<Longrightarrow> bt_has (fst (closure_loop sid xs m w)) dn" for m w dn
    by (auto simp: bt_has_iff closure_loop_map)
  show ?case
  proof (cases "x = y")
    case True
    obtain e p where y: "y = (e, p)" by (cases y)
    show ?thesis using True Cons.prems(2) keep loop_keeps_without [of "re_dn e" "w @ [re_dn e]"]
      by (auto simp: y Let_def key_of_def)
  next
    case False
    then have "x \<in> set xs" using Cons.prems by auto
    then show ?thesis using Cons.IH Cons.prems(2) by (cases y) (auto simp: Let_def split: option.splits)
  qed
qed simp


lemma membership_sids [simp]:
  "gm_group_sid (primary_membership sid account pg_sid e counted routes) = pg_sid"
  "gm_group_sid (group_membership sid account counted routes x) = cg_sid (snd x)"
  by (simp_all add: primary_membership_def group_membership_def Let_def split_beta)

lemma assembled_parts:
  fixes lc sid account primary tg pp
  defines "c \<equiv> closure_of sid primary tg pp" and "seeds \<equiv> seeds_of account (Option.bind primary snd)"
    and "r \<equiv> assemble_memberships lc sid account primary tg pp"
  shows "am_excluded r = excluded_groups c seeds"
    and "without_sid_of sid primary tg pp \<noteq> [] \<Longrightarrow> sid_gap (without_sid_of sid primary tg pp) \<in> set (am_gaps r)"
    and "gm_group_sid ` set (am_memberships r) =
      {s. \<exists>e. primary = Some (s, e) \<and> s \<noteq> sid} \<union> {cg_sid g | dn g. (dn, g) \<in> set (counted_groups c seeds) \<and> Some (cg_sid g) \<noteq> map_option fst primary}"
proof -
  show "am_excluded r = excluded_groups c seeds"
    by (simp add: r_def c_def seeds_def assemble_memberships_def Let_def split_beta closure_of_def)
  show "without_sid_of sid primary tg pp \<noteq> [] \<Longrightarrow> sid_gap (without_sid_of sid primary tg pp) \<in> set (am_gaps r)"
    by (simp add: r_def assemble_memberships_def Let_def split_beta without_sid_of_def push_if_def)
  have image: "(\<lambda>x. cg_sid (snd x)) ` {x \<in> S. case x of (dn, g) \<Rightarrow> P g} = {cg_sid g | dn g. (dn, g) \<in> S \<and> P g}" for S and P :: "ClosureGroup \<Rightarrow> bool"
    by (force simp: image_iff)
  have front: "gm_group_sid ` set (case primary of
        Some (pg_sid, entry) \<Rightarrow> if pg_sid \<noteq> sid then [primary_membership sid account pg_sid entry counted routes] else []
      | None \<Rightarrow> []) = {s. \<exists>e. primary = Some (s, e) \<and> s \<noteq> sid}" for counted routes
    by (cases primary) auto
  show "gm_group_sid ` set (am_memberships r) = {s. \<exists>e. primary = Some (s, e) \<and> s \<noteq> sid}
      \<union> {cg_sid g | dn g. (dn, g) \<in> set (counted_groups c seeds) \<and> Some (cg_sid g) \<noteq> map_option fst primary}"
    unfolding r_def c_def seeds_def assemble_memberships_def Let_def case_prod_beta AssembledMemberships.simps
      set_append image_Un set_map image_image membership_sids set_sort set_filter closure_of_def front
    using image [of "set (counted_groups (closure_of sid primary tg pp) (seeds_of account (Option.bind primary snd)))"
      "\<lambda>g. Some (cg_sid g) \<noteq> map_option fst primary"]
    by (simp add: closure_of_def case_prod_beta)
qed

lemma closure_sid_foreign: "(dn, g) \<in> set (closure_of sid primary tg pp) \<Longrightarrow> cg_sid g \<noteq> sid"
proof -
  assume "(dn, g) \<in> set (closure_of sid primary tg pp)"
  moreover have "distinct (map fst (closure_of sid primary tg pp))"
    using closure_of_ordered by (auto simp: ordered_def bt_keys_def strict_sorted_iff)
  ultimately have "map_of (closure_of sid primary tg pp) dn = Some g" by simp
  then show ?thesis
    by (auto simp: closure_of_map group_of_def dest!: first_group_some split: option.splits if_splits)
qed

lemma counted_in_closure: "x \<in> set (counted_groups c seeds) \<Longrightarrow> x \<in> set c"
  by (auto simp: counted_groups_def candidates_of_def)

lemma token_sids:
  "gm_group_sid ` set (am_memberships (assemble_memberships lc sid account primary tg pp)) =
     {s. \<exists>e. primary = Some (s, e) \<and> s \<noteq> sid}
     \<union> {cg_sid g | dn g. (dn, g) \<in> set (counted_groups (closure_of sid primary tg pp) (seeds_of account (Option.bind primary snd)))}"
proof -
  have "cg_sid g \<in> {s. \<exists>e. primary = Some (s, e) \<and> s \<noteq> sid} \<or> Some (cg_sid g) \<noteq> map_option fst primary"
    if "(dn, g) \<in> set (counted_groups (closure_of sid primary tg pp) (seeds_of account (Option.bind primary snd)))" for dn g
    using closure_sid_foreign [OF counted_in_closure [OF that]] by (cases primary) auto
  then show ?thesis unfolding assembled_parts(3) by blast
qed

lemma reached_iff: "map_of (rt_dist (build_routes c seeds)) dn \<noteq> None \<longleftrightarrow> (\<exists>path. route c seeds path dn)"
  using distance_reached [of c seeds dn] distance_least [of c seeds _ dn] reach_route [of c seeds _ dn] route_reach [of c seeds _ dn]
  unfolding table_parts(1) by (metis option.exhaust option.simps(3))

text \<open>C7: Distribution groups give nothing: the groups in the token are the primary group and, of the
  groups the directory returned, exactly those that are not known to be distribution groups and that
  are reached over such groups, or by no chain at all.\<close>

theorem distribution_groups_give_nothing:
  "gm_group_sid ` set (am_memberships (assemble_memberships to_lowercase sid account primary tg pp)) =
     (let closure = closure_of sid primary tg pp; seeds = seeds_of account (Option.bind primary snd)
      in {s. \<exists>e. primary = Some (s, e) \<and> s \<noteq> sid}
       \<union> {cg_sid g | dn g. (dn, g) \<in> set closure \<and> cg_security g \<noteq> Some False
            \<and> (if \<exists>path. route closure seeds path dn then \<exists>path. route (candidates_of closure) seeds path dn else True)})"
proof -
  have "(dn, g) \<in> set (counted_groups c seeds) \<longleftrightarrow> (dn, g) \<in> set c \<and> cg_security g \<noteq> Some False
      \<and> (if \<exists>path. route c seeds path dn then \<exists>path. route (candidates_of c) seeds path dn else True)" for dn g c seeds
    unfolding counted_groups_def is_excluded_def only_through_distribution_def candidates_of_def [of c]
    using reached_iff [of "candidates_of c" seeds dn] reached_iff [of c seeds dn]
    by (auto simp: candidates_of_def)
  then show ?thesis unfolding token_sids Let_def by (simp only:)
qed

lemma filter_map_member: "x \<in> set xs \<Longrightarrow> f x = Some t \<Longrightarrow> t \<in> set (filter_map f xs)"
  by (induction xs) (auto split: option.splits)

lemma excluded_named:
  assumes "(dn, g) \<in> set c" "is_excluded c seeds (dn, g)"
  shows "list_ex (\<lambda>t. starts_with t (group_label g)) (excluded_groups c seeds)"
proof -
  have "\<exists>rest. exclusion c seeds (dn, g) = Some (group_label g @ rest)"
    using assms(2) by (cases "cg_security g = Some False") (simp_all add: is_excluded_def exclusion_def)
  then obtain rest where t: "exclusion c seeds (dn, g) = Some (group_label g @ rest)" by blast
  have "group_label g @ rest \<in> set (excluded_groups c seeds)"
    unfolding excluded_groups_def using filter_map_member [where f = "exclusion c seeds" and x = "(dn, g)"] assms(1) t by blast
  moreover have "starts_with (group_label g @ rest) (group_label g)" unfolding starts_with_iff by blast
  ultimately show ?thesis unfolding list_ex_iff by blast
qed

text \<open>C8: No group is lost: for every group the directory returned, the object of that name is in the
  token, or it is named among the excluded groups, or it has no readable SID and a gap counts it; the
  account itself is no group.\<close>

theorem every_returned_group_is_accounted:
  "list_all (\<lambda>x. list_ex (\<lambda>y. key_of y = key_of x
       \<and> accounted_for sid (assemble_memberships to_lowercase sid account primary tg pp) y)
     (returned_entries tg pp (Option.bind primary snd))) (returned_entries tg pp (Option.bind primary snd))"
proof -
  let ?xs = "returned_entries tg pp (Option.bind primary snd)" and ?c = "closure_of sid primary tg pp"
  let ?r = "assemble_memberships to_lowercase sid account primary tg pp"
  let ?seeds = "seeds_of account (Option.bind primary snd)"
  have in_closure: "\<exists>y \<in> set ?xs. key_of y = dn \<and> accounted_for sid ?r y" if has: "bt_has ?c dn" for dn
  proof -
    obtain g where g: "map_of ?c dn = Some g" using has by (auto simp: bt_has_iff)
    then obtain y where y: "y \<in> set ?xs" "key_of y = dn" "group_of sid y = Some g"
      using first_group_some [of sid ?xs dn g] unfolding closure_of_map by blast
    have e: "extract_sid_from_entry (fst y) = Some (cg_sid g)" "group_label g = (case entry_display_name (fst y) of
        Some n \<Rightarrow> n @ '' ('' @ re_dn (fst y) @ '')'' | None \<Rightarrow> re_dn (fst y))"
      using y(3) by (auto simp: group_of_def group_label_def split: option.splits if_splits)
    have gc: "(dn, g) \<in> set ?c" using g by (rule map_of_SomeD)
    have "accounted_for sid ?r y"
    proof (cases "is_excluded ?c ?seeds (dn, g)")
      case True
      then show ?thesis using excluded_named [OF gc True] by (simp add: accounted_for_def e assembled_parts(1))
    next
      case False
      then have "(dn, g) \<in> set (counted_groups ?c ?seeds)"
        using gc by (auto simp: counted_groups_def candidates_of_def is_excluded_def)
      then have "cg_sid g \<in> gm_group_sid ` set (am_memberships ?r)" unfolding token_sids by blast
      then show ?thesis by (simp add: accounted_for_def e)
    qed
    then show ?thesis using y by blast
  qed
  have "\<exists>y \<in> set ?xs. key_of y = key_of x \<and> accounted_for sid ?r y" if x: "x \<in> set ?xs" for x
  proof (cases "bt_has ?c (key_of x)")
    case True
    then show ?thesis by (rule in_closure)
  next
    case False
    have "accounted_for sid ?r x"
    proof (cases "extract_sid_from_entry (fst x)")
      case None
      have "re_dn (fst x) \<in> set (without_sid_of sid primary tg pp)"
        using loop_without [OF x None, of sid "[]" "[]"] False by (simp add: without_sid_of_def closure_of_def)
      moreover from this have "sid_gap (without_sid_of sid primary tg pp) \<in> set (am_gaps ?r)"
        by (intro assembled_parts(2)) auto
      ultimately show ?thesis using None by (auto simp: accounted_for_def)
    next
      case (Some s)
      have "map_of ?c (key_of x) = None" using False by (simp add: bt_has_iff)
      then have "group_of sid x = None" using first_group_none x by (simp add: closure_of_map)
      then show ?thesis using Some by (auto simp: accounted_for_def group_of_def split: if_splits)
    qed
    then show ?thesis using x by blast
  qed
  then show ?thesis by (auto simp: list_all_iff list_ex_iff)
qed

end
