(* ===== verification/Ldap_Client.thy ===== *)
theory Ldap_Client
  imports Directory Net_Inputs
begin

unbundle bit_operations_syntax

text \<open>
  The LDAP client (\<open>crates/ad_resolver/src/ldap_client.rs\<close>): the searches with their filters and
  errors, paged searches with a limit, and the range retrieval of attributes with many values. The
  connection of the \<open>ldap3\<close> package is a parameter: what its searches answer.
\<close>

section \<open>The connection\<close>

datatype Scope = BaseScope | Subtree

datatype SearchError = SendFailed string | BadResult string

record PagedReply =
  \<comment> \<open>The entries of a paged search, the error that breaks it off, and the final status.\<close>
  paged_entries :: "RawEntry list"
  paged_broken :: "string option"
  paged_final_error :: "string option"

record Connection =
  ldap_search :: "u8 list option \<Rightarrow> string \<Rightarrow> Scope \<Rightarrow> string \<Rightarrow> string list \<Rightarrow> SearchError + RawEntry list"
    \<comment> \<open>control, base, scope, filter, attributes\<close>
  ldap_paged :: "nat \<Rightarrow> string \<Rightarrow> string \<Rightarrow> string list \<Rightarrow> string + PagedReply"
    \<comment> \<open>page size, base, filter, attributes\<close>
  hash_order :: "RawEntry \<Rightarrow> string list"
    \<comment> \<open>the attribute names of an entry in the order of its hash map\<close>

definition DEFAULT_PAGE_SIZE :: nat where "DEFAULT_PAGE_SIZE = 1000"

definition LDAP_MATCHING_RULE_IN_CHAIN :: string where
  "LDAP_MATCHING_RULE_IN_CHAIN = ''1.2.840.113556.1.4.1941''"

definition IDENTITY_ATTRS :: "string list" where
  "IDENTITY_ATTRS = [''objectSid'', ''sAMAccountName'', ''displayName'', ''cn'', ''objectClass'', ''userAccountControl'',
     ''userPrincipalName'', ''distinguishedName'', ''primaryGroupID'', ''memberOf'', ''groupType'', ''sIDHistory'']"

definition MEMBERSHIP_ATTRS :: "string list" where
  "MEMBERSHIP_ATTRS = [''objectSid'', ''sAMAccountName'', ''memberOf'', ''distinguishedName'', ''groupType'', ''sIDHistory'']"

definition TRUST_ATTRS :: "string list" where
  "TRUST_ATTRS = [''trustPartner'', ''flatName'', ''trustDirection'', ''trustAttributes'', ''trustType'',
     ''securityIdentifier'', ''msDS-TrustForestTrustInfo'']"

definition with_timeout :: "string \<Rightarrow> nat \<Rightarrow> (CoreError + 'a) option \<Rightarrow> CoreError + 'a" where
  \<comment> \<open>\<open>None\<close>: the operation did not end in time.\<close>
  "with_timeout operation secs outcome =
     (case outcome of Some inner \<Rightarrow> inner
      | None \<Rightarrow> Inl (LdapQuery (''LDAP operation '' @ squote @ operation @ squote @ '' timed out after '' @ dec secs @ ''s'')))"

definition query :: "string \<Rightarrow> SearchError + 'a \<Rightarrow> CoreError + 'a" where
  \<comment> \<open>The two \<open>map_err\<close> of every search.\<close>
  "query what r =
     (case r of
        Inl (SendFailed e) \<Rightarrow> Inl (LdapQuery (what @ '' failed: '' @ e))
      | Inl (BadResult e) \<Rightarrow> Inl (LdapQuery (what @ '' result error: '' @ e))
      | Inr x \<Rightarrow> Inr x)"

definition first_entry :: "RawEntry list \<Rightarrow> RawEntry option" where
  "first_entry es = (case es of e # _ \<Rightarrow> Some e | [] \<Rightarrow> None)"

section \<open>The searches\<close>

definition search_by_sid :: "Connection \<Rightarrow> string \<Rightarrow> string \<Rightarrow> CoreError + RawEntry option" where
  "search_by_sid ldap base_dn sid_str =
     and_then (sid_str_to_ldap_filter sid_str) (\<lambda>escaped.
     and_then (query ''search'' (ldap_search ldap None base_dn Subtree (''(objectSid='' @ escaped @ '')'') IDENTITY_ATTRS))
       (\<lambda>es. Inr (first_entry es)))"

definition search_by_dn :: "Connection \<Rightarrow> string \<Rightarrow> string \<Rightarrow> CoreError + RawEntry option" where
  "search_by_dn ldap base_dn dn =
     and_then (query ''DN search'' (ldap_search ldap None base_dn Subtree
       (''(distinguishedName='' @ escape_filter_value dn @ '')'') MEMBERSHIP_ATTRS))
       (\<lambda>es. Inr (first_entry es))"

definition search_domain_sid_with :: "Connection \<Rightarrow> string \<Rightarrow> CoreError + string option" where
  "search_domain_sid_with ldap root_dn =
     and_then (query ''domain SID search'' (ldap_search ldap None root_dn BaseScope ''(objectClass=*)'' [''objectSid'']))
       (\<lambda>es. Inr (Option.bind (first_entry es) (\<lambda>e.
          Option.bind (first_bin_attr e ''objectSid'') (\<lambda>b. ok (bytes_to_sid_str b)))))"

definition search_root_domain_nc_with :: "Connection \<Rightarrow> CoreError + string option" where
  "search_root_domain_nc_with ldap =
     and_then (query ''RootDSE search'' (ldap_search ldap None [] BaseScope ''(objectClass=*)'' [''rootDomainNamingContext'']))
       (\<lambda>es. Inr (Option.bind (first_entry es) (\<lambda>e. first_attr e ''rootDomainNamingContext'')))"

fun paged_loop :: "nat option \<Rightarrow> RawEntry list \<Rightarrow> string option \<Rightarrow> RawEntry list \<Rightarrow> CoreError + RawEntry list \<times> bool" where
  \<comment> \<open>The flag is \<open>stopped_at_limit\<close>.\<close>
  "paged_loop limit [] broken collected =
     (case broken of Some e \<Rightarrow> Inl (LdapQuery (''paged search stream error: '' @ e)) | None \<Rightarrow> Inr (collected, False))"
| "paged_loop limit (e # es) broken collected =
     (case limit of
        Some n \<Rightarrow> (if n \<le> length (collected @ [e]) then Inr (collected @ [e], True)
                   else paged_loop limit es broken (collected @ [e]))
      | None \<Rightarrow> paged_loop limit es broken (collected @ [e]))"

definition search_paged_with_limit ::
    "Connection \<Rightarrow> string \<Rightarrow> string \<Rightarrow> string list \<Rightarrow> nat option \<Rightarrow> CoreError + RawEntry list" where
  "search_paged_with_limit ldap base_dn fltr attrs client_limit =
     (case ldap_paged ldap DEFAULT_PAGE_SIZE base_dn fltr attrs of
        Inl e \<Rightarrow> Inl (LdapQuery (''paged search failed: '' @ e))
      | Inr reply \<Rightarrow>
          and_then (paged_loop client_limit (paged_entries reply) (paged_broken reply) []) (\<lambda>(entries, stopped_at_limit).
            if stopped_at_limit then Inr entries
            else case paged_final_error reply of
                Some e \<Rightarrow> Inl (LdapQuery (''paged search final status: '' @ e))
              | None \<Rightarrow> Inr entries))"

definition search_forest_domain_sids_with :: "Connection \<Rightarrow> string \<Rightarrow> CoreError + string list" where
  "search_forest_domain_sids_with ldap base_dn =
     and_then (search_paged_with_limit ldap base_dn ''(objectClass=domainDNS)'' [''objectSid''] None) (\<lambda>entries.
       Inr (filter_map (\<lambda>b. ok (bytes_to_sid_str b)) (filter_map (\<lambda>e. first_bin_attr e ''objectSid'') entries)))"

definition search_domain_trusts_with :: "Connection \<Rightarrow> string \<Rightarrow> CoreError + RawEntry list" where
  "search_domain_trusts_with ldap base_dn =
     query ''trust search'' (ldap_search ldap None base_dn Subtree ''(objectClass=trustedDomain)'' TRUST_ATTRS)"

definition search_all_by_samaccount :: "Connection \<Rightarrow> string \<Rightarrow> string \<Rightarrow> CoreError + RawEntry list" where
  "search_all_by_samaccount ldap base_dn sam =
     query ''sAM search'' (ldap_search ldap None base_dn Subtree
       (''(sAMAccountName='' @ escape_filter_value sam @ '')'') IDENTITY_ATTRS)"

definition search_by_samaccount :: "Connection \<Rightarrow> string \<Rightarrow> string \<Rightarrow> CoreError + RawEntry option" where
  "search_by_samaccount ldap base_dn sam =
     and_then (search_all_by_samaccount ldap base_dn sam) (\<lambda>hits. Inr (first_entry hits))"

definition search_by_upn :: "Connection \<Rightarrow> string \<Rightarrow> string \<Rightarrow> CoreError + RawEntry option" where
  "search_by_upn ldap base_dn upn =
     and_then (query ''UPN search'' (ldap_search ldap None base_dn Subtree
       (''(userPrincipalName='' @ escape_filter_value upn @ '')'') IDENTITY_ATTRS))
       (\<lambda>es. Inr (first_entry es))"

definition search_by_query :: "Connection \<Rightarrow> string \<Rightarrow> string \<Rightarrow> CoreError + RawEntry list" where
  "search_by_query ldap base_dn wanted =
     (let escaped = escape_filter_value wanted
      in search_paged_with_limit ldap base_dn
           (''(&(|(objectCategory=person)(objectClass=group))(|(sAMAccountName=*'' @ escaped
       @ ''*)(displayName=*'' @ escaped @ ''*)(cn=*'' @ escaped @ ''*)))'') IDENTITY_ATTRS (Some 50))"

definition search_transitive_groups_for_member :: "Connection \<Rightarrow> string \<Rightarrow> string \<Rightarrow> CoreError + RawEntry list" where
  "search_transitive_groups_for_member ldap base_dn member_dn =
     search_paged_with_limit ldap base_dn
       (''(&(objectClass=group)(member:'' @ LDAP_MATCHING_RULE_IN_CHAIN @ '':=''
       @ escape_filter_value member_dn @ ''))'')
       MEMBERSHIP_ATTRS None"

definition search_members_by_backlink :: "Connection \<Rightarrow> string \<Rightarrow> string \<Rightarrow> CoreError + RawEntry list" where
  "search_members_by_backlink ldap base_dn group_dn =
     search_paged_with_limit ldap base_dn (''(memberOf='' @ escape_filter_value group_dn @ '')'') IDENTITY_ATTRS None"

definition search_by_primary_group :: "Connection \<Rightarrow> string \<Rightarrow> nat \<Rightarrow> CoreError + RawEntry list" where
  "search_by_primary_group ldap base_dn rid =
     search_paged_with_limit ldap base_dn (''(primaryGroupID='' @ dec rid @ '')'') IDENTITY_ATTRS None"

fun sid_values :: "string \<Rightarrow> string \<Rightarrow> u8 list list \<Rightarrow> CoreError + string list" where
  "sid_values attr dn [] = Inr []"
| "sid_values attr dn (b # bs) =
     (case bytes_to_sid_str b of
        Inl e \<Rightarrow> Inl (LdapQuery (attr @ '' of '' @ dn @ '': unreadable SID value ('' @ error_text e @ '')''))
      | Inr sid \<Rightarrow> and_then (sid_values attr dn bs) (\<lambda>sids. Inr (sid # sids)))"

definition search_constructed_sid_list :: "Connection \<Rightarrow> string \<Rightarrow> string \<Rightarrow> CoreError + string list option" where
  "search_constructed_sid_list ldap dn attr =
     and_then (query (attr @ '' search'') (ldap_search ldap None dn BaseScope ''(objectClass=*)'' [attr])) (\<lambda>es.
       case first_entry es of
         None \<Rightarrow> Inr None
       | Some e \<Rightarrow>
           (if value_count e attr = 0 then Inr None
            else and_then (sid_values attr dn (all_values e attr)) (\<lambda>sids. Inr (Some sids))))"

definition search_token_groups :: "Connection \<Rightarrow> string \<Rightarrow> CoreError + string list option" where
  "search_token_groups ldap dn = search_constructed_sid_list ldap dn ''tokenGroups''"

definition search_token_groups_global_and_universal :: "Connection \<Rightarrow> string \<Rightarrow> CoreError + string list option" where
  "search_token_groups_global_and_universal ldap dn = search_constructed_sid_list ldap dn ''tokenGroupsGlobalAndUniversal''"

definition search_computer_security_descriptor ::
    "Connection \<Rightarrow> string \<Rightarrow> string \<Rightarrow> CoreError + (string \<times> u8 list option) option" where
  "search_computer_security_descriptor ldap base_dn netbios_name =
     and_then (query ''computer search'' (ldap_search ldap (Some [0x30, 0x03, 0x02, 0x01, 0x04]) base_dn Subtree
       (''(&(objectCategory=computer)(sAMAccountName='' @ escape_filter_value netbios_name @ ''$))'') [''nTSecurityDescriptor'']))
       (\<lambda>es. Inr (map_option (\<lambda>e. (re_dn e, first_bin_attr e ''nTSecurityDescriptor'')) (first_entry es)))"

section \<open>Range retrieval\<close>

definition MAX_RANGE_ROUNDS :: nat where "MAX_RANGE_ROUNDS = 1000"

definition parse_range_suffix :: "string \<Rightarrow> string \<Rightarrow> (nat \<times> nat option) option" where
  "parse_range_suffix key attr =
     (let prefix_len = length attr + length '';range='' in
      if length key < prefix_len then None
      else if \<not> eq_ignore_ascii_case (take prefix_len key) (attr @ '';range='') then None
      else Option.bind (split_once (CHR ''-'') (drop prefix_len key)) (\<lambda>(start, final).
        Option.bind (parse_uint (2 ^ 32) start) (\<lambda>start.
          if final = ''*'' then Some (start, None)
          else Option.bind (parse_uint (2 ^ 32) final) (\<lambda>final.
            if final < start then None else Some (start, Some final)))))"

fun find_map :: "('a \<Rightarrow> 'b option) \<Rightarrow> 'a list \<Rightarrow> 'b option" where
  "find_map f [] = None"
| "find_map f (x # xs) = (case f x of Some y \<Rightarrow> Some y | None \<Rightarrow> find_map f xs)"

definition ranged_key :: "Connection \<Rightarrow> RawEntry \<Rightarrow> string \<Rightarrow> (string \<times> nat \<times> nat option) option" where
  "ranged_key ldap e attr = find_map (\<lambda>key. map_option (Pair key) (parse_range_suffix key attr)) (hash_order ldap e)"

function range_loop :: "Connection \<Rightarrow> string \<Rightarrow> string \<Rightarrow> nat option \<Rightarrow> nat \<Rightarrow> string list \<Rightarrow> CoreError + string list" where
  \<comment> \<open>The loop over the chunks: where the last one ended, the rounds so far, the values so far.\<close>
  "range_loop ldap attr dn None rounds vals = Inr vals"
| "range_loop ldap attr dn (Some final) rounds vals =
     (let rounds = rounds + 1 in
      if rounds > MAX_RANGE_ROUNDS then
        Inl (LdapQuery (''range retrieval of '' @ attr @ '' on '' @ dn @ '' did not finish after ''
       @ dec MAX_RANGE_ROUNDS @ '' rounds''))
      else if 2 ^ 32 \<le> final + 1 then Inl (LdapQuery (''range retrieval of '' @ attr @ '': range end overflow''))
      else
        (case and_then (query ''range retrieval'' (ldap_search ldap None dn BaseScope ''(objectClass=*)''
            [attr @ '';range='' @ dec (final + 1) @ ''-*''])) (\<lambda>es. Inr (first_entry es)) of
           Inl e \<Rightarrow> Inl e
         | Inr None \<Rightarrow> Inl (LdapQuery (''range retrieval of '' @ attr @ '' on '' @ dn @ '': entry vanished''))
         | Inr (Some chunk) \<Rightarrow>
             (case ranged_key ldap chunk attr of
                None \<Rightarrow> Inl (LdapQuery (''range retrieval of '' @ attr @ '' on '' @ dn @ '': no values for range ''
       @ dec (final + 1) @ ''-*''))
              | Some (chunk_key, chunk_start, chunk_end) \<Rightarrow>
                  (if chunk_start \<noteq> final + 1 then
                     Inl (LdapQuery (''range retrieval of '' @ attr @ '' on '' @ dn @ '': expected range starting at ''
       @ dec (final + 1) @ '', got '' @ dec chunk_start))
                   else range_loop ldap attr dn chunk_end rounds (vals @ all_attr chunk chunk_key)))))"
  by pat_completeness auto

termination
  by (relation "measure (\<lambda>(ldap, attr, dn, final, rounds, vals). Suc MAX_RANGE_ROUNDS - rounds)") auto

declare range_loop.simps(2) [simp del]

definition complete_ranged_attribute :: "Connection \<Rightarrow> RawEntry \<Rightarrow> string \<Rightarrow> CoreError + RawEntry \<times> bool" where
  "complete_ranged_attribute ldap e attr =
     (case ranged_key ldap e attr of
        None \<Rightarrow> Inr (e, False)
      | Some (key, start, final) \<Rightarrow>
          (if start \<noteq> 0 then
             Inl (LdapQuery (''range retrieval of '' @ attr @ '' on '' @ re_dn e @ '': first chunk starts at ''
       @ dec start @ '', not 0''))
           else and_then (range_loop ldap attr (re_dn e) final 0 (all_attr e key)) (\<lambda>vals.
             Inr (e\<lparr>re_attrs := (re_attrs e)(key := None, attr := Some vals)\<rparr>, True))))"

section \<open>Ranged values are read whole\<close>

definition chunk_key :: "string \<Rightarrow> nat \<Rightarrow> nat \<Rightarrow> nat \<Rightarrow> string" where
  \<comment> \<open>The name under which a server with chunks of \<open>k\<close> values returns the values from \<open>n\<close> on.\<close>
  "chunk_key attr k len n =
     attr @ '';range='' @ dec n @ ''-'' @ (if n + k < len then dec (n + k - 1) else ''*'')"

definition chunk_values :: "nat \<Rightarrow> string list \<Rightarrow> nat \<Rightarrow> string list" where
  "chunk_values k vals n = take k (drop n vals)"

definition offers_range :: "Connection \<Rightarrow> RawEntry \<Rightarrow> string \<Rightarrow> nat \<Rightarrow> string list \<Rightarrow> nat \<Rightarrow> bool" where
  \<comment> \<open>Among any other attributes, in any order, the entry has one range of \<open>attr\<close>, with the values
    from \<open>n\<close> on.\<close>
  "offers_range ldap e attr k vals n \<longleftrightarrow>
     set (hash_order ldap e) = dom (re_attrs e)
     \<and> re_attrs e (chunk_key attr k (length vals) n) = Some (chunk_values k vals n)
     \<and> (\<forall>key \<in> dom (re_attrs e).
          eq_ignore_ascii_case (take (length (attr @ '';range='')) key) (attr @ '';range='')
            \<longrightarrow> key = chunk_key attr k (length vals) n)"

definition serves_ranges :: "Connection \<Rightarrow> string \<Rightarrow> string \<Rightarrow> nat \<Rightarrow> string list \<Rightarrow> bool" where
  \<comment> \<open>Range retrieval as Active Directory documents it, for an attribute of the entry \<open>dn\<close>.\<close>
  "serves_ranges ldap dn attr k vals \<longleftrightarrow>
     (\<forall>n. n < length vals \<longrightarrow> (\<exists>chunk others.
        ldap_search ldap None dn BaseScope ''(objectClass=*)'' [attr @ '';range='' @ dec n @ ''-*''] = Inr (chunk # others)
        \<and> offers_range ldap chunk attr k vals n))"

lemma find_map_only:
  assumes "f x = Some y" and "x \<in> set xs" and "\<And>z. z \<in> set xs \<Longrightarrow> z \<noteq> x \<Longrightarrow> f z = None"
  shows "find_map f xs = Some y"
  using assms(2,3)
proof (induction xs)
  case (Cons a xs)
  show ?case
  proof (cases "a = x")
    case True
    then show ?thesis using assms(1) by simp
  next
    case False
    have "f a = None" using Cons.prems(2) [of a] False by simp
    moreover have "find_map f xs = Some y"
      by (rule Cons.IH) (use False Cons.prems in auto)
    ultimately show ?thesis by simp
  qed
qed simp

lemma size_no_dash: "CHR ''-'' \<notin> set (dec n)"
  using dec_ascii_digits [of "CHR ''-''" n] by (auto simp: ascii_digit_def code_def)

lemma dec_not_star: "dec n \<noteq> ''*''"
proof
  assume "dec n = ''*''"
  then have "CHR ''*'' \<in> set (dec n)" by simp
  then show False using dec_ascii_digits [of "CHR ''*''" n] by (auto simp: ascii_digit_def code_def)
qed

lemma parse_after_prefix:
  assumes p: "p = attr @ '';range=''"
  shows "parse_range_suffix (p @ t) attr = Option.bind (split_once (CHR ''-'') t) (\<lambda>(start, final).
        Option.bind (parse_uint (2 ^ 32) start) (\<lambda>start.
          if final = ''*'' then Some (start, None)
          else Option.bind (parse_uint (2 ^ 32) final) (\<lambda>final.
            if final < start then None else Some (start, Some final))))"
proof -
  have len: "length attr + length '';range='' = length p" unfolding p length_append ..
  have "\<not> length (p @ t) < length p" "take (length p) (p @ t) = p" "drop (length p) (p @ t) = t" by simp_all
  then show ?thesis
    unfolding parse_range_suffix_def Let_def len p [symmetric] by (simp only: if_False eq_ignore_refl not_True_eq_False)
qed

lemma parse_chunk_key:
  assumes "n < 2 ^ 32" "len < 2 ^ 32" "0 < k"
  shows "parse_range_suffix (chunk_key attr k len n) attr = Some (n, if n + k < len then Some (n + k - 1) else None)"
proof -
  have key: "chunk_key attr k len n = (attr @ '';range='') @ dec n @ ''-'' @ (if n + k < len then dec (n + k - 1) else ''*'')"
    unfolding chunk_key_def by simp
  have s: "split_once (CHR ''-'') (dec n @ ''-'' @ r) = Some (dec n, r)" for r
    using split_once_sep [OF size_no_dash, of n r] by simp
  have "parse_uint (2 ^ 32) (dec n) = Some n" by (rule parse_dec [OF assms(1)])
  moreover have "parse_uint (2 ^ 32) (dec (n + k - 1)) = Some (n + k - 1)" if "n + k < len"
    by (rule parse_dec) (use that assms(2) in simp)
  ultimately show ?thesis
    unfolding key parse_after_prefix [OF refl] s using assms(3) dec_not_star [of "n + k - 1"] by auto
qed

lemma offered_key:
  assumes "offers_range ldap e attr k vals n" and "n < 2 ^ 32" and "length vals < 2 ^ 32" and "0 < k"
  shows "ranged_key ldap e attr =
      Some (chunk_key attr k (length vals) n, n, if n + k < length vals then Some (n + k - 1) else None)"
    "all_attr e (chunk_key attr k (length vals) n) = chunk_values k vals n"
proof -
  have e: "set (hash_order ldap e) = dom (re_attrs e)"
      "re_attrs e (chunk_key attr k (length vals) n) = Some (chunk_values k vals n)"
    and only: "\<And>key. key \<in> dom (re_attrs e) \<Longrightarrow>
        eq_ignore_ascii_case (take (length (attr @ '';range='')) key) (attr @ '';range='') \<Longrightarrow>
        key = chunk_key attr k (length vals) n"
    using assms(1) unfolding offers_range_def by blast+
  show "all_attr e (chunk_key attr k (length vals) n) = chunk_values k vals n"
    by (simp add: all_attr_def values_of_def e(2))
  have "parse_range_suffix key attr = None"
    if "\<not> eq_ignore_ascii_case (take (length (attr @ '';range='')) key) (attr @ '';range='')" for key
    using that unfolding parse_range_suffix_def Let_def length_append by simp
  then have "map_option (Pair key) (parse_range_suffix key attr) = None"
    if "key \<in> set (hash_order ldap e)" "key \<noteq> chunk_key attr k (length vals) n" for key
    using only [of key] that e(1) by auto
  moreover have "chunk_key attr k (length vals) n \<in> set (hash_order ldap e)" using e by auto
  ultimately show "ranged_key ldap e attr =
      Some (chunk_key attr k (length vals) n, n, if n + k < length vals then Some (n + k - 1) else None)"
    unfolding ranged_key_def by (intro find_map_only) (simp_all add: parse_chunk_key [OF assms(2,3,4)])
qed

lemma range_loop_serves:
  assumes "serves_ranges ldap dn attr k vals" "0 < k" "length vals < 2 ^ 32" "n < length vals"
    and "rounds < MAX_RANGE_ROUNDS" "length vals - n \<le> k * (MAX_RANGE_ROUNDS - rounds)" "0 < n"
  shows "range_loop ldap attr dn (Some (n - 1)) rounds (take n vals) = Inr vals"
  using assms(4-7)
proof (induction "length vals - n" arbitrary: n rounds rule: less_induct)
  case less
  obtain chunk others where c:
      "ldap_search ldap None dn BaseScope ''(objectClass=*)'' [attr @ '';range='' @ dec n @ ''-*''] = Inr (chunk # others)"
      "offers_range ldap chunk attr k vals n"
    using assms(1) less.prems(1) unfolding serves_ranges_def by blast
  have n: "n < 2 ^ 32" "n - 1 + 1 = n" using less.prems assms(3) by simp_all
  note key = offered_key(1) [OF c(2) n(1) assms(3,2)]
  have vals: "take n vals @ all_attr chunk (chunk_key attr k (length vals) n) = take (n + k) vals"
    by (simp add: offered_key(2) [OF c(2) n(1) assms(3,2)] chunk_values_def take_add)
  have one: "range_loop ldap attr dn (Some (n - 1)) rounds (take n vals) =
      range_loop ldap attr dn (if n + k < length vals then Some (n + k - 1) else None) (rounds + 1) (take (n + k) vals)"
    using less.prems(2) n key vals c(1)
    by (subst range_loop.simps(2)) (simp add: Let_def query_def first_entry_def)
  show ?case
  proof (cases "n + k < length vals")
    case True
    have "k * (MAX_RANGE_ROUNDS - rounds) = k + k * (MAX_RANGE_ROUNDS - (rounds + 1))"
      using less.prems(2) by (simp add: Suc_diff_Suc flip: mult_Suc_right)
    then have "length vals - (n + k) \<le> k * (MAX_RANGE_ROUNDS - (rounds + 1))" using less.prems(3) by simp
    moreover from this have "rounds + 1 < MAX_RANGE_ROUNDS" using True by (cases "rounds + 1 < MAX_RANGE_ROUNDS") auto
    moreover have "length vals - (n + k) < length vals - n" using less.prems(1) assms(2) by simp
    ultimately show ?thesis using less.hyps [of "n + k" "rounds + 1"] True one assms(2) by simp
  next
    case False
    then show ?thesis using one by simp
  qed
qed

text \<open>C32: An attribute with more values than the server returns at once is read whole, in order and
  without touching another attribute of the entry: whatever other attributes the entry and the
  replies carry and in whatever order the hash map lists them, the completed entry is the old one with
  the range replaced by all values under the plain name. Hypotheses: the server serves ranges as
  Active Directory documents it (chunks of \<open>k\<close> values, the last marked by a star), no entry has two
  ranges of the attribute, fewer than 2 to the 32 values, and at most 1001 chunks.\<close>

theorem ranged_values_are_complete:
  assumes "serves_ranges ldap (re_dn e) attr k vals" "0 < k" "length vals < 2 ^ 32"
    and "length vals \<le> k * (MAX_RANGE_ROUNDS + 1)"
    and "offers_range ldap e attr k vals 0"
  shows "complete_ranged_attribute ldap e attr =
      Inr (e\<lparr>re_attrs := (re_attrs e)(chunk_key attr k (length vals) 0 := None, attr := Some vals)\<rparr>, True)"
proof -
  have key: "ranged_key ldap e attr =
      Some (chunk_key attr k (length vals) 0, 0, if k < length vals then Some (k - 1) else None)"
    using offered_key(1) [OF assms(5) _ assms(3,2)] by simp
  have vals: "all_attr e (chunk_key attr k (length vals) 0) = take k vals"
    using offered_key(2) [OF assms(5) _ assms(3,2)] by (simp add: chunk_values_def)
  have "range_loop ldap attr (re_dn e) (if k < length vals then Some (k - 1) else None) 0 (take k vals) = Inr vals"
    using range_loop_serves [OF assms(1-3), of k 0] assms(2,4) by (auto simp: MAX_RANGE_ROUNDS_def)
  then show ?thesis using key vals by (auto simp: complete_ranged_attribute_def)
qed


definition sample_values :: "string list" where
  "sample_values = [''a'', ''b'', ''c'']"

definition sample_chunk :: "nat \<Rightarrow> RawEntry" where
  \<comment> \<open>An entry with a name beside the range.\<close>
  "sample_chunk n = \<lparr>re_dn = ''u'',
     re_attrs = [''cn'' \<mapsto> [''u''], chunk_key ''memberOf'' 2 3 n \<mapsto> chunk_values 2 sample_values n],
     re_bin_attrs = \<lambda>_. None\<rparr>"

definition sample_names :: "string list" where
  "sample_names = [''cn'', ''memberOf;range=0-1'', ''memberOf;range=1-*'', ''memberOf;range=2-*'']"

definition sample_connection :: Connection where
  \<comment> \<open>A server that returns two values at a time.\<close>
  "sample_connection =
     \<lparr>ldap_search = \<lambda>_ _ _ _ attrs.
        case find (\<lambda>n. attrs = [''memberOf;range='' @ dec n @ ''-*'']) [0, 1, 2] of
          Some n \<Rightarrow> Inr [sample_chunk n] | None \<Rightarrow> Inl (BadResult ''noSuchAttribute''),
      ldap_paged = \<lambda>_ _ _ _. Inl ''unused'',
      hash_order = \<lambda>e. filter (\<lambda>name. re_attrs e name \<noteq> None) sample_names\<rparr>"

lemma sample_dec: "dec 0 = ''0''" "dec (Suc 0) = ''1''" "dec 2 = ''2''"
  by code_simp+

lemma sample_range_keys:
  "chunk_key ''memberOf'' 2 (Suc (Suc (Suc 0))) n = chunk_key ''memberOf'' 2 3 n"
  "chunk_key ''memberOf'' 2 3 0 = ''memberOf;range=0-1''" "chunk_key ''memberOf'' 2 3 (Suc 0) = ''memberOf;range=1-*''"
  "chunk_key ''memberOf'' 2 3 2 = ''memberOf;range=2-*''"
  by (simp_all add: chunk_key_def sample_dec numeral_3_eq_3)

lemma sample_offers:
  assumes "n = 0 \<or> n = Suc 0 \<or> n = 2"
  shows "offers_range sample_connection (sample_chunk n) ''memberOf'' 2 sample_values n"
proof -
  have names: "dom (re_attrs (sample_chunk n)) = {''cn'', chunk_key ''memberOf'' 2 3 n}"
    by (simp add: sample_chunk_def insert_commute)
  moreover have "chunk_key ''memberOf'' 2 3 n \<in> set sample_names" "''cn'' \<in> set sample_names"
    using assms by (auto simp: sample_names_def sample_range_keys)
  ultimately have "set (hash_order sample_connection (sample_chunk n)) = dom (re_attrs (sample_chunk n))"
    by (auto simp: sample_connection_def)
  moreover have "\<not> eq_ignore_ascii_case (take (length (''memberOf'' @ '';range='')) ''cn'') (''memberOf'' @ '';range='')"
    by (simp add: eq_ignore_ascii_case_def to_ascii_lowercase_def)
  moreover have "length sample_values = 3" by (simp add: sample_values_def)
  ultimately show ?thesis
    unfolding offers_range_def names by (simp add: sample_chunk_def)
qed

lemma sample_serves: "serves_ranges sample_connection ''u'' ''memberOf'' 2 sample_values"
proof -
  have "ldap_search sample_connection None ''u'' BaseScope ''(objectClass=*)''
        [''memberOf'' @ '';range='' @ dec n @ ''-*''] = Inr [sample_chunk n]"
    if "n = 0 \<or> n = Suc 0 \<or> n = 2" for n
    using that by (elim disjE) (simp_all add: sample_connection_def sample_dec)
  moreover have "n = 0 \<or> n = Suc 0 \<or> n = 2" if "n < length sample_values" for n
    using that unfolding sample_values_def by (simp, arith)
  ultimately show ?thesis unfolding serves_ranges_def using sample_offers by blast
qed

theorem ranged_values_are_complete_witness:
  "\<exists>e'. complete_ranged_attribute sample_connection (sample_chunk 0) ''memberOf'' = Inr (e', True)
     \<and> re_attrs e' ''memberOf'' = Some sample_values \<and> re_attrs e' ''cn'' = Some [''u'']"
proof -
  have parts: "re_dn (sample_chunk 0) = ''u''" "length sample_values = 3"
      "re_attrs (sample_chunk 0) ''cn'' = Some [''u'']"
    by (simp_all add: sample_chunk_def sample_values_def sample_range_keys)
  have "complete_ranged_attribute sample_connection (sample_chunk 0) ''memberOf'' =
      Inr ((sample_chunk 0)\<lparr>re_attrs := (re_attrs (sample_chunk 0))
        (chunk_key ''memberOf'' 2 (length sample_values) 0 := None, ''memberOf'' := Some sample_values)\<rparr>, True)"
    by (rule ranged_values_are_complete)
      (simp_all only: parts(1,2) sample_serves, simp_all add: sample_offers MAX_RANGE_ROUNDS_def)
  then show ?thesis by (simp add: parts sample_range_keys)
qed

end
