(* ===== verification/Selective_Auth.thy ===== *)
theory Selective_Auth
  imports Sid_Codec
begin

unbundle bit_operations_syntax

text \<open>
  Selective Authentication (\<open>crates/ad_resolver/src/selective_auth.rs\<close>): the control access right
  "Allowed to authenticate" in the self-relative security descriptor of a computer object, parsed
  from its bytes and evaluated for a token that is known only in part.
\<close>

section \<open>The descriptor\<close>

definition ALLOWED_TO_AUTHENTICATE :: "u8 list" where
  "ALLOWED_TO_AUTHENTICATE = [0x79, 0xD1, 0xB1, 0x68, 0x15, 0x0D, 0x4F, 0x4D, 0xAB, 0x71, 0x46, 0x15, 0x2E, 0x79, 0xA7, 0xBC]"

definition ADS_RIGHT_DS_CONTROL_ACCESS :: u32 where "ADS_RIGHT_DS_CONTROL_ACCESS = 0x100"
definition ADS_GENERIC_ALL :: u32 where "ADS_GENERIC_ALL = 0x10000000"
definition SE_DACL_PRESENT :: u32 where "SE_DACL_PRESENT = 0x4"
definition SE_SELF_RELATIVE :: u32 where "SE_SELF_RELATIVE = 0x8000"
definition ACE_OBJECT_TYPE_PRESENT :: u32 where "ACE_OBJECT_TYPE_PRESENT = 0x1"
definition ACE_INHERITED_OBJECT_TYPE_PRESENT :: u32 where "ACE_INHERITED_OBJECT_TYPE_PRESENT = 0x2"

datatype AllowedToAuthenticate = Allowed string | Denied | Unknown string

record Ace =
  sa_allow :: bool
  sa_sid :: string
  sa_covers :: bool
  sa_inherit_only :: bool

definition u32_at :: "u8 list \<Rightarrow> nat \<Rightarrow> nat option" where
  "u32_at b off = map_option from_le_bytes (get_range b off (off + 4))"

definition flag_set :: "nat \<Rightarrow> u32 \<Rightarrow> bool" where
  \<comment> \<open>\<open>value & flag != 0\<close>.\<close>
  "flag_set n bits \<longleftrightarrow> (of_nat n :: u32) AND bits \<noteq> 0"

definition byte_at :: "u8 list \<Rightarrow> nat \<Rightarrow> nat option" where
  "byte_at b off = (if off < length b then Some (unat (b ! off)) else None)"

definition sid_at :: "u8 list \<Rightarrow> nat \<Rightarrow> nat \<Rightarrow> string + string" where
  "sid_at b off sid_end =
     (case byte_at b (off + 1) of None \<Rightarrow> Inl ''SID truncated''
      | Some subs \<Rightarrow>
          (if subs > 15 then Inl (''SID with '' @ dec subs @ '' sub-authorities'')
           else if off + (8 + 4 * subs) > sid_end then Inl ''SID runs past its ACE''
           else case bytes_to_sid_str (take (8 + 4 * subs) (drop off b)) of
               Inl e \<Rightarrow> Inl (error_text e) | Inr sid \<Rightarrow> Inr sid))"

definition hex2 :: "nat \<Rightarrow> string" where
  \<comment> \<open>\<open>{:02X}\<close>.\<close>
  "hex2 n = (let ds = map digit_char (digits 16 n) in replicate (2 - length ds) (CHR ''0'') @ ds)"

definition ace_truncated :: "nat \<Rightarrow> string" where
  "ace_truncated i = ''ACE '' @ dec i @ '' truncated''"

definition ace_error :: "nat \<Rightarrow> string + 'a \<Rightarrow> string + 'a" where
  \<comment> \<open>\<open>map_err\<close> with the position of the ACE.\<close>
  "ace_error i r = (case r of Inl e \<Rightarrow> Inl (''ACE '' @ dec i @ '': '' @ e) | Inr x \<Rightarrow> Inr x)"

definition right_in :: "nat \<Rightarrow> bool" where
  "right_in m \<longleftrightarrow> flag_set m (ADS_RIGHT_DS_CONTROL_ACCESS OR ADS_GENERIC_ALL)"

definition plain_ace :: "u8 list \<Rightarrow> nat \<Rightarrow> nat \<Rightarrow> nat \<Rightarrow> bool \<Rightarrow> bool \<Rightarrow> string + Ace" where
  \<comment> \<open>The arm of the two plain types; \<open>ace_end\<close> is where the ACE ends.\<close>
  "plain_ace sd i off ace_end allow inherit_only =
     (case u32_at sd (off + 4) of None \<Rightarrow> Inl (ace_truncated i)
      | Some m \<Rightarrow>
          (case ace_error i (sid_at sd (off + 8) ace_end) of Inl e \<Rightarrow> Inl e
           | Inr sid \<Rightarrow> Inr \<lparr>sa_allow = allow, sa_sid = sid, sa_covers = right_in m, sa_inherit_only = inherit_only\<rparr>))"

definition object_ace :: "u8 list \<Rightarrow> nat \<Rightarrow> nat \<Rightarrow> nat \<Rightarrow> bool \<Rightarrow> bool \<Rightarrow> string + Ace" where
  \<comment> \<open>The arm of the two object types.\<close>
  "object_ace sd i off ace_end allow inherit_only =
     (case u32_at sd (off + 4) of None \<Rightarrow> Inl (ace_truncated i)
      | Some m \<Rightarrow>
     (case u32_at sd (off + 8) of None \<Rightarrow> Inl (ace_truncated i)
      | Some oflags \<Rightarrow>
          (let typed = flag_set oflags ACE_OBJECT_TYPE_PRESENT;
               guid = get_range sd (off + 12) (off + 28);
               after_type = (if typed then off + 28 else off + 12);
               p = (if flag_set oflags ACE_INHERITED_OBJECT_TYPE_PRESENT then after_type + 16 else after_type)
           in if typed \<and> guid = None then Inl (''ACE '' @ dec i @ '': object type truncated'')
              else case ace_error i (sid_at sd p ace_end) of Inl e \<Rightarrow> Inl e
                | Inr sid \<Rightarrow> Inr \<lparr>sa_allow = allow, sa_sid = sid,
                    sa_covers = (right_in m \<and> (typed \<longrightarrow> guid = Some ALLOWED_TO_AUTHENTICATE)),
                    sa_inherit_only = inherit_only\<rparr>)))"

definition typed_ace :: "u8 list \<Rightarrow> nat \<Rightarrow> nat \<Rightarrow> nat \<Rightarrow> nat \<Rightarrow> bool \<Rightarrow> string + Ace option" where
  \<comment> \<open>The \<open>match\<close> on the type; audit and label ACEs give none.\<close>
  "typed_ace sd i off ace_end kind inherit_only =
     (if kind = 0x00 \<or> kind = 0x01 then
        (case plain_ace sd i off ace_end (kind = 0x00) inherit_only of Inl e \<Rightarrow> Inl e | Inr a \<Rightarrow> Inr (Some a))
      else if kind = 0x05 \<or> kind = 0x06 then
        (case object_ace sd i off ace_end (kind = 0x05) inherit_only of Inl e \<Rightarrow> Inl e | Inr a \<Rightarrow> Inr (Some a))
      else if kind \<in> {0x02, 0x03, 0x07, 0x11} then Inr None
      else Inl (''ACE '' @ dec i @ '' has type 0x'' @ hex2 kind
       @ '' (callback / conditional), which Stars does not evaluate''))"

definition ace_at :: "u8 list \<Rightarrow> nat \<Rightarrow> nat \<Rightarrow> nat \<Rightarrow> string + Ace option \<times> nat" where
  \<comment> \<open>One turn of the loop: the ACE, and where the next one starts.\<close>
  "ace_at sd acl_end i off =
     (case (byte_at sd off, byte_at sd (off + 1), u16_at sd (off + 2)) of
        (Some kind, Some ace_flags, Some ace_size) \<Rightarrow>
          (if ace_size < 8 \<or> off + ace_size > acl_end then Inl (''ACE '' @ dec i @ '' has an invalid size'')
           else case typed_ace sd i off (off + ace_size) kind (flag_set ace_flags 0x08) of
               Inl e \<Rightarrow> Inl e | Inr a \<Rightarrow> Inr (a, off + ace_size))
      | _ \<Rightarrow> Inl (ace_truncated i))"

fun ace_loop :: "u8 list \<Rightarrow> nat \<Rightarrow> nat \<Rightarrow> nat \<Rightarrow> nat \<Rightarrow> Ace list \<Rightarrow> string + Ace list" where
  "ace_loop sd acl_end i 0 off aces = Inr aces"
| "ace_loop sd acl_end i (Suc n) off aces =
     (case ace_at sd acl_end i off of Inl e \<Rightarrow> Inl e
      | Inr (a, following) \<Rightarrow> ace_loop sd acl_end (i + 1) n following (aces @ (case a of None \<Rightarrow> [] | Some x \<Rightarrow> [x])))"

definition parse_sd_dacl :: "u8 list \<Rightarrow> string + Ace list option" where
  \<comment> \<open>\<open>parse_dacl\<close> of this file.\<close>
  "parse_sd_dacl sd =
     (if length sd < 20 then Inl (''security descriptor of '' @ dec (length sd) @ '' bytes'')
      else case u16_at sd 2 of None \<Rightarrow> Inl ''control unreadable''
      | Some control \<Rightarrow>
          (if \<not> flag_set control SE_SELF_RELATIVE then Inl ''security descriptor is not self-relative''
           else case u32_at sd 16 of None \<Rightarrow> Inl ''DACL offset unreadable''
           | Some dacl_at \<Rightarrow>
               (if \<not> flag_set control SE_DACL_PRESENT \<or> dacl_at = 0 then Inr None
                else case (u16_at sd (dacl_at + 2), u16_at sd (dacl_at + 4)) of
                    (Some acl_size, Some ace_count) \<Rightarrow>
                      (let acl_end = dacl_at + acl_size
                       in if acl_size < 8 \<or> acl_end > length sd then Inl ''DACL size runs past the descriptor''
                          else case ace_loop sd acl_end 0 ace_count (dacl_at + 8) [] of
                              Inl e \<Rightarrow> Inl e | Inr aces \<Rightarrow> Inr (Some aces))
                  | _ \<Rightarrow> Inl ''DACL header truncated'')))"

section \<open>The decision\<close>

definition first_decision :: "Ace list \<Rightarrow> (string \<Rightarrow> bool) \<Rightarrow> Ace option" where
  "first_decision aces token = find (\<lambda>a. token (sa_sid a)) (filter (\<lambda>a. \<not> sa_inherit_only a \<and> sa_covers a) aces)"

definition certainly_absent_in_check :: "string \<Rightarrow> bool" where
  "certainly_absent_in_check sid \<longleftrightarrow>
     starts_with sid ''S-1-5-32-''
     \<or> sid \<in> {''S-1-5-2'', ''S-1-5-18'', ''S-1-5-19'', ''S-1-5-20'', ''S-1-5-9'', ''S-1-5-10'', ''S-1-3-0'', ''S-1-3-1'', ''S-1-5-7''}"

definition is_uncertain :: "string \<Rightarrow> string set \<Rightarrow> string set \<Rightarrow> bool" where
  "is_uncertain sid certain uncertain \<longleftrightarrow>
     sid \<notin> certain \<and> (sid \<in> uncertain \<or> (\<not> starts_with sid ''S-1-5-21-'' \<and> \<not> certainly_absent_in_check sid))"

definition decide_auth :: "Ace list \<Rightarrow> string set \<Rightarrow> string set \<Rightarrow> bool \<Rightarrow> AllowedToAuthenticate" where
  \<comment> \<open>The closure \<open>decide\<close>.\<close>
  "decide_auth aces certain uncertain with_uncertain =
     (case first_decision aces (\<lambda>s. s \<in> certain \<or> with_uncertain \<and> is_uncertain s certain uncertain) of
        Some a \<Rightarrow> (if sa_allow a then Allowed (sa_sid a) else Denied)
      | None \<Rightarrow> Denied)"

definition undecided_reason :: "Ace list \<Rightarrow> string set \<Rightarrow> string set \<Rightarrow> string" where
  "undecided_reason aces certain uncertain =
     (let sids = map sa_sid (filter (\<lambda>a. \<not> sa_inherit_only a \<and> sa_covers a \<and> is_uncertain (sa_sid a) certain uncertain) aces)
      in ''an ACE for '' @ join '', '' sids @ '' decides it, and whether that SID is in the account''
       @ squote @ ''s logon token is not known'')"

definition allowed_to_authenticate :: "u8 list \<Rightarrow> string set \<Rightarrow> string set \<Rightarrow> AllowedToAuthenticate" where
  "allowed_to_authenticate sd certain uncertain =
     (case parse_sd_dacl sd of
        Inl reason \<Rightarrow> Unknown (''its permissions could not be evaluated: '' @ reason)
      | Inr None \<Rightarrow> Allowed (''the object'' @ squote @ ''s NULL DACL (no restriction)'')
      | Inr (Some aces) \<Rightarrow>
          (case (decide_auth aces certain uncertain False, decide_auth aces certain uncertain True) of
             (Allowed via, Allowed _) \<Rightarrow> Allowed via
           | (Denied, Denied) \<Rightarrow> Denied
           | _ \<Rightarrow> Unknown (undecided_reason aces certain uncertain)))"

section \<open>What the answer means\<close>

definition deciding :: "Ace \<Rightarrow> bool" where
  "deciding a \<longleftrightarrow> \<not> sa_inherit_only a \<and> sa_covers a"

fun granted_to :: "Ace list \<Rightarrow> (string \<Rightarrow> bool) \<Rightarrow> bool" where
  \<comment> \<open>The access check of the directory for this one right: the first ACE that covers it and names a SID
    of the token decides.\<close>
  "granted_to [] token = False"
| "granted_to (a # aces) token = (if deciding a \<and> token (sa_sid a) then sa_allow a else granted_to aces token)"

definition possible_logon :: "string set \<Rightarrow> string set \<Rightarrow> (string \<Rightarrow> bool) \<Rightarrow> bool" where
  \<comment> \<open>A token the evidence allows.\<close>
  "possible_logon certain uncertain token \<longleftrightarrow>
     (\<forall>s \<in> certain. token s) \<and> (\<forall>s. token s \<longrightarrow> s \<in> certain \<or> is_uncertain s certain uncertain)"

definition one_sided :: "Ace list \<Rightarrow> string set \<Rightarrow> string set \<Rightarrow> bool" where
  \<comment> \<open>The ACEs of uncertain SIDs that could decide are all Allow ACEs or all Deny ACEs.\<close>
  "one_sided aces certain uncertain \<longleftrightarrow>
     (\<exists>kind. \<forall>a \<in> set aces. deciding a \<longrightarrow> is_uncertain (sa_sid a) certain uncertain \<longrightarrow> sa_allow a = kind)"

lemma first_decision_granted:
  "granted_to aces token \<longleftrightarrow> (\<exists>a. first_decision aces token = Some a \<and> sa_allow a)"
  by (induction aces) (auto simp: first_decision_def deciding_def)

lemma decide_auth_granted:
  "decide_auth aces certain uncertain w =
     (if granted_to aces (\<lambda>s. s \<in> certain \<or> w \<and> is_uncertain s certain uncertain)
      then Allowed (sa_sid (the (first_decision aces (\<lambda>s. s \<in> certain \<or> w \<and> is_uncertain s certain uncertain)))) else Denied)"
  by (auto simp: decide_auth_def first_decision_granted split: option.split)

lemma granted_grows:
  assumes "\<forall>a \<in> set aces. deciding a \<longrightarrow> t (sa_sid a) \<noteq> t' (sa_sid a) \<longrightarrow> t' (sa_sid a) = sa_allow a" and "granted_to aces t"
  shows "granted_to aces t'"
  using assms by (induction aces) (auto split: if_splits)

lemma answer_between:
  assumes one: "one_sided aces certain uncertain" and token: "possible_logon certain uncertain token"
  shows "granted_to aces (\<lambda>s. s \<in> certain) \<Longrightarrow> granted_to aces (\<lambda>s. s \<in> certain \<or> is_uncertain s certain uncertain)
      \<Longrightarrow> granted_to aces token"
    and "\<not> granted_to aces (\<lambda>s. s \<in> certain) \<Longrightarrow> \<not> granted_to aces (\<lambda>s. s \<in> certain \<or> is_uncertain s certain uncertain)
      \<Longrightarrow> \<not> granted_to aces token"
proof -
  let ?low = "\<lambda>s. s \<in> certain" and ?high = "\<lambda>s. s \<in> certain \<or> is_uncertain s certain uncertain"
  have between: "?low s \<Longrightarrow> token s" "token s \<Longrightarrow> ?high s" for s using token by (auto simp: possible_logon_def)
  obtain kind where kind: "\<forall>a \<in> set aces. deciding a \<longrightarrow> is_uncertain (sa_sid a) certain uncertain \<longrightarrow> sa_allow a = kind"
    using one by (auto simp: one_sided_def)
  show "granted_to aces token" if "granted_to aces ?low" "granted_to aces ?high"
  proof (cases kind)
    case True
    show ?thesis by (rule granted_grows [OF _ that(1)]) (use kind between True in blast)
  next
    case False
    show ?thesis by (rule granted_grows [OF _ that(2)]) (use kind between False in blast)
  qed
  show "\<not> granted_to aces token" if "\<not> granted_to aces ?low" "\<not> granted_to aces ?high"
  proof
    assume g: "granted_to aces token"
    show False
    proof (cases kind)
      case True
      have "granted_to aces ?high" by (rule granted_grows [OF _ g]) (use kind between True in blast)
      then show False using that(2) by blast
    next
      case False
      have "granted_to aces ?low" by (rule granted_grows [OF _ g]) (use kind between False in blast)
      then show False using that(1) by blast
    qed
  qed
qed

text \<open>C13: A decided answer about "Allowed to authenticate" is the answer of the directory. When the ACEs
  of SIDs that may or may not be in the logon token are all Allow or all Deny (\<open>one_sided\<close>; with both
  kinds mixed see \<open>mixed_uncertain_aces_answered_allowed\<close>), an answer "allowed" means that every
  token the evidence allows is granted the right, and an answer "denied" that none is.\<close>
theorem decided_authentication_is_real:
  assumes "parse_sd_dacl sd = Inr (Some aces)" and "one_sided aces certain uncertain"
    and "possible_logon certain uncertain token"
  shows "(allowed_to_authenticate sd certain uncertain = Denied \<longrightarrow> \<not> granted_to aces token)
    \<and> ((\<exists>via. allowed_to_authenticate sd certain uncertain = Allowed via) \<longrightarrow> granted_to aces token)"
  using assms(1) answer_between [OF assms(2,3)]
  by (auto simp: allowed_to_authenticate_def decide_auth_granted split: if_splits)

section \<open>Samples\<close>

definition sample_ace_bytes :: "u8 \<Rightarrow> u8 \<Rightarrow> u8 list" where
  \<comment> \<open>A plain ACE with the control access right for \<open>S-1-5-x\<close>.\<close>
  "sample_ace_bytes kind x = [kind, 0, 20, 0, 0, 1, 0, 0, 1, 1, 0, 0, 0, 0, 0, 5, x, 0, 0, 0]"

definition sample_descriptor_of :: "u8 list list \<Rightarrow> u8 list" where
  "sample_descriptor_of aces =
     [1, 0, 0x04, 0x80, 0, 0, 0, 0, 0, 0, 0, 0, 0, 0, 0, 0, 20, 0, 0, 0,
      2, 0, of_nat (8 + 20 * length aces), 0, of_nat (length aces), 0, 0, 0] @ concat aces"

definition sample_auth_aces :: "Ace list" where
  "sample_auth_aces =
     [\<lparr>sa_allow = True, sa_sid = ''S-1-5-3'', sa_covers = True, sa_inherit_only = False\<rparr>,
      \<lparr>sa_allow = False, sa_sid = ''S-1-5-4'', sa_covers = True, sa_inherit_only = False\<rparr>,
      \<lparr>sa_allow = True, sa_sid = ''S-1-5-11'', sa_covers = True, sa_inherit_only = False\<rparr>]"

definition sample_mixed :: "u8 list" where
  \<comment> \<open>Allow Batch, Deny Interactive, Allow Authenticated Users.\<close>
  "sample_mixed = sample_descriptor_of [sample_ace_bytes 0 3, sample_ace_bytes 1 4, sample_ace_bytes 0 11]"

definition sample_plain :: "u8 list" where
  "sample_plain = sample_descriptor_of [sample_ace_bytes 0 3, sample_ace_bytes 0 11]"

lemma sample_mixed_parsed: "parse_sd_dacl sample_mixed = Inr (Some sample_auth_aces)"
  by code_simp

lemma sample_plain_parsed:
  "parse_sd_dacl sample_plain = Inr (Some [sample_auth_aces ! 0, sample_auth_aces ! 2])"
  by code_simp

lemma sample_uncertain:
  "is_uncertain ''S-1-5-3'' {''S-1-5-11''} {}" "is_uncertain ''S-1-5-4'' {''S-1-5-11''} {}"
  by (simp_all add: is_uncertain_def certainly_absent_in_check_def)

lemma decided_authentication_is_real_witness:
  "allowed_to_authenticate sample_plain {''S-1-5-11''} {} = Allowed ''S-1-5-11''
   \<and> granted_to [sample_auth_aces ! 0, sample_auth_aces ! 2] (\<lambda>s. s = ''S-1-5-11'')"
proof -
  have answer: "allowed_to_authenticate sample_plain {''S-1-5-11''} {} = Allowed ''S-1-5-11''"
    by (simp add: allowed_to_authenticate_def sample_plain_parsed decide_auth_def first_decision_def sample_auth_aces_def
        sample_uncertain numeral_2_eq_2)
  have "one_sided [sample_auth_aces ! 0, sample_auth_aces ! 2] {''S-1-5-11''} {}"
    unfolding one_sided_def by (rule exI [of _ True]) (simp add: sample_auth_aces_def numeral_2_eq_2)
  moreover have "possible_logon {''S-1-5-11''} {} (\<lambda>s. s = ''S-1-5-11'')" by (simp add: possible_logon_def)
  ultimately show ?thesis
    using answer decided_authentication_is_real [OF sample_plain_parsed, of "{''S-1-5-11''}" "{}" "\<lambda>s. s = ''S-1-5-11''"] by blast
qed

text \<open>C39: The answer is compared only for the token without and the token with all uncertain SIDs. With
  uncertain ACEs of both kinds the answer can be "allowed" although a possible token is refused: here
  Allow Batch, Deny Interactive, Allow Authenticated Users, and a token with Interactive but not Batch.\<close>
theorem mixed_uncertain_aces_answered_allowed:
  "parse_sd_dacl sample_mixed = Inr (Some sample_auth_aces)
   \<and> allowed_to_authenticate sample_mixed {''S-1-5-11''} {} = Allowed ''S-1-5-11''
   \<and> possible_logon {''S-1-5-11''} {} (\<lambda>s. s = ''S-1-5-11'' \<or> s = ''S-1-5-4'')
   \<and> \<not> granted_to sample_auth_aces (\<lambda>s. s = ''S-1-5-11'' \<or> s = ''S-1-5-4'')"
  by (simp add: allowed_to_authenticate_def sample_mixed_parsed decide_auth_def first_decision_def sample_auth_aces_def
      sample_uncertain possible_logon_def deciding_def)

end
