(* ===== verification/Ldap_Resolver.thy ===== *)
theory Ldap_Resolver
  imports Ldap_Client Group_Assembly Trusted_Accounts Selective_Auth
begin

unbundle bit_operations_syntax

text \<open>
  The operations of \<open>LdapResolver\<close> over a connection (\<open>crates/ad_resolver/src/resolver.rs\<close>), with the
  cache of identities, the members of a group, the trust inventory (\<open>trusts.rs\<close>) and the check of
  selective authentication on a target (\<open>selective_auth.rs\<close>).
\<close>

section \<open>Identities and their cache\<close>

type_synonym cache = "string \<Rightarrow> Identity option"

definition lookup_by_upn_raw ::
    "LdapConfig \<Rightarrow> CoreError + Connection \<Rightarrow> string \<Rightarrow> cache \<Rightarrow> (CoreError + (Sid \<times> Identity) option) \<times> cache" where
  "lookup_by_upn_raw cfg connect upn cache =
     (case and_then connect (\<lambda>ldap. search_by_upn ldap (cfg_base_dn cfg) upn) of
        Inl e \<Rightarrow> (Inl e, cache)
      | Inr None \<Rightarrow> (Inr None, cache)
      | Inr (Some e) \<Rightarrow>
          (case extract_sid_from_entry e of
             None \<Rightarrow> (Inl (SidResolution (''No objectSid for UPN: '' @ upn)), cache)
           | Some sid \<Rightarrow>
               (let identity = parse_identity_from_entry e sid
                in (Inr (Some (sid, identity)), cache(sid := Some identity)))))"

definition lookup_all_by_sam_raw ::
    "LdapConfig \<Rightarrow> CoreError + Connection \<Rightarrow> string \<Rightarrow> CoreError + (Sid \<times> Identity) list" where
  "lookup_all_by_sam_raw cfg connect sam =
     and_then connect (\<lambda>ldap. and_then (search_all_by_samaccount ldap (cfg_base_dn cfg) sam) (\<lambda>entries.
       Inr (filter_map (\<lambda>e. map_option (\<lambda>sid. (sid, parse_identity_from_entry e sid)) (extract_sid_from_entry e)) entries)))"

definition resolve_identity ::
    "LdapConfig \<Rightarrow> CoreError + Connection \<Rightarrow> Sid \<Rightarrow> cache \<Rightarrow> (CoreError + Identity) \<times> cache" where
  \<comment> \<open>\<open>resolve_identity_internal\<close>.\<close>
  "resolve_identity cfg connect sid cache =
     (case cache sid of
        Some identity \<Rightarrow> (Inr identity, cache)
      | None \<Rightarrow>
          (case and_then connect (\<lambda>ldap. search_by_sid ldap (cfg_base_dn cfg) sid) of
             Inl e \<Rightarrow> (Inl e, cache)
           | Inr found \<Rightarrow>
               (let identity = (case found of
                      Some e \<Rightarrow> parse_identity_from_entry e sid | None \<Rightarrow> bare_identity sid Orphaned)
                in (Inr identity, if id_kind identity \<noteq> Orphaned then cache(sid := Some identity) else cache))))"

section \<open>The searches of an account\<close>

definition trust_searches :: "Connection \<Rightarrow> TrustSearches" where
  "trust_searches ldap =
     \<lparr>search_forest_domain_sids = search_forest_domain_sids_with ldap,
      search_domain_trusts = search_domain_trusts_with ldap,
      search_domain_sid = search_domain_sid_with ldap, search_root_domain_nc = search_root_domain_nc_with ldap\<rparr>"

definition group_searches :: "LdapConfig \<Rightarrow> Connection \<Rightarrow> GroupSearches" where
  "group_searches cfg ldap =
     \<lparr>gs_by_sid = search_by_sid ldap,
      gs_transitive_groups = search_transitive_groups_for_member ldap (cfg_base_dn cfg),
      gs_complete_member_of = (\<lambda>e. and_then (complete_ranged_attribute ldap e ''memberOf'') (\<lambda>(e, _). Inr e)),
      gs_token_groups = search_token_groups ldap\<rparr>"

definition token_groups_global_and_universal ::
    "LdapConfig \<Rightarrow> CoreError + Connection \<Rightarrow> Sid \<Rightarrow> CoreError + string list option" where
  "token_groups_global_and_universal cfg connect sid =
     and_then connect (\<lambda>ldap. and_then (search_by_sid ldap (cfg_base_dn cfg) sid) (\<lambda>found.
       case found of
         Some e \<Rightarrow> search_token_groups_global_and_universal ldap (re_dn e)
       | None \<Rightarrow> Inr None))"

definition has_object_for_sid :: "LdapConfig \<Rightarrow> CoreError + Connection \<Rightarrow> Sid \<Rightarrow> CoreError + bool" where
  "has_object_for_sid cfg connect sid =
     and_then connect (\<lambda>ldap. and_then (search_by_sid ldap (cfg_base_dn cfg) sid) (\<lambda>e. Inr (e \<noteq> None)))"

definition configured_domain_sid :: "LdapConfig \<Rightarrow> CoreError + Connection \<Rightarrow> CoreError + string option" where
  "configured_domain_sid cfg connect =
     (case domain_root_dn (cfg_base_dn cfg) of
        None \<Rightarrow> Inr None
      | Some root \<Rightarrow>
          and_then connect (\<lambda>ldap. and_then (search_domain_sid_with ldap root) (\<lambda>sid.
            Inr (case sid of Some d \<Rightarrow> if is_domain_sid d then Some d else None | None \<Rightarrow> None))))"

definition directory_of :: "(string \<Rightarrow> string) \<Rightarrow> LdapConfig \<Rightarrow> CoreError + Connection \<Rightarrow> Directory" where
  \<comment> \<open>The resolver as the backends use it, with an empty cache.\<close>
  "directory_of to_lowercase cfg connect =
     \<lparr>dir_domain_sid = configured_domain_sid cfg connect,
      dir_resolve_identity = (\<lambda>sid. fst (resolve_identity cfg connect sid (\<lambda>_. None))),
      dir_memberships = resolve_memberships to_lowercase cfg (and_then connect (\<lambda>ldap. Inr (group_searches cfg ldap))),
      dir_token_groups = token_groups_global_and_universal cfg connect,
      dir_has_object = has_object_for_sid cfg connect\<rparr>"

section \<open>The members of a group\<close>

definition enumerate_group_members ::
    "LdapConfig \<Rightarrow> CoreError + Connection \<Rightarrow> Sid \<Rightarrow> CoreError + GroupMemberEnumeration" where
  "enumerate_group_members cfg connect group_sid =
     (case rid_from_sid group_sid of
        None \<Rightarrow> Inl (SidResolution (''Cannot derive RID from group SID: '' @ group_sid))
      | Some rid \<Rightarrow>
          and_then connect (\<lambda>ldap.
          and_then (search_by_sid ldap (cfg_base_dn cfg) group_sid) (\<lambda>found.
            case found of
              None \<Rightarrow> Inl (SidResolution (''Group not found in the configured base: '' @ group_sid))
            | Some its_entry \<Rightarrow>
                (let backlink = search_members_by_backlink ldap (cfg_base_dn cfg) (re_dn its_entry);
                     primary = search_by_primary_group ldap (cfg_base_dn cfg) rid;
                     (members, seen, incomplete) =
                       (case backlink of
                          Inr entries \<Rightarrow> (case push_member_entries entries Direct [] {} of (m, s) \<Rightarrow> (m, s, None))
                        | Inl e \<Rightarrow> ([], {}, Some (''member back-link search failed: '' @ error_text e)));
                     (members, incomplete) =
                       (case primary of
                          Inr entries \<Rightarrow>
                            (fst (push_member_entries (filter_same_domain entries group_sid) MemberVia.PrimaryGroup members seen),
                             incomplete)
                        | Inl e \<Rightarrow>
                            (let msg = ''primaryGroupID search failed: '' @ error_text e in
                             (members, Some (case incomplete of Some prev \<Rightarrow> prev @ ''; '' @ msg | None \<Rightarrow> msg))))
                 in if members = [] \<and> incomplete \<noteq> None then
                      Inl (LdapQuery (''member enumeration failed: ''
       @ (case incomplete of Some e \<Rightarrow> e | None \<Rightarrow> [])))
                    else Inr \<lparr>ge_members = members, ge_incomplete = incomplete,
                      ge_universal_on_domain_bind =
                        (is_universal_group_entry its_entry \<and> \<not> cfg_global_catalog cfg)\<rparr>))))"

section \<open>The trust inventory\<close>

definition resolve_domain_trusts ::
    "(string \<Rightarrow> string) \<Rightarrow> LdapConfig \<Rightarrow> CoreError + Connection \<Rightarrow> CoreError + DomainTrust list" where
  "resolve_domain_trusts to_lowercase cfg connect =
     and_then connect (\<lambda>ldap. and_then (search_domain_trusts_with ldap (cfg_base_dn cfg)) (\<lambda>entries.
       Inr (sort_key (\<lambda>t. to_lowercase (dt_partner t)) (filter_map parse_trust entries))))"

section \<open>Selective authentication on a target\<close>

definition char_count :: "string \<Rightarrow> nat" where
  \<comment> \<open>\<open>chars().count()\<close>.\<close>
  "char_count s = length (filter (\<lambda>c. \<not> continuation c) s)"

definition is_valid_netbios_computer_name :: "string \<Rightarrow> bool" where
  "is_valid_netbios_computer_name s \<longleftrightarrow>
     1 \<le> char_count s \<and> char_count s \<le> 15 \<and> \<not> control_in s
     \<and> list_all (\<lambda>c. c \<noteq> CHR '' '' \<and> c \<notin> set (bslash @ ''/:*?'' @ dquote @ ''<>|.'')) s"

definition computer_security_descriptor ::
    "LdapConfig \<Rightarrow> CoreError + Connection \<Rightarrow> string \<Rightarrow> string \<Rightarrow> CoreError + (string \<times> u8 list option) option" where
  \<comment> \<open>The third argument is the name as the message shows it (\<open>{:?}\<close>).\<close>
  "computer_security_descriptor cfg connect shown_name netbios_name =
     (let trimmed = trim netbios_name in
      if \<not> is_valid_netbios_computer_name trimmed then
        Inl (Validation (''invalid computer name '' @ shown_name @ '' (a NetBIOS name of 1'' @ en_dash @ ''15 characters expected)''))
      else and_then connect (\<lambda>ldap. search_computer_security_descriptor ldap (cfg_base_dn cfg) trimmed))"

definition certain_sids :: "PrincipalResolution \<Rightarrow> string set" where
  "certain_sids r =
     {pr_sid r, ''S-1-1-0'', ''S-1-5-11''} \<union> set (id_sid_history (pr_identity r))
     \<union> (\<Union>m \<in> set (pr_memberships r).
          (if starts_with (gm_group_sid m) ''S-1-5-32-'' then {} else {gm_group_sid m}) \<union> set (gm_group_sid_history m))"

definition shown_sid :: "PrincipalResolution \<Rightarrow> string \<Rightarrow> string" where
  "shown_sid r sid =
     (case (if sid = pr_sid r then id_name (pr_identity r)
            else if sid = ''S-1-1-0'' then Some ''Everyone''
            else if sid = ''S-1-5-11'' then Some ''Authenticated Users''
            else Option.bind (find (\<lambda>m. gm_group_sid m = sid) (pr_memberships r)) gm_group_name) of
        Some n \<Rightarrow> n @ '' ('' @ sid @ '')''
      | None \<Rightarrow> sid)"

definition check_for_target ::
    "(string option \<Rightarrow> CoreError + string) \<Rightarrow> (string \<Rightarrow> CoreError + (string \<times> u8 list option) option) \<Rightarrow>
     string option \<Rightarrow> PrincipalResolution \<Rightarrow> SelectiveAuthenticationCheck option" where
  \<comment> \<open>The name of the server is a Win32 call, the descriptor \<open>computer_security_descriptor\<close>.\<close>
  "check_for_target server_netbios_name descriptor target_server r =
     Option.bind (pr_trusted_domain r) (\<lambda>trusted.
       if \<not> td_selective_authentication trusted then None
       else
         (let server_label = (case target_server of Some s \<Rightarrow> s | None \<Rightarrow> ''this computer'') in
          case server_netbios_name target_server of
            Inl e \<Rightarrow> Some (SelectiveAuthenticationCheck.Unknown server_label
              (''the computer name of '' @ server_label @ '' could not be read ('' @ error_text e @ '')''))
          | Inr server \<Rightarrow>
              (case descriptor server of
                 Inr (Some (_, Some sd)) \<Rightarrow>
                   (case allowed_to_authenticate sd (certain_sids r) {} of
                      AllowedToAuthenticate.Allowed via \<Rightarrow>
                        Some (SelectiveAuthenticationCheck.Allowed server (if starts_with via ''S-'' then shown_sid r via else via))
                    | AllowedToAuthenticate.Denied \<Rightarrow> Some (SelectiveAuthenticationCheck.Denied server)
                    | AllowedToAuthenticate.Unknown reason \<Rightarrow> Some (SelectiveAuthenticationCheck.Unknown server reason))
               | Inr (Some (dn, None)) \<Rightarrow> Some (SelectiveAuthenticationCheck.Unknown server
                   (''the permissions of its computer object '' @ dn @ '' could not be read''))
               | Inr None \<Rightarrow> Some (SelectiveAuthenticationCheck.Unknown server
                   (''there is no computer object '' @ server @ ''$ in the configured domain''))
               | Inl e \<Rightarrow> Some (SelectiveAuthenticationCheck.Unknown server
                   (''its computer object could not be read ('' @ error_text e @ '')'')))))"

section \<open>What the cache holds\<close>

definition cache_ok :: "cache \<Rightarrow> bool" where
  \<comment> \<open>Every identity is stored under its own SID and is no orphan.\<close>
  "cache_ok cache \<longleftrightarrow> (\<forall>sid i. cache sid = Some i \<longrightarrow> id_sid i = sid \<and> id_kind i \<noteq> Orphaned)"

lemma parsed_identity [simp]: "id_sid (parse_identity_from_entry e sid) = sid" "id_kind (parse_identity_from_entry e sid) \<noteq> Orphaned"
  by (simp_all add: parse_identity_from_entry_def classify_identity_def Let_def)

lemma cache_ok_insert: "cache_ok cache \<Longrightarrow> id_sid i = sid \<Longrightarrow> id_kind i \<noteq> Orphaned \<Longrightarrow> cache_ok (cache(sid := Some i))"
  by (simp add: cache_ok_def)

text \<open>C33: The cache of identities is never poisoned: every lookup keeps that each cached identity stands
  under its own SID and none is an orphan, so an account that was missing once is always looked up
  again.\<close>

theorem cache_is_never_poisoned:
  assumes "cache_ok cache"
  shows "cache_ok (snd (resolve_identity cfg connect sid cache)) \<and> cache_ok (snd (lookup_by_upn_raw cfg connect upn cache))"
proof
  show "cache_ok (snd (resolve_identity cfg connect sid cache))"
    using assms
    by (auto simp: resolve_identity_def Let_def split: option.splits sum.splits intro: cache_ok_insert)
      (simp_all add: bare_identity_def)
  show "cache_ok (snd (lookup_by_upn_raw cfg connect upn cache))"
    using assms
    by (auto simp: lookup_by_upn_raw_def Let_def split: option.splits sum.splits intro: cache_ok_insert)
qed

theorem cache_is_never_poisoned_witness:
  "cache_ok (snd (resolve_identity (new_signed ''dc.a'' ''DC=a'') (Inl Cancelled) ''S-1-5-18'' (\<lambda>_. None)))
   \<and> cache_ok (snd (lookup_by_upn_raw (new_signed ''dc.a'' ''DC=a'') (Inl Cancelled) ''u@a'' (\<lambda>_. None)))"
  by (rule cache_is_never_poisoned) (simp add: cache_ok_def)

end
