(* ===== verification/Spec2Isabelle.thy ===== *)
theory Spec2Isabelle
  imports Walker_Results Engine_Results Risk Analysis Dfs Delta Update Principal_Results Group_Results
    Ldap_Resolver
begin

unbundle bit_operations_syntax

text \<open>
  A model of the STARS AD permission analyzer (the Rust workspace under \<open>src/crates\<close>): what it
  reads of an object, an account and a target server, and the answer it computes from it, namely
  the effective rights of the account on the object, how certain they are, and which findings and
  reports follow.

  The parts and how they work together. \<open>validation\<close> checks what the user enters; the DFS layer
  (\<open>share_scanner/dfs.rs\<close>, \<open>analysis/dfs.rs\<close>) decides where a path is evaluated; \<open>fs_scanner\<close> reads
  the objects below the path with their security descriptors; \<open>ad_resolver\<close> resolves the account
  with its groups and their chains in its directory, classifies the SIDs it does not find against the
  trusts, and reads the local groups of the target; \<open>share_scanner\<close> reads its share DACL; \<open>analysis\<close> hands both
  to \<open>permission_engine\<close>, which walks the NTFS DACL, intersects it with the share mask and
  explains the result; \<open>risk_engine\<close> turns results into findings, \<open>persistence\<close> compares the results
  of two scans, and \<open>update_manager\<close> decides whether an update is announced and accepted.

  Theories, in the order of their imports:
  \<^item> \<open>Prelude\<close>: bit masks under inclusion, lists, UTF-8 texts (a \<open>string\<close> is the list of its
    bytes), decimal and hexadecimal numbers; no code of the program.
  \<^item> \<open>Masks\<close> (\<open>permission_engine/mask.rs\<close>): rights, generic expansion, levels, labels.
  \<^item> \<open>Model\<close>, \<open>Diagnostics\<close>, \<open>Membership\<close> (\<open>core/model.rs\<close>): the data types with the source's
    constructors and fields (a field \<open>f\<close> of a struct is \<open>prefix_f\<close>), every diagnostic marker with
    its text, layer and severity, and the display order and reduction of group memberships.
  \<^item> \<open>Token\<close>, \<open>Dacl_Walk\<close>, \<open>Dacl_Bounds\<close>, \<open>Dacl_Order\<close>, \<open>Explanation\<close>, \<open>Engine\<close>
    (\<open>permission_engine/engine.rs\<close>): the token and its local groups, the stored-order walk, the
    bounds of what depends on the logon, the order check, the explanation, and \<open>evaluate\<close>, which
    composes them in the order of the source. \<open>Engine_Results\<close> states what an answer means: a real
    token is a pair of enabled and deny-only SIDs, \<open>agrees\<close> says which tokens the evidence allows,
    \<open>real_effective\<close> is the access check of Windows for one of them, and \<open>real_right\<close> is nothing for a
    refused logon and else that access check. \<open>owner_unseen\<close> are the tokens the code misses: those that
    own the object by a SID the evidence lists as uncertain.
  \<^item> \<open>Risk\<close> (\<open>risk_engine/rules.rs\<close>): the rules, the registry and the accumulator.
  \<^item> \<open>Texts\<close>, \<open>Net_Inputs\<close>, \<open>Path_Inputs\<close> (\<open>validation\<close>): validators as functions into
    \<open>CoreError + value\<close>, and the path forms.
  \<^item> \<open>Share_Walk\<close>, \<open>Share_Results\<close> (\<open>share_scanner/scanner.rs\<close>): reading and evaluating share
    DACLs, and what a certain share mask means.
  \<^item> \<open>Local_Groups\<close> (\<open>ad_resolver/local_groups.rs\<close>): the table of a server's local groups and the
    membership paths through it.
  \<^item> \<open>Analysis\<close> (\<open>analysis/share.rs\<close>, \<open>analysis/local_groups.rs\<close>, the composition in
    \<open>cli/main.rs\<close>): from the replies of the target to the input of \<open>evaluate\<close>.
  \<^item> \<open>Dfs\<close> (\<open>share_scanner/dfs.rs\<close>, \<open>analysis/dfs.rs\<close>): where a DFS path is evaluated.
  \<^item> \<open>Fs_Objects\<close> (\<open>fs_scanner/acl.rs\<close>, \<open>fs_scanner/file_id.rs\<close>): from the replies of Windows to
    an object with its DACL, the cache of parsed descriptors, the identity of a directory and the
    target of a link. \<open>Walker\<close> (\<open>fs_scanner/walker.rs\<close>): the walk of a directory tree over an
    explicit stack, with its detection of cycles and second routes; \<open>Walker_Results\<close>: the walk
    ends, accounts for everything it found, and tells cycles from second routes.
  \<^item> \<open>Sid_Codec\<close> (\<open>ad_resolver/sid_util.rs\<close>): the binary form of a SID. \<open>Forest_Trust\<close>
    (\<open>forest_trust_info.rs\<close>): the forest trust information. \<open>Directory\<close> (\<open>resolver.rs\<close>, the entries
    of \<open>ldap_client.rs\<close>): identities, names and the members of a group.
  \<^item> \<open>Ldap_Config\<close>, \<open>Trusts\<close> (\<open>config.rs\<close>, \<open>trusts.rs\<close>, \<open>resolver.rs\<close>): trust objects and what a SID
    without an object in the directory is.
  \<^item> \<open>Group_Routes\<close>, \<open>Group_Assembly\<close>, \<open>Group_Results\<close> (\<open>resolver.rs\<close>): the route table, the
    memberships of an account with their chains, gaps and excluded groups, and what they mean. A
    \<open>BTreeMap\<close> is an association list sorted by its keys, a \<open>BTreeSet\<close> a sorted list.
  \<^item> \<open>Principal\<close>, \<open>Trusted_Accounts\<close>, \<open>Principal_Results\<close> (\<open>principal.rs\<close>, \<open>trusted.rs\<close>): the pipeline
    from the input of the user to the resolution and its markers, with accounts of trusted domains.
    A trait object is a record of its methods; the locale \<open>trusted_connection\<close> is the contract of the
    connection to a trusted domain, interpreted on \<open>ldap_trusted_backend\<close>: what it answers it has read
    (\<open>read_across\<close>), and it never calls an account orphaned.
  \<^item> \<open>Selective_Auth\<close> (\<open>selective_auth.rs\<close>): the right to authenticate on a computer.
  \<^item> \<open>Ldap_Client\<close>, \<open>Ldap_Resolver\<close> (\<open>ldap_client.rs\<close>, \<open>resolver.rs\<close>): every search over a connection,
    and the operations of the resolver with its cache over them.
  \<^item> \<open>Delta\<close> (\<open>persistence/delta.rs\<close>), \<open>Version\<close> and \<open>Update\<close> (\<open>update_manager\<close>).

  What the lemmas show. The walk is the access check of Windows (locale \<open>stored_order_walk\<close> and its
  interpretations on NTFS and share entries); bounds and share counts contain every token the
  evidence allows (but \<open>owner_unseen\<close> ones) on the ACEs that were interpreted; the order check, the local-group expansion and the validators equal declarative
  specifications; a determinable answer is the answer of Windows, from the replies of the target
  to the mask shown; a right to change something within the upper bound ends in a finding that names it; the
  comparison of scans reports exactly the differences. A walk that was not cancelled leaves out
  nothing it found, and it ends whenever the directories it can reach have finitely many
  identities. An account is called orphaned exactly when it is proven gone or Windows itself calls the SID a
  deleted account, a domain foreign exactly on complete evidence; the
  groups of an account are exactly those reached over security groups, with shortest chains, whatever
  the order of the answers, and none the directory returned is lost in silence; what could not be read
  is marked. Where the code misses what it means to do,
  the lemma states what the code does.

  Parameters. What the operating system answers (descriptors, group members, account names, DFS
  referrals, signature verification, JSON, times) is an argument of the definitions that use it,
  and so are the Unicode lower-casing \<open>lc\<close> and the iteration order of hash maps.

  Bounds and fuel. Rust's \<open>u32\<close>, \<open>u64\<close> and \<open>usize\<close> values that take part in arithmetic keep their
  width (\<open>u32\<close>, \<open>u64\<close>) or are compared with their limit; counters that only count list elements
  are \<open>nat\<close>, and the times of the update policy are \<open>int\<close>, so the overflow panics of \<open>chrono\<close> at the
  ends of its range are not modelled. \<open>strip_all\<close> trims with one unit of fuel per byte, which is enough since every step removes a
  byte; \<open>pages_loop\<close> takes the page limit of the source, \<open>range_loop\<close> its \<open>MAX_RANGE_ROUNDS\<close>; \<open>bfs\<close> and
  \<open>chain_loop\<close> end by measures on the groups not yet reached and on the length of the chain. The loop of the walk has no fuel: it is
  \<open>while_option\<close>, whose value \<open>None\<close> is a walk that never returns.

  Not modelled: logging; the Win32, LDAP and SQLite calls themselves; the command line, the
  graphical interface, the exporters and the visualisation, which present the results; of the
  directory resolver the connecting, binding and the clock of its timeouts (\<open>connect\<close> is an argument
  that answers a connection or an error, and a search answers an error or entries), and the lookups of
  the local security authority (\<open>sam.rs\<close>, \<open>local_account.rs\<close>, \<open>enumerate.rs\<close>); in \<open>fs_scanner\<close> the growing buffer of
  \<open>GetFinalPathNameByHandleW\<close>.
\<close>

section \<open>From the object to the report\<close>

lemma right_within: "within a b \<Longrightarrow> a AND right \<noteq> 0 \<Longrightarrow> b AND right \<noteq> 0"
  unfolding mask_and_nonzero_iff within_iff_bit by blast

lemma reported_right:
  assumes "right \<in> set change_rights" and "effective_upper_bound r AND right \<noteq> 0"
  shows "\<exists>f \<in> set (evaluate_all (with_defaults lc) [r]).
    reports_right (rf_rule_id f) right \<and> rf_affected_path f = Some (ep_path r)
    \<and> rf_affected_identity f = Some (id_sid (ep_identity r))"
proof -
  obtain f where f: "f \<in> set (evaluate_all (with_defaults lc) [r])" and "reports_right (rf_rule_id f) right"
    using right_finding [OF assms, of lc] by blast
  moreover have "made_from r f"
    using f all_made_from [of r lc] by (simp add: list_all_iff)
  ultimately show ?thesis by (auto simp: made_from_def)
qed

lemma evaluated_place:
  assumes "evaluate lc inp = Inr r"
  shows "ep_path r = fso_path (in_file_system_object inp)" "ep_identity r = in_identity inp"
  using evaluate_values(1) [OF assms] by (simp_all add: same_values_def initial_result_def Let_def split: prod.splits)

text \<open>C4: no real right to change an object goes unreported. Let an object of a scan be evaluated
  for an account, and let some token that agrees with the evidence really have a right to write
  its content, change its permissions, take its ownership, delete it or delete its children.
  Then the findings of the scan contain one that names this object, this account and this very
  right, or Full Control. Hypotheses: the token does not own the object by a SID the evidence
  lists as uncertain (\<open>owner_unseen\<close>), and the right comes from ACEs that were interpreted.\<close>

theorem real_change_right_is_reported:
  assumes "evaluate lc inp = Inr r" and "r \<in> set ps"
    and "agrees inp t" and "\<not> owner_unseen inp t"
    and "right \<in> set change_rights" and "real_right inp t AND right \<noteq> 0"
  shows "\<exists>f \<in> set (evaluate_all (with_defaults lc) ps).
    reports_right (rf_rule_id f) right
    \<and> rf_affected_path f = Some (fso_path (in_file_system_object inp))
    \<and> rf_affected_identity f = Some (id_sid (in_identity inp))"
proof -
  have "effective_upper_bound r AND right \<noteq> 0"
    using right_within [OF evaluate_upper_bound [OF assms(1,3,4)] assms(6)] .
  from reported_right [OF assms(5) this, of lc] obtain f where
      f: "f \<in> set (evaluate_all (with_defaults lc) [r])" "reports_right (rf_rule_id f) right"
        "rf_affected_path f = Some (ep_path r)" "rf_affected_identity f = Some (id_sid (ep_identity r))" by blast
  have "f \<in> set (evaluate_all (with_defaults lc) ps)"
    using f(1) assms(2) defaults.in_evaluate_all [of f lc ps] by blast
  then show ?thesis
    using f(2,3,4) evaluated_place [OF assms(1)] by auto
qed

definition sample_folder :: FileSystemObject where
  "sample_folder = sample_object (Some ''S-1-5-18'') [sample_ace Allow ''S-1-1-0'' 0x10001]"

lemma real_change_right_is_reported_witness:
  "\<exists>r. evaluate (\<lambda>s. s) (sample_input sample_folder) = Inr r \<and>
     (\<exists>f \<in> set (evaluate_all (with_defaults (\<lambda>s. s)) [r]). reports_right (rf_rule_id f) FILE_DELETE
       \<and> rf_affected_path f = Some ''C:'' \<and> rf_affected_identity f = Some ''S-1-5-21-1-2-3-1104'')"
proof -
  let ?inp = "sample_input sample_folder" and ?t = "(user_sids (sample_input sample_folder), user_sids (sample_input sample_folder))"
  obtain r where r: "evaluate (\<lambda>s. s) ?inp = Inr r" by (simp add: evaluate_eq)
  have agrees: "agrees ?inp ?t"
    using known_token_agrees [of ?inp] by (simp add: deny_only_sids_def)
  have "logon_dependent ?inp = None"
    by (rule sample_bounds) (auto simp: sample_folder_def sample_object_def sample_ace_def)
  then have "real_ntfs ?inp ?t = ntfs_raw ?inp" using agrees known_owner_seen by (rule ntfs_exact)
  also have "\<dots> = 0x10001"
    by (simp add: ntfs_raw_def dacl_walk_def sample_folder_def match_sids_def user_is_owner_def
        sample_user_sids owner_implicit_bits_def walk_dacl_stored_order_def walk_ace_def walk_start_def
        ace_matches_def ace_applies_to_current_object_def sample_ace_def expand_generic_rights_def
        expand_step_def mask_consts sid_consts)
  finally have right: "real_right ?inp ?t AND FILE_DELETE \<noteq> 0"
    by (simp add: real_right_def logon_refused_def real_effective_def share_side_def mask_consts)
  have "FILE_DELETE \<in> set change_rights" by (simp add: change_rights_def)
  then show ?thesis
    using real_change_right_is_reported [OF r _ agrees known_owner_seen _ right, of "[r]"] r
    by (simp add: sample_folder_def sample_object_def)
qed

end
